(* ===== verification/Prelude.thy ===== *)
theory Prelude
  imports Main "HOL-Library.AList" "HOL-Library.Word"
begin

text \<open>
  Shared vocabulary of the development.

  A C function that may \<^verbatim>\<open>croak\<close> is a function into a sum type: \<open>Inl e\<close> is the
  exception, \<open>Inr x\<close> the normal return. \<open>bnd\<close> sequences two such calls, \<open>ok r P\<close> is
  the total-correctness judgement "\<open>r\<close> is not one of the forbidden failures and a normal
  result satisfies \<open>P\<close>", and \<open>ploop\<close> is a C \<^verbatim>\<open>while\<close> loop over a state with a result
  under construction, with an iteration budget.

  The collections: \<open>wp\<close> holds the introduction rules of \<open>ok\<close> for the operations of a
  component, \<open>frame\<close> the facts about what an operation leaves unchanged.
\<close>

named_theorems wp "total-correctness rules of the operations"
named_theorems frame "what the operations leave unchanged"

section \<open>Exceptions as sums\<close>

definition bnd :: "'e + 'a \<Rightarrow> ('a \<Rightarrow> 'e + 'b) \<Rightarrow> 'e + 'b" where
  "bnd m f = (case m of Inl e \<Rightarrow> Inl e | Inr x \<Rightarrow> f x)"

lemma bnd_Inl [simp]: "bnd (Inl e) f = Inl e"
  by (simp add: bnd_def)

lemma bnd_Inr [simp]: "bnd (Inr x) f = f x"
  by (simp add: bnd_def)

lemma bnd_cong [fundef_cong]:
  "m = m' \<Longrightarrow> (\<And>x. m' = Inr x \<Longrightarrow> f x = f' x) \<Longrightarrow> bnd m f = bnd m' f'"
  by (auto simp: bnd_def split: sum.splits)

lemma bnd_eq_Inr: "bnd m f = Inr y \<longleftrightarrow> (\<exists>x. m = Inr x \<and> f x = Inr y)"
  by (auto simp: bnd_def split: sum.splits)

lemma bnd_eq_Inl: "bnd m f = Inl e \<longleftrightarrow> m = Inl e \<or> (\<exists>x. m = Inr x \<and> f x = Inl e)"
  by (auto simp: bnd_def split: sum.splits)

lemma bnd_assoc: "bnd (bnd m f) g = bnd m (\<lambda>x. bnd (f x) g)"
  by (auto simp: bnd_def split: sum.splits)

section \<open>Total correctness of a call\<close>

definition ok_but :: "'e \<Rightarrow> 'e + 'a \<Rightarrow> ('a \<Rightarrow> bool) \<Rightarrow> bool" where
  "ok_but oof r P = (case r of Inl e \<Rightarrow> e \<noteq> oof | Inr x \<Rightarrow> P x)"

lemma ok_but_Inl [simp]: "ok_but oof (Inl e) P \<longleftrightarrow> e \<noteq> oof"
  by (simp add: ok_but_def)

lemma ok_but_Inr [simp]: "ok_but oof (Inr x) P \<longleftrightarrow> P x"
  by (simp add: ok_but_def)

lemma ok_but_bnd:
  "ok_but oof m Q \<Longrightarrow> (\<And>x. Q x \<Longrightarrow> ok_but oof (f x) P) \<Longrightarrow> ok_but oof (bnd m f) P"
  by (cases m) simp_all

lemma ok_but_bnd_pair:
  "ok_but oof m (\<lambda>(a, b). Q a b) \<Longrightarrow> (\<And>a b. Q a b \<Longrightarrow> ok_but oof (f (a, b)) P) \<Longrightarrow>
    ok_but oof (bnd m f) P"
  by (cases m) auto

lemma ok_but_bnd_eq: "ok_but oof (bnd m f) P = ok_but oof m (\<lambda>x. ok_but oof (f x) P)"
  by (cases m) simp_all

lemma ok_but_weaken: "ok_but oof m Q \<Longrightarrow> (\<And>x. Q x \<Longrightarrow> P x) \<Longrightarrow> ok_but oof m P"
  by (cases m) simp_all

lemma ok_but_result: "ok_but oof m P \<Longrightarrow> m = Inr x \<Longrightarrow> P x"
  by simp

section \<open>Loops with an iteration budget\<close>

fun ploop ::
  "nat \<Rightarrow> 'e \<Rightarrow> ('s \<Rightarrow> bool) \<Rightarrow> ('a \<Rightarrow> 's \<Rightarrow> 'e + 'a \<times> 's) \<Rightarrow> 'a \<Rightarrow> 's \<Rightarrow> 'e + 'a \<times> 's"
where
  "ploop 0 oof c body a s = Inl oof"
| "ploop (Suc n) oof c body a s =
     (if c s then bnd (body a s) (\<lambda>(a', s'). ploop n oof c body a' s') else Inr (a, s))"

declare ploop.simps [simp del]

text \<open>
  The contract of a loop body: under the invariant it does not fail with the budget error,
  keeps the invariant and makes the measure of the state smaller. Any budget above the
  measure is then enough, the loop ends in a state where the guard fails, and every
  relation the body keeps holds between start and end.
\<close>

locale consuming_loop =
  fixes oof :: 'e and guard :: "'s \<Rightarrow> bool" and body :: "'a \<Rightarrow> 's \<Rightarrow> 'e + 'a \<times> 's"
    and inv :: "'a \<Rightarrow> 's \<Rightarrow> bool" and left :: "'s \<Rightarrow> nat"
  assumes body_step: "inv a s \<Longrightarrow> guard s \<Longrightarrow>
    ok_but oof (body a s) (\<lambda>(a', s'). inv a' s' \<and> left s' < left s)"
begin

lemma loop_ok:
  "inv a s \<Longrightarrow> left s < n \<Longrightarrow>
    ok_but oof (ploop n oof guard body a s)
      (\<lambda>(a', s'). inv a' s' \<and> \<not> guard s' \<and> left s' \<le> left s)"
proof (induction n arbitrary: a s)
  case 0
  then show ?case by simp
next
  case (Suc n)
  show ?case
  proof (cases "guard s")
    case True
    have "ok_but oof (bnd (body a s) (\<lambda>(a', s'). ploop n oof guard body a' s'))
        (\<lambda>(a', s'). inv a' s' \<and> \<not> guard s' \<and> left s' \<le> left s)"
    proof (rule ok_but_bnd_pair [OF body_step [OF Suc.prems(1) True]])
      fix a' s'
      assume step: "inv a' s' \<and> left s' < left s"
      with Suc.prems(2) have "left s' < n" by linarith
      with step have "ok_but oof (ploop n oof guard body a' s')
          (\<lambda>(a'', s''). inv a'' s'' \<and> \<not> guard s'' \<and> left s'' \<le> left s')"
        by (intro Suc.IH) auto
      then show "ok_but oof ((\<lambda>(a', s'). ploop n oof guard body a' s') (a', s'))
          (\<lambda>(a', s'). inv a' s' \<and> \<not> guard s' \<and> left s' \<le> left s)"
        using step by (auto elim!: ok_but_weaken)
    qed
    with True show ?thesis by (simp add: ploop.simps)
  next
    case False
    with Suc.prems show ?thesis by (simp add: ploop.simps)
  qed
qed

end

section \<open>Loops over an array\<close>

text \<open>A loop over an array whose body may throw and carries a state.\<close>

fun each :: "('a \<Rightarrow> 's \<Rightarrow> 'e + 's) \<Rightarrow> 'a list \<Rightarrow> 's \<Rightarrow> 'e + 's" where
  "each f [] s = Inr s"
| "each f (x # xs) s = bnd (f x s) (each f xs)"

lemma each_cong [fundef_cong]:
  "xs = ys \<Longrightarrow> s = t \<Longrightarrow> (\<And>x u. x \<in> set ys \<Longrightarrow> f x u = g x u) \<Longrightarrow> each f xs s = each g ys t"
proof (induction xs arbitrary: ys s t)
  case Nil
  then show ?case by simp
next
  case (Cons x xs)
  then have "each f xs u = each g xs u" for u by (intro Cons.IH) auto
  then have "each f xs = each g xs" by (rule ext)
  with Cons.prems show ?case by auto
qed

lemma each_ok:
  "J s \<Longrightarrow> (\<And>x s. x \<in> set xs \<Longrightarrow> J s \<Longrightarrow> ok_but e (f x s) J) \<Longrightarrow> ok_but e (each f xs s) J"
proof (induction xs arbitrary: s)
  case Nil
  then show ?case by simp
next
  case (Cons x xs)
  then show ?case by (auto intro!: ok_but_bnd [where Q = J])
qed

lemma ok_but_all: "(\<And>e. ok_but e m P) \<Longrightarrow> \<exists>x. m = Inr x \<and> P x"
  by (cases m) (auto simp: ok_but_def)

text \<open>The same with what each round adds: the elements done so far are part of the invariant.\<close>

lemma each_progress:
  assumes "J [] s"
    and "\<And>x ys s. x \<in> set xs \<Longrightarrow> J ys s \<Longrightarrow> ok_but e (f x s) (J (x # ys))"
    and "\<And>s. J (rev xs) s \<Longrightarrow> P s"
  shows "ok_but e (each f xs s) P"
proof -
  have "J ys t \<Longrightarrow> set zs \<subseteq> set xs \<Longrightarrow> ok_but e (each f zs t) (J (rev zs @ ys))" for zs ys t
  proof (induction zs arbitrary: ys t)
    case Nil
    then show ?case by simp
  next
    case (Cons z zs)
    then have "ok_but e (f z t) (J (z # ys))" by (intro assms(2)) auto
    then show ?case using Cons by (auto intro!: ok_but_bnd)
  qed
  from this [of "[]" s xs] assms(1,3) show ?thesis by (auto elim!: ok_but_weaken)
qed

section \<open>Lists\<close>

lemma nth_drop_hd: "i < length xs \<Longrightarrow> drop i xs = xs ! i # drop (Suc i) xs"
  by (simp add: Cons_nth_drop_Suc)

lemma sum_list_le_mono:
  "(\<And>x. x \<in> set xs \<Longrightarrow> f x \<le> (g x :: nat)) \<Longrightarrow> sum_list (map f xs) \<le> sum_list (map g xs)"
  by (induction xs) (auto intro: add_mono)

end
