(* ===== verification/Perl_Values.thy ===== *)
theory Perl_Values
  imports Prelude "HOL-Library.List_Lexorder" "HOL-Library.Char_ord"
begin

text \<open>
  The Perl values the C code reads and builds, with the operations of the Perl API it uses.

  \<open>sv\<close> is a scalar: \<open>Undef\<close>; an integer, a float or a string scalar (with its UTF-8 flag);
  a JSON boolean (a blessed reference); an unblessed scalar reference \<open>Ref\<close>; a reference to
  an array or to a hash (\<open>AV\<close>, \<open>HV\<close>: \<^verbatim>\<open>newRV_noinc((SV *)hv)\<close> and the hash are one value
  here, since nothing the modelled code does depends on two references sharing a hash); a
  code reference, named by a string. A float is kept as the numeral text \<^verbatim>\<open>SvNV\<close> read it
  from. A hash is the list of its entries in iteration order; Perl leaves that order open,
  and \<^verbatim>\<open>hv_store\<close> of a new key puts it last here. Hash keys are byte strings without NUL.
\<close>

section \<open>Scalars\<close>

datatype sv =
    Undef
  | IV int
  | NV string
  | PV bool string
  | PBool bool
  | Ref sv
  | AV "sv list"
  | HV "(string \<times> sv) list"
  | CV string

type_synonym hv = "(string \<times> sv) list"
type_synonym uv = "64 word"

definition SvOK :: "sv \<Rightarrow> bool" where
  "SvOK s \<longleftrightarrow> s \<noteq> Undef"

definition SvROK :: "sv \<Rightarrow> bool" where
  "SvROK s = (case s of PBool _ \<Rightarrow> True | Ref _ \<Rightarrow> True | AV _ \<Rightarrow> True | HV _ \<Rightarrow> True | CV _ \<Rightarrow> True | _ \<Rightarrow> False)"

definition SvPOK :: "sv \<Rightarrow> bool" where
  "SvPOK s = (case s of PV _ _ \<Rightarrow> True | _ \<Rightarrow> False)"

definition SvIOK :: "sv \<Rightarrow> bool" where
  "SvIOK s = (case s of IV _ \<Rightarrow> True | _ \<Rightarrow> False)"

definition SvNOK :: "sv \<Rightarrow> bool" where
  "SvNOK s = (case s of NV _ \<Rightarrow> True | _ \<Rightarrow> False)"

definition sv_isobject :: "sv \<Rightarrow> bool" where
  "sv_isobject s = (case s of PBool _ \<Rightarrow> True | _ \<Rightarrow> False)"

text \<open>
  \<^verbatim>\<open>SvTRUE\<close>: the empty string, \<^verbatim>\<open>"0"\<close>, zero and the undefined value are false. A numeral is zero
  where its digits before the exponent are.
\<close>

definition SvTRUE :: "sv \<Rightarrow> bool" where
  "SvTRUE s = (case s of
     Undef \<Rightarrow> False
   | IV n \<Rightarrow> n \<noteq> 0
   | NV t \<Rightarrow> list_ex (\<lambda>c. c \<in> set ''123456789'') (takeWhile (\<lambda>c. c \<notin> set ''eE'') t)
   | PV _ t \<Rightarrow> t \<noteq> [] \<and> t \<noteq> ''0''
   | PBool b \<Rightarrow> b
   | _ \<Rightarrow> True)"

section \<open>Numbers and text\<close>

text \<open>Byte value of a character, and the decimal text of an integer (\<^verbatim>\<open>SvPV\<close> of an integer scalar).\<close>

definition byte_of :: "char \<Rightarrow> int" where
  "byte_of c = of_char c"

definition byte_char :: "int \<Rightarrow> char" where
  "byte_char n = char_of n"

definition digit_char :: "nat \<Rightarrow> char" where
  "digit_char d = byte_char (48 + int d)"

fun dec_digits :: "nat \<Rightarrow> string" where
  "dec_digits n = (if n < 10 then [digit_char n] else dec_digits (n div 10) @ [digit_char (n mod 10)])"

declare dec_digits.simps [simp del]

definition dec_int :: "int \<Rightarrow> string" where
  "dec_int i = (if i < 0 then CHR 0x2D # dec_digits (nat (- i)) else dec_digits (nat i))"

text \<open>
  \<^verbatim>\<open>SvPV\<close>. The text of a reference is an address, which no run of the program fixes; it is
  one constant here.
\<close>

fun SvPV :: "sv \<Rightarrow> string" where
  "SvPV Undef = []"
| "SvPV (IV i) = dec_int i"
| "SvPV (NV t) = t"
| "SvPV (PV _ s) = s"
| "SvPV _ = ''REF''"

text \<open>What C sees of a string that it reads up to the first NUL.\<close>

definition c_string :: "string \<Rightarrow> string" where
  "c_string pv = takeWhile (\<lambda>c. c \<noteq> CHR 0x00) pv"

text \<open>
  \<^verbatim>\<open>SvIV\<close> of the text of an integer literal (\<^verbatim>\<open>-?[0-9]+\<close>) on a perl with 64-bit integers: a
  value that fits is returned; one that only fits the unsigned type is cast; anything
  larger saturates the unsigned type and is cast, anything smaller saturates.
\<close>

fun dec_value :: "string \<Rightarrow> int \<Rightarrow> int" where
  "dec_value [] n = n"
| "dec_value (c # cs) n = dec_value cs (n * 10 + (byte_of c - 48))"

definition perl_sviv :: "string \<Rightarrow> int" where
  "perl_sviv t =
     (let n = (case t of [] \<Rightarrow> 0 | c # cs \<Rightarrow> if c = CHR 0x2D then - dec_value cs 0 else dec_value t 0)
      in if n < - (2 ^ 63) then - (2 ^ 63)
         else if n < 2 ^ 63 then n
         else if n < 2 ^ 64 then n - 2 ^ 64
         else - 1)"

text \<open>Encoding of a code point, as \<^verbatim>\<open>uvchr_to_utf8\<close> does it (surrogates included).\<close>

definition utf8_bytes :: "int \<Rightarrow> string" where
  "utf8_bytes n =
     (if n < 0x80 then [byte_char n]
      else if n < 0x800 then [byte_char (0xC0 + n div 0x40), byte_char (0x80 + n mod 0x40)]
      else if n < 0x10000 then
        [byte_char (0xE0 + n div 0x1000), byte_char (0x80 + n div 0x40 mod 0x40),
         byte_char (0x80 + n mod 0x40)]
      else
        [byte_char (0xF0 + n div 0x40000), byte_char (0x80 + n div 0x1000 mod 0x40),
         byte_char (0x80 + n div 0x40 mod 0x40), byte_char (0x80 + n mod 0x40)])"

text \<open>Upgrading a byte string, and \<^verbatim>\<open>sv_eq\<close>: strings are compared as sequences of code points.\<close>

definition utf8_upgrade :: "string \<Rightarrow> string" where
  "utf8_upgrade s = concat (map (\<lambda>c. utf8_bytes (byte_of c)) s)"

definition SvUTF8 :: "sv \<Rightarrow> bool" where
  "SvUTF8 s = (case s of PV u _ \<Rightarrow> u | _ \<Rightarrow> False)"

definition sv_upgraded :: "sv \<Rightarrow> string" where
  "sv_upgraded s = (if SvUTF8 s then SvPV s else utf8_upgrade (SvPV s))"

definition sv_eq :: "sv \<Rightarrow> sv \<Rightarrow> bool" where
  "sv_eq a b = (if SvUTF8 a = SvUTF8 b then SvPV a = SvPV b else sv_upgraded a = sv_upgraded b)"

lemma sv_eq_refl [simp]: "sv_eq a a"
  by (simp add: sv_eq_def)

lemma sv_eq_sym: "sv_eq a b = sv_eq b a"
  by (auto simp: sv_eq_def)

lemma sv_eq_PV [simp]: "sv_eq (PV u s) (PV u t) \<longleftrightarrow> s = t"
  by (simp add: sv_eq_def SvUTF8_def)

section \<open>Hashes\<close>

definition hv_fetch :: "hv \<Rightarrow> string \<Rightarrow> sv option" where
  "hv_fetch h k = map_of h k"

definition hv_exists :: "hv \<Rightarrow> string \<Rightarrow> bool" where
  "hv_exists h k \<longleftrightarrow> hv_fetch h k \<noteq> None"

definition hv_store :: "hv \<Rightarrow> string \<Rightarrow> sv \<Rightarrow> hv" where
  "hv_store h k v = AList.update k v h"

definition hv_delete :: "hv \<Rightarrow> string \<Rightarrow> hv" where
  "hv_delete h k = AList.delete k h"

text \<open>
  \<^verbatim>\<open>gql_store_sv\<close> takes a C string key. \<^verbatim>\<open>gql_parser_cmp_sv_ptrs\<close> is \<^verbatim>\<open>memcmp\<close> on the common
  length and then the shorter key first: the lexicographic order of the bytes.
\<close>

definition gql_store_sv :: "hv \<Rightarrow> string \<Rightarrow> sv \<Rightarrow> hv" where
  "gql_store_sv h k v = hv_store h k v"

fun memcmp :: "nat \<Rightarrow> string \<Rightarrow> string \<Rightarrow> int" where
  "memcmp (Suc n) (a # as) (b # bs) =
     (if byte_of a < byte_of b then - 1 else if byte_of a > byte_of b then 1 else memcmp n as bs)"
| "memcmp _ _ _ = 0"

definition gql_parser_cmp_sv_ptrs :: "string \<Rightarrow> string \<Rightarrow> int" where
  "gql_parser_cmp_sv_ptrs l r =
     (let cmp = memcmp (min (length l) (length r)) l r
      in if cmp \<noteq> 0 then cmp
         else if length l < length r then - 1
         else if length l > length r then 1 else 0)"

text \<open>\<^verbatim>\<open>qsort\<close> with that comparison (the keys of a hash are distinct, so the result is determined).\<close>

fun insert_key :: "string \<Rightarrow> string list \<Rightarrow> string list" where
  "insert_key k [] = [k]"
| "insert_key k (x # xs) = (if gql_parser_cmp_sv_ptrs k x \<le> 0 then k # x # xs else x # insert_key k xs)"

definition qsort_keys :: "string list \<Rightarrow> string list" where
  "qsort_keys ks = foldr insert_key ks []"

definition gql_parser_sorted_hash_keys :: "hv \<Rightarrow> string list" where
  "gql_parser_sorted_hash_keys h = qsort_keys (map fst h)"

subsection \<open>The laws of a hash\<close>

text \<open>What the clients rely on: a store is seen by the next fetch, and touches no other key.\<close>

locale perl_hash =
  fixes fetch :: "'h \<Rightarrow> string \<Rightarrow> 'v option"
    and store :: "'h \<Rightarrow> string \<Rightarrow> 'v \<Rightarrow> 'h"
    and remove :: "'h \<Rightarrow> string \<Rightarrow> 'h"
    and empty :: 'h
  assumes fetch_empty: "fetch empty k = None"
    and fetch_store: "fetch (store h k v) k' = (if k = k' then Some v else fetch h k')"
    and fetch_remove: "fetch (remove h k) k' = (if k = k' then None else fetch h k')"
begin

definition key_set :: "'h \<Rightarrow> string set" where
  "key_set h = {k. fetch h k \<noteq> None}"

lemma key_set_empty: "key_set empty = {}"
  by (simp add: key_set_def fetch_empty)

lemma key_set_store: "key_set (store h k v) = insert k (key_set h)"
  by (auto simp: key_set_def fetch_store)

lemma key_set_remove: "key_set (remove h k) = key_set h - {k}"
  by (auto simp: key_set_def fetch_remove)

lemma key_set_stores: "key_set (foldl (\<lambda>h k. store h k v) h ks) = key_set h \<union> set ks"
  by (induction ks arbitrary: h) (auto simp: key_set_store)

end

interpretation ph: perl_hash hv_fetch hv_store hv_delete "[]"
  by unfold_locales
    (auto simp: hv_fetch_def hv_store_def hv_delete_def update_conv' delete_conv' fun_upd_def)

lemma hv_fetch_Nil [simp]: "hv_fetch [] k = None"
  by (rule ph.fetch_empty)

lemma hv_fetch_Cons: "hv_fetch ((k, v) # h) k' = (if k = k' then Some v else hv_fetch h k')"
  by (simp add: hv_fetch_def)

lemma hv_fetch_store [simp]: "hv_fetch (hv_store h k v) k' = (if k = k' then Some v else hv_fetch h k')"
  by (rule ph.fetch_store)

lemma hv_fetch_gql_store_sv [simp]:
  "hv_fetch (gql_store_sv h k v) k' = (if k = k' then Some v else hv_fetch h k')"
  by (simp add: gql_store_sv_def)

lemma hv_exists_iff: "hv_exists h k \<longleftrightarrow> k \<in> fst ` set h"
  by (auto simp: hv_exists_def hv_fetch_def dest: weak_map_of_SomeI)
    (metis map_of_eq_None_iff image_eqI fst_conv option.distinct(1))

lemma hv_exists_store [simp]: "hv_exists (hv_store h k v) k' \<longleftrightarrow> k' = k \<or> hv_exists h k'"
  by (auto simp: hv_exists_def)

lemma set_hv_store_subset: "set (hv_store h k v) \<subseteq> insert (k, v) (set h)"
  unfolding hv_store_def by (induction h) auto

lemma hv_fetch_in_set: "hv_fetch h k = Some v \<Longrightarrow> (k, v) \<in> set h"
  by (simp add: hv_fetch_def map_of_SomeD)

lemma size_hv_fetch: "hv_fetch h k = Some v \<Longrightarrow> size v < size (HV h)"
  using size_list_estimation' [of "(k, v)" h "size v" "size_prod (\<lambda>_. 0) size"]
  by (auto dest!: hv_fetch_in_set)

lemma size_AV_mem: "x \<in> set xs \<Longrightarrow> size x < size (AV xs)"
  by (induction xs) auto

lemma size_HV_mem: "(k, v) \<in> set h \<Longrightarrow> size v < size (HV h)"
  by (induction h) auto

lemma size_AV_mem_Suc [termination_simp]: "x \<in> set xs \<Longrightarrow> size (x :: sv) < Suc (size_list size xs)"
  using size_AV_mem [of x xs] by simp

lemma size_HV_mem_Suc [termination_simp]:
  "(k, v) \<in> set (h :: hv) \<Longrightarrow> size v < Suc (size_list (size_prod (\<lambda>_. 0) size) h)"
  using size_HV_mem [of k v h] by simp

subsection \<open>Sorted keys\<close>

lemma byte_of_inject [simp]: "byte_of a = byte_of b \<longleftrightarrow> a = b"
  by (simp add: byte_of_def)

lemma byte_of_nonneg [simp]: "0 \<le> byte_of c" and byte_of_less [simp]: "byte_of c < 256"
  using of_char_of [where 'a = int] by (simp_all add: byte_of_def of_char_def horner_sum_bit_eq_take_bit)

lemma set_insert_key [simp]: "set (insert_key k ks) = insert k (set ks)"
  by (induction ks) auto

lemma set_qsort_keys [simp]: "set (qsort_keys ks) = set ks"
  unfolding qsort_keys_def by (induction ks) auto

lemma set_sorted_hash_keys [simp]: "set (gql_parser_sorted_hash_keys h) = fst ` set h"
  by (simp add: gql_parser_sorted_hash_keys_def)

end
