(* ===== verification/Validation_Structure.thy ===== *)
theory Validation_Structure
  imports Perl_Values Escape
begin

text \<open>
  The document-level rules of \<^verbatim>\<open>src/validation.h\<close>: operation and fragment names, unused
  variables and fragments, subscription root fields and fragment cycles.

  The C functions append to an array of errors they never read; here each returns the
  errors it appends, in order. A hash fetch is \<open>hv_fetch\<close>, with \<open>None\<close> for the null
  pointer. The functions that follow fragment spreads take the number of nested C calls
  they may make; the lemmas of \<^verbatim>\<open>Validation_Structure_Lemmas\<close> give enough.
\<close>

section \<open>Shared tests on nodes\<close>

definition gql_validation_error :: "string \<Rightarrow> sv option \<Rightarrow> sv" where
  "gql_validation_error message location =
     HV (let e = gql_store_sv [] ''message'' (PV False message)
         in case location of
              Some l \<Rightarrow> if SvOK l then gql_store_sv e ''locations'' (AV [l]) else e
            | None \<Rightarrow> e)"

text \<open>\<^verbatim>\<open>svp && SvOK( *svp)\<close>: the value of a key where it is there and defined.\<close>

definition fetch_ok :: "hv \<Rightarrow> string \<Rightarrow> sv option" where
  "fetch_ok h key = (case hv_fetch h key of Some v \<Rightarrow> if SvOK v then Some v else None | None \<Rightarrow> None)"

text \<open>\<^verbatim>\<open>kind_svp && SvOK && SvPOK\<close>: the kind of a node, where it is a string.\<close>

definition node_kind :: "hv \<Rightarrow> string option" where
  "node_kind h = (case fetch_ok h ''kind'' of
     Some k \<Rightarrow> if SvPOK k then Some (SvPV k) else None | None \<Rightarrow> None)"

text \<open>The elements of an array that are hash references: the guard every loop opens with.\<close>

fun hashes :: "sv list \<Rightarrow> hv list" where
  "hashes [] = []"
| "hashes (HV h # xs) = h # hashes xs"
| "hashes (_ # xs) = hashes xs"

lemma in_set_hashes [simp]: "h \<in> set (hashes xs) \<longleftrightarrow> HV h \<in> set xs"
  by (induction xs rule: hashes.induct) auto

definition quote_name :: "string \<Rightarrow> string \<Rightarrow> string \<Rightarrow> string" where
  "quote_name before name after = before @ CHR 0x27 # name @ CHR 0x27 # after"

section \<open>Operations and fragment names\<close>

fun operation_name_errors :: "bool \<Rightarrow> hv \<Rightarrow> hv list \<Rightarrow> sv list" where
  "operation_name_errors several seen [] = []"
| "operation_name_errors several seen (operation # rest) =
     (case fetch_ok operation ''name'' of
        None \<Rightarrow>
          (if several then
             [gql_validation_error ''Anonymous operations must be the only operation in the document.''
                (hv_fetch operation ''location'')]
           else []) @ operation_name_errors several seen rest
      | Some name \<Rightarrow>
          if hv_exists seen (SvPV name) then
            gql_validation_error (quote_name ''Operation '' (SvPV name) '' is defined more than once.'')
              (hv_fetch operation ''location'') # operation_name_errors several seen rest
          else operation_name_errors several (hv_store seen (SvPV name) (IV 1)) rest)"

definition gql_validation_push_operation_errors :: "sv list \<Rightarrow> sv list" where
  "gql_validation_push_operation_errors operations =
     (if operations = [] then [gql_validation_error ''No operations supplied.'' None]
      else operation_name_errors (length operations > 1) [] (hashes operations))"

text \<open>The fragment definitions of a document that have a name, with it.\<close>

fun named_fragments :: "hv list \<Rightarrow> (sv \<times> hv) list" where
  "named_fragments [] = []"
| "named_fragments (node # rest) =
     (if node_kind node = Some ''fragment'' then
        (case fetch_ok node ''name'' of
           Some name \<Rightarrow> (name, node) # named_fragments rest | None \<Rightarrow> named_fragments rest)
      else named_fragments rest)"

definition gql_validation_build_fragments_map :: "sv list \<Rightarrow> hv" where
  "gql_validation_build_fragments_map ast =
     foldl (\<lambda>fragments (name, node). hv_store fragments (SvPV name) (HV node)) []
       (named_fragments (hashes ast))"

fun fragment_name_errors :: "hv \<Rightarrow> (sv \<times> hv) list \<Rightarrow> sv list" where
  "fragment_name_errors seen [] = []"
| "fragment_name_errors seen ((name, node) # rest) =
     (if hv_exists seen (SvPV name) then
        gql_validation_error (quote_name ''Fragment '' (SvPV name) '' is defined more than once.'')
          (hv_fetch node ''location'') # fragment_name_errors seen rest
      else fragment_name_errors (hv_store seen (SvPV name) (IV 1)) rest)"

definition gql_validation_push_fragment_name_errors :: "sv list \<Rightarrow> sv list" where
  "gql_validation_push_fragment_name_errors ast = fragment_name_errors [] (named_fragments (hashes ast))"

section \<open>Variables and fragments in use\<close>

record usage =
  used_variables :: hv
  spreads :: hv
  visited :: hv

definition fragment_at :: "hv \<Rightarrow> sv \<Rightarrow> hv option" where
  "fragment_at fragments name =
     (case hv_fetch fragments (SvPV name) of Some (HV h) \<Rightarrow> Some h | _ \<Rightarrow> None)"

definition spread_name :: "hv \<Rightarrow> sv option" where
  "spread_name node =
     (if node_kind node = Some ''fragment_spread'' then fetch_ok node ''name'' else None)"

fun gql_validation_collect_usage :: "nat \<Rightarrow> hv \<Rightarrow> sv \<Rightarrow> usage \<Rightarrow> gql_error + usage" where
  "gql_validation_collect_usage 0 fragments node u = Inl Out_Of_Fuel"
| "gql_validation_collect_usage (Suc n) fragments node u =
     (case node of
        Ref inner \<Rightarrow>
          if SvROK inner then Inr u
          else Inr (u\<lparr>used_variables := hv_store (used_variables u) (SvPV inner) (IV 1)\<rparr>)
      | CV c \<Rightarrow> Inr (u\<lparr>used_variables := hv_store (used_variables u) (SvPV node) (IV 1)\<rparr>)
      | AV items \<Rightarrow> each (gql_validation_collect_usage n fragments) items u
      | HV h \<Rightarrow>
          bnd (case spread_name h of
                 None \<Rightarrow> Inr u
               | Some name \<Rightarrow>
                   let u = u\<lparr>spreads := hv_store (spreads u) (SvPV name) (IV 1)\<rparr>
                   in if hv_exists (visited u) (SvPV name) then Inr u
                      else
                        let u = u\<lparr>visited := hv_store (visited u) (SvPV name) (IV 1)\<rparr>
                        in case fragment_at fragments name of
                             None \<Rightarrow> Inr u
                           | Some fragment \<Rightarrow>
                               (case hv_fetch fragment ''selections'' of
                                  None \<Rightarrow> Inr u
                                | Some selections \<Rightarrow>
                                    gql_validation_collect_usage n fragments selections u))
            (each (\<lambda>(key, v) u.
               if key = ''variables'' \<or> key = ''location'' then Inr u
               else gql_validation_collect_usage n fragments v u) h)
      | _ \<Rightarrow> Inr u)"

text \<open>Calls that are enough: the node and the fragments not yet visited bound the nesting.\<close>

definition budget :: "hv \<Rightarrow> hv \<Rightarrow> nat" where
  "budget fragments seen =
     sum_list (map (\<lambda>(name, f). size f) (filter (\<lambda>(name, f). \<not> hv_exists seen name) fragments))"

definition usage_frames :: "hv \<Rightarrow> sv \<Rightarrow> nat" where
  "usage_frames fragments node = Suc (size node + budget fragments [])"

definition no_usage :: usage where
  "no_usage = \<lparr>used_variables = [], spreads = [], visited = []\<rparr>"

definition unused_variable_errors :: "hv \<Rightarrow> hv \<Rightarrow> sv list" where
  "unused_variable_errors used operation =
     (case hv_fetch operation ''variables'' of
        Some (HV defs) \<Rightarrow>
          concat (map (\<lambda>(name, _).
            if hv_exists used name then []
            else
              [gql_validation_error
                 (quote_name ''Variable '' (CHR ''$'' # name)
                    (quote_name '' is never used in operation ''
                      (case fetch_ok operation ''name'' of Some n \<Rightarrow> SvPV n | None \<Rightarrow> ''<anonymous>'') ''.''))
                 (hv_fetch operation ''location'')]) defs)
      | _ \<Rightarrow> [])"

definition unused_fragment_errors :: "hv \<Rightarrow> sv list \<Rightarrow> sv list" where
  "unused_fragment_errors reachable ast =
     concat (map (\<lambda>(name, node).
       if hv_exists reachable (SvPV name) then []
       else
         [gql_validation_error (quote_name ''Fragment '' (SvPV name) '' is never used.'')
            (hv_fetch node ''location'')]) (named_fragments (hashes ast)))"

definition gql_validation_push_usage_errors :: "sv list \<Rightarrow> sv list \<Rightarrow> hv \<Rightarrow> gql_error + sv list" where
  "gql_validation_push_usage_errors ast operations fragments =
     bnd (each (\<lambda>operation (reachable, errors).
            bnd (gql_validation_collect_usage (usage_frames fragments (HV operation)) fragments
                   (HV operation) no_usage) (\<lambda>u.
            Inr (foldl (\<lambda>r (name, _). hv_store r name (IV 1)) reachable (spreads u),
                 errors @ unused_variable_errors (used_variables u) operation)))
            (hashes operations) ([], [])) (\<lambda>(reachable, errors).
     Inr (errors @ unused_fragment_errors reachable ast))"

section \<open>Subscriptions\<close>

text \<open>The name is removed from \<open>visited\<close> again after its fragment: the hash is the path.\<close>

fun gql_validation_collect_subscription_fields ::
  "nat \<Rightarrow> hv \<Rightarrow> hv \<Rightarrow> sv option \<Rightarrow> hv \<Rightarrow> gql_error + hv" where
  "gql_validation_collect_subscription_fields 0 fragments seen selections found = Inl Out_Of_Fuel"
| "gql_validation_collect_subscription_fields (Suc n) fragments seen selections found =
     (case selections of
        Some (AV items) \<Rightarrow>
          each (\<lambda>selection found.
            if node_kind selection = Some ''field'' then
              (case fetch_ok selection ''name'' of
                 None \<Rightarrow> Inr found
               | Some name \<Rightarrow>
                   let response_name =
                     (case fetch_ok selection ''alias'' of Some a \<Rightarrow> a | None \<Rightarrow> name)
                   in Inr (hv_store found (SvPV response_name) name))
            else if node_kind selection = Some ''fragment_spread'' then
              (case fetch_ok selection ''name'' of
                 None \<Rightarrow> Inr found
               | Some name \<Rightarrow>
                   if hv_exists seen (SvPV name) then Inr found
                   else
                     (case fragment_at fragments name of
                        None \<Rightarrow> Inr found
                      | Some fragment \<Rightarrow>
                          gql_validation_collect_subscription_fields n fragments
                            (hv_store seen (SvPV name) (IV 1)) (hv_fetch fragment ''selections'') found))
            else if node_kind selection = Some ''inline_fragment'' then
              gql_validation_collect_subscription_fields n fragments seen
                (hv_fetch selection ''selections'') found
            else Inr found) (hashes items) found
      | _ \<Rightarrow> Inr found)"

definition subscription_frames :: "hv \<Rightarrow> sv option \<Rightarrow> nat" where
  "subscription_frames fragments selections =
     Suc ((case selections of Some s \<Rightarrow> size s | None \<Rightarrow> 0) + budget fragments [])"

fun join_keys :: "string list \<Rightarrow> string" where
  "join_keys [] = []"
| "join_keys [k] = k"
| "join_keys (k # ks) = k @ '' '' @ join_keys ks"

definition subscription_field_errors :: "hv \<Rightarrow> hv \<Rightarrow> sv list" where
  "subscription_field_errors operation found =
     (if length found \<noteq> 1 then
        [gql_validation_error
           (''Subscription needs to have only one field; got ('' @
              join_keys (gql_parser_sorted_hash_keys found) @ '')'')
           (hv_fetch operation ''location'')]
      else if SvOK (snd (hd found)) \<and> take 2 (SvPV (snd (hd found))) = ''__'' then
        [gql_validation_error ''Subscription root field must not be an introspection field.''
           (hv_fetch operation ''location'')]
      else [])"

text \<open>One array of errors per operation.\<close>

definition is_subscription :: "hv \<Rightarrow> bool" where
  "is_subscription operation =
     (case fetch_ok operation ''operationType'' of
        Some t \<Rightarrow> SvPOK t \<and> SvPV t = ''subscription'' | None \<Rightarrow> False)"

definition subscription_errors :: "hv \<Rightarrow> sv \<Rightarrow> gql_error + sv list" where
  "subscription_errors fragments operation =
     (case operation of
        HV h \<Rightarrow>
          if is_subscription h then
            bnd (gql_validation_collect_subscription_fields
                   (subscription_frames fragments (hv_fetch h ''selections'')) fragments []
                   (hv_fetch h ''selections'') []) (\<lambda>found.
            Inr (subscription_field_errors h found))
          else Inr []
      | _ \<Rightarrow> Inr [])"

definition gql_validation_push_subscription_errors ::
  "sv list \<Rightarrow> hv \<Rightarrow> gql_error + sv list list" where
  "gql_validation_push_subscription_errors operations fragments =
     each (\<lambda>operation errors.
       bnd (subscription_errors fragments operation) (\<lambda>es. Inr (errors @ [es]))) operations []"

section \<open>Fragment cycles\<close>

definition selections_size :: "sv option \<Rightarrow> nat" where
  "selections_size s = (case s of Some v \<Rightarrow> Suc (size v) | None \<Rightarrow> 0)"

lemma selections_size_fetch: "HV h \<in> set items \<Longrightarrow> selections_size (hv_fetch h k) < Suc (size (AV items))"
  using size_AV_mem [of "HV h" items] size_hv_fetch [of h k]
  by (cases "hv_fetch h k") (auto simp: selections_size_def)

function gql_validation_collect_fragment_spreads :: "sv option \<Rightarrow> sv list" where
  "gql_validation_collect_fragment_spreads selections =
     (case selections of
        Some (AV items) \<Rightarrow>
          concat (map (\<lambda>selection.
            if node_kind selection = Some ''fragment_spread'' then
              (case fetch_ok selection ''name'' of Some name \<Rightarrow> [name] | None \<Rightarrow> [])
            else if node_kind selection = Some ''field'' \<or> node_kind selection = Some ''inline_fragment'' then
              gql_validation_collect_fragment_spreads (hv_fetch selection ''selections'')
            else []) (hashes items))
      | _ \<Rightarrow> [])"
  by pat_completeness auto
termination
  using selections_size_fetch
  by (relation "measure selections_size") (auto simp: selections_size_def)

declare gql_validation_collect_fragment_spreads.simps [simp del]

definition cycle_error :: "sv \<Rightarrow> hv \<Rightarrow> sv" where
  "cycle_error name fragment =
     gql_validation_error (quote_name ''Fragment '' (SvPV name) '' participates in a cycle.'')
       (hv_fetch fragment ''location'')"

fun gql_validation_visit_fragment_cycles ::
  "nat \<Rightarrow> hv \<Rightarrow> sv \<Rightarrow> sv list \<times> hv \<Rightarrow> gql_error + sv list \<times> hv" where
  "gql_validation_visit_fragment_cycles 0 fragments name s = Inl Out_Of_Fuel"
| "gql_validation_visit_fragment_cycles (Suc n) fragments name (errors, state) =
     (if \<not> SvOK name then Inr (errors, state)
      else
        case hv_fetch fragments (SvPV name) of
          None \<Rightarrow> Inr (errors, state)
        | Some fragment_sv \<Rightarrow>
            let st = map_option SvPV (fetch_ok state (SvPV name))
            in if st = Some ''done'' then Inr (errors, state)
               else if st = Some ''visiting'' then
                 Inr (case fragment_sv of HV fragment \<Rightarrow> errors @ [cycle_error name fragment] | _ \<Rightarrow> errors,
                      state)
               else
                 let state = hv_store state (SvPV name) (PV False ''visiting'')
                 in case fragment_sv of
                      HV fragment \<Rightarrow>
                        bnd (each (gql_validation_visit_fragment_cycles n fragments)
                               (gql_validation_collect_fragment_spreads (hv_fetch fragment ''selections''))
                               (errors, state)) (\<lambda>(errors, state).
                        Inr (errors, hv_store state (SvPV name) (PV False ''done'')))
                    | _ \<Rightarrow> Inr (errors, hv_store state (SvPV name) (PV False ''done'')))"

definition cycle_frames :: "hv \<Rightarrow> nat" where
  "cycle_frames fragments = Suc (Suc (length fragments))"

definition gql_validation_push_fragment_cycle_errors :: "hv \<Rightarrow> gql_error + sv list" where
  "gql_validation_push_fragment_cycle_errors fragments =
     bnd (each (gql_validation_visit_fragment_cycles (cycle_frames fragments) fragments)
            (map (PV False) (gql_parser_sorted_hash_keys fragments)) ([], [])) (\<lambda>(errors, state).
     Inr errors)"

end
