(* ===== verification/Validation_Types.thy ===== *)
theory Validation_Types
  imports Validation_Structure
begin

text \<open>
  The view of the compiled schema that \<^verbatim>\<open>src/validation.h\<close> takes: named types, wrappers,
  possible objects of an abstract type, overlap of two types, and the compatibility of the
  type of a variable with the place it is used. The compiled schema is the hash that
  \<^verbatim>\<open>gql_schema_compile_schema\<close> returns, an \<open>sv\<close> here; its keys are the ones the code
  fetches. Null pointers are \<open>None\<close>.
\<close>

section \<open>Types of the compiled schema\<close>

definition gql_validation_compiled_hv_from_sv :: "sv \<Rightarrow> hv option" where
  "gql_validation_compiled_hv_from_sv compiled = (case compiled of HV h \<Rightarrow> Some h | _ \<Rightarrow> None)"

text \<open>A key whose value is a hash reference, and one whose value is an array reference.\<close>

definition fetch_hv :: "hv \<Rightarrow> string \<Rightarrow> hv option" where
  "fetch_hv h key = (case hv_fetch h key of Some (HV v) \<Rightarrow> Some v | _ \<Rightarrow> None)"

definition fetch_av :: "hv \<Rightarrow> string \<Rightarrow> sv list option" where
  "fetch_av h key = (case hv_fetch h key of Some (AV v) \<Rightarrow> Some v | _ \<Rightarrow> None)"

definition gql_validation_compiled_type_hv :: "sv \<Rightarrow> sv option \<Rightarrow> hv option" where
  "gql_validation_compiled_type_hv compiled type_name =
     (case (gql_validation_compiled_hv_from_sv compiled, type_name) of
        (Some h, Some name) \<Rightarrow>
          if SvOK name then
            (case fetch_hv h ''types'' of Some types \<Rightarrow> fetch_hv types (SvPV name) | None \<Rightarrow> None)
          else None
      | _ \<Rightarrow> None)"

function gql_validation_named_type_name_sv :: "sv \<Rightarrow> sv option" where
  "gql_validation_named_type_name_sv type_ref =
     (case type_ref of
        HV h \<Rightarrow>
          if node_kind h = Some ''NAMED'' then hv_fetch h ''name''
          else (case hv_fetch h ''of'' of Some inner \<Rightarrow> gql_validation_named_type_name_sv inner | None \<Rightarrow> None)
      | _ \<Rightarrow> None)"
  by pat_completeness auto
termination by (relation "measure size") (use size_hv_fetch in auto)

declare gql_validation_named_type_name_sv.simps [simp del]

definition gql_validation_type_is_non_null :: "sv \<Rightarrow> bool" where
  "gql_validation_type_is_non_null type_ref =
     (case type_ref of HV h \<Rightarrow> node_kind h = Some ''NON_NULL'' | _ \<Rightarrow> False)"

function gql_validation_type_is_list :: "sv \<Rightarrow> bool" where
  "gql_validation_type_is_list type_ref =
     (case type_ref of
        HV h \<Rightarrow>
          if node_kind h = Some ''LIST'' then True
          else if node_kind h = Some ''NON_NULL'' then
            (case hv_fetch h ''of'' of Some inner \<Rightarrow> gql_validation_type_is_list inner | None \<Rightarrow> False)
          else False
      | _ \<Rightarrow> False)"
  by pat_completeness auto
termination by (relation "measure size") (use size_hv_fetch in auto)

declare gql_validation_type_is_list.simps [simp del]

definition gql_validation_field_type_sv :: "sv \<Rightarrow> sv option \<Rightarrow> sv \<Rightarrow> sv option" where
  "gql_validation_field_type_sv compiled parent_type_name field_name =
     (case gql_validation_compiled_type_hv compiled parent_type_name of
        None \<Rightarrow> None
      | Some parent \<Rightarrow>
          (case fetch_hv parent ''fields'' of
             None \<Rightarrow> None
           | Some fs \<Rightarrow>
               (case fetch_hv fs (SvPV field_name) of
                  None \<Rightarrow> None
                | Some field \<Rightarrow> hv_fetch field ''type'')))"

section \<open>Possible objects and overlap\<close>

text \<open>
  An abstract type leads to the names the index lists for it, which are looked up again;
  the first argument counts these nested calls. The index the schema compiler builds lists
  object types, so two are enough; \<open>possible_frames\<close> is enough for every index without a
  cycle.
\<close>

fun gql_validation_add_possible_object_names :: "nat \<Rightarrow> sv \<Rightarrow> sv \<Rightarrow> hv \<Rightarrow> gql_error + hv" where
  "gql_validation_add_possible_object_names 0 compiled type_name out = Inl Out_Of_Fuel"
| "gql_validation_add_possible_object_names (Suc n) compiled type_name out =
     (case gql_validation_compiled_type_hv compiled (Some type_name) of
        None \<Rightarrow> Inr out
      | Some type_hv \<Rightarrow>
          if node_kind type_hv = Some ''OBJECT'' then Inr (hv_store out (SvPV type_name) (IV 1))
          else if node_kind type_hv = Some ''INTERFACE'' \<or> node_kind type_hv = Some ''UNION'' then
            (case gql_validation_compiled_hv_from_sv compiled of
               None \<Rightarrow> Inr out
             | Some h \<Rightarrow>
                 (case fetch_hv h ''possible_types'' of
                    None \<Rightarrow> Inr out
                  | Some index \<Rightarrow>
                      (case fetch_av index (SvPV type_name) of
                         None \<Rightarrow> Inr out
                       | Some possible \<Rightarrow>
                           each (\<lambda>name out.
                             if SvOK name then gql_validation_add_possible_object_names n compiled name out
                             else Inr out) possible out)))
          else Inr out)"

definition possible_frames :: "sv \<Rightarrow> nat" where
  "possible_frames compiled =
     (case gql_validation_compiled_hv_from_sv compiled of
        Some h \<Rightarrow> (case fetch_hv h ''types'' of Some types \<Rightarrow> Suc (Suc (length types)) | None \<Rightarrow> 2)
      | None \<Rightarrow> 2)"

definition gql_validation_selection_types_overlap :: "sv \<Rightarrow> sv option \<Rightarrow> sv option \<Rightarrow> gql_error + bool" where
  "gql_validation_selection_types_overlap compiled left_name right_name =
     (case (left_name, right_name) of
        (Some l, Some r) \<Rightarrow>
          if \<not> SvOK l \<or> \<not> SvOK r then Inr False
          else if sv_eq l r then Inr True
          else
            bnd (gql_validation_add_possible_object_names (possible_frames compiled) compiled l []) (\<lambda>left_objects.
            bnd (gql_validation_add_possible_object_names (possible_frames compiled) compiled r []) (\<lambda>right_objects.
            Inr (list_ex (\<lambda>(key, _). hv_exists left_objects key) right_objects)))
      | _ \<Rightarrow> Inr False)"

section \<open>Types of variables\<close>

text \<open>
  The type of a variable is the tree of the parser: a name, or an array of a wrapper name
  and a hash with the wrapped type.
\<close>

definition gql_validation_variable_type_is_kind :: "sv \<Rightarrow> string \<Rightarrow> bool" where
  "gql_validation_variable_type_is_kind type_sv wanted =
     (case type_sv of AV (k # _) \<Rightarrow> SvOK k \<and> SvPV k = wanted | _ \<Rightarrow> False)"

definition gql_validation_variable_type_inner :: "sv \<Rightarrow> sv option" where
  "gql_validation_variable_type_inner type_sv =
     (case type_sv of AV (_ # HV h # _) \<Rightarrow> hv_fetch h ''type'' | _ \<Rightarrow> None)"

lemma size_variable_type_inner:
  "gql_validation_variable_type_inner t = Some t' \<Longrightarrow> size t' < size t"
  using size_hv_fetch
  by (fastforce simp: gql_validation_variable_type_inner_def split: sv.splits list.splits)

function gql_validation_variable_type_compatible :: "sv option \<Rightarrow> sv option \<Rightarrow> bool" where
  "gql_validation_variable_type_compatible variable_type location_type =
     (case (variable_type, location_type) of
        (Some v, Some (HV location)) \<Rightarrow>
          (case fetch_ok location ''kind'' of
             None \<Rightarrow> False
           | Some k \<Rightarrow>
               let is = gql_validation_variable_type_is_kind v
               in if SvPV k = ''NON_NULL'' then
                    is ''non_null'' \<and> hv_fetch location ''of'' \<noteq> None \<and>
                    gql_validation_variable_type_compatible (gql_validation_variable_type_inner v)
                      (hv_fetch location ''of'')
                  else if is ''non_null'' then
                    gql_validation_variable_type_compatible (gql_validation_variable_type_inner v)
                      (Some (HV location))
                  else if SvPV k = ''LIST'' then
                    is ''list'' \<and> hv_fetch location ''of'' \<noteq> None \<and>
                    gql_validation_variable_type_compatible (gql_validation_variable_type_inner v)
                      (hv_fetch location ''of'')
                  else if is ''list'' then False
                  else if SvPV k = ''NAMED'' \<and> \<not> SvROK v then
                    (case fetch_ok location ''name'' of Some name \<Rightarrow> sv_eq v name | None \<Rightarrow> False)
                  else False)
      | _ \<Rightarrow> False)"
  by pat_completeness auto
termination
proof (relation "measure (\<lambda>(v, l). (case v of Some t \<Rightarrow> Suc (size t) | None \<Rightarrow> 0) +
    (case l of Some t \<Rightarrow> Suc (size t) | None \<Rightarrow> 0))", goal_cases)
  case 1
  then show ?case by simp
qed (auto simp: split: option.splits dest!: size_variable_type_inner size_hv_fetch)

declare gql_validation_variable_type_compatible.simps [simp del]

text \<open>The variable a value refers to: an unblessed reference to a scalar that is not a reference.\<close>

definition value_variable :: "sv \<Rightarrow> sv option" where
  "value_variable v =
     (case v of Ref inner \<Rightarrow> if SvROK inner then None else Some inner | CV c \<Rightarrow> Some v | _ \<Rightarrow> None)"

text \<open>
  The type a variable must fit: the nullable type, where the place is non-null, the variable
  is not, and one of the two has a default.
\<close>

definition position_type :: "sv \<Rightarrow> hv \<Rightarrow> bool \<Rightarrow> sv" where
  "position_type location_type variable location_has_default =
     (case hv_fetch variable ''type'' of
        Some vt \<Rightarrow>
          if gql_validation_type_is_non_null location_type \<and>
             \<not> gql_validation_variable_type_is_kind vt ''non_null'' \<and>
             (fetch_ok variable ''default_value'' \<noteq> None \<or> location_has_default)
          then (case location_type of
                  HV h \<Rightarrow> (case hv_fetch h ''of'' of Some inner \<Rightarrow> inner | None \<Rightarrow> location_type)
                | _ \<Rightarrow> location_type)
          else location_type
      | None \<Rightarrow> location_type)"

definition variable_fits :: "sv \<Rightarrow> hv \<Rightarrow> bool \<Rightarrow> bool" where
  "variable_fits location_type variable location_has_default \<longleftrightarrow>
     hv_fetch variable ''type'' \<noteq> None \<and>
     gql_validation_variable_type_compatible (hv_fetch variable ''type'')
       (Some (position_type location_type variable location_has_default))"

text \<open>The definition of the variable a value refers to, where the operation has one.\<close>

definition variable_definition :: "hv option \<Rightarrow> sv \<Rightarrow> (sv \<times> hv) option" where
  "variable_definition variables v =
     (case (variables, value_variable v) of
        (Some defs, Some name) \<Rightarrow>
          if SvOK name then
            (case fetch_hv defs (SvPV name) of Some variable \<Rightarrow> Some (name, variable) | None \<Rightarrow> None)
          else None
      | _ \<Rightarrow> None)"

definition gql_validation_validate_nested_variable_position ::
  "sv \<Rightarrow> sv option \<Rightarrow> hv option \<Rightarrow> bool \<Rightarrow> string \<Rightarrow> sv option \<Rightarrow> sv list" where
  "gql_validation_validate_nested_variable_position v expected_type variables location_has_default
       position location =
     (case (expected_type, variable_definition variables v) of
        (Some t, Some (name, variable)) \<Rightarrow>
          if variable_fits t variable location_has_default then []
          else
            [gql_validation_error
               (quote_name ''Variable '' (CHR ''$'' # SvPV name)
                  ('' cannot be used for '' @ position @ '' because its type is incompatible.''))
               location]
      | _ \<Rightarrow> [])"

section \<open>Response shapes\<close>

definition is_leaf_type :: "hv option \<Rightarrow> bool" where
  "is_leaf_type named =
     (case named of
        Some h \<Rightarrow>
          (case fetch_ok h ''kind'' of Some k \<Rightarrow> SvPV k = ''SCALAR'' \<or> SvPV k = ''ENUM'' | None \<Rightarrow> False)
      | None \<Rightarrow> False)"

function gql_validation_same_response_shape :: "sv \<Rightarrow> sv option \<Rightarrow> sv option \<Rightarrow> bool" where
  "gql_validation_same_response_shape compiled left_type right_type =
     (case (left_type, right_type) of
        (Some (HV l), Some (HV r)) \<Rightarrow>
          (case (fetch_ok l ''kind'', fetch_ok r ''kind'') of
             (Some lk, Some rk) \<Rightarrow>
               if SvPV lk = ''NON_NULL'' \<or> SvPV rk = ''NON_NULL'' \<or> SvPV lk = ''LIST'' \<or> SvPV rk = ''LIST'' then
                 SvPV lk = SvPV rk \<and> hv_fetch l ''of'' \<noteq> None \<and> hv_fetch r ''of'' \<noteq> None \<and>
                 gql_validation_same_response_shape compiled (hv_fetch l ''of'') (hv_fetch r ''of'')
               else if SvPV lk = ''NAMED'' \<and> SvPV rk = ''NAMED'' then
                 (let left_leaf = is_leaf_type (gql_validation_compiled_type_hv compiled (hv_fetch l ''name''));
                      right_leaf = is_leaf_type (gql_validation_compiled_type_hv compiled (hv_fetch r ''name''))
                  in if left_leaf \<or> right_leaf then
                       left_leaf \<and> right_leaf \<and>
                       (case (hv_fetch l ''name'', hv_fetch r ''name'') of
                          (Some ln, Some rn) \<Rightarrow> sv_eq ln rn | _ \<Rightarrow> False)
                     else True)
               else False
           | _ \<Rightarrow> False)
      | _ \<Rightarrow> False)"
  by pat_completeness auto
termination
  by (relation "measure (\<lambda>(c, l, r). case l of Some t \<Rightarrow> Suc (size t) | None \<Rightarrow> 0)")
    (auto split: option.splits dest!: size_hv_fetch)

declare gql_validation_same_response_shape.simps [simp del]

end
