(* ===== verification/Validation_Values.thy ===== *)
theory Validation_Values
  imports Validation_Types
begin

text \<open>
  Arguments and literals of \<^verbatim>\<open>src/validation.h\<close>: \<^verbatim>\<open>validate_arguments\<close>, \<^verbatim>\<open>validate_value\<close> and the
  comparison of two values. The \<^verbatim>\<open>parse_value\<close> callback of a custom scalar is Perl code of
  the application: \<open>call_sv code v\<close> is the text of the exception it dies with, if any.
  The text of a floating point number is the business of the Perl runtime: \<open>nv_text\<close>.
\<close>

section \<open>Literals\<close>

definition builtin_scalar :: "string \<Rightarrow> bool" where
  "builtin_scalar t \<longleftrightarrow> t \<in> set [''Int'', ''Float'', ''String'', ''Boolean'', ''ID'']"

definition builtin_valid :: "string \<Rightarrow> sv \<Rightarrow> bool" where
  "builtin_valid t v =
     (if t = ''Int'' then (case v of IV i \<Rightarrow> -2147483648 \<le> i \<and> i \<le> 2147483647 | _ \<Rightarrow> False)
      else if t = ''Float'' then \<not> SvROK v \<and> (SvIOK v \<or> SvNOK v)
      else if t = ''String'' then \<not> SvROK v \<and> SvPOK v \<and> \<not> SvIOK v \<and> \<not> SvNOK v
      else if t = ''Boolean'' then sv_isobject v
      else \<not> SvROK v \<and> (SvPOK v \<or> SvIOK v))"

definition invalid_literal :: "string \<Rightarrow> sv option \<Rightarrow> sv list" where
  "invalid_literal t location =
     [gql_validation_error (''Value is not a valid '' @ t @ '' literal.'') location]"

definition enum_valid :: "hv \<Rightarrow> sv \<Rightarrow> bool" where
  "enum_valid named v =
     (case (fetch_hv named ''values'', v) of
        (Some vals, Ref (Ref name)) \<Rightarrow> \<not> SvROK name \<and> SvOK name \<and> hv_exists vals (SvPV name)
      | _ \<Rightarrow> False)"

definition validate_literal ::
  "(sv \<Rightarrow> sv \<Rightarrow> string option) \<Rightarrow> sv \<Rightarrow> sv \<Rightarrow> sv option \<Rightarrow> sv option \<Rightarrow> sv list" where
  "validate_literal call_sv compiled v expected_type location =
     (case Option.bind expected_type gql_validation_named_type_name_sv of
        None \<Rightarrow> []
      | Some name \<Rightarrow>
          if \<not> SvOK name then []
          else
            let t = SvPV name;
                named = gql_validation_compiled_type_hv compiled (Some name);
                k = Option.bind named node_kind
            in if k = Some ''ENUM'' then
                 (if enum_valid (the named) v then [] else invalid_literal t location)
               else if k = Some ''INPUT_OBJECT'' then
                 [gql_validation_error ''Scalar value is not valid for an input object type.'' location]
               else if k = Some ''SCALAR'' \<and> \<not> builtin_scalar t then
                 (case fetch_ok (the named) ''parse_value'' of
                    None \<Rightarrow> []
                  | Some code \<Rightarrow>
                      (case call_sv code v of
                         None \<Rightarrow> []
                       | Some message \<Rightarrow>
                           [gql_validation_error (''Value is not a valid '' @ t @ '' literal: '' @ message) location]))
               else if builtin_scalar t \<and> \<not> builtin_valid t v then invalid_literal t location
               else [])"

section \<open>Values\<close>

definition type_text :: "sv option \<Rightarrow> string" where
  "type_text t = (case t of Some v \<Rightarrow> SvPV v | None \<Rightarrow> [])"

definition null_errors :: "sv option \<Rightarrow> sv option \<Rightarrow> sv list" where
  "null_errors expected_type location =
     (case expected_type of
        Some t \<Rightarrow>
          if gql_validation_type_is_non_null t then
            [gql_validation_error
               (quote_name ''Null is not a valid value for non-null type ''
                  (type_text (gql_validation_named_type_name_sv t)) ''.'') location]
          else []
      | None \<Rightarrow> [])"

text \<open>
  The type of the items of a list value, or \<open>None\<close> where a list is not allowed. An expected
  type that is not there passes.
\<close>

definition list_item_type :: "sv option \<Rightarrow> sv option option" where
  "list_item_type expected_type =
     (let list_type =
        (case expected_type of
           Some (HV h) \<Rightarrow> if gql_validation_type_is_non_null (HV h) then hv_fetch h ''of'' else expected_type
         | _ \<Rightarrow> expected_type)
      in case list_type of
           Some (HV h) \<Rightarrow>
             if node_kind h = Some ''LIST'' then
               Some (case hv_fetch h ''of'' of Some inner \<Rightarrow> Some inner | None \<Rightarrow> expected_type)
             else None
         | _ \<Rightarrow> Some expected_type)"

definition one_of_errors :: "hv \<Rightarrow> sv option \<Rightarrow> hv \<Rightarrow> sv option \<Rightarrow> sv list" where
  "one_of_errors named type_name value_hv location =
     (case fetch_ok named ''is_one_of'' of
        Some flag \<Rightarrow>
          if \<not> SvTRUE flag then []
          else if length value_hv \<noteq> 1 then
            [gql_validation_error
               (quote_name ''OneOf Input Object '' (type_text type_name) '' must specify exactly one key.'') location]
          else if \<not> SvOK (snd (hd value_hv)) then
            [gql_validation_error
               (quote_name ''OneOf Input Object '' (type_text type_name)
                  (quote_name '' field '' (fst (hd value_hv)) '' must be non-null.'')) location]
          else []
      | None \<Rightarrow> [])"

text \<open>A field or argument that has to be given: non-null without a default.\<close>

definition required_input :: "sv \<Rightarrow> bool" where
  "required_input definition_sv =
     (case definition_sv of
        HV d \<Rightarrow>
          (case hv_fetch d ''type'' of Some t \<Rightarrow> gql_validation_type_is_non_null t | None \<Rightarrow> False) \<and>
          (case fetch_ok d ''has_default_value'' of Some f \<Rightarrow> \<not> SvTRUE f | None \<Rightarrow> True)
      | _ \<Rightarrow> False)"

definition missing_fields :: "hv \<Rightarrow> sv option \<Rightarrow> hv \<Rightarrow> sv option \<Rightarrow> sv list" where
  "missing_fields field_defs type_name value_hv location =
     concat (map (\<lambda>key.
       if \<not> hv_exists value_hv key \<and>
          (case hv_fetch field_defs key of Some d \<Rightarrow> required_input d | None \<Rightarrow> False)
       then
         [gql_validation_error
            (quote_name ''Required input field '' key
               (quote_name '' was not provided for type '' (type_text type_name) ''.'')) location]
       else []) (gql_parser_sorted_hash_keys field_defs))"

definition has_default :: "hv \<Rightarrow> bool" where
  "has_default d = (case hv_fetch d ''has_default_value'' of Some f \<Rightarrow> SvTRUE f | None \<Rightarrow> False)"

function gql_validation_validate_value ::
  "(sv \<Rightarrow> sv \<Rightarrow> string option) \<Rightarrow> sv \<Rightarrow> sv \<Rightarrow> sv option \<Rightarrow> hv option \<Rightarrow> sv option \<Rightarrow> sv list" where
  "gql_validation_validate_value call_sv compiled v expected_type variables location =
     (case v of
        Undef \<Rightarrow> null_errors expected_type location
      | AV items \<Rightarrow>
          (case list_item_type expected_type of
             None \<Rightarrow> [gql_validation_error ''List value is not valid for a non-list type.'' location]
           | Some item_type \<Rightarrow>
               concat (map (\<lambda>item.
                 gql_validation_validate_nested_variable_position item item_type variables False
                   ''a list item'' location @
                 gql_validation_validate_value call_sv compiled item item_type variables location) items))
      | HV value_hv \<Rightarrow>
          (let type_name = Option.bind expected_type gql_validation_named_type_name_sv
           in case gql_validation_compiled_type_hv compiled type_name of
                None \<Rightarrow> []
              | Some named \<Rightarrow>
                  if node_kind named \<noteq> Some ''INPUT_OBJECT'' then
                    [gql_validation_error ''Input object value is not valid for a non-input-object type.'' location]
                  else
                    one_of_errors named type_name value_hv location @
                    (let field_defs = (case fetch_hv named ''fields'' of Some d \<Rightarrow> d | None \<Rightarrow> [])
                     in concat (map (\<lambda>key.
                          case hv_fetch field_defs key of
                            None \<Rightarrow>
                              [gql_validation_error
                                 (quote_name ''Input field '' key
                                    (quote_name '' is not defined on type '' (type_text type_name) ''.'')) location]
                          | Some (HV field) \<Rightarrow>
                              (case hv_fetch value_hv key of
                                 None \<Rightarrow> []
                               | Some w \<Rightarrow>
                                   gql_validation_validate_nested_variable_position w (hv_fetch field ''type'')
                                     variables (has_default field) ''an input object field'' location @
                                   gql_validation_validate_value call_sv compiled w (hv_fetch field ''type'')
                                     variables location)
                          | Some _ \<Rightarrow> []) (gql_parser_sorted_hash_keys value_hv)) @
                        missing_fields field_defs type_name value_hv location))
      | _ \<Rightarrow>
          (case value_variable v of
             Some name \<Rightarrow>
               (case variables of
                  Some defs \<Rightarrow>
                    if hv_exists defs (SvPV name) \<or> hv_exists defs ''__defer_fragment_variables'' then []
                    else
                      [gql_validation_error
                         (quote_name ''Variable '' (CHR ''$'' # SvPV name) '' is used but not defined.'') location]
                | None \<Rightarrow>
                    [gql_validation_error
                       (quote_name ''Variable '' (CHR ''$'' # SvPV name) '' is used but not defined.'') location])
           | None \<Rightarrow> validate_literal call_sv compiled v expected_type location))"
  by pat_completeness auto
termination
  by (relation "measure (\<lambda>(c, d, v, e, vs, l). size v)") (auto dest: size_hv_fetch simp: termination_simp)

declare gql_validation_validate_value.simps [simp del]

section \<open>Arguments\<close>

definition argument_position_errors ::
  "string \<Rightarrow> sv \<Rightarrow> hv \<Rightarrow> hv option \<Rightarrow> sv option \<Rightarrow> sv list" where
  "argument_position_errors key arg_value def_hv variables location =
     (case (hv_fetch def_hv ''type'', variable_definition variables arg_value) of
        (Some t, Some (name, variable)) \<Rightarrow>
          if variable_fits t variable (has_default def_hv) then []
          else
            [gql_validation_error
               (quote_name ''Variable '' (CHR ''$'' # SvPV name)
                  (quote_name '' cannot be used for argument '' key '' because its type is incompatible.''))
               location]
      | _ \<Rightarrow> [])"

definition gql_validation_validate_arguments ::
  "(sv \<Rightarrow> sv \<Rightarrow> string option) \<Rightarrow> sv \<Rightarrow> hv \<Rightarrow> hv \<Rightarrow> hv option \<Rightarrow> sv option \<Rightarrow> sv list" where
  "gql_validation_validate_arguments call_sv compiled arguments argument_defs variables location =
     concat (map (\<lambda>key.
       case hv_fetch argument_defs key of
         None \<Rightarrow> [gql_validation_error (quote_name ''Unknown argument '' key ''.'') location]
       | Some (HV def_hv) \<Rightarrow>
           (case hv_fetch arguments key of
              None \<Rightarrow> []
            | Some arg_value \<Rightarrow>
                argument_position_errors key arg_value def_hv variables location @
                gql_validation_validate_value call_sv compiled arg_value (hv_fetch def_hv ''type'')
                  variables location)
       | Some _ \<Rightarrow> []) (gql_parser_sorted_hash_keys arguments)) @
     concat (map (\<lambda>key.
       if \<not> hv_exists arguments key \<and>
          (case hv_fetch argument_defs key of Some d \<Rightarrow> required_input d | None \<Rightarrow> False)
       then [gql_validation_error (quote_name ''Required argument '' key '' was not provided.'') location]
       else []) (gql_parser_sorted_hash_keys argument_defs))"

section \<open>Equality of values\<close>

text \<open>
  \<^verbatim>\<open>sv_eq\<close> on scalars of any kind compares their texts. For two references, the types of
  what they point to are compared first: a name is a string, the mark of an enum value is a
  reference, and what a boolean object points to has a magical type.
\<close>

definition scalar_string :: "(string \<Rightarrow> string) \<Rightarrow> sv \<Rightarrow> sv" where
  "scalar_string nv_text s = (case s of NV t \<Rightarrow> PV False (nv_text t) | _ \<Rightarrow> s)"

datatype sv_type = SVt_NULL | SVt_IV | SVt_NV | SVt_PV | SVt_PVMG | SVt_PVAV | SVt_PVHV | SVt_PVCV

fun scalar_type :: "sv \<Rightarrow> sv_type" where
  "scalar_type Undef = SVt_NULL"
| "scalar_type (IV _) = SVt_IV"
| "scalar_type (NV _) = SVt_NV"
| "scalar_type (PV _ _) = SVt_PV"
| "scalar_type _ = SVt_IV"

fun referent_type :: "sv \<Rightarrow> sv_type" where
  "referent_type (Ref s) = scalar_type s"
| "referent_type (PBool _) = SVt_PVMG"
| "referent_type (AV _) = SVt_PVAV"
| "referent_type (HV _) = SVt_PVHV"
| "referent_type (CV _) = SVt_PVCV"
| "referent_type _ = SVt_NULL"

function gql_validation_values_equal :: "(string \<Rightarrow> string) \<Rightarrow> sv option \<Rightarrow> sv option \<Rightarrow> bool" where
  "gql_validation_values_equal nv_text left right =
     (case (left, right) of
        (None, None) \<Rightarrow> True
      | (Some l, Some r) \<Rightarrow>
          if SvOK l \<noteq> SvOK r then False
          else if \<not> SvOK l then True
          else if SvROK l \<noteq> SvROK r then False
          else if \<not> SvROK l then sv_eq (scalar_string nv_text l) (scalar_string nv_text r)
          else if referent_type l \<noteq> referent_type r then False
          else
            (case (l, r) of
               (AV xs, AV ys) \<Rightarrow>
                 length xs = length ys \<and>
                 list_all (\<lambda>i. gql_validation_values_equal nv_text (Some (xs ! i)) (Some (ys ! i))) [0..<length xs]
             | (HV h, HV g) \<Rightarrow>
                 length h = length g \<and>
                 list_all (\<lambda>(key, v). hv_exists g key \<and>
                   gql_validation_values_equal nv_text (Some v) (hv_fetch g key)) h
             | (Ref a, Ref b) \<Rightarrow> gql_validation_values_equal nv_text (Some a) (Some b)
             | (PBool a, PBool b) \<Rightarrow> a = b
             | _ \<Rightarrow> l = r)
      | _ \<Rightarrow> False)"
  by pat_completeness auto
termination
  by (relation "measure (\<lambda>(nv, l, r). case l of Some v \<Rightarrow> size v | None \<Rightarrow> 0)")
    (auto simp: termination_simp)

declare gql_validation_values_equal.simps [simp del]

end
