(* ===== verification/Validation_Merge.thy ===== *)
theory Validation_Merge
  imports Validation_Values
begin

text \<open>
  Merging of fields with one response name (\<^verbatim>\<open>validate_field_merging\<close> of \<^verbatim>\<open>src/validation.h\<close>).
  The hash of buckets is a list in the order the keys were stored; Perl leaves that order
  open, and it only orders the errors. The first argument of \<^verbatim>\<open>validate_field_merging\<close>
  counts nested calls: the code has no bound of its own.
\<close>

section \<open>Collecting the fields\<close>

text \<open>\<^verbatim>\<open>entry_hv\<close>: a field and the type it is selected on.\<close>

type_synonym merge_entry = "hv \<times> sv"

definition selection_array :: "hv \<Rightarrow> sv list option" where
  "selection_array selection = fetch_av selection ''selections''"

fun gql_validation_collect_merge_fields ::
  "nat \<Rightarrow> hv \<Rightarrow> sv list \<Rightarrow> sv \<Rightarrow> merge_entry list \<times> hv \<Rightarrow> gql_error + merge_entry list \<times> hv" where
  "gql_validation_collect_merge_fields 0 fragments selections parent s = Inl Out_Of_Fuel"
| "gql_validation_collect_merge_fields (Suc n) fragments selections parent s =
     each (\<lambda>selection (out, seen).
       if node_kind selection = Some ''field'' then Inr (out @ [(selection, parent)], seen)
       else if node_kind selection = Some ''inline_fragment'' then
         (let target = (case fetch_ok selection ''on'' of Some t \<Rightarrow> t | None \<Rightarrow> parent)
          in case selection_array selection of
               Some nested \<Rightarrow> gql_validation_collect_merge_fields n fragments nested target (out, seen)
             | None \<Rightarrow> Inr (out, seen))
       else if node_kind selection = Some ''fragment_spread'' then
         (case fetch_ok selection ''name'' of
            None \<Rightarrow> Inr (out, seen)
          | Some name \<Rightarrow>
              if hv_exists seen (SvPV name) then Inr (out, seen)
              else
                (case fragment_at fragments name of
                   None \<Rightarrow> Inr (out, seen)
                 | Some fragment \<Rightarrow>
                     let seen = hv_store seen (SvPV name) (IV 1)
                     in case (fetch_ok fragment ''on'', selection_array fragment) of
                          (Some on, Some nested) \<Rightarrow>
                            gql_validation_collect_merge_fields n fragments nested on (out, seen)
                        | _ \<Rightarrow> Inr (out, seen)))
       else Inr (out, seen)) (hashes selections) s"

definition merge_collect_frames :: "hv \<Rightarrow> sv list \<Rightarrow> nat" where
  "merge_collect_frames fragments selections = Suc (size (AV selections) + budget fragments [])"

section \<open>Comparing a field with the ones before it\<close>

record merge_bucket =
  entries :: "merge_entry list"
  merge_entries :: "merge_entry list"
  conflicted :: bool

definition same_signature :: "(string \<Rightarrow> string) \<Rightarrow> hv \<Rightarrow> hv \<Rightarrow> bool \<times> bool" where
  "same_signature nv_text field previous =
     ((case (fetch_ok field ''name'', fetch_ok previous ''name'') of
         (Some a, Some b) \<Rightarrow> sv_eq a b | _ \<Rightarrow> False),
      gql_validation_values_equal nv_text (hv_fetch field ''arguments'') (hv_fetch previous ''arguments''))"

definition same_shape :: "sv \<Rightarrow> merge_entry \<Rightarrow> merge_entry \<Rightarrow> bool" where
  "same_shape compiled entry previous =
     (let shape_type = (\<lambda>(field, parent). case hv_fetch field ''name'' of
            Some name \<Rightarrow> gql_validation_field_type_sv compiled (Some parent) name | None \<Rightarrow> None)
      in gql_validation_same_response_shape compiled (shape_type entry) (shape_type previous))"

text \<open>
  The loop over the representatives of a bucket: whether there is a conflict, and whether
  the new entry becomes a representative.
\<close>

fun scan_previous ::
  "(string \<Rightarrow> string) \<Rightarrow> sv \<Rightarrow> merge_entry \<Rightarrow> merge_entry list \<Rightarrow> bool \<Rightarrow> gql_error + bool \<times> bool" where
  "scan_previous nv_text compiled entry [] keep = Inr (False, keep)"
| "scan_previous nv_text compiled entry (previous # rest) keep =
     (let (same_name, same_arguments) = same_signature nv_text (fst entry) (fst previous);
          shape = same_shape compiled entry previous
      in bnd (if SvOK (snd previous) then
                gql_validation_selection_types_overlap compiled (Some (snd entry)) (Some (snd previous))
              else Inr False) (\<lambda>overlap.
         if \<not> shape \<or> overlap \<and> (\<not> same_name \<or> \<not> same_arguments) then Inr (True, False)
         else
           scan_previous nv_text compiled entry rest
             (if same_name \<and> same_arguments \<and> shape \<and> sv_eq (snd entry) (snd previous)
              then False else keep)))"

definition conflict_error :: "sv \<Rightarrow> hv \<Rightarrow> sv" where
  "conflict_error response_key field =
     gql_validation_error
       (quote_name ''Fields '' (SvPV response_key) '' conflict because they select different fields or arguments.'')
       (hv_fetch field ''location'')"

definition response_key :: "hv \<Rightarrow> sv option" where
  "response_key field =
     (case fetch_ok field ''name'' of
        None \<Rightarrow> None
      | Some name \<Rightarrow> Some (case fetch_ok field ''alias'' of Some a \<Rightarrow> a | None \<Rightarrow> name))"

definition empty_bucket :: merge_bucket where
  "empty_bucket = \<lparr>entries = [], merge_entries = [], conflicted = False\<rparr>"

type_synonym merge_state = "sv list \<times> (string \<times> merge_bucket) list"

definition merge_field ::
  "(string \<Rightarrow> string) \<Rightarrow> sv \<Rightarrow> merge_entry \<Rightarrow> merge_state \<Rightarrow> gql_error + merge_state" where
  "merge_field nv_text compiled entry s =
     (let (errors, buckets) = s
      in if \<not> SvOK (snd entry) then Inr (errors, buckets)
         else case response_key (fst entry) of
           None \<Rightarrow> Inr (errors, buckets)
         | Some key \<Rightarrow>
             let bucket = (case map_of buckets (SvPV key) of Some b \<Rightarrow> b | None \<Rightarrow> empty_bucket)
             in if conflicted bucket then Inr (errors, buckets)
                else
                  bnd (scan_previous nv_text compiled entry (entries bucket) True) (\<lambda>(conflict, keep).
                  let bucket = bucket\<lparr>merge_entries := merge_entries bucket @ [entry],
                                      conflicted := conflict,
                                      entries := entries bucket @ (if keep then [entry] else [])\<rparr>
                  in Inr (errors @ (if conflict then [conflict_error key (fst entry)] else []),
                          AList.update (SvPV key) bucket buckets)))"

section \<open>The next level\<close>

text \<open>
  The selections of the entries of a bucket, as inline fragments on the types of the
  fields, with the first of these types.
\<close>

definition merge_part :: "sv \<Rightarrow> merge_entry \<Rightarrow> (sv \<times> sv) list" where
  "merge_part compiled entry =
     (let (field, parent) = entry
      in case (hv_fetch field ''name'', fetch_av field ''selections'') of
           (Some name, Some selections) \<Rightarrow>
             (case Option.bind (gql_validation_field_type_sv compiled (Some parent) name)
                     gql_validation_named_type_name_sv of
                Some named \<Rightarrow>
                  [(named, HV (gql_store_sv (gql_store_sv (gql_store_sv []
                     ''kind'' (PV False ''inline_fragment'')) ''on'' named) ''selections'' (AV selections)))]
              | None \<Rightarrow> [])
         | _ \<Rightarrow> [])"

definition merge_parts :: "sv \<Rightarrow> merge_bucket \<Rightarrow> (sv \<times> sv) list" where
  "merge_parts compiled bucket =
     (if conflicted bucket \<or> length (merge_entries bucket) < 2 then []
      else concat (map (merge_part compiled) (merge_entries bucket)))"

fun gql_validation_validate_field_merging ::
  "nat \<Rightarrow> (string \<Rightarrow> string) \<Rightarrow> sv \<Rightarrow> hv \<Rightarrow> sv list \<Rightarrow> sv \<Rightarrow> gql_error + sv list" where
  "gql_validation_validate_field_merging 0 nv_text compiled fragments selections parent = Inl Out_Of_Fuel"
| "gql_validation_validate_field_merging (Suc n) nv_text compiled fragments selections parent =
     bnd (gql_validation_collect_merge_fields (merge_collect_frames fragments selections) fragments
            selections parent ([], [])) (\<lambda>(collected, seen).
     bnd (each (merge_field nv_text compiled) collected ([], [])) (\<lambda>(errors, buckets).
     each (\<lambda>(key, bucket) errors.
       let parts = merge_parts compiled bucket
       in if length parts \<ge> 2 then
            bnd (gql_validation_validate_field_merging n nv_text compiled fragments
                   (map snd parts) (fst (hd parts))) (\<lambda>nested.
            Inr (errors @ nested))
          else Inr errors) buckets errors))"

end
