(* ===== verification/Validation_Selections.thy ===== *)
theory Validation_Selections
  imports Validation_Merge
begin

text \<open>
  Fields, fragments and operations against the schema: \<^verbatim>\<open>validate_selections\<close>,
  \<^verbatim>\<open>validate_field_selection\<close>, \<^verbatim>\<open>validate_variable_definitions\<close>, \<^verbatim>\<open>validate_fragments\<close> and
  \<^verbatim>\<open>validate_operation\<close> of \<^verbatim>\<open>src/validation.h\<close>. What these functions take from Perl code is a
  field of \<open>validation_env\<close>: the callbacks of the schema object and of the types.
\<close>

text \<open>
  \<open>env_lookup_type\<close> is \<^verbatim>\<open>GraphQL::Houtou::Schema::lookup_type\<close> (\<open>None\<close> where it dies),
  \<open>env_is_input\<close> the two \<^verbatim>\<open>DOES\<close> calls, \<open>env_to_string\<close> the method, and
  \<open>env_type_ref\<close> is \<^verbatim>\<open>gql_schema_compile_type_ref\<close> on such an object.
\<close>

record validation_env =
  env_nv_text :: "string \<Rightarrow> string"
  env_call_sv :: "sv \<Rightarrow> sv \<Rightarrow> string option"
  env_compiled :: sv
  env_fragments :: hv
  env_lookup_type :: "sv \<Rightarrow> sv option"
  env_is_input :: "sv \<Rightarrow> bool"
  env_to_string :: "sv \<Rightarrow> string"
  env_type_ref :: "sv \<Rightarrow> sv"

section \<open>Fields\<close>

definition root_name :: "sv \<Rightarrow> string \<Rightarrow> sv option" where
  "root_name compiled operation_type =
     (case gql_validation_compiled_hv_from_sv compiled of
        Some h \<Rightarrow>
          (case fetch_hv h ''roots'' of Some roots \<Rightarrow> fetch_ok roots operation_type | None \<Rightarrow> None)
      | None \<Rightarrow> None)"

text \<open>A field without a definition: the introspection fields pass.\<close>

definition is_meta_field :: "sv \<Rightarrow> hv \<Rightarrow> string \<Rightarrow> bool" where
  "is_meta_field compiled parent_hv field_name \<longleftrightarrow>
     field_name = ''__typename'' \<or>
     (field_name = ''__schema'' \<or> field_name = ''__type'') \<and>
     (case (root_name compiled ''query'', fetch_ok parent_hv ''name'') of
        (Some root, Some parent) \<Rightarrow> SvPV root = SvPV parent | _ \<Rightarrow> False)"

definition text_at :: "hv \<Rightarrow> string \<Rightarrow> string" where
  "text_at h key = (case fetch_ok h key of Some v \<Rightarrow> SvPV v | None \<Rightarrow> [])"

definition unknown_field_errors :: "sv \<Rightarrow> hv \<Rightarrow> hv \<Rightarrow> sv \<Rightarrow> sv list" where
  "unknown_field_errors compiled parent_hv selection name =
     (if is_meta_field compiled parent_hv (SvPV name) then []
      else
        [gql_validation_error
           (quote_name ''Field '' (SvPV name)
              (quote_name '' does not exist on type '' (text_at parent_hv ''name'') ''.''))
           (hv_fetch selection ''location'')])"

definition type_kind_in :: "hv option \<Rightarrow> string list \<Rightarrow> bool" where
  "type_kind_in named ks = (case Option.bind named node_kind of Some k \<Rightarrow> k \<in> set ks | None \<Rightarrow> False)"

definition leaf_kinds :: "string list" where
  "leaf_kinds = [''SCALAR'', ''ENUM'']"

definition composite_kinds :: "string list" where
  "composite_kinds = [''OBJECT'', ''INTERFACE'', ''UNION'']"

definition leaf_errors :: "sv \<Rightarrow> sv option \<Rightarrow> hv \<Rightarrow> sv \<Rightarrow> sv list" where
  "leaf_errors compiled type_name selection name =
     (let next_type = gql_validation_compiled_type_hv compiled type_name;
          has_selections = (selection_array selection \<noteq> None)
      in if type_kind_in next_type leaf_kinds \<and> has_selections then
           [gql_validation_error
              (quote_name ''Field '' (SvPV name)
                 (quote_name '' must not have a selection since type '' (type_text type_name)
                    '' has no subfields.'')) (hv_fetch selection ''location'')]
         else if type_kind_in next_type composite_kinds \<and> \<not> has_selections then
           [gql_validation_error
              (quote_name ''Field '' (SvPV name)
                 (quote_name '' of type '' (type_text type_name) '' must have a selection of subfields.''))
              (hv_fetch selection ''location'')]
         else [])"

definition hv_or_empty :: "hv \<Rightarrow> string \<Rightarrow> hv" where
  "hv_or_empty h key = (case fetch_hv h key of Some v \<Rightarrow> v | None \<Rightarrow> [])"

definition field_argument_errors :: "validation_env \<Rightarrow> hv option \<Rightarrow> hv \<Rightarrow> hv \<Rightarrow> sv list" where
  "field_argument_errors env variables selection field =
     gql_validation_validate_arguments (env_call_sv env) (env_compiled env)
       (hv_or_empty selection ''arguments'') (hv_or_empty field ''args'') variables
       (hv_fetch selection ''location'')"

section \<open>Selections\<close>

definition spread_type_errors :: "sv \<Rightarrow> sv \<Rightarrow> hv \<Rightarrow> sv \<Rightarrow> hv \<Rightarrow> gql_error + sv list" where
  "spread_type_errors compiled parent selection name fragment =
     (case fetch_ok fragment ''on'' of
        Some on \<Rightarrow>
          if gql_validation_compiled_type_hv compiled (Some on) = None then Inr []
          else
            bnd (gql_validation_selection_types_overlap compiled (Some parent) (Some on)) (\<lambda>overlap.
            Inr (if overlap then []
                 else
                   [gql_validation_error
                      (quote_name ''Fragment '' (SvPV name)
                         (quote_name '' cannot be spread here because type '' (SvPV on)
                            (quote_name '' can never apply to '' (SvPV parent) ''.'')))
                      (hv_fetch selection ''location'')]))
      | None \<Rightarrow> Inr [])"

text \<open>Of the errors inside a spread fragment only those about variables are kept.\<close>

definition about_variables :: "sv \<Rightarrow> bool" where
  "about_variables e =
     (case e of
        HV h \<Rightarrow>
          (case fetch_ok h ''message'' of
             Some m \<Rightarrow> take 11 (SvPV m) = ''Variable '' @ [CHR 0x27, CHR ''$''] | None \<Rightarrow> False)
      | _ \<Rightarrow> False)"

text \<open>
  The state of a walk: the errors so far and, in the walk of an operation, the fragments
  already entered.
\<close>

type_synonym walk = "sv list \<times> hv option"

fun gql_validation_validate_selections ::
  "nat \<Rightarrow> validation_env \<Rightarrow> sv list \<Rightarrow> sv option \<Rightarrow> hv option \<Rightarrow> hv option \<Rightarrow> gql_error + walk"
  and gql_validation_validate_field_selection ::
  "nat \<Rightarrow> validation_env \<Rightarrow> hv \<Rightarrow> hv \<Rightarrow> hv option \<Rightarrow> hv option \<Rightarrow> gql_error + walk"
where
  "gql_validation_validate_selections 0 env selections parent variables seen = Inl Out_Of_Fuel"
| "gql_validation_validate_selections (Suc n) env selections parent variables seen =
     (case (gql_validation_compiled_type_hv (env_compiled env) parent, parent) of
        (Some parent_hv, Some parent_name) \<Rightarrow>
          bnd (gql_validation_validate_field_merging n (env_nv_text env) (env_compiled env)
                 (env_fragments env) selections parent_name) (\<lambda>merge_errors.
          each (\<lambda>selection (errors, seen).
            if node_kind selection = Some ''field'' then
              bnd (gql_validation_validate_field_selection n env selection parent_hv variables seen)
                (\<lambda>(es, seen). Inr (errors @ es, seen))
            else if node_kind selection = Some ''fragment_spread'' then
              (case hv_fetch selection ''name'' of
                 None \<Rightarrow> Inr (errors, seen)
               | Some name \<Rightarrow>
                   (case hv_fetch (env_fragments env) (SvPV name) of
                      None \<Rightarrow>
                        Inr (errors @
                          (if SvOK name then
                             [gql_validation_error (quote_name ''Unknown fragment '' (SvPV name) ''.'')
                                (hv_fetch selection ''location'')]
                           else []), seen)
                    | Some (HV fragment) \<Rightarrow>
                        bnd (spread_type_errors (env_compiled env) parent_name selection name fragment) (\<lambda>es.
                        case seen of
                          None \<Rightarrow> Inr (errors @ es, seen)
                        | Some entered \<Rightarrow>
                            if \<not> SvOK name \<or> hv_exists entered (SvPV name) then Inr (errors @ es, seen)
                            else
                              let entered = hv_store entered (SvPV name) (IV 1)
                              in case (fetch_ok fragment ''on'', selection_array fragment) of
                                   (Some on, Some nested) \<Rightarrow>
                                     bnd (gql_validation_validate_selections n env nested (Some on) variables
                                            (Some entered)) (\<lambda>(fragment_errors, seen).
                                     Inr (errors @ es @ filter about_variables fragment_errors, seen))
                                 | _ \<Rightarrow> Inr (errors @ es, Some entered))
                    | Some _ \<Rightarrow> Inr (errors, seen)))
            else if node_kind selection = Some ''inline_fragment'' then
              (let target = (case fetch_ok selection ''on'' of Some t \<Rightarrow> t | None \<Rightarrow> parent_name)
               in if gql_validation_compiled_type_hv (env_compiled env) (Some target) = None then
                    Inr (errors @
                      [gql_validation_error
                         (quote_name ''Inline fragment references unknown type '' (SvPV target) ''.'')
                         (hv_fetch selection ''location'')], seen)
                  else
                    bnd (gql_validation_selection_types_overlap (env_compiled env) (Some parent_name) (Some target))
                      (\<lambda>overlap.
                    if \<not> overlap then
                      Inr (errors @
                        [gql_validation_error
                           (quote_name ''Inline fragment on '' (SvPV target)
                              (quote_name '' cannot be used where type '' (SvPV parent_name) '' is expected.''))
                           (hv_fetch selection ''location'')], seen)
                    else
                      case selection_array selection of
                        Some nested \<Rightarrow>
                          bnd (gql_validation_validate_selections n env nested (Some target) variables seen)
                            (\<lambda>(es, seen). Inr (errors @ es, seen))
                      | None \<Rightarrow> Inr (errors, seen)))
            else Inr (errors, seen)) (hashes selections) (merge_errors, seen))
      | _ \<Rightarrow> Inr ([], seen))"
| "gql_validation_validate_field_selection 0 env selection parent_hv variables seen = Inl Out_Of_Fuel"
| "gql_validation_validate_field_selection (Suc n) env selection parent_hv variables seen =
     (case fetch_ok selection ''name'' of
        None \<Rightarrow> Inr ([], seen)
      | Some name \<Rightarrow>
          (case Option.bind (fetch_hv parent_hv ''fields'') (\<lambda>fs. hv_fetch fs (SvPV name)) of
             None \<Rightarrow> Inr (unknown_field_errors (env_compiled env) parent_hv selection name, seen)
           | Some (HV field) \<Rightarrow>
               let argument_errors = field_argument_errors env variables selection field
               in (case hv_fetch field ''type'' of
                     None \<Rightarrow> Inr (argument_errors, seen)
                   | Some t \<Rightarrow>
                       let type_name = gql_validation_named_type_name_sv t;
                           es = argument_errors @ leaf_errors (env_compiled env) type_name selection name;
                           is_leaf = type_kind_in (gql_validation_compiled_type_hv (env_compiled env) type_name)
                             leaf_kinds
                       in case selection_array selection of
                            Some nested \<Rightarrow>
                              if type_name \<noteq> None \<and> \<not> is_leaf then
                                bnd (gql_validation_validate_selections n env nested type_name variables seen)
                                  (\<lambda>(nested_errors, seen). Inr (es @ nested_errors, seen))
                              else Inr (es, seen)
                          | None \<Rightarrow> Inr (es, seen))
           | Some _ \<Rightarrow> Inr ([], seen)))"

section \<open>Variable definitions\<close>

definition variable_definition_errors ::
  "validation_env \<Rightarrow> string \<Rightarrow> sv \<Rightarrow> sv option \<Rightarrow> sv list" where
  "variable_definition_errors env name definition_sv location =
     (case env_lookup_type env definition_sv of
        Some t \<Rightarrow>
          if \<not> SvOK t then
            [gql_validation_error (quote_name ''Variable '' (CHR ''$'' # name) '' has an invalid type.'') location]
          else if \<not> env_is_input env t then
            [gql_validation_error
               (quote_name ''Variable '' (CHR ''$'' # name)
                  (quote_name '' is type '' (env_to_string env t) '' which cannot be used as an input type.''))
               location]
          else
            (case definition_sv of
               HV variable \<Rightarrow>
                 (case hv_fetch variable ''default_value'' of
                    Some v \<Rightarrow>
                      gql_validation_validate_value (env_call_sv env) (env_compiled env) v
                        (Some (env_type_ref env t)) None location
                  | None \<Rightarrow> [])
             | _ \<Rightarrow> [])
      | None \<Rightarrow>
          [gql_validation_error (quote_name ''Variable '' (CHR ''$'' # name) '' has an invalid type.'') location])"

definition gql_validation_validate_variable_definitions ::
  "validation_env \<Rightarrow> hv \<Rightarrow> sv option \<Rightarrow> sv list" where
  "gql_validation_validate_variable_definitions env variables location =
     concat (map (\<lambda>name.
       case hv_fetch variables name of
         Some definition_sv \<Rightarrow> variable_definition_errors env name definition_sv location
       | None \<Rightarrow> []) (gql_parser_sorted_hash_keys variables))"

section \<open>Fragments and operations\<close>

text \<open>
  A fragment is checked on its own, with a variables hash that defers what is not known
  here, and without entering the fragments it spreads.
\<close>

definition validate_fragment :: "nat \<Rightarrow> validation_env \<Rightarrow> string \<Rightarrow> hv \<Rightarrow> gql_error + sv list" where
  "validate_fragment n env name fragment =
     (case Option.bind (hv_fetch fragment ''on'')
             (\<lambda>on. gql_validation_compiled_type_hv (env_compiled env) (Some on)) of
        None \<Rightarrow>
          Inr [gql_validation_error
                 (quote_name ''Fragment '' name
                    (quote_name '' references unknown type '' (text_at fragment ''on'') ''.''))
                 (hv_fetch fragment ''location'')]
      | Some type_hv \<Rightarrow>
          if (case node_kind type_hv of Some k \<Rightarrow> k \<notin> set composite_kinds | None \<Rightarrow> False) then
            Inr [gql_validation_error
                   (quote_name ''Fragment '' name
                      (quote_name '' cannot target non-composite type '' (text_at fragment ''on'') ''.''))
                   (hv_fetch fragment ''location'')]
          else
            (case selection_array fragment of
               Some selections \<Rightarrow>
                 bnd (gql_validation_validate_selections n env selections (hv_fetch fragment ''on'')
                        (Some (hv_store [] ''__defer_fragment_variables'' (IV 1))) None) (\<lambda>(es, _). Inr es)
             | None \<Rightarrow> Inr []))"

definition gql_validation_validate_fragments :: "nat \<Rightarrow> validation_env \<Rightarrow> gql_error + sv list" where
  "gql_validation_validate_fragments n env =
     each (\<lambda>name errors.
       case fetch_hv (env_fragments env) name of
         Some fragment \<Rightarrow> bnd (validate_fragment n env name fragment) (\<lambda>es. Inr (errors @ es))
       | None \<Rightarrow> Inr errors) (gql_parser_sorted_hash_keys (env_fragments env)) []"

definition operation_type_text :: "hv \<Rightarrow> string" where
  "operation_type_text operation =
     (case fetch_ok operation ''operationType'' of Some t \<Rightarrow> SvPV t | None \<Rightarrow> ''query'')"

definition gql_validation_validate_operation :: "nat \<Rightarrow> validation_env \<Rightarrow> hv \<Rightarrow> gql_error + sv list" where
  "gql_validation_validate_operation n env operation =
     (case root_name (env_compiled env) (operation_type_text operation) of
        None \<Rightarrow>
          Inr [gql_validation_error
                 (quote_name ''Schema does not define a root type for '' (operation_type_text operation) ''.'')
                 (hv_fetch operation ''location'')]
      | Some root \<Rightarrow>
          let variables = fetch_hv operation ''variables'';
              definition_errors =
                (case variables of
                   Some defs \<Rightarrow>
                     gql_validation_validate_variable_definitions env defs (hv_fetch operation ''location'')
                 | None \<Rightarrow> [])
          in case selection_array operation of
               Some selections \<Rightarrow>
                 bnd (gql_validation_validate_selections n env selections (Some root) variables (Some []))
                   (\<lambda>(es, _). Inr (definition_errors @ es))
             | None \<Rightarrow> Inr definition_errors)"

end
