(* ===== verification/Validation_Directives.thy ===== *)
theory Validation_Directives
  imports Validation_Selections
begin

text \<open>
  Directives of a document (\<^verbatim>\<open>validate_directive_list\<close>, \<^verbatim>\<open>validate_directives_in_selections\<close>
  and \<^verbatim>\<open>validate_document_directives\<close> of \<^verbatim>\<open>src/validation.h\<close>).
\<close>

section \<open>One list of directives\<close>

definition gql_validation_compiled_directives_sv :: "sv \<Rightarrow> sv option" where
  "gql_validation_compiled_directives_sv compiled =
     (case gql_validation_compiled_hv_from_sv compiled of
        Some h \<Rightarrow> hv_fetch h ''directives'' | None \<Rightarrow> None)"

definition gql_validation_directive_has_location :: "hv \<Rightarrow> string \<Rightarrow> bool" where
  "gql_validation_directive_has_location directive place =
     (case fetch_av directive ''locations'' of
        Some items \<Rightarrow> list_ex (\<lambda>i. SvOK i \<and> SvPV i = place) items
      | None \<Rightarrow> False)"

fun gql_validation_value_contains_variable :: "sv \<Rightarrow> bool" where
  "gql_validation_value_contains_variable (AV items) =
     list_ex gql_validation_value_contains_variable items"
| "gql_validation_value_contains_variable (HV h) =
     list_ex (\<lambda>(_, v). gql_validation_value_contains_variable v) h"
| "gql_validation_value_contains_variable v = (value_variable v \<noteq> None)"

definition directive_at :: "string \<Rightarrow> string" where
  "directive_at name = CHR ''@'' # name"

definition directive_message :: "string \<Rightarrow> sv list \<Rightarrow> sv option \<Rightarrow> string \<Rightarrow> string" where
  "directive_message name value_errors type_name key =
     (let t = (case type_name of Some n \<Rightarrow> if SvOK n then SvPV n else ''value'' | None \<Rightarrow> ''value'');
          reason =
            (if builtin_scalar t then ''Not a '' @ t @ ''.''
             else case value_errors of
                    HV e # _ \<Rightarrow> (case hv_fetch e ''message'' of Some m \<Rightarrow> SvPV m | None \<Rightarrow> ''invalid value'')
                  | _ \<Rightarrow> ''invalid value'')
      in quote_name ''Argument '' key
           (quote_name '' on directive '' (directive_at name) ('' has invalid value: '' @ reason)))"

text \<open>One argument of the definition of a directive.\<close>

definition directive_argument_errors ::
  "validation_env \<Rightarrow> hv option \<Rightarrow> bool \<Rightarrow> string \<Rightarrow> sv option \<Rightarrow> hv option \<Rightarrow> string \<Rightarrow> sv \<Rightarrow> sv list" where
  "directive_argument_errors env variables structure name location arguments key arg_def =
     (let arg_hv = (case arg_def of HV h \<Rightarrow> Some h | _ \<Rightarrow> None);
          given = Option.bind arguments (\<lambda>a. hv_fetch a key);
          arg_type = Option.bind arg_hv (\<lambda>h. hv_fetch h ''type'');
          defaulted = (case arg_hv of Some h \<Rightarrow> has_default h | None \<Rightarrow> False)
      in case arg_type of
           None \<Rightarrow> []
         | Some t \<Rightarrow>
             if structure \<and> given = None \<and> gql_validation_type_is_non_null t \<and> \<not> defaulted then
               [gql_validation_error
                  (quote_name ''Required argument '' key
                     (quote_name '' was not provided to directive '' (directive_at name) ''.'')) location]
             else
               case given of
                 None \<Rightarrow> []
               | Some v \<Rightarrow>
                   let contains_variable = gql_validation_value_contains_variable v
                   in if \<not> structure \<and> \<not> contains_variable \<or> variables = None \<and> contains_variable then []
                      else
                        let position_errors =
                              gql_validation_validate_nested_variable_position v (Some t) variables defaulted
                                ''a directive argument'' location;
                            value_errors =
                              gql_validation_validate_value (env_call_sv env) (env_compiled env) v (Some t)
                                variables location
                        in position_errors @
                           (if value_errors = [] then []
                            else if contains_variable then value_errors
                            else [gql_validation_error
                                    (directive_message name value_errors
                                       (gql_validation_named_type_name_sv t) key) location]))"

definition unknown_argument_errors :: "string \<Rightarrow> sv option \<Rightarrow> hv \<Rightarrow> hv \<Rightarrow> sv list" where
  "unknown_argument_errors name location arguments arg_defs =
     concat (map (\<lambda>key.
       if hv_exists arg_defs key then []
       else
         [gql_validation_error
            (quote_name ''Unknown argument '' key (quote_name '' on directive '' (directive_at name) ''.''))
            location]) (gql_parser_sorted_hash_keys arguments))"

definition directive_errors ::
  "validation_env \<Rightarrow> hv \<Rightarrow> string \<Rightarrow> hv option \<Rightarrow> bool \<Rightarrow> hv \<Rightarrow> hv \<Rightarrow> sv list \<times> hv" where
  "directive_errors env definitions place variables structure directive seen =
     (case fetch_ok directive ''name'' of
        None \<Rightarrow> ([], seen)
      | Some name_sv \<Rightarrow>
          let name = SvPV name_sv; location = hv_fetch directive ''location''
          in case fetch_hv definitions name of
               None \<Rightarrow>
                 (if structure then
                    [gql_validation_error (quote_name ''Unknown directive '' (directive_at name) ''.'') location]
                  else [], seen)
             | Some def_hv \<Rightarrow>
                 let location_errors =
                       (if structure \<and> \<not> gql_validation_directive_has_location def_hv place then
                          [gql_validation_error
                             (quote_name ''Directive '' (directive_at name)
                                ('' may not be used on '' @ place @ ''.'')) location]
                        else []);
                     repeatable = (case hv_fetch def_hv ''repeatable'' of Some r \<Rightarrow> SvTRUE r | None \<Rightarrow> False);
                     repeat_errors =
                       (if structure \<and> hv_exists seen name \<and> \<not> repeatable then
                          [gql_validation_error
                             (quote_name ''Directive '' (directive_at name)
                                '' is not repeatable and cannot be used more than once at this location.'') location]
                        else []);
                     arguments = fetch_hv directive ''arguments'';
                     argument_errors =
                       (case fetch_hv def_hv ''args'' of
                          None \<Rightarrow> []
                        | Some arg_defs \<Rightarrow>
                            (case arguments of
                               Some a \<Rightarrow> if structure then unknown_argument_errors name location a arg_defs else []
                             | None \<Rightarrow> []) @
                            concat (map (\<lambda>key.
                              case hv_fetch arg_defs key of
                                Some d \<Rightarrow>
                                  directive_argument_errors env variables structure name location arguments key d
                              | None \<Rightarrow> []) (gql_parser_sorted_hash_keys arg_defs)))
                 in (location_errors @ repeat_errors @ argument_errors, hv_store seen name (IV 1)))"

fun directive_list_errors ::
  "validation_env \<Rightarrow> hv \<Rightarrow> string \<Rightarrow> hv option \<Rightarrow> bool \<Rightarrow> hv list \<Rightarrow> hv \<Rightarrow> sv list" where
  "directive_list_errors env definitions place variables structure [] seen = []"
| "directive_list_errors env definitions place variables structure (directive # rest) seen =
     (let (es, seen) = directive_errors env definitions place variables structure directive seen
      in es @ directive_list_errors env definitions place variables structure rest seen)"

definition gql_validation_validate_directive_list ::
  "validation_env \<Rightarrow> sv option \<Rightarrow> string \<Rightarrow> hv option \<Rightarrow> bool \<Rightarrow> sv list" where
  "gql_validation_validate_directive_list env directives place variables structure =
     (case (directives, gql_validation_compiled_directives_sv (env_compiled env)) of
        (Some (AV items), Some (HV definitions)) \<Rightarrow>
          directive_list_errors env definitions place variables structure (hashes items) []
      | _ \<Rightarrow> [])"

section \<open>Selections and documents\<close>

definition selection_place :: "hv \<Rightarrow> string" where
  "selection_place selection =
     (if text_at selection ''kind'' = ''field'' then ''FIELD''
      else if text_at selection ''kind'' = ''fragment_spread'' then ''FRAGMENT_SPREAD''
      else ''INLINE_FRAGMENT'')"

fun gql_validation_validate_directives_in_selections ::
  "nat \<Rightarrow> validation_env \<Rightarrow> hv option \<Rightarrow> bool \<Rightarrow> sv list \<Rightarrow> walk \<Rightarrow> gql_error + walk" where
  "gql_validation_validate_directives_in_selections 0 env variables structure selections s = Inl Out_Of_Fuel"
| "gql_validation_validate_directives_in_selections (Suc n) env variables structure selections s =
     each (\<lambda>selection (errors, seen).
       if fetch_ok selection ''kind'' = None then Inr (errors, seen)
       else
         let errors = errors @ gql_validation_validate_directive_list env (hv_fetch selection ''directives'')
               (selection_place selection) variables structure
         in bnd (if text_at selection ''kind'' = ''fragment_spread'' \<and> variables \<noteq> None then
                   (case (seen, fetch_ok selection ''name'') of
                      (Some entered, Some name) \<Rightarrow>
                        if hv_exists entered (SvPV name) then Inr (errors, seen)
                        else
                          let seen = Some (hv_store entered (SvPV name) (IV 1))
                          in (case Option.bind (fragment_at (env_fragments env) name) selection_array of
                                Some nested \<Rightarrow>
                                  gql_validation_validate_directives_in_selections n env variables False nested
                                    (errors, seen)
                              | None \<Rightarrow> Inr (errors, seen))
                    | _ \<Rightarrow> Inr (errors, seen))
                 else Inr (errors, seen)) (\<lambda>(errors, seen).
            case selection_array selection of
              Some nested \<Rightarrow>
                gql_validation_validate_directives_in_selections n env variables structure nested (errors, seen)
            | None \<Rightarrow> Inr (errors, seen))) (hashes selections) s"

definition directive_frames :: "hv \<Rightarrow> sv list \<Rightarrow> nat" where
  "directive_frames fragments selections = Suc (size (AV selections) + budget fragments [])"

definition definition_place :: "hv \<Rightarrow> string" where
  "definition_place node =
     (if text_at node ''kind'' = ''operation'' then
        (if text_at node ''operationType'' = ''mutation'' then ''MUTATION''
         else if text_at node ''operationType'' = ''subscription'' then ''SUBSCRIPTION'' else ''QUERY'')
      else ''FRAGMENT_DEFINITION'')"

definition variable_directive_errors :: "validation_env \<Rightarrow> hv \<Rightarrow> sv list" where
  "variable_directive_errors env variables =
     concat (map (\<lambda>(_, v).
       case v of
         HV d \<Rightarrow>
           gql_validation_validate_directive_list env (hv_fetch d ''directives'') ''VARIABLE_DEFINITION''
             (Some variables) True
       | _ \<Rightarrow> []) variables)"

definition node_directive_errors :: "validation_env \<Rightarrow> hv \<Rightarrow> gql_error + sv list" where
  "node_directive_errors env node =
     (if fetch_ok node ''kind'' = None then Inr []
      else
        let operation = (text_at node ''kind'' = ''operation'');
            variables = (if operation then fetch_hv node ''variables'' else None);
            seen = (if operation then Some [] else None);
            errors =
              (case variables of Some vs \<Rightarrow> variable_directive_errors env vs | None \<Rightarrow> []) @
              gql_validation_validate_directive_list env (hv_fetch node ''directives'')
                (definition_place node) variables True
        in case selection_array node of
             Some selections \<Rightarrow>
               bnd (gql_validation_validate_directives_in_selections
                      (directive_frames (env_fragments env) selections) env variables True selections
                      (errors, seen)) (\<lambda>(errors, _). Inr errors)
           | None \<Rightarrow> Inr errors)"

definition gql_validation_validate_document_directives :: "validation_env \<Rightarrow> sv list \<Rightarrow> gql_error + sv list" where
  "gql_validation_validate_document_directives env ast =
     each (\<lambda>node errors. bnd (node_directive_errors env node) (\<lambda>es. Inr (errors @ es))) (hashes ast) []"

end
