(* ===== verification/Validation_Cost.thy ===== *)
theory Validation_Cost
  imports Validation_Selections
begin

text \<open>
  The cost limit of \<^verbatim>\<open>src/validation.h\<close>: \<^verbatim>\<open>cost_add\<close>, \<^verbatim>\<open>selection_cost\<close> and \<^verbatim>\<open>check_cost\<close>. Costs are
  64-bit unsigned (\<^verbatim>\<open>UV\<close>), with the saturation the code writes out: \<^verbatim>\<open>max_cost + 1\<close> stands for
  every cost above the limit.
\<close>

section \<open>Adding up\<close>

definition gql_validation_cost_add :: "uv \<Rightarrow> uv \<Rightarrow> uv \<Rightarrow> uv" where
  "gql_validation_cost_add acc add max_cost = (if add > max_cost - acc then max_cost + 1 else acc + add)"

text \<open>\<^verbatim>\<open>SvUV\<close> of an integer scalar; the compiled schema holds integers.\<close>

definition SvUV :: "sv \<Rightarrow> uv" where
  "SvUV s = (case s of IV n \<Rightarrow> word_of_int n | _ \<Rightarrow> 0)"

text \<open>
  The part of the total a field adds: its own cost, then the children as often as the list
  is long. \<open>Inl\<close> is the early return.
\<close>

definition add_field_cost :: "uv \<Rightarrow> uv \<Rightarrow> uv \<Rightarrow> uv \<Rightarrow> uv \<Rightarrow> uv + uv" where
  "add_field_cost max_cost acc own_cost multiplier child_cost =
     (let acc = gql_validation_cost_add acc own_cost max_cost
      in if acc > max_cost then Inl acc
         else if child_cost \<noteq> 0 \<and> multiplier > (max_cost - acc) div child_cost then Inl (max_cost + 1)
         else
           let acc = (if child_cost \<noteq> 0 then acc + multiplier * child_cost else acc)
           in if acc > max_cost then Inl acc else Inr acc)"

section \<open>Selections\<close>

text \<open>Own cost and multiplier of a field, and whether it is a list.\<close>

definition field_own_cost :: "hv \<Rightarrow> uv" where
  "field_own_cost field = (case fetch_ok field ''cost'' of Some c \<Rightarrow> SvUV c | None \<Rightarrow> 1)"

definition field_is_list :: "hv \<Rightarrow> bool" where
  "field_is_list field =
     (case hv_fetch field ''type'' of Some t \<Rightarrow> gql_validation_type_is_list t | None \<Rightarrow> False)"

definition field_multiplier :: "uv \<Rightarrow> hv \<Rightarrow> uv" where
  "field_multiplier default_list_size field =
     (if field_is_list field then
        (case fetch_ok field ''list_size'' of Some s \<Rightarrow> SvUV s | None \<Rightarrow> default_list_size)
      else 1)"

text \<open>
  The loop with its early returns: the result of a round is \<open>Inl\<close> of the final cost or
  \<open>Inr\<close> of the running total, inside the sum for the budget of calls.
\<close>

fun cost_loop :: "('a \<Rightarrow> uv \<Rightarrow> gql_error + (uv + uv)) \<Rightarrow> 'a list \<Rightarrow> uv \<Rightarrow> gql_error + uv" where
  "cost_loop f [] acc = Inr acc"
| "cost_loop f (x # xs) acc =
     bnd (f x acc) (\<lambda>r. case r of Inl cost \<Rightarrow> Inr cost | Inr acc \<Rightarrow> cost_loop f xs acc)"

lemma cost_loop_cong [fundef_cong]:
  "xs = ys \<Longrightarrow> t = u \<Longrightarrow> (\<And>x v. x \<in> set ys \<Longrightarrow> f x v = g x v) \<Longrightarrow> cost_loop f xs t = cost_loop g ys u"
proof (induction xs arbitrary: ys t u)
  case Nil
  then show ?case by simp
next
  case (Cons x xs)
  then have "cost_loop f xs v = cost_loop g xs v" for v by (intro Cons.IH) auto
  then have "cost_loop f xs = cost_loop g xs" by (rule ext)
  with Cons.prems show ?case by auto
qed

definition checked_total :: "uv \<Rightarrow> uv \<Rightarrow> uv + uv" where
  "checked_total max_cost acc = (if acc > max_cost then Inl acc else Inr acc)"

definition cost_field :: "sv \<Rightarrow> sv option \<Rightarrow> hv \<Rightarrow> hv option" where
  "cost_field compiled parent selection =
     (case (Option.bind (gql_validation_compiled_type_hv compiled parent) (\<lambda>p. fetch_hv p ''fields''),
            hv_fetch selection ''name'') of
        (Some fs, Some name) \<Rightarrow> fetch_hv fs (SvPV name)
      | _ \<Rightarrow> None)"

fun gql_validation_selection_cost ::
  "nat \<Rightarrow> sv \<Rightarrow> hv \<Rightarrow> uv \<Rightarrow> uv \<Rightarrow> sv list \<Rightarrow> sv option \<Rightarrow> hv \<Rightarrow> gql_error + uv" where
  "gql_validation_selection_cost 0 compiled fragments default_list_size max_cost selections parent seen =
     Inl Out_Of_Fuel"
| "gql_validation_selection_cost (Suc n) compiled fragments default_list_size max_cost selections parent seen =
     cost_loop (\<lambda>selection acc.
       if node_kind selection = Some ''field'' then
         (case cost_field compiled parent selection of
            None \<Rightarrow> Inr (add_field_cost max_cost acc 1 1 0)
          | Some field \<Rightarrow>
              bnd (case (hv_fetch field ''type'', selection_array selection) of
                     (Some t, Some nested) \<Rightarrow>
                       gql_validation_selection_cost n compiled fragments default_list_size max_cost nested
                         (gql_validation_named_type_name_sv t) seen
                   | _ \<Rightarrow> Inr 0) (\<lambda>child_cost.
              let child_cost = (if field_is_list field \<and> child_cost = 0 then 1 else child_cost)
              in Inr (add_field_cost max_cost acc (field_own_cost field)
                        (field_multiplier default_list_size field) child_cost)))
       else if node_kind selection = Some ''inline_fragment'' then
         (case selection_array selection of
            None \<Rightarrow> Inr (Inr acc)
          | Some nested \<Rightarrow>
              bnd (gql_validation_selection_cost n compiled fragments default_list_size max_cost nested
                     (case fetch_ok selection ''on'' of Some on \<Rightarrow> Some on | None \<Rightarrow> parent) seen) (\<lambda>nested_cost.
              Inr (checked_total max_cost (gql_validation_cost_add acc nested_cost max_cost))))
       else if node_kind selection = Some ''fragment_spread'' then
         (case fetch_ok selection ''name'' of
            None \<Rightarrow> Inr (Inr acc)
          | Some name \<Rightarrow>
              if hv_exists seen (SvPV name) then Inr (Inr acc)
              else
                (case fragment_at fragments name of
                   None \<Rightarrow> Inr (Inr acc)
                 | Some fragment \<Rightarrow>
                     (case selection_array fragment of
                        None \<Rightarrow> Inr (checked_total max_cost acc)
                      | Some nested \<Rightarrow>
                          bnd (gql_validation_selection_cost n compiled fragments default_list_size max_cost
                                 nested (case fetch_ok fragment ''on'' of Some on \<Rightarrow> Some on | None \<Rightarrow> parent)
                                 (hv_store seen (SvPV name) (IV 1))) (\<lambda>nested_cost.
                          Inr (checked_total max_cost (gql_validation_cost_add acc nested_cost max_cost))))))
       else Inr (Inr acc)) (hashes selections) 0"

definition cost_frames :: "hv \<Rightarrow> sv list \<Rightarrow> nat" where
  "cost_frames fragments selections = Suc (size (AV selections) + budget fragments [])"

section \<open>The check\<close>

definition cost_error :: "uv \<Rightarrow> hv \<Rightarrow> sv" where
  "cost_error max_cost operation =
     gql_validation_error
       (''Query cost exceeds maximum of '' @ dec_int (uint max_cost) @ '' in '' @
          (case fetch_ok operation ''name'' of Some n \<Rightarrow> SvPV n | None \<Rightarrow> ''anonymous'') @ '' operation'') None"

text \<open>Which operations are checked: all, or those with the name the options give.\<close>

definition operation_selected :: "sv option \<Rightarrow> hv \<Rightarrow> bool" where
  "operation_selected operation_name node \<longleftrightarrow>
     text_at node ''kind'' = ''operation'' \<and>
     (case operation_name of
        Some wanted \<Rightarrow>
          SvOK wanted \<longrightarrow>
          (case fetch_ok node ''name'' of Some name \<Rightarrow> sv_eq name wanted | None \<Rightarrow> False)
      | None \<Rightarrow> True)"

definition cost_root :: "sv \<Rightarrow> hv \<Rightarrow> sv option" where
  "cost_root compiled node =
     (case gql_validation_compiled_hv_from_sv compiled of
        Some h \<Rightarrow>
          (case fetch_hv h ''roots'' of
             Some roots \<Rightarrow> hv_fetch roots (operation_type_text node) | None \<Rightarrow> None)
      | None \<Rightarrow> None)"

definition operation_cost_errors ::
  "sv \<Rightarrow> hv \<Rightarrow> uv \<Rightarrow> uv \<Rightarrow> sv option \<Rightarrow> hv \<Rightarrow> gql_error + sv list" where
  "operation_cost_errors compiled fragments default_list_size max_cost operation_name node =
     (if \<not> operation_selected operation_name node then Inr []
      else
        case (cost_root compiled node, selection_array node) of
          (Some root, Some selections) \<Rightarrow>
            bnd (gql_validation_selection_cost (cost_frames fragments selections) compiled fragments
                   default_list_size max_cost selections (Some root) []) (\<lambda>cost.
            Inr (if cost > max_cost then [cost_error max_cost node] else []))
        | _ \<Rightarrow> Inr [])"

definition cost_errors :: "sv \<Rightarrow> sv list \<Rightarrow> uv \<Rightarrow> uv \<Rightarrow> sv option \<Rightarrow> gql_error + sv list" where
  "cost_errors compiled ast default_list_size max_cost operation_name =
     each (\<lambda>node errors.
       bnd (operation_cost_errors compiled (gql_validation_build_fragments_map ast) default_list_size
              max_cost operation_name node) (\<lambda>es. Inr (errors @ es))) (hashes ast) []"

text \<open>\<^verbatim>\<open>SvIV\<close> of an integer scalar, and the options in the order the code checks them.\<close>

definition option_int :: "sv option \<Rightarrow> int option" where
  "option_int s = (case s of Some (IV n) \<Rightarrow> Some n | _ \<Rightarrow> None)"

definition gql_validation_check_cost :: "sv \<Rightarrow> (gql_error + sv) \<Rightarrow> sv option \<Rightarrow> gql_error + sv list" where
  "gql_validation_check_cost compiled document options =
     (case options of
        Some (HV opts) \<Rightarrow>
          (case option_int (hv_fetch opts ''max_cost'') of
             None \<Rightarrow> Inl (Croak ''max_cost must be a non-negative integer'')
           | Some m \<Rightarrow>
               if m < 0 then Inl (Croak ''max_cost must be a non-negative integer'')
               else
                 (case (hv_fetch opts ''default_list_size'', option_int (hv_fetch opts ''default_list_size'')) of
                    (Some _, None) \<Rightarrow> Inl (Croak ''default_list_size must be a positive integer'')
                  | (given, given_size) \<Rightarrow>
                      let list_size = (case given_size of Some n \<Rightarrow> n | None \<Rightarrow> 10)
                      in if list_size < 1 then Inl (Croak ''default_list_size must be a positive integer'')
                         else
                           bnd document (\<lambda>ast_sv.
                           case ast_sv of
                             AV ast \<Rightarrow>
                               cost_errors compiled ast (word_of_int list_size) (word_of_int m)
                                 (hv_fetch opts ''operation_name'')
                           | _ \<Rightarrow> Inl (Croak ''not an array reference''))))
      | _ \<Rightarrow> Inl (Croak ''query cost options must be a hash reference''))"

end
