(* ===== verification/Validation_Structure_Lemmas.thy ===== *)
theory Validation_Structure_Lemmas
  imports Validation_Structure
begin

text \<open>
  Correctness of the document-level rules: the frames of the model are always enough, the
  usage collector finds exactly what is reachable through fragment spreads, the cycle
  search reports an error exactly when the spread graph has a cycle, and the name rules
  are silent exactly on documents with proper names.
\<close>

section \<open>The budget of a search through fragments\<close>

abbreviation keys :: "hv \<Rightarrow> string set" where
  "keys h \<equiv> ph.key_set h"

lemma hv_exists_keys: "hv_exists h k \<longleftrightarrow> k \<in> keys h"
  by (simp add: hv_exists_def ph.key_set_def)

lemma keys_store [simp]: "keys (hv_store h k v) = insert k (keys h)"
  by (rule ph.key_set_store)

lemma keys_Nil [simp]: "keys [] = {}"
  by (rule ph.key_set_empty)

lemma budget_mono: "keys s \<subseteq> keys t \<Longrightarrow> budget fr t \<le> budget fr s"
  unfolding budget_def hv_exists_keys by (induction fr) auto

lemma budget_store:
  "hv_fetch fr k = Some f \<Longrightarrow> k \<notin> keys s \<Longrightarrow> budget fr (hv_store s k v) + size f \<le> budget fr s"
proof (induction fr)
  case Nil
  then show ?case by simp
next
  case (Cons e fr)
  obtain k' f' where e: "e = (k', f')" by (cases e)
  show ?case
  proof (cases "k' = k")
    case True
    have "budget fr (hv_store s k v) \<le> budget fr s" by (rule budget_mono) auto
    with Cons.prems e True show ?thesis by (simp add: budget_def hv_exists_keys hv_fetch_Cons)
  next
    case False
    with Cons e show ?thesis by (simp add: budget_def hv_exists_keys hv_fetch_Cons)
  qed
qed

section \<open>What a node uses\<close>

text \<open>The variables and spreads written in a node itself, and what its spreads lead to.\<close>

definition skipped_key :: "string \<Rightarrow> bool" where
  "skipped_key key \<longleftrightarrow> key = ''variables'' \<or> key = ''location''"

fun direct_variables :: "sv \<Rightarrow> string list" where
  "direct_variables (Ref inner) = (if SvROK inner then [] else [SvPV inner])"
| "direct_variables (CV c) = [SvPV (CV c)]"
| "direct_variables (AV items) = concat (map direct_variables items)"
| "direct_variables (HV h) = concat (map (\<lambda>(k, v). if skipped_key k then [] else direct_variables v) h)"
| "direct_variables _ = []"

fun direct_spreads :: "sv \<Rightarrow> string list" where
  "direct_spreads (AV items) = concat (map direct_spreads items)"
| "direct_spreads (HV h) =
     (case spread_name h of Some name \<Rightarrow> [SvPV name] | None \<Rightarrow> []) @
     concat (map (\<lambda>(k, v). if skipped_key k then [] else direct_spreads v) h)"
| "direct_spreads _ = []"

definition fragment_body :: "hv \<Rightarrow> string \<Rightarrow> sv" where
  "fragment_body fragments name =
     (case hv_fetch fragments name of
        Some (HV h) \<Rightarrow> (case hv_fetch h ''selections'' of Some s \<Rightarrow> s | None \<Rightarrow> Undef)
      | _ \<Rightarrow> Undef)"

inductive reaches :: "hv \<Rightarrow> sv \<Rightarrow> string \<Rightarrow> bool" for fragments node where
  direct: "f \<in> set (direct_spreads node) \<Longrightarrow> reaches fragments node f"
| step: "reaches fragments node f \<Longrightarrow> g \<in> set (direct_spreads (fragment_body fragments f)) \<Longrightarrow>
    reaches fragments node g"

definition uses :: "hv \<Rightarrow> sv \<Rightarrow> string \<Rightarrow> bool" where
  "uses fragments node v \<longleftrightarrow> v \<in> set (direct_variables node) \<or>
     (\<exists>f. reaches fragments node f \<and> v \<in> set (direct_variables (fragment_body fragments f)))"

lemma reaches_body:
  "f \<in> set (direct_spreads node) \<Longrightarrow> reaches fr (fragment_body fr f) g \<Longrightarrow> reaches fr node g"
  by (rotate_tac, induction rule: reaches.induct) (auto intro: reaches.intros)

lemma reaches_part:
  "set (direct_spreads part) \<subseteq> set (direct_spreads node) \<Longrightarrow> reaches fr part g \<Longrightarrow> reaches fr node g"
  by (rotate_tac, induction rule: reaches.induct) (auto intro: reaches.intros)

lemma uses_part:
  "set (direct_spreads part) \<subseteq> set (direct_spreads node) \<Longrightarrow>
    set (direct_variables part) \<subseteq> set (direct_variables node) \<Longrightarrow> uses fr part v \<Longrightarrow> uses fr node v"
  by (auto simp: uses_def intro: reaches_part)

lemma uses_body: "f \<in> set (direct_spreads node) \<Longrightarrow> uses fr (fragment_body fr f) v \<Longrightarrow> uses fr node v"
  by (auto simp: uses_def intro: reaches.direct reaches_body)

text \<open>What one call of the collector has done, from a state to a later one.\<close>

definition covers :: "sv \<Rightarrow> usage \<Rightarrow> bool" where
  "covers node u \<longleftrightarrow> set (direct_variables node) \<subseteq> keys (used_variables u) \<and>
     set (direct_spreads node) \<subseteq> keys (spreads u)"

definition extends :: "usage \<Rightarrow> usage \<Rightarrow> bool" where
  "extends u u' \<longleftrightarrow> keys (used_variables u) \<subseteq> keys (used_variables u') \<and>
     keys (spreads u) \<subseteq> keys (spreads u') \<and> keys (visited u) \<subseteq> keys (visited u')"

definition explored :: "hv \<Rightarrow> usage \<Rightarrow> usage \<Rightarrow> bool" where
  "explored fr u u' \<longleftrightarrow> extends u u' \<and>
     (\<forall>f \<in> keys (visited u') - keys (visited u). covers (fragment_body fr f) u') \<and>
     (\<forall>f \<in> keys (spreads u') - keys (spreads u). f \<in> keys (visited u'))"

definition within :: "hv \<Rightarrow> sv \<Rightarrow> usage \<Rightarrow> usage \<Rightarrow> bool" where
  "within fr node u u' \<longleftrightarrow>
     (\<forall>v \<in> keys (used_variables u') - keys (used_variables u). uses fr node v) \<and>
     (\<forall>f \<in> keys (spreads u') - keys (spreads u). reaches fr node f)"

lemma extends_refl [simp]: "extends u u"
  by (simp add: extends_def)

lemma extends_trans: "extends u v \<Longrightarrow> extends v w \<Longrightarrow> extends u w"
  by (auto simp: extends_def)

lemma covers_extends: "covers node u \<Longrightarrow> extends u u' \<Longrightarrow> covers node u'"
  by (auto simp: covers_def extends_def)

lemma explored_refl [simp]: "explored fr u u"
  by (simp add: explored_def)

lemma explored_trans: "explored fr u v \<Longrightarrow> explored fr v w \<Longrightarrow> explored fr u w"
  unfolding explored_def
  by (meson DiffD1 DiffD2 DiffI covers_extends extends_def extends_trans in_mono)

lemma within_refl [simp]: "within fr node u u"
  by (simp add: within_def)

lemma within_trans: "within fr node u v \<Longrightarrow> within fr node v w \<Longrightarrow> within fr node u w"
  by (auto simp: within_def)

definition searched :: "hv \<Rightarrow> sv \<Rightarrow> usage \<Rightarrow> usage \<Rightarrow> bool" where
  "searched fr node u u' \<longleftrightarrow> explored fr u u' \<and> covers node u' \<and> within fr node u u'"

lemma within_part:
  assumes "set (direct_spreads part) \<subseteq> set (direct_spreads node)"
    "set (direct_variables part) \<subseteq> set (direct_variables node)"
  shows "within fr part u u' \<Longrightarrow> within fr node u u'"
  using reaches_part [OF assms(1)] uses_part [OF assms] by (auto simp: within_def)

lemma explored_budget: "explored fr u s \<Longrightarrow> budget fr (visited s) \<le> budget fr (visited u)"
  by (auto simp: explored_def extends_def intro: budget_mono)

text \<open>The loop over the parts of a node, for arrays and for hashes.\<close>

lemma each_searched:
  assumes "explored fr u0 u" "within fr node u0 u"
    and "\<And>x s. x \<in> set xs \<Longrightarrow> explored fr u0 s \<Longrightarrow> ok_but e (f x s) (\<lambda>s'. \<exists>p \<in> parts x. searched fr p s s')"
    and "\<And>x p. x \<in> set xs \<Longrightarrow> p \<in> parts x \<Longrightarrow> set (direct_spreads p) \<subseteq> set (direct_spreads node) \<and>
      set (direct_variables p) \<subseteq> set (direct_variables node)"
    and "\<And>s. explored fr u0 s \<Longrightarrow> within fr node u0 s \<Longrightarrow> extends u s \<Longrightarrow>
      \<forall>x \<in> set xs. \<exists>p \<in> parts x. covers p s \<Longrightarrow> P s"
  shows "ok_but e (each f xs u) P"
proof (rule each_progress [where J = "\<lambda>ys s. explored fr u0 s \<and> within fr node u0 s \<and> extends u s \<and>
    (\<forall>y \<in> set ys. \<exists>p \<in> parts y. covers p s)"])
  show "explored fr u0 u \<and> within fr node u0 u \<and> extends u u \<and> (\<forall>y \<in> set []. \<exists>p \<in> parts y. covers p u)"
    using assms(1,2) by simp
next
  fix x ys s
  assume x: "x \<in> set xs"
    and J: "explored fr u0 s \<and> within fr node u0 s \<and> extends u s \<and> (\<forall>y \<in> set ys. \<exists>p \<in> parts y. covers p s)"
  from assms(3) [OF x conjunct1 [OF J]]
  show "ok_but e (f x s) (\<lambda>s'. explored fr u0 s' \<and> within fr node u0 s' \<and> extends u s' \<and>
      (\<forall>y \<in> set (x # ys). \<exists>p \<in> parts y. covers p s'))"
  proof (rule ok_but_weaken)
    fix s'
    assume "\<exists>p \<in> parts x. searched fr p s s'"
    then obtain p where p: "p \<in> parts x" "searched fr p s s'" by blast
    have "extends s s'" using p(2) by (simp add: searched_def explored_def)
    moreover have "within fr node s s'"
      using p(2) assms(4) [OF x p(1)] by (auto simp: searched_def intro: within_part)
    ultimately show "explored fr u0 s' \<and> within fr node u0 s' \<and> extends u s' \<and>
        (\<forall>y \<in> set (x # ys). \<exists>p \<in> parts y. covers p s')"
      using J p by (auto simp: searched_def intro: explored_trans within_trans extends_trans covers_extends)
  qed
next
  fix s
  assume "explored fr u0 s \<and> within fr node u0 s \<and> extends u s \<and>
    (\<forall>y \<in> set (rev xs). \<exists>p \<in> parts y. covers p s)"
  then show "P s" by (intro assms(5)) auto
qed

text \<open>The jump into a fragment that has not been visited.\<close>

definition jump :: "nat \<Rightarrow> hv \<Rightarrow> hv \<Rightarrow> usage \<Rightarrow> gql_error + usage" where
  "jump n fragments h u =
     (case spread_name h of
        None \<Rightarrow> Inr u
      | Some name \<Rightarrow>
          let u = u\<lparr>spreads := hv_store (spreads u) (SvPV name) (IV 1)\<rparr>
          in if hv_exists (visited u) (SvPV name) then Inr u
             else
               let u = u\<lparr>visited := hv_store (visited u) (SvPV name) (IV 1)\<rparr>
               in case fragment_at fragments name of
                    None \<Rightarrow> Inr u
                  | Some fragment \<Rightarrow>
                      (case hv_fetch fragment ''selections'' of
                         None \<Rightarrow> Inr u
                       | Some selections \<Rightarrow> gql_validation_collect_usage n fragments selections u))"

definition jumped :: "hv \<Rightarrow> hv \<Rightarrow> usage \<Rightarrow> usage \<Rightarrow> bool" where
  "jumped fr h u u' \<longleftrightarrow> explored fr u u' \<and> within fr (HV h) u u' \<and>
     (\<forall>name. spread_name h = Some name \<longrightarrow> SvPV name \<in> keys (spreads u'))"

lemma fragment_body_simps:
  "fragment_at fr name = None \<Longrightarrow> fragment_body fr (SvPV name) = Undef"
  "fragment_at fr name = Some f \<Longrightarrow> hv_fetch f ''selections'' = None \<Longrightarrow> fragment_body fr (SvPV name) = Undef"
  "fragment_at fr name = Some f \<Longrightarrow> hv_fetch f ''selections'' = Some s \<Longrightarrow> fragment_body fr (SvPV name) = s"
  by (auto simp: fragment_body_def fragment_at_def split: option.splits sv.splits)

lemma covers_Undef [simp]: "covers Undef u"
  by (simp add: covers_def)

lemma jumpedI:
  assumes "spread_name h = Some name" "SvPV name \<notin> keys (visited u)"
    and "explored fr (u\<lparr>spreads := hv_store (spreads u) (SvPV name) x, visited := hv_store (visited u) (SvPV name) y\<rparr>) u'"
    and "covers (fragment_body fr (SvPV name)) u'"
    and "within fr (fragment_body fr (SvPV name))
      (u\<lparr>spreads := hv_store (spreads u) (SvPV name) x, visited := hv_store (visited u) (SvPV name) y\<rparr>) u'"
  shows "jumped fr h u u'"
proof -
  have d: "SvPV name \<in> set (direct_spreads (HV h))" using assms(1) by simp
  have "explored fr u u'" using assms(3,4) by (auto simp: explored_def extends_def)
  moreover have "within fr (HV h) u u'"
    using assms(5) reaches_body [OF d, of fr] uses_body [OF d, of fr] reaches.direct [OF d, of fr]
    by (auto simp: within_def)
  ultimately show ?thesis using assms(1,3) by (auto simp: jumped_def explored_def extends_def)
qed

lemma jump_ok:
  assumes IH: "\<And>node u. size node + budget fr (visited u) < n \<Longrightarrow>
      ok_but e (gql_validation_collect_usage n fr node u) (searched fr node u)"
    and n: "budget fr (visited u) \<le> n"
  shows "ok_but e (jump n fr h u) (jumped fr h u)"
proof (cases "spread_name h")
  case None
  then show ?thesis by (simp add: jump_def jumped_def)
next
  case (Some name)
  let ?k = "SvPV name"
  show ?thesis
  proof (cases "?k \<in> keys (visited u)")
    case True
    have "reaches fr (HV h) ?k" using Some by (intro reaches.direct) simp
    with True Some show ?thesis
      by (auto simp: jump_def jumped_def Let_def hv_exists_keys explored_def extends_def within_def covers_def)
  next
    case False
    let ?u = "u\<lparr>spreads := hv_store (spreads u) ?k (IV 1), visited := hv_store (visited u) ?k (IV 1)\<rparr>"
    have triv: "jumped fr h u ?u" if "fragment_body fr ?k = Undef"
      using that by (intro jumpedI [OF Some False, where x = "IV 1" and y = "IV 1"]) auto
    show ?thesis
    proof (cases "fragment_at fr name")
      case None
      then show ?thesis
        using Some False triv by (simp add: jump_def Let_def hv_exists_keys fragment_body_simps)
    next
      case f: (Some fragment)
      then have fetch: "hv_fetch fr ?k = Some (HV fragment)"
        by (auto simp: fragment_at_def split: option.splits sv.splits)
      show ?thesis
      proof (cases "hv_fetch fragment ''selections''")
        case None
        then show ?thesis
          using Some False f triv by (simp add: jump_def Let_def hv_exists_keys fragment_body_simps)
      next
        case s: (Some sel)
        have "size sel + budget fr (visited ?u) < n"
          using size_hv_fetch [OF s] budget_store [OF fetch False, of "IV 1"] n by simp
        from IH [OF this] have "ok_but e (gql_validation_collect_usage n fr sel ?u) (jumped fr h u)"
          by (rule ok_but_weaken)
            (auto simp: searched_def fragment_body_simps(3) [OF f s] intro!: jumpedI [OF Some False])
        then show ?thesis using Some False f s by (simp add: jump_def Let_def hv_exists_keys)
      qed
    qed
  qed
qed

lemma direct_part:
  assumes "(k, v) \<in> set h" "\<not> skipped_key k"
  shows "x \<in> set (direct_spreads v) \<Longrightarrow> x \<in> set (direct_spreads (HV h))"
    and "x \<in> set (direct_variables v) \<Longrightarrow> x \<in> set (direct_variables (HV h))"
  using assms by (auto intro!: bexI [where x = "(k, v)"])

lemma collect_usage_searched:
  "size node + budget fr (visited u) < n \<Longrightarrow>
    ok_but e (gql_validation_collect_usage n fr node u) (searched fr node u)"
proof (induction n arbitrary: node u)
  case 0
  then show ?case by simp
next
  case (Suc n)
  have flat: "ok_but e (gql_validation_collect_usage (Suc n) fr node u) (searched fr node u)"
    if "\<And>h. node \<noteq> HV h" "\<And>xs. node \<noteq> AV xs"
    using that by (cases node)
      (auto simp: searched_def explored_def extends_def within_def covers_def uses_def)
  show ?case
  proof (cases node)
    case (AV items)
    have "ok_but e (each (gql_validation_collect_usage n fr) items u) (searched fr node u)"
    proof (rule each_searched [where node = node and ?u0.0 = u and parts = "\<lambda>x. {x}"])
      fix x s
      assume x: "x \<in> set items" and s: "explored fr u s"
      have "size x + budget fr (visited s) < n"
        using Suc.prems size_AV_mem [OF x] explored_budget [OF s] AV by simp
      from Suc.IH [OF this]
      show "ok_but e (gql_validation_collect_usage n fr x s) (\<lambda>s'. \<exists>p \<in> {x}. searched fr p s s')" by simp
    qed (use AV in \<open>auto simp: searched_def covers_def\<close>)
    with AV show ?thesis by simp
  next
    case (HV h)
    let ?body = "\<lambda>(key, v) u. if key = ''variables'' \<or> key = ''location'' then Inr u
        else gql_validation_collect_usage n fr v u"
    have "budget fr (visited u) \<le> n" using Suc.prems by simp
    with Suc.IH have "ok_but e (jump n fr h u) (jumped fr h u)" by (intro jump_ok) auto
    moreover have "ok_but e (each ?body h u1) (searched fr node u)" if "jumped fr h u u1" for u1
    proof (rule each_searched [where node = node and ?u0.0 = u and
          parts = "\<lambda>(k, v). if skipped_key k then {Undef} else {v}"])
      show "explored fr u u1" "within fr node u u1" using that HV by (auto simp: jumped_def)
    next
      fix x s
      assume x: "x \<in> set h" and s: "explored fr u s"
      obtain k v where kv: "x = (k, v)" by (cases x)
      have "size v + budget fr (visited s) < n"
        using Suc.prems size_HV_mem [of k v h] x kv explored_budget [OF s] HV by simp
      from Suc.IH [OF this] kv
      show "ok_but e (?body x s) (\<lambda>s'. \<exists>p \<in> (case x of (k, v) \<Rightarrow> if skipped_key k then {Undef} else {v}). searched fr p s s')"
        by (auto simp: skipped_key_def searched_def)
    next
      fix s
      assume "explored fr u s" "within fr node u s" "extends u1 s"
        "\<forall>x \<in> set h. \<exists>p \<in> (case x of (k, v) \<Rightarrow> if skipped_key k then {Undef} else {v}). covers p s"
      with that HV show "searched fr node u s"
        by (fastforce simp: searched_def covers_def jumped_def extends_def split: if_splits option.splits)
    qed (use direct_part in \<open>auto simp: HV simp del: direct_spreads.simps(2) direct_variables.simps(4) split: if_splits\<close>)
    ultimately show ?thesis
      using HV by (auto simp: jump_def intro!: ok_but_bnd)
  qed (use flat in auto)
qed

lemma searched_complete:
  assumes "searched fr node no_usage u"
  shows "hv_exists (used_variables u) v \<longleftrightarrow> uses fr node v"
    and "hv_exists (spreads u) f \<longleftrightarrow> reaches fr node f"
proof -
  have c: "g \<in> keys (spreads u)" if "reaches fr node g" for g
    using that
  proof induction
    case (direct f)
    with assms show ?case by (auto simp: searched_def covers_def)
  next
    case (step f g)
    with assms show ?case by (auto simp: searched_def explored_def covers_def no_usage_def)
  qed
  show "hv_exists (spreads u) f \<longleftrightarrow> reaches fr node f"
    using assms c by (auto simp: searched_def within_def hv_exists_keys no_usage_def)
  have "v \<in> keys (used_variables u)" if "uses fr node v"
  proof -
    from that consider "v \<in> set (direct_variables node)"
      | f where "reaches fr node f" "v \<in> set (direct_variables (fragment_body fr f))"
      by (auto simp: uses_def)
    then show ?thesis
    proof cases
      case 1
      with assms show ?thesis by (auto simp: searched_def covers_def)
    next
      case 2
      with assms c [OF 2(1)] show ?thesis by (auto simp: searched_def explored_def covers_def no_usage_def)
    qed
  qed
  with assms show "hv_exists (used_variables u) v \<longleftrightarrow> uses fr node v"
    by (auto simp: searched_def within_def hv_exists_keys no_usage_def)
qed

lemma collect_usage_runs:
  "\<exists>u. gql_validation_collect_usage (usage_frames fragments node) fragments node no_usage = Inr u \<and>
     (\<forall>v. hv_exists (used_variables u) v \<longleftrightarrow> uses fragments node v) \<and>
     (\<forall>f. hv_exists (spreads u) f \<longleftrightarrow> reaches fragments node f)"
proof -
  have "ok_but e (gql_validation_collect_usage (usage_frames fragments node) fragments node no_usage)
      (searched fragments node no_usage)" for e
    by (rule collect_usage_searched) (simp add: usage_frames_def no_usage_def)
  from ok_but_all [OF this] searched_complete show ?thesis by blast
qed

text \<open>The two passes over the document, for the errors they report.\<close>

definition variable_names :: "hv \<Rightarrow> string list" where
  "variable_names operation =
     (case hv_fetch operation ''variables'' of Some (HV defs) \<Rightarrow> map fst defs | _ \<Rightarrow> [])"

lemma unused_variable_errors_Nil:
  "unused_variable_errors used operation = [] \<longleftrightarrow> (\<forall>v \<in> set (variable_names operation). hv_exists used v)"
  by (auto simp: unused_variable_errors_def variable_names_def case_prod_unfold
      split: option.splits sv.splits)

lemma unused_fragment_errors_Nil:
  "unused_fragment_errors reachable ast = [] \<longleftrightarrow>
     (\<forall>(name, _) \<in> set (named_fragments (hashes ast)). hv_exists reachable (SvPV name))"
  by (auto simp: unused_fragment_errors_def case_prod_unfold)

lemma keys_foldl_names: "keys (foldl (\<lambda>r (name, _). hv_store r name x) r ns) = keys r \<union> fst ` set ns"
  by (induction ns arbitrary: r) auto

lemma usage_loop:
  "ok_but e (each (\<lambda>operation (reachable, errors).
        bnd (gql_validation_collect_usage (usage_frames fragments (HV operation)) fragments
               (HV operation) no_usage) (\<lambda>u.
        Inr (foldl (\<lambda>r (name, _). hv_store r name (IV 1)) reachable (spreads u),
             errors @ unused_variable_errors (used_variables u) operation))) operations ([], []))
     (\<lambda>(reachable, errors).
        keys reachable = {f. \<exists>op \<in> set operations. reaches fragments (HV op) f} \<and>
        (errors = [] \<longleftrightarrow>
          (\<forall>op \<in> set operations. \<forall>v \<in> set (variable_names op). uses fragments (HV op) v)))"
proof (rule each_progress [where J = "\<lambda>ops (reachable, errors).
    keys reachable = {f. \<exists>op \<in> set ops. reaches fragments (HV op) f} \<and>
    (errors = [] \<longleftrightarrow> (\<forall>op \<in> set ops. \<forall>v \<in> set (variable_names op). uses fragments (HV op) v))"])
  fix op ops and s :: "hv \<times> sv list"
  assume J: "case s of (reachable, errors) \<Rightarrow>
    keys reachable = {f. \<exists>op \<in> set ops. reaches fragments (HV op) f} \<and>
    (errors = [] \<longleftrightarrow> (\<forall>op \<in> set ops. \<forall>v \<in> set (variable_names op). uses fragments (HV op) v))"
  obtain u where u: "gql_validation_collect_usage (usage_frames fragments (HV op)) fragments (HV op) no_usage = Inr u"
    "\<forall>v. hv_exists (used_variables u) v \<longleftrightarrow> uses fragments (HV op) v"
    "\<forall>f. hv_exists (spreads u) f \<longleftrightarrow> reaches fragments (HV op) f"
    using collect_usage_runs by blast
  have "fst ` set (spreads u) = {f. reaches fragments (HV op) f}"
    using u(3) by (auto simp: hv_exists_iff)
  with J u show "ok_but e ((\<lambda>(reachable, errors).
      bnd (gql_validation_collect_usage (usage_frames fragments (HV op)) fragments (HV op) no_usage) (\<lambda>u.
      Inr (foldl (\<lambda>r (name, _). hv_store r name (IV 1)) reachable (spreads u),
           errors @ unused_variable_errors (used_variables u) op))) s)
    (\<lambda>(reachable, errors).
      keys reachable = {f. \<exists>op' \<in> set (op # ops). reaches fragments (HV op') f} \<and>
      (errors = [] \<longleftrightarrow> (\<forall>op' \<in> set (op # ops). \<forall>v \<in> set (variable_names op'). uses fragments (HV op') v)))"
    by (cases s) (auto simp: keys_foldl_names unused_variable_errors_Nil)
qed auto


text \<open>A document: an operation that spreads a fragment, which uses the variable of the operation.\<close>

definition sample_fragment :: hv where
  "sample_fragment =
     [(''kind'', PV False ''fragment''), (''name'', PV False ''F''),
      (''selections'', AV [HV [(''kind'', PV False ''field''), (''name'', PV False ''a''),
                               (''arguments'', HV [(''i'', Ref (PV False ''x''))])]])]"

definition sample_query :: hv where
  "sample_query =
     [(''kind'', PV False ''operation''), (''variables'', HV [(''x'', HV [])]),
      (''selections'', AV [HV [(''kind'', PV False ''fragment_spread''), (''name'', PV False ''F'')]])]"

lemmas sample_document_eval = sample_fragment_def sample_query_def hv_fetch_def fetch_ok_def node_kind_def
  SvOK_def SvPOK_def SvROK_def skipped_key_def spread_name_def fragment_body_def variable_names_def

lemma sample_reaches: "reaches [(''F'', HV sample_fragment)] (HV sample_query) ''F''"
  by (rule reaches.direct) (simp add: sample_document_eval)


section \<open>Fragment cycles\<close>

definition spread_graph :: "hv \<Rightarrow> (string \<times> string) set" where
  "spread_graph fragments =
     {(f, g). \<exists>h. hv_fetch fragments f = Some (HV h) \<and> g \<in> keys fragments \<and>
        g \<in> SvPV ` set (gql_validation_collect_fragment_spreads (hv_fetch h ''selections''))}"

abbreviation marked :: "string \<Rightarrow> hv \<Rightarrow> string set" where
  "marked m state \<equiv> {k. hv_fetch state k = Some (PV False m)}"

abbreviation finished :: "hv \<Rightarrow> string set" where
  "finished \<equiv> marked ''done''"

abbreviation active :: "hv \<Rightarrow> string set" where
  "active \<equiv> marked ''visiting''"

definition state_ok :: "hv \<Rightarrow> hv \<Rightarrow> bool" where
  "state_ok fr state \<longleftrightarrow> keys state = finished state \<union> active state \<and>
     (\<forall>k \<in> active state. \<exists>h. hv_fetch fr k = Some (HV h))"

definition unmarked :: "hv \<Rightarrow> hv \<Rightarrow> nat" where
  "unmarked fr state = length (filter (\<lambda>(k, _). k \<notin> keys state) fr)"

text \<open>The finished fragments are closed under spreads and lie on no cycle.\<close>

definition settled :: "hv \<Rightarrow> hv \<Rightarrow> bool" where
  "settled fr state \<longleftrightarrow>
     (\<forall>(f, g) \<in> spread_graph fr. f \<in> finished state \<longrightarrow> g \<in> finished state) \<and>
     (\<forall>f \<in> finished state. (f, f) \<notin> (spread_graph fr)\<^sup>+)"

definition visit_post :: "hv \<Rightarrow> string set \<Rightarrow> sv list \<times> hv \<Rightarrow> sv list \<times> hv \<Rightarrow> bool" where
  "visit_post fr todo = (\<lambda>(errors, state) (errors', state').
     state_ok fr state' \<and> active state' = active state \<and> finished state \<subseteq> finished state' \<and>
     (\<exists>new. errors' = errors @ new \<and> (new \<noteq> [] \<longrightarrow> \<not> acyclic (spread_graph fr)) \<and>
        (new = [] \<longrightarrow> todo \<inter> keys fr \<subseteq> finished state' \<and> (settled fr state \<longrightarrow> settled fr state'))))"

lemma visit_post_refl: "state_ok fr state \<Longrightarrow> visit_post fr {} (errors, state) (errors, state)"
  by (simp add: visit_post_def)

lemma visit_post_trans:
  assumes "visit_post fr A s t" "visit_post fr B t u"
  shows "visit_post fr (B \<union> A) s u"
proof -
  obtain e0 s0 e1 s1 e2 s2 where st: "s = (e0, s0)" "t = (e1, s1)" "u = (e2, s2)"
    by (cases s, cases t, cases u)
  from assms(1) obtain n1 where 1: "e1 = e0 @ n1" "n1 \<noteq> [] \<longrightarrow> \<not> acyclic (spread_graph fr)"
    "n1 = [] \<longrightarrow> A \<inter> keys fr \<subseteq> finished s1 \<and> (settled fr s0 \<longrightarrow> settled fr s1)"
    "active s1 = active s0" "finished s0 \<subseteq> finished s1"
    unfolding visit_post_def st by blast
  from assms(2) obtain n2 where 2: "e2 = e1 @ n2" "n2 \<noteq> [] \<longrightarrow> \<not> acyclic (spread_graph fr)"
    "n2 = [] \<longrightarrow> B \<inter> keys fr \<subseteq> finished s2 \<and> (settled fr s1 \<longrightarrow> settled fr s2)"
    "active s2 = active s1" "finished s1 \<subseteq> finished s2" "state_ok fr s2"
    unfolding visit_post_def st by blast
  have "(n1 @ n2 \<noteq> [] \<longrightarrow> \<not> acyclic (spread_graph fr)) \<and>
    (n1 @ n2 = [] \<longrightarrow> (B \<union> A) \<inter> keys fr \<subseteq> finished s2 \<and> (settled fr s0 \<longrightarrow> settled fr s2))"
    using 1 2 by blast
  moreover have "e2 = e0 @ (n1 @ n2)" using 1 2 by simp
  moreover have "active s2 = active s0" "finished s0 \<subseteq> finished s2" using 1 2 by blast+
  ultimately show ?thesis using 2(6) unfolding visit_post_def st by blast
qed

lemma fetch_ok_marked: "hv_fetch state k = Some (PV u m) \<Longrightarrow> fetch_ok state k = Some (PV u m)"
  by (simp add: fetch_ok_def SvOK_def)

lemma unmarked_store:
  assumes "hv_fetch fr k = Some v" "k \<notin> keys state"
  shows "unmarked fr (hv_store state k x) < unmarked fr state"
  using assms
proof (induction fr)
  case Nil
  then show ?case by simp
next
  case (Cons e fr)
  have le: "unmarked fr (hv_store state k x) \<le> unmarked fr state"
    unfolding unmarked_def by (induction fr) auto
  show ?case
  proof (cases "fst e = k")
    case True
    with le Cons.prems show ?thesis by (cases e) (simp add: unmarked_def)
  next
    case False
    with Cons show ?thesis by (cases e) (auto simp: unmarked_def hv_fetch_Cons)
  qed
qed

lemma unmarked_mono: "keys s \<subseteq> keys t \<Longrightarrow> unmarked fr t \<le> unmarked fr s"
  unfolding unmarked_def by (induction fr) auto

lemma closed_trancl:
  assumes "\<forall>(f, g) \<in> R. f \<in> A \<longrightarrow> g \<in> A" "(x, y) \<in> R\<^sup>+" "x \<in> A"
  shows "y \<in> A"
  using assms(2,3) by induction (use assms(1) in auto)

text \<open>Leaving a fragment whose spreads are all finished.\<close>

lemma settled_leave:
  assumes "settled fr state" "k \<notin> finished state"
    and succ: "\<And>g. (k, g) \<in> spread_graph fr \<Longrightarrow> g \<in> finished state"
  shows "settled fr (hv_store state k (PV False ''done''))"
proof -
  let ?R = "spread_graph fr"
  have closed: "\<forall>(f, g) \<in> ?R. f \<in> finished state \<longrightarrow> g \<in> finished state"
    using assms(1) by (simp add: settled_def)
  have "(k, k) \<notin> ?R\<^sup>+"
  proof
    assume "(k, k) \<in> ?R\<^sup>+"
    then obtain g where g: "(k, g) \<in> ?R" "(g, k) \<in> ?R\<^sup>*" by (meson tranclD)
    from g(2) have "k \<in> finished state"
    proof (cases rule: rtranclE)
      case base
      with g succ show ?thesis by simp
    next
      case (step y)
      with g have "(g, k) \<in> ?R\<^sup>+" by (meson rtrancl_into_trancl1)
      from closed_trancl [OF closed this succ [OF g(1)]] show ?thesis .
    qed
    with assms(2) show False by contradiction
  qed
  moreover have fin: "finished (hv_store state k (PV False ''done'')) = insert k (finished state)"
    by auto
  moreover have "\<forall>f \<in> finished state. (f, f) \<notin> ?R\<^sup>+" using assms(1) by (simp add: settled_def)
  ultimately have "\<forall>f \<in> insert k (finished state). (f, f) \<notin> ?R\<^sup>+" by blast
  moreover have "\<forall>(f, g) \<in> ?R. f \<in> insert k (finished state) \<longrightarrow> g \<in> insert k (finished state)"
    using closed succ by auto
  ultimately show ?thesis unfolding settled_def fin by (rule conjI [rotated])
qed

lemma each_visit:
  assumes "\<And>x s. x \<in> set xs \<Longrightarrow> state_ok fr (snd s) \<Longrightarrow> active (snd s) = A \<Longrightarrow> finished st \<subseteq> finished (snd s) \<Longrightarrow>
      ok_but e (f x s) (visit_post fr {SvPV x} s)"
    and "state_ok fr st" "active st = A"
  shows "ok_but e (each f xs (errors, st)) (visit_post fr (SvPV ` set xs) (errors, st))"
proof (rule each_progress [where J = "\<lambda>ys. visit_post fr (SvPV ` set ys) (errors, st)"])
  show "visit_post fr (SvPV ` set []) (errors, st) (errors, st)"
    using assms(2) by (simp add: visit_post_refl)
next
  fix x ys s
  assume x: "x \<in> set xs" and J: "visit_post fr (SvPV ` set ys) (errors, st) s"
  then have "ok_but e (f x s) (visit_post fr {SvPV x} s)"
    using assms(2,3) by (intro assms(1)) (auto simp: visit_post_def case_prod_unfold)
  then show "ok_but e (f x s) (visit_post fr (SvPV ` set (x # ys)) (errors, st))"
    by (rule ok_but_weaken) (use visit_post_trans [OF J, of "{SvPV x}"] in simp)
qed auto


lemma spreads_SvOK:
  "x \<in> set (gql_validation_collect_fragment_spreads selections) \<Longrightarrow> SvOK x"
proof (induction selections arbitrary: x rule: gql_validation_collect_fragment_spreads.induct)
  case (1 selections)
  then show ?case
    by (subst (asm) (2) gql_validation_collect_fragment_spreads.simps)
      (auto simp: fetch_ok_def split: option.splits sv.splits if_splits)
qed

lemma marked_store [simp]:
  "finished (hv_store s k (PV False ''done'')) = insert k (finished s)"
  "active (hv_store s k (PV False ''done'')) = active s - {k}"
  "finished (hv_store s k (PV False ''visiting'')) = finished s - {k}"
  "active (hv_store s k (PV False ''visiting'')) = insert k (active s)"
  by auto

lemma settled_finished: "finished s = finished t \<Longrightarrow> settled fr s = settled fr t"
  by (simp add: settled_def)

lemma visit_post_leave:
  assumes "keys s = finished s \<union> active s" "active s - {k} = active st" "finished st \<subseteq> finished s"
    and "state_ok fr st" and "new \<noteq> [] \<longrightarrow> \<not> acyclic (spread_graph fr)"
    and "new = [] \<longrightarrow> settled fr st \<longrightarrow> settled fr (hv_store s k (PV False ''done''))"
  shows "visit_post fr {k} (errors, st) (errors @ new, hv_store s k (PV False ''done''))"
  using assms unfolding visit_post_def state_ok_def by auto

lemma state_ok_unmarked:
  "state_ok fr s \<Longrightarrow> state_ok fr t \<Longrightarrow> active t = active s \<Longrightarrow> finished s \<subseteq> finished t \<Longrightarrow>
    unmarked fr t \<le> unmarked fr s"
  by (rule unmarked_mono) (auto simp: state_ok_def)

lemma visit_cycles:
  assumes "unmarked fr st < n" "state_ok fr st"
    and "SvPV name \<in> keys fr \<longrightarrow> (\<forall>v \<in> active st. (v, SvPV name) \<in> (spread_graph fr)\<^sup>+)"
  shows "ok_but e (gql_validation_visit_fragment_cycles n fr name (errors, st))
     (visit_post fr (if SvOK name then {SvPV name} else {}) (errors, st))"
  using assms
proof (induction n arbitrary: name errors st)
  case 0
  then show ?case by simp
next
  case (Suc n)
  let ?k = "SvPV name" and ?R = "spread_graph fr"
  show ?case
  proof (cases "SvOK name \<and> ?k \<in> keys fr")
    case False
    then have "\<not> SvOK name \<or> hv_fetch fr ?k = None" by (auto simp: ph.key_set_def)
    with False Suc.prems(2) show ?thesis by (auto simp: visit_post_def)
  next
    case True
    then obtain body where ok: "SvOK name" and fetch: "hv_fetch fr ?k = Some body"
      by (auto simp: ph.key_set_def)
    consider (old) "?k \<in> finished st" | (active) "?k \<in> active st" | (new) "?k \<notin> keys st"
      using Suc.prems(2) by (auto simp: state_ok_def)
    then show ?thesis
    proof cases
      case old
      then have "fetch_ok st ?k = Some (PV False ''done'')" by (simp add: fetch_ok_marked)
      moreover have "visit_post fr {?k} (errors, st) (errors, st)"
        using old Suc.prems(2) by (auto simp: visit_post_def)
      ultimately show ?thesis using ok fetch by simp
    next
      case active
      then have "fetch_ok st ?k = Some (PV False ''visiting'')" by (simp add: fetch_ok_marked)
      moreover from active Suc.prems(2) fetch obtain h where "body = HV h"
        unfolding state_ok_def by fastforce
      moreover have "\<not> acyclic ?R" using active Suc.prems(3) True by (auto simp: acyclic_def)
      ultimately show ?thesis
        using ok fetch Suc.prems(2) by (simp add: visit_post_def)
    next
      case new
      then have st: "fetch_ok st ?k = None" by (simp add: fetch_ok_def ph.key_set_def)
      let ?st = "hv_store st ?k (PV False ''visiting'')"
      have k: "?k \<notin> finished st" "?k \<notin> active st" using new by (auto simp: ph.key_set_def)
      have st_settled: "settled fr ?st \<longleftrightarrow> settled fr st"
        using k by (intro settled_finished) auto
      show ?thesis
      proof (cases "\<exists>h. body = HV h")
        case False
        have "settled fr st \<Longrightarrow> settled fr (hv_store ?st ?k (PV False ''done''))"
          using fetch False k
          by (intro settled_leave) (auto simp: spread_graph_def st_settled)
        then have "visit_post fr {?k} (errors, st) (errors @ [], hv_store ?st ?k (PV False ''done''))"
          using Suc.prems(2) k by (intro visit_post_leave) (auto simp: state_ok_def)
        with False ok fetch st show ?thesis by (cases body) auto
      next
        case True
        then obtain h where h: "body = HV h" by blast
        let ?names = "gql_validation_collect_fragment_spreads (hv_fetch h ''selections'')"
        have ok': "state_ok fr ?st"
          using Suc.prems(2) fetch h k by (auto simp: state_ok_def)
        have "ok_but e (each (gql_validation_visit_fragment_cycles n fr) ?names (errors, ?st))
           (visit_post fr (SvPV ` set ?names) (errors, ?st))"
        proof (rule each_visit [OF _ ok' refl])
          fix x and s :: "sv list \<times> hv"
          assume x: "x \<in> set ?names" and s: "state_ok fr (snd s)" "active (snd s) = active ?st"
            "finished ?st \<subseteq> finished (snd s)"
          obtain es st' where s': "s = (es, st')" by (cases s)
          have "unmarked fr st' < n"
            using state_ok_unmarked [OF ok' _ _ s(3)] s s' unmarked_store [OF fetch new, of "PV False ''visiting''"]
              Suc.prems(1) by fastforce
          moreover have "(v, SvPV x) \<in> ?R\<^sup>+" if "v \<in> active st'" "SvPV x \<in> keys fr" for v
          proof -
            have "(?k, SvPV x) \<in> ?R" using x that(2) fetch h by (auto simp: spread_graph_def)
            moreover have "active st' = insert ?k (active st)"
              using s(2) s' by (simp only: snd_conv marked_store)
            then have "v = ?k \<or> (v, ?k) \<in> ?R\<^sup>+"
              using that(1) Suc.prems(3) \<open>SvOK name \<and> ?k \<in> keys fr\<close> by blast
            ultimately show ?thesis by auto
          qed
          ultimately show "ok_but e (gql_validation_visit_fragment_cycles n fr x s) (visit_post fr {SvPV x} s)"
            using Suc.IH [of st' x es] s s' spreads_SvOK [OF x] by simp
        qed
        then have "ok_but e (bnd (each (gql_validation_visit_fragment_cycles n fr) ?names (errors, ?st))
            (\<lambda>(errors, state). Inr (errors, hv_store state ?k (PV False ''done''))))
            (visit_post fr {?k} (errors, st))"
        proof (rule ok_but_bnd_pair [OF ok_but_weaken])
          fix errors' s'
          assume post: "visit_post fr (SvPV ` set ?names) (errors, ?st) (errors', s')"
          then obtain new where new: "errors' = errors @ new" "new \<noteq> [] \<longrightarrow> \<not> acyclic ?R"
            "new = [] \<longrightarrow> SvPV ` set ?names \<inter> keys fr \<subseteq> finished s' \<and> (settled fr ?st \<longrightarrow> settled fr s')"
            and s': "state_ok fr s'" "active s' = active ?st" "finished ?st \<subseteq> finished s'"
            unfolding visit_post_def by blast
          have "?k \<in> active s'" using s'(2) by simp
          then have "?k \<notin> finished s'" by simp
          then have "settled fr (hv_store s' ?k (PV False ''done''))" if "new = []" "settled fr st"
            using that new(3) fetch h k
            by (intro settled_leave) (auto simp: spread_graph_def st_settled)
          moreover have "active s' - {?k} = active st" "finished st \<subseteq> finished s'"
            using s'(2,3) k unfolding marked_store by blast+
          ultimately have "visit_post fr {?k} (errors, st) (errors @ new, hv_store s' ?k (PV False ''done''))"
            using s'(1) Suc.prems(2) new(2) by (intro visit_post_leave) (auto simp: state_ok_def)
          with new(1) show "ok_but e (case (errors', s') of
              (errors, state) \<Rightarrow> Inr (errors, hv_store state ?k (PV False ''done''))) (visit_post fr {?k} (errors, st))"
            by simp
        qed auto
        with ok fetch st h show ?thesis by simp
      qed
    qed
  qed
qed


section \<open>Names\<close>

fun names_of :: "hv list \<Rightarrow> string list" where
  "names_of [] = []"
| "names_of (h # hs) =
     (case fetch_ok h ''name'' of Some n \<Rightarrow> SvPV n # names_of hs | None \<Rightarrow> names_of hs)"

lemma operation_name_errors_Nil:
  "operation_name_errors several seen hs = [] \<longleftrightarrow>
     distinct (names_of hs) \<and> set (names_of hs) \<inter> keys seen = {} \<and>
     (several \<longrightarrow> (\<forall>h \<in> set hs. fetch_ok h ''name'' \<noteq> None))"
  by (induction several seen hs rule: operation_name_errors.induct)
    (auto simp: hv_exists_keys split: option.splits)

text \<open>
  The operation rules report nothing exactly where there is an operation, the names are
  distinct, and with several operations each has a name.
\<close>

theorem operation_errors_exact:
  "gql_validation_push_operation_errors operations = [] \<longleftrightarrow>
     operations \<noteq> [] \<and> distinct (names_of (hashes operations)) \<and>
     (length operations > 1 \<longrightarrow> (\<forall>h \<in> set (hashes operations). fetch_ok h ''name'' \<noteq> None))"
  by (auto simp: gql_validation_push_operation_errors_def operation_name_errors_Nil)

theorem operation_errors_exact_witness:
  "gql_validation_push_operation_errors [HV sample_query] = [] \<and>
   gql_validation_push_operation_errors [HV sample_query, HV sample_query] \<noteq> []"
  using operation_errors_exact [of "[HV sample_query]"] operation_errors_exact [of "[HV sample_query, HV sample_query]"]
  by (simp add: sample_document_eval)

lemma fragment_name_errors_length:
  "length (fragment_name_errors seen nfs) + card (SvPV ` fst ` set nfs - keys seen) = length nfs"
proof (induction seen nfs rule: fragment_name_errors.induct)
  case (1 seen)
  then show ?case by simp
next
  case (2 seen name node rest)
  show ?case
  proof (cases "SvPV name \<in> keys seen")
    case True
    with 2 show ?thesis by (simp add: hv_exists_keys insert_Diff_if)
  next
    case False
    let ?N = "SvPV ` fst ` set rest"
    have "insert (SvPV name) ?N - keys seen = insert (SvPV name) (?N - insert (SvPV name) (keys seen))"
      using False by auto
    then have "card (insert (SvPV name) ?N - keys seen) = Suc (card (?N - insert (SvPV name) (keys seen)))"
      by simp
    with 2 False show ?thesis by (simp add: hv_exists_keys)
  qed
qed

text \<open>
  Every named fragment definition is the first of its name and has an entry in the map, or
  it is reported as a duplicate.
\<close>

theorem fragment_name_errors_count:
  "length (gql_validation_push_fragment_name_errors ast) +
     card (keys (gql_validation_build_fragments_map ast)) = length (named_fragments (hashes ast))"
proof -
  have "keys (foldl (\<lambda>fr (name, node). hv_store fr (SvPV name) (HV node)) fr nfs) =
      keys fr \<union> SvPV ` fst ` set nfs" for fr and nfs :: "(sv \<times> hv) list"
    by (induction nfs arbitrary: fr) auto
  with fragment_name_errors_length [of "[]" "named_fragments (hashes ast)"] show ?thesis
    by (simp add: gql_validation_push_fragment_name_errors_def gql_validation_build_fragments_map_def)
qed

lemma fetch_fragments_fold:
  "hv_fetch (foldl (\<lambda>fr (name, node). hv_store fr (SvPV name) (HV node)) fr nfs) k =
     (case map_of (rev (map (\<lambda>(name, node). (SvPV name, HV node)) nfs)) k of
        Some v \<Rightarrow> Some v | None \<Rightarrow> hv_fetch fr k)"
  by (induction nfs arbitrary: fr) (auto simp: map_add_def split: option.splits)

section \<open>Subscriptions\<close>

lemma subscription_fields_total:
  assumes "(case selections of Some s \<Rightarrow> size s | None \<Rightarrow> 0) + budget fr seen < n"
  shows "ok_but e (gql_validation_collect_subscription_fields n fr seen selections found) (\<lambda>_. True)"
  using assms
proof (induction n arbitrary: selections seen found)
  case 0
  then show ?case by simp
next
  case (Suc n)
  show ?case
  proof (cases "\<exists>items. selections = Some (AV items)")
    case False
    then show ?thesis by (auto split: option.splits sv.splits)
  next
    case True
    then obtain items where items: "selections = Some (AV items)" by blast
    have sub: "ok_but e (gql_validation_collect_subscription_fields n fr seen (hv_fetch h k) fs) (\<lambda>_. True)"
      if "HV h \<in> set items" for h k fs
      using Suc.prems items size_AV_mem [OF that] size_hv_fetch [of h k]
      by (intro Suc.IH) (auto split: option.splits)
    have jmp: "ok_but e (gql_validation_collect_subscription_fields n fr (hv_store seen (SvPV name) x)
        (hv_fetch fragment ''selections'') fs) (\<lambda>_. True)"
      if "fragment_at fr name = Some fragment" "SvPV name \<notin> keys seen" for name fragment x fs
    proof -
      have "hv_fetch fr (SvPV name) = Some (HV fragment)"
        using that(1) by (auto simp: fragment_at_def split: option.splits sv.splits)
      from budget_store [OF this that(2), of x] Suc.prems items size_hv_fetch [of fragment "''selections''"]
      show ?thesis by (intro Suc.IH) (auto split: option.splits)
    qed
    show ?thesis
      using sub jmp
      by (auto simp: items hv_exists_keys Let_def intro!: each_ok split: option.splits)
  qed
qed

text \<open>
  C20. The subscription pass ends on every document, also with cyclic fragments, and gives one
  list of errors per operation.
\<close>

theorem subscription_errors_total:
  "\<exists>es. gql_validation_push_subscription_errors operations fragments = Inr es \<and>
     length es = length operations"
proof -
  have one: "ok_but e (subscription_errors fragments operation) (\<lambda>_. True)" for e operation
  proof (cases operation)
    case (HV h)
    have "ok_but e (gql_validation_collect_subscription_fields
        (subscription_frames fragments (hv_fetch h ''selections'')) fragments []
        (hv_fetch h ''selections'') []) (\<lambda>_. True)"
      by (rule subscription_fields_total) (simp add: subscription_frames_def)
    with HV show ?thesis by (auto simp: subscription_errors_def intro: ok_but_bnd)
  qed (simp_all add: subscription_errors_def)
  have "ok_but e (gql_validation_push_subscription_errors operations fragments)
      (\<lambda>es. length es = length operations)" for e
    unfolding gql_validation_push_subscription_errors_def
    by (rule each_progress [where J = "\<lambda>ys es. length es = length ys"])
      (auto intro!: ok_but_bnd [OF one])
  from ok_but_all [OF this] show ?thesis .
qed

end
