(* ===== verification/Lexer.thy ===== *)
theory Lexer
  imports Escape
begin

text \<open>
  The lexer of the parser: the token kinds and the parser record of \<^verbatim>\<open>src/bootstrap.h\<close>,
  \<^verbatim>\<open>gql_skip_ignored\<close>, \<^verbatim>\<open>gql_lex_token\<close>, \<^verbatim>\<open>gql_advance\<close>, \<^verbatim>\<open>gql_expect\<close> and the other token
  helpers of \<^verbatim>\<open>src/parser_graphqlperl_runtime.h\<close>, with the error texts of
  \<^verbatim>\<open>src/parser_core.h\<close>. The one C function \<^verbatim>\<open>gql_lex_token\<close> is cut along its branches: one
  definition per token class, each with the scan loop it contains.
\<close>

section \<open>Tokens and the parser state\<close>

datatype gql_token_kind =
    TOK_EOF | TOK_BANG | TOK_DOLLAR | TOK_AMP | TOK_LPAREN | TOK_RPAREN | TOK_SPREAD
  | TOK_COLON | TOK_EQUALS | TOK_AT | TOK_LBRACKET | TOK_RBRACKET | TOK_LBRACE | TOK_RBRACE
  | TOK_PIPE | TOK_NAME | TOK_INT | TOK_FLOAT | TOK_STRING | TOK_BLOCK_STRING

text \<open>
  \<open>last_pos\<close> starts as \<^verbatim>\<open>(STRLEN)-1\<close>, written \<open>None\<close>. \<open>line_starts = []\<close> is the null
  pointer of a parser without locations (\<^verbatim>\<open>num_lines\<close> is the length). \<open>validation_errors\<close>
  is \<open>None\<close> where the sink is null. The IR arena belongs to another parser.
\<close>

record gql_parser =
  src :: string
  len :: nat
  pos :: nat
  last_pos :: "nat option"
  tok_start :: nat
  tok_end :: nat
  val_start :: nat
  val_end :: nat
  kind :: gql_token_kind
  is_utf8 :: bool
  no_location :: bool
  line_starts :: "nat list"
  depth :: int
  token_count :: int
  validation_errors :: "sv list option"

definition GQL_PARSER_MAX_DEPTH :: int where "GQL_PARSER_MAX_DEPTH = 512"
definition GQL_PARSER_MAX_TOKENS :: int where "GQL_PARSER_MAX_TOKENS = 1000000"

type_synonym 'a parsed = "gql_error + 'a \<times> gql_parser"

section \<open>Character classes\<close>

definition isDIGIT :: "char \<Rightarrow> bool" where
  "isDIGIT c \<longleftrightarrow> 0x30 \<le> byte_of c \<and> byte_of c \<le> 0x39"

definition isALPHA :: "char \<Rightarrow> bool" where
  "isALPHA c \<longleftrightarrow> (0x41 \<le> byte_of c \<and> byte_of c \<le> 0x5A) \<or> (0x61 \<le> byte_of c \<and> byte_of c \<le> 0x7A)"

definition isALNUM :: "char \<Rightarrow> bool" where
  "isALNUM c \<longleftrightarrow> isALPHA c \<or> isDIGIT c"

definition isXDIGIT :: "char \<Rightarrow> bool" where
  "isXDIGIT c \<longleftrightarrow> isDIGIT c \<or> (0x41 \<le> byte_of c \<and> byte_of c \<le> 0x46) \<or> (0x61 \<le> byte_of c \<and> byte_of c \<le> 0x66)"

definition name_start :: "char \<Rightarrow> bool" where
  "name_start c \<longleftrightarrow> c = CHR ''_'' \<or> isALPHA c"

definition name_char :: "char \<Rightarrow> bool" where
  "name_char c \<longleftrightarrow> c = CHR ''_'' \<or> isALNUM c"

section \<open>Error texts\<close>

definition quoted :: "string \<Rightarrow> string" where
  "quoted s = DQUOTE # s @ [DQUOTE]"

definition gql_make_string_sv :: "gql_parser \<Rightarrow> nat \<Rightarrow> nat \<Rightarrow> sv" where
  "gql_make_string_sv p s e = PV (is_utf8 p) (take (e - s) (drop s (src p)))"

definition gql_copy_token_sv :: "gql_parser \<Rightarrow> sv" where
  "gql_copy_token_sv p = gql_make_string_sv p (tok_start p) (tok_end p)"

definition tok_text :: "gql_parser \<Rightarrow> string" where
  "tok_text p = take (tok_end p - tok_start p) (drop (tok_start p) (src p))"

definition gql_throw :: "nat \<Rightarrow> string \<Rightarrow> gql_error + 'a" where
  "gql_throw at msg = Inl (Syntax_Error at msg)"

definition gql_throw_simple_error :: "string \<Rightarrow> gql_error + 'a" where
  "gql_throw_simple_error msg = Inl (Simple_Error msg)"

fun gql_expected_token_label :: "gql_token_kind \<Rightarrow> string" where
  "gql_expected_token_label TOK_BANG = quoted ''!''"
| "gql_expected_token_label TOK_DOLLAR = quoted ''$''"
| "gql_expected_token_label TOK_AMP = quoted ''&''"
| "gql_expected_token_label TOK_LPAREN = quoted ''(''"
| "gql_expected_token_label TOK_RPAREN = quoted '')''"
| "gql_expected_token_label TOK_SPREAD = quoted ''...''"
| "gql_expected_token_label TOK_COLON = quoted '':''"
| "gql_expected_token_label TOK_EQUALS = quoted ''=''"
| "gql_expected_token_label TOK_AT = quoted ''@''"
| "gql_expected_token_label TOK_LBRACKET = quoted ''[''"
| "gql_expected_token_label TOK_RBRACKET = quoted '']''"
| "gql_expected_token_label TOK_LBRACE = quoted ''{''"
| "gql_expected_token_label TOK_RBRACE = quoted ''}''"
| "gql_expected_token_label TOK_PIPE = quoted ''|''"
| "gql_expected_token_label TOK_NAME = ''name''"
| "gql_expected_token_label TOK_INT = ''int''"
| "gql_expected_token_label TOK_FLOAT = ''float''"
| "gql_expected_token_label TOK_STRING = ''string''"
| "gql_expected_token_label TOK_BLOCK_STRING = ''block string''"
| "gql_expected_token_label TOK_EOF = ''EOF''"

definition gql_current_token_desc :: "gql_parser \<Rightarrow> string" where
  "gql_current_token_desc p =
     (case kind p of
        TOK_NAME \<Rightarrow> ''Name '' @ quoted (tok_text p)
      | TOK_INT \<Rightarrow> ''Int '' @ quoted (tok_text p)
      | TOK_FLOAT \<Rightarrow> ''Float '' @ quoted (tok_text p)
      | TOK_STRING \<Rightarrow> ''string''
      | TOK_BLOCK_STRING \<Rightarrow> ''block string''
      | k \<Rightarrow> gql_expected_token_label k)"

definition gql_throw_expected_message :: "gql_parser \<Rightarrow> nat \<Rightarrow> string \<Rightarrow> gql_error + 'a" where
  "gql_throw_expected_message p at msg = gql_throw at (msg @ '' but got '' @ gql_current_token_desc p)"

definition gql_throw_expected_token :: "gql_parser \<Rightarrow> gql_token_kind \<Rightarrow> gql_error + 'a" where
  "gql_throw_expected_token p k =
     gql_throw_expected_message p (tok_start p) (''Expected '' @ gql_expected_token_label k)"

definition gql_throw_unexpected_character :: "nat \<Rightarrow> char \<Rightarrow> gql_error + 'a" where
  "gql_throw_unexpected_character at c =
     (if 0x20 \<le> byte_of c \<and> byte_of c \<le> 0x7E then gql_throw at (''Unexpected character '' @ quoted [c])
      else gql_throw at (''Unexpected character code '' @ dec_int (byte_of c)))"

section \<open>Ignored text\<close>

abbreviation at :: "gql_parser \<Rightarrow> nat \<Rightarrow> char" where
  "at p i \<equiv> src p ! i"

text \<open>The inner loop over a comment: up to and including the line terminator.\<close>

function skip_comment :: "gql_parser \<Rightarrow> gql_parser" where
  "skip_comment p =
     (if pos p < len p then
        (if at p (pos p) = LF \<or> at p (pos p) = CR then p\<lparr>pos := pos p + 1\<rparr>
         else skip_comment (p\<lparr>pos := pos p + 1\<rparr>))
      else p)"
  by pat_completeness auto
termination
  by (relation "measure (\<lambda>p. len p - pos p)") auto

declare skip_comment.simps [simp del]

lemma skip_comment_moves: "pos p \<le> pos (skip_comment p) \<and> len (skip_comment p) = len p"
proof (induction p rule: skip_comment.induct)
  case (1 p)
  then show ?case by (subst (1 2) skip_comment.simps) auto
qed

lemma skip_comment_progress: "pos p < len p \<Longrightarrow> pos p < pos (skip_comment p)"
  using skip_comment_moves [of "p\<lparr>pos := pos p + 1\<rparr>"] by (subst skip_comment.simps) auto

function gql_skip_ignored :: "gql_parser \<Rightarrow> gql_parser" where
  "gql_skip_ignored p =
     (if pos p < len p then
        (if at p (pos p) = CHR 0xEF \<and> pos p + 2 < len p
            \<and> at p (pos p + 1) = CHR 0xBB \<and> at p (pos p + 2) = CHR 0xBF
         then gql_skip_ignored (p\<lparr>pos := pos p + 3\<rparr>)
         else if at p (pos p) \<in> {CHR '','', CHR '' '', TAB, LF, CR}
         then gql_skip_ignored (p\<lparr>pos := pos p + 1\<rparr>)
         else if at p (pos p) = CHR ''#'' then gql_skip_ignored (skip_comment p)
         else p)
      else p)"
  by pat_completeness auto
termination
  by (relation "measure (\<lambda>p. len p - pos p)")
    (auto simp: skip_comment_moves intro!: diff_less_mono2 skip_comment_progress)

declare gql_skip_ignored.simps [simp del]

section \<open>One token\<close>

text \<open>The tokens of one character.\<close>

definition punct_kind :: "char \<Rightarrow> gql_token_kind option" where
  "punct_kind c =
     (if c = CHR ''!'' then Some TOK_BANG
      else if c = CHR ''$'' then Some TOK_DOLLAR
      else if c = CHR ''&'' then Some TOK_AMP
      else if c = CHR ''('' then Some TOK_LPAREN
      else if c = CHR '')'' then Some TOK_RPAREN
      else if c = CHR '':'' then Some TOK_COLON
      else if c = CHR ''='' then Some TOK_EQUALS
      else if c = CHR ''@'' then Some TOK_AT
      else if c = CHR ''['' then Some TOK_LBRACKET
      else if c = CHR '']'' then Some TOK_RBRACKET
      else if c = CHR ''{'' then Some TOK_LBRACE
      else if c = CHR ''}'' then Some TOK_RBRACE
      else if c = CHR ''|'' then Some TOK_PIPE
      else None)"

definition end_token :: "gql_parser \<Rightarrow> gql_token_kind \<Rightarrow> nat \<Rightarrow> gql_parser" where
  "end_token p k e = p\<lparr>kind := k, pos := e, tok_end := e\<rparr>"

definition lex_spread :: "gql_parser \<Rightarrow> gql_error + gql_parser" where
  "lex_spread p =
     (if pos p + 2 < len p \<and> at p (pos p + 1) = CHR ''.'' \<and> at p (pos p + 2) = CHR ''.''
      then Inr (end_token p TOK_SPREAD (pos p + 3))
      else gql_throw (pos p) (''Expected '' @ quoted ''...''))"

subsection \<open>Strings\<close>

definition triple_at :: "gql_parser \<Rightarrow> nat \<Rightarrow> bool" where
  "triple_at p i \<longleftrightarrow> i + 2 < len p \<and> at p i = DQUOTE \<and> at p (i + 1) = DQUOTE \<and> at p (i + 2) = DQUOTE"

function lex_block_string :: "gql_parser \<Rightarrow> nat \<Rightarrow> gql_error + gql_parser" where
  "lex_block_string p scan =
     (if scan < len p then
        (if triple_at p scan then Inr (end_token (p\<lparr>val_end := scan\<rparr>) TOK_BLOCK_STRING (scan + 3))
         else if byte_of (at p scan) < 0x20 \<and> at p scan \<noteq> TAB \<and> at p scan \<noteq> LF \<and> at p scan \<noteq> CR
         then gql_throw scan ''Invalid character within block string''
         else if scan + 3 < len p \<and> at p scan = BSLASH \<and> at p (scan + 1) = DQUOTE
                 \<and> at p (scan + 2) = DQUOTE \<and> at p (scan + 3) = DQUOTE
         then lex_block_string p (scan + 4)
         else lex_block_string p (scan + 1))
      else gql_throw (tok_start p) ''Unterminated block string'')"
  by pat_completeness auto
termination
  by (relation "measure (\<lambda>(p, scan). len p - scan)") auto

declare lex_block_string.simps [simp del]

text \<open>
  \<^verbatim>\<open>strchr\<close> also finds the terminating NUL of its first argument, so a backslash before a
  NUL byte passes as an escape.
\<close>

definition strchr_escapes :: "char \<Rightarrow> bool" where
  "strchr_escapes c \<longleftrightarrow> c \<in> set (DQUOTE # BSLASH # ''/bfnrt'') \<or> c = CHR 0x00"

function lex_string :: "gql_parser \<Rightarrow> nat \<Rightarrow> gql_error + gql_parser" where
  "lex_string p scan =
     (if scan < len p then
        (if at p scan = DQUOTE then Inr (end_token (p\<lparr>val_end := scan\<rparr>) TOK_STRING (scan + 1))
         else if at p scan = BSLASH then
           (if \<not> scan + 1 < len p then gql_throw (tok_start p) ''Unterminated string''
            else if strchr_escapes (at p (scan + 1)) then lex_string p (scan + 2)
            else if at p (scan + 1) = CHR ''u'' then
              (if list_all (\<lambda>i. scan + 1 + i < len p \<and> isXDIGIT (at p (scan + 1 + i))) [1, 2, 3, 4]
               then lex_string p (scan + 6)
               else gql_throw (tok_start p) ''Invalid Unicode escape sequence'')
            else gql_throw (tok_start p) ''Invalid character escape sequence'')
         else if at p scan = LF \<or> at p scan = CR then gql_throw (tok_start p) ''Unterminated string''
         else if byte_of (at p scan) < 0x20 then gql_throw (tok_start p) ''Invalid character within string''
         else lex_string p (scan + 1))
      else gql_throw (tok_start p) ''Unterminated string'')"
  by pat_completeness auto
termination
  by (relation "measure (\<lambda>(p, scan). len p - scan)") auto

declare lex_string.simps [simp del]

definition lex_quote :: "gql_parser \<Rightarrow> gql_error + gql_parser" where
  "lex_quote p =
     (if pos p + 2 < len p \<and> at p (pos p + 1) = DQUOTE \<and> at p (pos p + 2) = DQUOTE
      then lex_block_string (p\<lparr>val_start := pos p + 3\<rparr>) (pos p + 3)
      else lex_string (p\<lparr>val_start := pos p + 1\<rparr>) (pos p + 1))"

subsection \<open>Numbers and names\<close>

function skip_while :: "(char \<Rightarrow> bool) \<Rightarrow> gql_parser \<Rightarrow> nat \<Rightarrow> nat" where
  "skip_while f p scan = (if scan < len p \<and> f (at p scan) then skip_while f p (scan + 1) else scan)"
  by pat_completeness auto
termination
  by (relation "measure (\<lambda>(f, p, scan). len p - scan)") auto

declare skip_while.simps [simp del]

definition digit_at :: "gql_parser \<Rightarrow> nat \<Rightarrow> bool" where
  "digit_at p i \<longleftrightarrow> i < len p \<and> isDIGIT (at p i)"

definition lex_sign :: "gql_parser \<Rightarrow> nat \<Rightarrow> gql_error + nat" where
  "lex_sign p scan =
     (if at p scan = CHR ''-'' then
        (if digit_at p (scan + 1) then Inr (scan + 1)
         else gql_throw (tok_start p) (''Invalid number, expected digit after '' @ quoted ''-''))
      else Inr scan)"

definition lex_integer_part :: "gql_parser \<Rightarrow> nat \<Rightarrow> gql_error + nat" where
  "lex_integer_part p scan =
     (if at p scan = CHR ''0'' then
        (if digit_at p (scan + 1) then gql_throw (scan + 1) ''Invalid number, unexpected digit after 0''
         else Inr (scan + 1))
      else Inr (skip_while isDIGIT p scan))"

definition lex_fraction :: "gql_parser \<Rightarrow> nat \<Rightarrow> gql_error + nat \<times> bool" where
  "lex_fraction p scan =
     (if scan < len p \<and> at p scan = CHR ''.'' then
        (if digit_at p (scan + 1) then Inr (skip_while isDIGIT p (scan + 1), True)
         else gql_throw scan ''Invalid number, expected digit after decimal point'')
      else Inr (scan, False))"

definition lex_exponent :: "gql_parser \<Rightarrow> nat \<Rightarrow> bool \<Rightarrow> gql_error + nat \<times> bool" where
  "lex_exponent p exp_pos is_float =
     (if exp_pos < len p \<and> (at p exp_pos = CHR ''e'' \<or> at p exp_pos = CHR ''E'') then
        (let scan = exp_pos + 1;
             had_sign = (scan < len p \<and> (at p scan = CHR ''+'' \<or> at p scan = CHR ''-''));
             scan = (if had_sign then scan + 1 else scan)
         in if digit_at p scan then Inr (skip_while isDIGIT p scan, True)
            else gql_throw
              (if \<not> had_sign \<and> scan < len p \<and> name_start (at p scan) then exp_pos + 2 else exp_pos + 1)
              ''Invalid number, expected digit after exponent indicator'')
      else Inr (exp_pos, is_float))"

definition value_token :: "gql_parser \<Rightarrow> gql_token_kind \<Rightarrow> nat \<Rightarrow> gql_parser" where
  "value_token p k e = (end_token p k e)\<lparr>val_start := tok_start p, val_end := e\<rparr>"

definition lex_number :: "gql_parser \<Rightarrow> gql_error + gql_parser" where
  "lex_number p =
     bnd (lex_sign p (pos p)) (\<lambda>scan.
     bnd (lex_integer_part p scan) (\<lambda>scan.
     bnd (lex_fraction p scan) (\<lambda>(scan, is_float).
     bnd (lex_exponent p scan is_float) (\<lambda>(scan, is_float).
     Inr (value_token p (if is_float then TOK_FLOAT else TOK_INT) scan)))))"

definition lex_name :: "gql_parser \<Rightarrow> gql_parser" where
  "lex_name p = value_token p TOK_NAME (skip_while name_char p (pos p + 1))"

subsection \<open>The lexer\<close>

text \<open>The branch on the first character, and the whole function.\<close>

definition lex_by_char :: "gql_parser \<Rightarrow> gql_error + gql_parser" where
  "lex_by_char p =
     (let c = at p (pos p)
      in case punct_kind c of
           Some k \<Rightarrow> Inr (end_token p k (pos p + 1))
         | None \<Rightarrow>
             if c = CHR ''.'' then lex_spread p
             else if c = DQUOTE then lex_quote p
             else if c = CHR ''-'' \<or> isDIGIT c then lex_number p
             else if name_start c then Inr (lex_name p)
             else gql_throw_unexpected_character (pos p) c)"

definition gql_lex_token :: "gql_parser \<Rightarrow> gql_error + gql_parser" where
  "gql_lex_token p =
     (if pos p \<ge> len p then
        Inr (p\<lparr>tok_start := pos p, tok_end := pos p, val_start := pos p, val_end := pos p,
               kind := TOK_EOF\<rparr>)
      else if token_count p + 1 > GQL_PARSER_MAX_TOKENS then
        gql_throw_simple_error ''Document has too many tokens (exceeds maximum token count)''
      else lex_by_char
        (p\<lparr>tok_start := pos p, tok_end := pos p, val_start := pos p, val_end := pos p,
           token_count := token_count p + 1\<rparr>))"

definition gql_advance :: "gql_parser \<Rightarrow> gql_error + gql_parser" where
  "gql_advance p =
     gql_lex_token (gql_skip_ignored
       (if tok_end p > 0 then p\<lparr>last_pos := Some (tok_end p - 1)\<rparr> else p))"

definition gql_peek_name :: "gql_parser \<Rightarrow> string \<Rightarrow> bool" where
  "gql_peek_name p name \<longleftrightarrow> kind p = TOK_NAME \<and> tok_text p = name"

definition gql_expect :: "gql_parser \<Rightarrow> gql_token_kind \<Rightarrow> string option \<Rightarrow> gql_error + gql_parser" where
  "gql_expect p k msg =
     (if kind p \<noteq> k then
        (case msg of
           Some m \<Rightarrow> gql_throw_expected_message p (tok_start p) m
         | None \<Rightarrow> gql_throw_expected_token p k)
      else gql_advance p)"

definition gql_parse_name :: "gql_parser \<Rightarrow> string \<Rightarrow> sv parsed" where
  "gql_parse_name p msg =
     (if kind p \<noteq> TOK_NAME then gql_throw_expected_message p (tok_start p) msg
      else bnd (gql_advance p) (\<lambda>p'. Inr (gql_copy_token_sv p, p')))"

definition gql_parse_fragment_name :: "gql_parser \<Rightarrow> sv parsed" where
  "gql_parse_fragment_name p =
     (if gql_peek_name p ''on'' then gql_throw (tok_end p) (''Unexpected Name '' @ quoted ''on'')
      else gql_parse_name p ''Expected name'')"

definition gql_copy_value_sv :: "gql_parser \<Rightarrow> gql_error + sv" where
  "gql_copy_value_sv p =
     (let raw = gql_make_string_sv p (val_start p) (val_end p)
      in if kind p = TOK_BLOCK_STRING then Inr (PV (is_utf8 p) (block_string_value (SvPV raw)))
         else gql_unescape_string_sv raw)"

end
