(* ===== verification/Lexer_Lemmas.thy ===== *)
theory Lexer_Lemmas
  imports Lexer
begin

text \<open>
  What the lexer promises its clients. \<open>lexed p\<close> is the invariant of a parser state between
  calls: the cursor stands at the end of the current token, all spans are ordered and inside
  the source, and only the end-of-input token is empty. \<open>follows p q\<close> says that \<open>q\<close> is a
  later state of the same parse, \<open>consumes p q\<close> that a token was consumed on the way. The
  rules in \<open>wp\<close> give the effect of the token operations as rules of \<open>ok\<close>.
\<close>

section \<open>The invariant\<close>

definition scannable :: "gql_parser \<Rightarrow> bool" where
  "scannable p \<longleftrightarrow> len p = length (src p) \<and> pos p \<le> len p"

definition lexed :: "gql_parser \<Rightarrow> bool" where
  "lexed p \<longleftrightarrow> len p = length (src p) \<and> pos p \<le> len p \<and> tok_end p = pos p
     \<and> tok_start p \<le> val_start p \<and> val_start p \<le> val_end p \<and> val_end p \<le> tok_end p
     \<and> (if kind p = TOK_EOF then tok_start p = len p else tok_start p < tok_end p)
     \<and> token_count p \<le> GQL_PARSER_MAX_TOKENS"

definition same_input :: "gql_parser \<Rightarrow> gql_parser \<Rightarrow> bool" where
  "same_input p q \<longleftrightarrow> src q = src p \<and> len q = len p \<and> is_utf8 q = is_utf8 p
     \<and> no_location q = no_location p \<and> line_starts q = line_starts p"

text \<open>The diagnostics sink is never created or dropped, and errors are only appended.\<close>

definition sink_grows :: "gql_parser \<Rightarrow> gql_parser \<Rightarrow> bool" where
  "sink_grows p q \<longleftrightarrow>
     (case validation_errors p of
        None \<Rightarrow> validation_errors q = None
      | Some es \<Rightarrow> \<exists>new. validation_errors q = Some (es @ new))"

definition follows :: "gql_parser \<Rightarrow> gql_parser \<Rightarrow> bool" where
  "follows p q \<longleftrightarrow> lexed q \<and> same_input p q \<and> sink_grows p q \<and> depth q = depth p
     \<and> tok_start p \<le> tok_start q \<and> token_count p \<le> token_count q"

definition consumes :: "gql_parser \<Rightarrow> gql_parser \<Rightarrow> bool" where
  "consumes p q \<longleftrightarrow> follows p q \<and> tok_start p < tok_start q"

lemma lexed_scannable: "lexed p \<Longrightarrow> scannable p"
  by (simp add: lexed_def scannable_def)

lemma same_input_refl [simp]: "same_input p p"
  by (simp add: same_input_def)

lemma sink_grows_refl [simp]: "sink_grows p p"
  by (auto simp: sink_grows_def split: option.splits)

lemma sink_grows_trans: "sink_grows p q \<Longrightarrow> sink_grows q r \<Longrightarrow> sink_grows p r"
  by (auto simp: sink_grows_def split: option.splits)

lemma follows_refl: "lexed p \<Longrightarrow> follows p p"
  by (simp add: follows_def)

lemma follows_trans [trans]: "follows p q \<Longrightarrow> follows q r \<Longrightarrow> follows p r"
  by (auto simp: follows_def same_input_def intro: sink_grows_trans)

lemma follows_consumes [trans]: "follows p q \<Longrightarrow> consumes q r \<Longrightarrow> consumes p r"
  by (auto simp: consumes_def intro: follows_trans dest: follows_def [THEN iffD1])

lemma consumes_follows [trans]: "consumes p q \<Longrightarrow> follows q r \<Longrightarrow> consumes p r"
  unfolding consumes_def by (metis follows_def follows_trans order_less_le_trans)

lemma consumes_trans [trans]: "consumes p q \<Longrightarrow> consumes q r \<Longrightarrow> consumes p r"
  by (meson consumes_def consumes_follows)

lemma consumesD: "consumes p q \<Longrightarrow> follows p q"
  by (simp add: consumes_def)

lemma follows_lexed [dest]: "follows p q \<Longrightarrow> lexed q"
  by (simp add: follows_def)

lemma consumes_lexed [dest]: "consumes p q \<Longrightarrow> lexed q"
  by (simp add: consumes_def follows_def)

lemma follows_depth: "follows p q \<Longrightarrow> depth q = depth p"
  by (simp add: follows_def)

lemma consumes_depth: "consumes p q \<Longrightarrow> depth q = depth p"
  by (simp add: consumes_def follows_def)

text \<open>What is left to read, the measure of every loop of the parser.\<close>

definition left :: "gql_parser \<Rightarrow> nat" where
  "left p = len p - tok_start p"

lemma tok_start_le_len: "lexed p \<Longrightarrow> tok_start p \<le> len p"
  by (auto simp: lexed_def split: if_splits)

lemma consumes_left: "consumes p q \<Longrightarrow> left q < left p"
  using tok_start_le_len [of q] by (auto simp: left_def consumes_def follows_def same_input_def)

lemma follows_left: "follows p q \<Longrightarrow> left q \<le> left p"
  by (auto simp: left_def follows_def same_input_def)

section \<open>The scan loops\<close>

text \<open>The skipping functions move the cursor forward inside the source and do nothing else.\<close>

definition moves :: "gql_parser \<Rightarrow> gql_parser \<Rightarrow> bool" where
  "moves p q \<longleftrightarrow> (\<exists>n. q = p\<lparr>pos := n\<rparr> \<and> pos p \<le> n \<and> (pos p \<le> len p \<longrightarrow> n \<le> len p))"

lemma moves_refl [simp]: "moves p p"
  by (auto simp: moves_def intro: exI [of _ "pos p"])

lemma moves_pos: "pos p + k \<le> len p \<Longrightarrow> moves p (p\<lparr>pos := pos p + k\<rparr>)"
  by (auto simp: moves_def)

lemma moves_trans: "moves p q \<Longrightarrow> moves q r \<Longrightarrow> moves p r"
  by (auto simp: moves_def)

lemma moves_skip_comment: "moves p (skip_comment p)"
proof (induction p rule: skip_comment.induct)
  case (1 p)
  have step: "moves p (p\<lparr>pos := pos p + 1\<rparr>)" if "pos p < len p"
    using that by (intro moves_pos) simp
  show ?case
    using "1.IH" step by (subst skip_comment.simps) (auto intro: moves_trans)
qed

lemma moves_skip_ignored: "moves p (gql_skip_ignored p)"
proof (induction p rule: gql_skip_ignored.induct)
  case (1 p)
  have one: "moves p (p\<lparr>pos := pos p + 1\<rparr>)" if "pos p < len p"
    using that by (intro moves_pos) simp
  have three: "moves p (p\<lparr>pos := pos p + 3\<rparr>)" if "pos p + 2 < len p"
    using that by (intro moves_pos) simp
  show ?case
    apply (subst gql_skip_ignored.simps)
    using "1.IH" one three moves_skip_comment [of p] by (auto intro: moves_trans)
qed

text \<open>A scanner of a string token ends it with a span inside the source.\<close>

definition string_token :: "gql_parser \<Rightarrow> nat \<Rightarrow> gql_parser \<Rightarrow> bool" where
  "string_token p lo q \<longleftrightarrow> (\<exists>v e k. q = p\<lparr>val_end := v, kind := k, pos := e, tok_end := e\<rparr>
     \<and> lo \<le> v \<and> v < e \<and> e \<le> len p \<and> k \<noteq> TOK_EOF)"

lemma string_tokenI:
  "lo \<le> v \<Longrightarrow> v < e \<Longrightarrow> e \<le> len p \<Longrightarrow> k \<noteq> TOK_EOF \<Longrightarrow>
    string_token p lo (end_token (p\<lparr>val_end := v\<rparr>) k e)"
  unfolding string_token_def end_token_def by (rule exI [of _ v], rule exI [of _ e], rule exI [of _ k]) simp

lemma lex_block_string_ok: "lo \<le> scan \<Longrightarrow> ok (lex_block_string p scan) (string_token p lo)"
proof (induction p scan rule: lex_block_string.induct)
  case (1 p scan)
  have here: "string_token p lo (end_token (p\<lparr>val_end := scan\<rparr>) TOK_BLOCK_STRING (scan + 3))"
    if "triple_at p scan"
    using that "1.prems" by (intro string_tokenI) (auto simp: triple_at_def)
  show ?case
    apply (subst lex_block_string.simps)
    using "1.IH" "1.prems" here by (simp add: gql_throw_def)
qed

lemma lex_string_ok: "lo \<le> scan \<Longrightarrow> ok (lex_string p scan) (string_token p lo)"
proof (induction p scan rule: lex_string.induct)
  case (1 p scan)
  have here: "string_token p lo (end_token (p\<lparr>val_end := scan\<rparr>) TOK_STRING (scan + 1))"
    if "scan < len p"
    using that "1.prems" by (intro string_tokenI) auto
  show ?case
    apply (subst lex_string.simps)
    using "1.IH" "1.prems" here by (simp add: gql_throw_def)
qed

lemma skip_while_bounds: "scan \<le> skip_while f p scan \<and> (scan \<le> len p \<longrightarrow> skip_while f p scan \<le> len p)"
proof (induction f p scan rule: skip_while.induct)
  case (1 f p scan)
  then show ?case by (subst (1 2) skip_while.simps) auto
qed

lemma skip_while_progress: "scan < len p \<Longrightarrow> f (at p scan) \<Longrightarrow> scan < skip_while f p scan"
  using skip_while_bounds [of "scan + 1" f p] by (subst skip_while.simps) simp

lemma lex_sign_ok: "scan < len p \<Longrightarrow> ok (lex_sign p scan)
    (\<lambda>n. scan \<le> n \<and> n < len p \<and> (at p scan = CHR ''-'' \<longrightarrow> isDIGIT (at p n)) \<and> (at p scan \<noteq> CHR ''-'' \<longrightarrow> n = scan))"
  by (auto simp: lex_sign_def digit_at_def gql_throw_def)

lemma lex_integer_part_ok:
  "scan < len p \<Longrightarrow> isDIGIT (at p scan) \<Longrightarrow> ok (lex_integer_part p scan) (\<lambda>n. scan < n \<and> n \<le> len p)"
  using skip_while_bounds [of scan isDIGIT p] skip_while_progress [of scan p isDIGIT]
  by (auto simp: lex_integer_part_def gql_throw_def)

lemma lex_fraction_ok: "scan \<le> len p \<Longrightarrow> ok (lex_fraction p scan) (\<lambda>(n, fl). scan \<le> n \<and> n \<le> len p)"
  using skip_while_bounds [of "scan + 1" isDIGIT p]
  by (auto simp: lex_fraction_def gql_throw_def digit_at_def)

lemma lex_exponent_ok: "scan \<le> len p \<Longrightarrow> ok (lex_exponent p scan fl) (\<lambda>(n, fl). scan \<le> n \<and> n \<le> len p)"
  using skip_while_bounds [of "scan + 1" isDIGIT p] skip_while_bounds [of "scan + 2" isDIGIT p]
  by (auto simp: lex_exponent_def gql_throw_def digit_at_def Let_def)

definition value_span :: "gql_parser \<Rightarrow> gql_parser \<Rightarrow> bool" where
  "value_span p q \<longleftrightarrow> (\<exists>e k. q = value_token p k e \<and> pos p < e \<and> e \<le> len p \<and> k \<noteq> TOK_EOF)"

lemma value_spanI: "pos p < e \<Longrightarrow> e \<le> len p \<Longrightarrow> k \<noteq> TOK_EOF \<Longrightarrow> value_span p (value_token p k e)"
  unfolding value_span_def by blast

lemma lex_number_ok:
  assumes "pos p < len p" "at p (pos p) = CHR ''-'' \<or> isDIGIT (at p (pos p))"
  shows "ok (lex_number p) (value_span p)"
  unfolding lex_number_def
proof (rule ok_but_bnd [OF lex_sign_ok [OF assms(1)]])
  fix n1
  assume n1: "pos p \<le> n1 \<and> n1 < len p \<and> (at p (pos p) = CHR ''-'' \<longrightarrow> isDIGIT (at p n1))
    \<and> (at p (pos p) \<noteq> CHR ''-'' \<longrightarrow> n1 = pos p)"
  with assms have dig: "isDIGIT (at p n1)" by auto
  show "ok (bnd (lex_integer_part p n1) (\<lambda>scan.
     bnd (lex_fraction p scan) (\<lambda>(scan, is_float).
     bnd (lex_exponent p scan is_float) (\<lambda>(scan, is_float).
     Inr (value_token p (if is_float then TOK_FLOAT else TOK_INT) scan))))) (value_span p)"
  proof (rule ok_but_bnd [OF lex_integer_part_ok [OF _ dig]])
    show "n1 < len p" using n1 by simp
    fix n2
    assume n2: "n1 < n2 \<and> n2 \<le> len p"
    show "ok (bnd (lex_fraction p n2) (\<lambda>(scan, is_float).
       bnd (lex_exponent p scan is_float) (\<lambda>(scan, is_float).
       Inr (value_token p (if is_float then TOK_FLOAT else TOK_INT) scan)))) (value_span p)"
    proof (rule ok_but_bnd_pair [OF lex_fraction_ok])
      show "n2 \<le> len p" using n2 by simp
      fix n3 fl
      assume n3: "n2 \<le> n3 \<and> n3 \<le> len p"
      have "(if fl then TOK_FLOAT else TOK_INT) \<noteq> TOK_EOF" for fl by simp
      with n3 show "ok ((\<lambda>(scan, is_float). bnd (lex_exponent p scan is_float) (\<lambda>(scan, is_float).
         Inr (value_token p (if is_float then TOK_FLOAT else TOK_INT) scan))) (n3, fl)) (value_span p)"
        using n1 n2 by (auto intro!: ok_but_bnd_pair [OF lex_exponent_ok] value_spanI)
    qed
  qed
qed

lemma lex_name_ok:
  assumes "pos p < len p"
  shows "value_span p (lex_name p)"
  unfolding lex_name_def
  using skip_while_bounds [of "pos p + 1" name_char p] assms by (intro value_spanI) auto

section \<open>One token\<close>

lemma lexed_string_token:
  assumes "string_token p lo q" "tok_start p \<le> val_start p" "val_start p \<le> lo"
    "len p = length (src p)" "token_count p \<le> GQL_PARSER_MAX_TOKENS"
  shows "lexed q \<and> same_input p q \<and> validation_errors q = validation_errors p \<and> depth q = depth p
    \<and> tok_start q = tok_start p \<and> token_count q = token_count p \<and> last_pos q = last_pos p"
  using assms by (auto simp: string_token_def lexed_def same_input_def)

lemma lexed_value_span:
  assumes "value_span p q" "tok_start p = pos p"
    "len p = length (src p)" "token_count p \<le> GQL_PARSER_MAX_TOKENS"
  shows "lexed q \<and> same_input p q \<and> validation_errors q = validation_errors p \<and> depth q = depth p
    \<and> tok_start q = tok_start p \<and> token_count q = token_count p \<and> last_pos q = last_pos p"
  using assms by (auto simp: value_span_def value_token_def end_token_def lexed_def same_input_def)

lemma lexed_end_token:
  assumes "tok_start p = pos p" "val_start p = pos p" "val_end p = pos p" "pos p < e" "e \<le> len p"
    "k \<noteq> TOK_EOF" "len p = length (src p)" "token_count p \<le> GQL_PARSER_MAX_TOKENS"
  shows "lexed (end_token p k e)"
  using assms by (auto simp: end_token_def lexed_def)

text \<open>
  The effect of \<^verbatim>\<open>gql_lex_token\<close>: the token starts at the cursor, everything but the token,
  its value and the counter is unchanged, and the result satisfies the invariant.
\<close>

definition lexes :: "gql_parser \<Rightarrow> gql_parser \<Rightarrow> bool" where
  "lexes p q \<longleftrightarrow> lexed q \<and> same_input p q \<and> validation_errors q = validation_errors p
     \<and> depth q = depth p \<and> tok_start q = pos p \<and> last_pos q = last_pos p
     \<and> token_count p \<le> token_count q \<and> token_count q \<le> token_count p + 1"

lemma gql_lex_token_ok:
  assumes "scannable p" "token_count p \<le> GQL_PARSER_MAX_TOKENS"
  shows "ok (gql_lex_token p) (lexes p)"
proof (cases "pos p \<ge> len p")
  case True
  with assms show ?thesis
    by (auto simp: gql_lex_token_def Let_def lexes_def lexed_def scannable_def same_input_def)
next
  case inside: False
  define q where "q = p\<lparr>tok_start := pos p, tok_end := pos p, val_start := pos p, val_end := pos p,
    token_count := token_count p + 1\<rparr>"
  have q: "src q = src p" "len q = len p" "pos q = pos p" "tok_start q = pos p" "tok_end q = pos p"
    "val_start q = pos p" "val_end q = pos p" "token_count q = token_count p + 1"
    "is_utf8 q = is_utf8 p" "no_location q = no_location p" "line_starts q = line_starts p"
    "validation_errors q = validation_errors p" "depth q = depth p" "last_pos q = last_pos p"
    by (simp_all add: q_def)
  have here: "pos p < len p" "len p = length (src p)" using inside assms by (auto simp: scannable_def)
  show ?thesis
  proof (cases "token_count p + 1 > GQL_PARSER_MAX_TOKENS")
    case True
    then show ?thesis using inside by (simp add: gql_lex_token_def gql_throw_simple_error_def)
  next
    case few: False
    have eq: "gql_lex_token p = lex_by_char q"
      using inside few by (simp add: gql_lex_token_def q_def)
    have lexesI: "lexes p r" if "lexed r" "same_input q r" "validation_errors r = validation_errors q"
      "depth r = depth q" "tok_start r = tok_start q" "token_count r = token_count q" "last_pos r = last_pos q" for r
      using that q by (simp add: lexes_def same_input_def)
    have endI: "lexes p (end_token q k e)" if "pos q < e" "e \<le> len q" "k \<noteq> TOK_EOF" for k e
      using that few q here by (intro lexesI lexed_end_token) (auto simp: end_token_def same_input_def)
    have spanI: "lexes p r" if "value_span q r" for r
      using lexed_value_span [OF that] few q here by (intro lexesI) auto
    have strI: "lexes p r" if "string_token (q\<lparr>val_start := v\<rparr>) v r" "pos q \<le> v" for v r
      using lexed_string_token [OF that(1)] that(2) few q here
      by (intro lexesI) (auto simp: same_input_def)
    have punct: "k \<noteq> TOK_EOF" if "punct_kind c = Some k" for c k
      using that by (auto simp: punct_kind_def split: if_splits)
    have spread: "ok (lex_spread q) (lexes p)"
      using endI by (auto simp: lex_spread_def gql_throw_def)
    have quote: "ok (lex_quote q) (lexes p)"
      unfolding lex_quote_def
      using lex_block_string_ok [of "pos q + 3" "pos q + 3" "q\<lparr>val_start := pos q + 3\<rparr>"]
        lex_string_ok [of "pos q + 1" "pos q + 1" "q\<lparr>val_start := pos q + 1\<rparr>"]
      by (auto elim!: ok_but_weaken intro: strI)
    have number: "ok (lex_number q) (lexes p)" if "at q (pos q) = CHR ''-'' \<or> isDIGIT (at q (pos q))"
      using lex_number_ok [of q] that here q by (auto elim!: ok_but_weaken intro: spanI)
    show ?thesis
      using few here spread quote number spanI [OF lex_name_ok] endI punct
      by (auto simp: eq lex_by_char_def Let_def q gql_throw_unexpected_character_def gql_throw_def
          split: option.splits)
  qed
qed

lemma gql_advance_ok:
  assumes "scannable p" "token_count p \<le> GQL_PARSER_MAX_TOKENS"
  shows "ok (gql_advance p) (\<lambda>q. lexed q \<and> same_input p q \<and> validation_errors q = validation_errors p
     \<and> depth q = depth p \<and> pos p \<le> tok_start q \<and> token_count p \<le> token_count q
     \<and> token_count q \<le> token_count p + 1)"
proof -
  define r where "r = (if tok_end p > 0 then p\<lparr>last_pos := Some (tok_end p - 1)\<rparr> else p)"
  obtain n where n: "gql_skip_ignored r = r\<lparr>pos := n\<rparr>" "pos r \<le> n" "pos r \<le> len r \<longrightarrow> n \<le> len r"
    using moves_skip_ignored [of r] by (auto simp: moves_def)
  have "scannable (r\<lparr>pos := n\<rparr>)" "token_count (r\<lparr>pos := n\<rparr>) \<le> GQL_PARSER_MAX_TOKENS"
    using assms n by (auto simp: scannable_def r_def split: if_splits)
  from gql_lex_token_ok [OF this] show ?thesis
    using n by (auto simp: gql_advance_def r_def [symmetric] lexes_def elim!: ok_but_weaken)
      (auto simp: r_def same_input_def split: if_splits)
qed

section \<open>The token operations\<close>

lemma gql_advance_wp:
  assumes "lexed p" "kind p \<noteq> TOK_EOF" "\<And>q. consumes p q \<Longrightarrow> P q"
  shows "ok (gql_advance p) P"
proof -
  have p: "scannable p" "token_count p \<le> GQL_PARSER_MAX_TOKENS" "tok_start p < pos p"
    using assms(1,2) by (auto simp: lexed_def scannable_def)
  have "consumes p q" if "lexed q \<and> same_input p q \<and> validation_errors q = validation_errors p
     \<and> depth q = depth p \<and> pos p \<le> tok_start q \<and> token_count p \<le> token_count q
     \<and> token_count q \<le> token_count p + 1" for q
    using that p by (auto simp: consumes_def follows_def sink_grows_def split: option.splits)
  with gql_advance_ok [OF p(1,2)] assms(3) show ?thesis
    by (auto elim!: ok_but_weaken)
qed

lemma gql_expect_wp:
  assumes "lexed p" "k \<noteq> TOK_EOF" "\<And>q. kind p = k \<Longrightarrow> consumes p q \<Longrightarrow> P q"
  shows "ok (gql_expect p k msg) P"
  using assms by (auto simp: gql_expect_def gql_throw_expected_message_def gql_throw_expected_token_def
      gql_throw_def intro!: gql_advance_wp split: option.splits)

lemma gql_parse_name_wp:
  assumes "lexed p" "\<And>q. kind p = TOK_NAME \<Longrightarrow> consumes p q \<Longrightarrow> P (gql_copy_token_sv p, q)"
  shows "ok (gql_parse_name p msg) P"
  using assms by (auto simp: gql_parse_name_def gql_throw_expected_message_def gql_throw_def
      ok_but_bnd_eq intro!: gql_advance_wp)

lemma gql_parse_fragment_name_wp:
  assumes "lexed p" "\<And>q. kind p = TOK_NAME \<Longrightarrow> consumes p q \<Longrightarrow> P (gql_copy_token_sv p, q)"
  shows "ok (gql_parse_fragment_name p) P"
  using assms by (auto simp: gql_parse_fragment_name_def gql_throw_def intro!: gql_parse_name_wp)

lemma ok_gql_throw [wp]: "ok (gql_throw n msg) P"
  by (simp add: gql_throw_def)

lemma ok_gql_throw_expected_message [wp]: "ok (gql_throw_expected_message p n msg) P"
  by (simp add: gql_throw_expected_message_def gql_throw_def)

lemma ok_unescape_loop: "ok (unescape_loop s i out u) (\<lambda>_. True)"
proof (induction s i out u rule: unescape_loop.induct)
  case (1 s i out u)
  then show ?case
    by (subst unescape_loop.simps) (simp add: Let_def split: option.splits)
qed

lemma gql_copy_value_sv_wp [wp]:
  assumes "\<And>u s. P (PV u s)"
  shows "ok (gql_copy_value_sv p) P"
proof -
  have "ok (unescape_loop s 0 [] u) (\<lambda>(u, out). P (PV u out))" for s u
    using ok_unescape_loop [of s 0 "[]" u] assms by (auto elim!: ok_but_weaken)
  then have "ok (gql_unescape_string_sv raw) P" for raw
    by (simp add: gql_unescape_string_sv_def ok_but_bnd_eq case_prod_unfold)
  with assms show ?thesis by (simp add: gql_copy_value_sv_def Let_def)
qed

end
