(* ===== verification/Location.thy ===== *)
theory Location
  imports Lexer_Lemmas
begin

text \<open>
  Source locations: the line index \<^verbatim>\<open>gql_parser_init\<close> builds, the binary search of
  \<^verbatim>\<open>gql_line_column_from_pos\<close>, and the location nodes the parser stores. The reference is
  \<^verbatim>\<open>_line_column\<close> of \<^verbatim>\<open>lib/GraphQL/Houtou/XS/Parser.pm\<close>, the linear scan the error
  formatter uses: the two agree at every position that is not inside a CRLF pair.
\<close>

section \<open>Building the index\<close>

text \<open>The \<^verbatim>\<open>for\<close> loop over the source: \<open>i\<close> is the offset of the rest of the text.\<close>

fun line_starts_from :: "nat \<Rightarrow> string \<Rightarrow> nat list" where
  "line_starts_from i [] = []"
| "line_starts_from i (c # cs) =
     (if c = LF \<or> c = CR then
        (if c = CR \<and> cs \<noteq> [] \<and> hd cs = LF then (i + 2) # line_starts_from (i + 2) (tl cs)
         else (i + 1) # line_starts_from (i + 1) cs)
      else line_starts_from (i + 1) cs)"

definition gql_parser_init :: "sv \<Rightarrow> bool \<Rightarrow> gql_parser" where
  "gql_parser_init source_sv no_loc =
     \<lparr>src = SvPV source_sv, len = length (SvPV source_sv), pos = 0, last_pos = None,
      tok_start = 0, tok_end = 0, val_start = 0, val_end = 0, kind = TOK_EOF,
      is_utf8 = SvUTF8 source_sv, no_location = no_loc,
      line_starts = (if no_loc then [] else 0 # line_starts_from 0 (SvPV source_sv)),
      depth = 0, token_count = 0, validation_errors = None\<rparr>"

section \<open>Looking a position up\<close>

text \<open>The binary search: \<open>found\<close> is the last index whose line start is at or before the position.\<close>

function line_search :: "nat list \<Rightarrow> nat \<Rightarrow> int \<Rightarrow> int \<Rightarrow> int \<Rightarrow> int" where
  "line_search starts at_pos low high found =
     (if low \<le> high then
        (let mid = low + (high - low) div 2
         in if starts ! nat mid \<le> at_pos then line_search starts at_pos (mid + 1) high mid
            else line_search starts at_pos low (mid - 1) found)
      else found)"
  by pat_completeness auto
termination
  by (relation "measure (\<lambda>(starts, at_pos, low, high, found). nat (high - low + 1))") auto

declare line_search.simps [simp del]

definition gql_line_column_from_pos :: "gql_parser \<Rightarrow> nat option \<Rightarrow> bool \<Rightarrow> int \<times> int" where
  "gql_line_column_from_pos p at_pos one_based =
     (case at_pos of
        None \<Rightarrow> (1, 0)
      | Some n \<Rightarrow>
          if line_starts p = [] then (1, int n + (if one_based then 1 else 0))
          else
            let found = line_search (line_starts p) n 0 (int (length (line_starts p)) - 1) 0
            in (found + 1, int n - int (line_starts p ! nat found) + (if one_based then 1 else 0)))"

definition gql_line_column_from_last :: "gql_parser \<Rightarrow> int \<times> int" where
  "gql_line_column_from_last p = gql_line_column_from_pos p (last_pos p) False"

section \<open>Location nodes\<close>

definition location_node :: "int \<Rightarrow> int \<Rightarrow> sv" where
  "location_node line column =
     HV (gql_store_sv (gql_store_sv [] ''line'' (IV line)) ''column'' (IV column))"

definition gql_make_location :: "gql_parser \<Rightarrow> sv" where
  "gql_make_location p = (let (line, column) = gql_line_column_from_last p in location_node line column)"

text \<open>\<^verbatim>\<open>p->last_pos + 1\<close> wraps to 0 for the initial \<^verbatim>\<open>(STRLEN)-1\<close>.\<close>

definition after_last :: "gql_parser \<Rightarrow> nat" where
  "after_last p = (case last_pos p of None \<Rightarrow> 0 | Some n \<Rightarrow> n + 1)"

definition gql_make_current_location :: "gql_parser \<Rightarrow> sv" where
  "gql_make_current_location p =
     (if kind p = TOK_EOF \<and> tok_start p \<le> after_last p then gql_make_location p
      else let (line, column) = gql_line_column_from_pos p (Some (tok_start p)) True
           in location_node line column)"

definition gql_store_current_location :: "gql_parser \<Rightarrow> hv \<Rightarrow> hv" where
  "gql_store_current_location p h =
     (if no_location p then h else gql_store_sv h ''location'' (gql_make_current_location p))"

definition gql_make_endline_location :: "gql_parser \<Rightarrow> sv" where
  "gql_make_endline_location p = (let (line, column) = gql_line_column_from_last p in location_node line 0)"

definition gql_store_endline_location :: "gql_parser \<Rightarrow> hv \<Rightarrow> hv" where
  "gql_store_endline_location p h =
     (if no_location p then h else gql_store_sv h ''location'' (gql_make_endline_location p))"

definition gql_make_current_or_endline_location :: "gql_parser \<Rightarrow> sv" where
  "gql_make_current_or_endline_location p =
     (if kind p = TOK_EOF then gql_make_current_location p
      else
        let (current_line, _) = gql_line_column_from_pos p (Some (tok_start p)) True;
            (last_line, _) = gql_line_column_from_last p
        in if current_line = last_line then gql_make_current_location p
           else gql_make_endline_location p)"

definition gql_store_current_or_endline_location :: "gql_parser \<Rightarrow> hv \<Rightarrow> hv" where
  "gql_store_current_or_endline_location p h =
     (if no_location p then h
      else gql_store_sv h ''location'' (gql_make_current_or_endline_location p))"

section \<open>The reference scan\<close>

text \<open>
  \<^verbatim>\<open>_line_column\<close>: the rest of the text, how many characters are still before the position,
  and the line and column so far.
\<close>

fun line_column_scan :: "string \<Rightarrow> nat \<Rightarrow> int \<Rightarrow> int \<Rightarrow> int \<times> int" where
  "line_column_scan cs 0 line column = (line, column)"
| "line_column_scan [] (Suc n) line column = (line, column)"
| "line_column_scan (c # cs) (Suc n) line column =
     (if c = CR then
        (if n > 0 \<and> cs \<noteq> [] \<and> hd cs = LF then line_column_scan (tl cs) (n - 1) (line + 1) 1
         else line_column_scan cs n (line + 1) 1)
      else if c = LF then line_column_scan cs n (line + 1) 1
      else line_column_scan cs n line (column + 1))"

definition line_column_ref :: "string \<Rightarrow> nat \<Rightarrow> int \<times> int" where
  "line_column_ref source position = line_column_scan source (min position (length source)) 1 1"

section \<open>The search is correct\<close>

lemma line_starts_from_bounds: "s \<in> set (line_starts_from i cs) \<Longrightarrow> i < s \<and> s \<le> i + length cs"
proof (induction i cs rule: line_starts_from.induct)
  case (1 i)
  then show ?case by simp
next
  case (2 i c cs)
  then show ?case by (cases cs) (auto split: if_splits)
qed

lemma sorted_line_starts_from: "sorted_wrt (<) (line_starts_from i cs)"
proof (induction i cs rule: line_starts_from.induct)
  case (1 i)
  then show ?case by simp
next
  case (2 i c cs)
  then show ?case by (auto dest: line_starts_from_bounds)
qed

lemma sorted_line_index: "sorted_wrt (<) (0 # line_starts_from 0 cs)"
  by (auto simp: sorted_line_starts_from dest: line_starts_from_bounds)

text \<open>How many entries of a sorted index are at or before a position.\<close>

definition starts_before :: "nat list \<Rightarrow> nat \<Rightarrow> nat" where
  "starts_before xs n = length (filter (\<lambda>s. s \<le> n) xs)"

lemma sorted_starts_before:
  assumes "sorted_wrt (<) (xs :: nat list)" "i < length xs"
  shows "xs ! i \<le> n \<longleftrightarrow> i < starts_before xs n"
  using assms
proof (induction xs arbitrary: i)
  case Nil
  then show ?case by simp
next
  case (Cons x xs)
  show ?case
  proof (cases "x \<le> n")
    case True
    with Cons show ?thesis by (cases i) (auto simp: starts_before_def)
  next
    case False
    with Cons.prems have "filter (\<lambda>s. s \<le> n) (x # xs) = []"
      by (auto simp: filter_empty_conv)
    moreover have "n < (x # xs) ! i"
    proof (cases i)
      case 0
      with False show ?thesis by simp
    next
      case (Suc j)
      with Cons.prems have "x < xs ! j" by auto
      with False Suc show ?thesis by simp
    qed
    ultimately show ?thesis by (simp add: starts_before_def)
  qed
qed

lemma line_search_finds:
  assumes "sorted_wrt (<) starts"
    and "0 \<le> low" "high < int (length starts)"
    and "low \<le> int (starts_before starts n)" "int (starts_before starts n) \<le> high + 1"
    and "found = low - 1 \<or> low = 0 \<and> found = 0 \<and> 0 < starts_before starts n"
  shows "line_search starts n low high found = int (starts_before starts n) - 1"
  using assms
proof (induction starts n low high found rule: line_search.induct)
  case (1 starts n low high found)
  show ?case
  proof (cases "low \<le> high")
    case False
    with "1.prems" show ?thesis by (subst line_search.simps) auto
  next
    case True
    define mid where "mid = low + (high - low) div 2"
    have mid: "low \<le> mid" "mid \<le> high" using True by (auto simp: mid_def)
    have "nat mid < length starts" using mid "1.prems" by linarith
    then have iff: "starts ! nat mid \<le> n \<longleftrightarrow> nat mid < starts_before starts n"
      by (rule sorted_starts_before [OF "1.prems"(1)])
    show ?thesis
    proof (cases "starts ! nat mid \<le> n")
      case ge: True
      have "line_search starts n (mid + 1) high mid = int (starts_before starts n) - 1"
        using "1.prems" mid iff ge True
        by (intro "1.IH"(1) [OF True mid_def]) auto
      with True ge show ?thesis by (subst line_search.simps) (simp add: mid_def Let_def)
    next
      case lt: False
      have "line_search starts n low (mid - 1) found = int (starts_before starts n) - 1"
        using "1.prems" mid iff lt True
        by (intro "1.IH"(2) [OF True mid_def]) auto
      with True lt show ?thesis by (subst line_search.simps) (simp add: mid_def Let_def)
    qed
  qed
qed

definition inside_crlf :: "string \<Rightarrow> nat \<Rightarrow> bool" where
  "inside_crlf cs n \<longleftrightarrow> 0 < n \<and> n < length cs \<and> cs ! (n - 1) = CR \<and> cs ! n = LF"

text \<open>The linear scan counts the line starts it passes and measures from the last one.\<close>

definition scan_spec :: "nat \<Rightarrow> string \<Rightarrow> nat \<Rightarrow> int \<Rightarrow> int \<Rightarrow> int \<times> int" where
  "scan_spec i cs n line column =
     (let starts = line_starts_from i cs; k = starts_before starts (i + n)
      in (line + int k, if k = 0 then column + int n else int (i + n) - int (starts ! (k - 1)) + 1))"

lemma starts_before_none: "(\<And>s. s \<in> set xs \<Longrightarrow> n < s) \<Longrightarrow> starts_before xs n = 0"
  by (auto simp: starts_before_def filter_empty_conv dest: leD)

lemma scan_spec_0: "scan_spec i cs 0 line column = (line, column)"
  using starts_before_none [of "line_starts_from i cs" i] line_starts_from_bounds [of _ i cs]
  by (auto simp: scan_spec_def Let_def)

lemma scan_spec_break:
  "starts = (i + m) # line_starts_from (i + m) cs' \<Longrightarrow> line_starts_from i cs = starts \<Longrightarrow> n = m + n' \<Longrightarrow>
    scan_spec i cs n line column = scan_spec (i + m) cs' n' (line + 1) 1"
  by (auto simp: scan_spec_def Let_def starts_before_def nth_Cons' ac_simps)

lemma inside_crlf_Suc: "inside_crlf cs n \<Longrightarrow> inside_crlf (c # cs) (Suc n)"
  by (auto simp: inside_crlf_def nth_Cons' split: if_splits)

lemma line_column_scan_spec:
  "n \<le> length cs \<Longrightarrow> \<not> inside_crlf cs n \<Longrightarrow>
    line_column_scan cs n line column = scan_spec i cs n line column"
proof (induction cs n line column arbitrary: i rule: line_column_scan.induct)
  case (1 cs line column)
  then show ?case by (simp add: scan_spec_0)
next
  case (2 n line column)
  then show ?case by simp
next
  case (3 c cs n line column)
  consider (crlf) "c = CR" "cs \<noteq> []" "hd cs = LF" | (cr) "c = CR" "\<not> (cs \<noteq> [] \<and> hd cs = LF)"
    | (lf) "c = LF" | (other) "c \<noteq> CR" "c \<noteq> LF" by blast
  then show ?case
  proof cases
    case crlf
    then obtain cs' where cs: "cs = LF # cs'" by (cases cs) auto
    have "0 < n" using "3.prems" crlf cs by (cases n) (auto simp: inside_crlf_def)
    then obtain m where n: "n = Suc m" by (cases n) auto
    have "\<not> inside_crlf cs' m"
      using "3.prems"(2) cs n inside_crlf_Suc [of cs m LF] inside_crlf_Suc [of cs' m LF]
        inside_crlf_Suc [of cs "Suc m" c] by auto
    then have "line_column_scan cs' m (line + 1) 1 = scan_spec (i + 2) cs' m (line + 1) 1"
      using "3.IH"(1) [of "i + 2"] "3.prems" crlf cs n by simp
    also have "\<dots> = scan_spec i (c # cs) (Suc n) line column"
      using crlf cs n by (intro scan_spec_break [symmetric]) auto
    finally show ?thesis using crlf cs n by simp
  next
    case cr
    then have "line_column_scan cs n (line + 1) 1 = scan_spec (i + 1) cs n (line + 1) 1"
      using "3.IH"(2) [of "i + 1"] "3.prems" inside_crlf_Suc [of cs n c] by auto
    also have "\<dots> = scan_spec i (c # cs) (Suc n) line column"
      using cr by (intro scan_spec_break [symmetric]) auto
    finally show ?thesis using cr by auto
  next
    case lf
    then have "line_column_scan cs n (line + 1) 1 = scan_spec (i + 1) cs n (line + 1) 1"
      using "3.IH"(3) [of "i + 1"] "3.prems" inside_crlf_Suc [of cs n c] by auto
    also have "\<dots> = scan_spec i (c # cs) (Suc n) line column"
      using lf by (intro scan_spec_break [symmetric]) auto
    finally show ?thesis using lf by auto
  next
    case other
    then have "line_column_scan cs n line (column + 1) = scan_spec (i + 1) cs n line (column + 1)"
      using "3.IH"(4) [of "i + 1"] "3.prems" inside_crlf_Suc [of cs n c] by auto
    also have "\<dots> = scan_spec i (c # cs) (Suc n) line column"
      using other by (auto simp: scan_spec_def Let_def)
    finally show ?thesis using other by auto
  qed
qed

text \<open>
  C15. The line and column the parser computes by binary search in the index it built from a
  source are those of the linear scan of the error formatter, at every position of the
  source that is not between the CR and the LF of one line break.
\<close>

theorem line_column_matches_reference:
  assumes "n \<le> length s" and "\<not> inside_crlf s n"
  shows "gql_line_column_from_pos (gql_parser_init (PV u s) False) (Some n) True = line_column_ref s n"
proof -
  let ?ls = "line_starts_from 0 s" and ?k = "starts_before (line_starts_from 0 s) n"
  have all: "starts_before (0 # ?ls) n = Suc ?k" by (simp add: starts_before_def)
  have le: "?k \<le> length ?ls" by (simp add: starts_before_def)
  have "line_search (0 # ?ls) n 0 (int (length (0 # ?ls)) - 1) 0 = int (Suc ?k) - 1"
    using line_search_finds [OF sorted_line_index, of 0 "int (length (0 # ?ls)) - 1" s n 0] all le by simp
  moreover have "line_column_ref s n = scan_spec 0 s n 1 1"
    using line_column_scan_spec [OF assms, of 1 1 0] assms(1) by (simp add: line_column_ref_def min_def)
  ultimately show ?thesis
    by (simp add: gql_line_column_from_pos_def gql_parser_init_def scan_spec_def Let_def nth_Cons')
qed

theorem line_column_matches_reference_witness:
  "gql_line_column_from_pos (gql_parser_init (PV False [CHR ''a'', CR, LF, CHR ''b'', LF, CHR ''c'']) False) (Some 5) True
     = line_column_ref [CHR ''a'', CR, LF, CHR ''b'', LF, CHR ''c''] 5
   \<and> line_column_ref [CHR ''a'', CR, LF, CHR ''b'', LF, CHR ''c''] 5 = (3, 1)"
  using line_column_matches_reference [of 5 "[CHR ''a'', CR, LF, CHR ''b'', LF, CHR ''c'']" False]
  by (simp add: inside_crlf_def line_column_ref_def eval_nat_numeral)

end
