(* ===== verification/Parser_Values.thy ===== *)
theory Parser_Values
  imports Location
begin

text \<open>
  The input-value half of \<^verbatim>\<open>src/parser_graphqlperl_runtime.h\<close>: type references, values,
  arguments and directives. The first argument of the recursive functions is the number of
  nested C calls they may make. A value needs two per level of nesting, and the code stops
  at \<^verbatim>\<open>GQL_PARSER_MAX_DEPTH\<close> levels, so the constant \<open>value_frames\<close> is enough for every
  document. A type reference has no such limit: the frames it needs grow with the source.
\<close>

section \<open>Loops of the parser\<close>

text \<open>\<^verbatim>\<open>while (p->kind != close)\<close>: every round consumes a token, so what is left bounds the rounds.\<close>

definition parse_while ::
  "(gql_parser \<Rightarrow> bool) \<Rightarrow> ('a \<Rightarrow> gql_parser \<Rightarrow> 'a parsed) \<Rightarrow> 'a \<Rightarrow> gql_parser \<Rightarrow> 'a parsed" where
  "parse_while guard body a p = ploop (Suc (left p)) Out_Of_Fuel guard body a p"

definition parse_until ::
  "gql_token_kind \<Rightarrow> ('a \<Rightarrow> gql_parser \<Rightarrow> 'a parsed) \<Rightarrow> 'a \<Rightarrow> gql_parser \<Rightarrow> 'a parsed" where
  "parse_until close body a p = parse_while (\<lambda>q. kind q \<noteq> close) body a p"

section \<open>Duplicate diagnostics\<close>

text \<open>
  The block guarded by \<^verbatim>\<open>p->validation_errors\<close>: where the key is already in the hash, a
  message and, if the call site stores one, the current location go to the sink.
\<close>

definition push_error :: "sv \<Rightarrow> gql_parser \<Rightarrow> gql_parser" where
  "push_error e p = p\<lparr>validation_errors := map_option (\<lambda>es. es @ [e]) (validation_errors p)\<rparr>"

definition note_duplicate :: "hv \<Rightarrow> string \<Rightarrow> string \<Rightarrow> bool \<Rightarrow> gql_parser \<Rightarrow> gql_parser" where
  "note_duplicate h key message located p =
     (if validation_errors p \<noteq> None \<and> hv_exists h key then
        push_error
          (HV (let e = gql_store_sv [] ''message'' (PV False message)
               in if located then gql_store_sv e ''locations'' (AV [gql_make_current_location p]) else e)) p
      else p)"

text \<open>Names in messages are quoted by apostrophes.\<close>

definition in_quotes :: "string \<Rightarrow> string" where
  "in_quotes s = CHR 0x27 # s @ [CHR 0x27]"

definition provided_twice :: "string \<Rightarrow> string \<Rightarrow> string" where
  "provided_twice what name = what @ '' '' @ in_quotes name @ '' is provided more than once.''"

definition defined_twice :: "string \<Rightarrow> string \<Rightarrow> string" where
  "defined_twice what name = what @ '' '' @ in_quotes name @ '' is defined more than once.''"

section \<open>Type references\<close>

definition gql_make_type_wrapper :: "sv \<Rightarrow> string \<Rightarrow> sv" where
  "gql_make_type_wrapper type_sv k = AV [PV False k, HV (gql_store_sv [] ''type'' type_sv)]"

fun gql_parse_type_reference :: "nat \<Rightarrow> gql_parser \<Rightarrow> sv parsed" where
  "gql_parse_type_reference 0 p = Inl Out_Of_Fuel"
| "gql_parse_type_reference (Suc n) p =
     bnd (if kind p = TOK_LBRACKET then
            bnd (gql_advance p) (\<lambda>p.
            bnd (gql_parse_type_reference n p) (\<lambda>(t, p).
            bnd (gql_expect p TOK_RBRACKET None) (\<lambda>p.
            Inr (gql_make_type_wrapper t ''list'', p))))
          else gql_parse_name p ''Expected name'') (\<lambda>(t, p).
     if kind p = TOK_BANG then
       bnd (gql_advance p) (\<lambda>p. Inr (gql_make_type_wrapper t ''non_null'', p))
     else Inr (t, p))"

definition type_frames :: "gql_parser \<Rightarrow> nat" where
  "type_frames p = Suc (left p)"

section \<open>Values\<close>

text \<open>
  A variable is a reference to its name, an enum value a reference to a reference to its
  name, \<^verbatim>\<open>null\<close> is the undefined value, \<^verbatim>\<open>true\<close> and \<^verbatim>\<open>false\<close> are JSON booleans.
\<close>

fun gql_parse_value :: "nat \<Rightarrow> bool \<Rightarrow> gql_parser \<Rightarrow> sv parsed"
  and gql_parse_list_value :: "nat \<Rightarrow> bool \<Rightarrow> gql_parser \<Rightarrow> sv parsed"
  and gql_parse_object_value :: "nat \<Rightarrow> bool \<Rightarrow> gql_parser \<Rightarrow> sv parsed"
where
  "gql_parse_value 0 is_const p = Inl Out_Of_Fuel"
| "gql_parse_value (Suc n) is_const p =
     (case kind p of
        TOK_DOLLAR \<Rightarrow>
          if is_const then gql_throw (tok_start p) ''Expected name or constant''
          else bnd (gql_advance p) (\<lambda>p.
               bnd (gql_parse_name p ''Expected name'') (\<lambda>(name, p). Inr (Ref name, p)))
      | TOK_INT \<Rightarrow> bnd (gql_advance p) (\<lambda>p'. Inr (IV (perl_sviv (tok_text p)), p'))
      | TOK_FLOAT \<Rightarrow> bnd (gql_advance p) (\<lambda>p'. Inr (NV (tok_text p), p'))
      | TOK_STRING \<Rightarrow> bnd (gql_copy_value_sv p) (\<lambda>v. bnd (gql_advance p) (\<lambda>p'. Inr (v, p')))
      | TOK_BLOCK_STRING \<Rightarrow> bnd (gql_copy_value_sv p) (\<lambda>v. bnd (gql_advance p) (\<lambda>p'. Inr (v, p')))
      | TOK_NAME \<Rightarrow>
          if gql_peek_name p ''true'' then bnd (gql_advance p) (\<lambda>p. Inr (PBool True, p))
          else if gql_peek_name p ''false'' then bnd (gql_advance p) (\<lambda>p. Inr (PBool False, p))
          else if gql_peek_name p ''null'' then bnd (gql_advance p) (\<lambda>p. Inr (Undef, p))
          else bnd (gql_advance p) (\<lambda>p'. Inr (Ref (Ref (gql_copy_token_sv p)), p'))
      | TOK_LBRACKET \<Rightarrow> gql_parse_list_value n is_const p
      | TOK_LBRACE \<Rightarrow> gql_parse_object_value n is_const p
      | _ \<Rightarrow> gql_throw (tok_start p) (if is_const then ''Expected name or constant'' else ''Expected value''))"
| "gql_parse_list_value 0 is_const p = Inl Out_Of_Fuel"
| "gql_parse_list_value (Suc n) is_const p =
     (let p = p\<lparr>depth := depth p + 1\<rparr>
      in if depth p > GQL_PARSER_MAX_DEPTH
         then gql_throw (tok_start p) ''Value is too deeply nested (exceeds maximum nesting depth)''
         else
           bnd (gql_expect p TOK_LBRACKET None) (\<lambda>p.
           bnd (parse_until TOK_RBRACKET (\<lambda>av p.
                  bnd (gql_parse_value n is_const p) (\<lambda>(v, p). Inr (av @ [v], p))) [] p) (\<lambda>(av, p).
           bnd (gql_expect p TOK_RBRACKET None) (\<lambda>p.
           Inr (AV av, p\<lparr>depth := depth p - 1\<rparr>)))))"
| "gql_parse_object_value 0 is_const p = Inl Out_Of_Fuel"
| "gql_parse_object_value (Suc n) is_const p =
     (let p = p\<lparr>depth := depth p + 1\<rparr>
      in if depth p > GQL_PARSER_MAX_DEPTH
         then gql_throw (tok_start p) ''Value is too deeply nested (exceeds maximum nesting depth)''
         else
           bnd (gql_expect p TOK_LBRACE (Some ''Expected name'')) (\<lambda>p.
           bnd (parse_until TOK_RBRACE (\<lambda>hv p.
                  bnd (gql_parse_name p ''Expected name'') (\<lambda>(name, p).
                  bnd (gql_expect p TOK_COLON None) (\<lambda>p.
                  bnd (gql_parse_value n is_const
                         (note_duplicate hv (SvPV name)
                           (provided_twice ''Input field'' (SvPV name)) True p)) (\<lambda>(v, p).
                  Inr (gql_store_sv hv (SvPV name) v, p))))) [] p) (\<lambda>(hv, p).
           bnd (gql_expect p TOK_RBRACE None) (\<lambda>p.
           Inr (HV hv, p\<lparr>depth := depth p - 1\<rparr>)))))"

definition value_frames :: nat where
  "value_frames = 1026"

section \<open>Arguments and directives\<close>

definition gql_parse_arguments :: "bool \<Rightarrow> gql_parser \<Rightarrow> hv parsed" where
  "gql_parse_arguments is_const p =
     bnd (gql_expect p TOK_LPAREN None) (\<lambda>p.
     if kind p = TOK_RPAREN then gql_throw_expected_message p (tok_start p) ''Expected name''
     else
       bnd (parse_until TOK_RPAREN (\<lambda>hv p.
              bnd (gql_parse_name p ''Expected name'') (\<lambda>(name, p).
              bnd (gql_expect p TOK_COLON None) (\<lambda>p.
              bnd (gql_parse_value value_frames is_const
                     (note_duplicate hv (SvPV name)
                       (provided_twice ''Argument'' (SvPV name)) True p)) (\<lambda>(v, p).
              Inr (gql_store_sv hv (SvPV name) v, p))))) [] p) (\<lambda>(hv, p).
       bnd (gql_expect p TOK_RPAREN None) (\<lambda>p.
       Inr (hv, p))))"

definition parse_directive_with :: "bool \<Rightarrow> gql_parser \<Rightarrow> sv parsed" where
  "parse_directive_with is_const p =
     bnd (gql_expect p TOK_AT None) (\<lambda>p.
     bnd (gql_parse_name p ''Expected name'') (\<lambda>(name, p).
     let hv = gql_store_sv [] ''name'' name
     in if kind p = TOK_LPAREN then
          bnd (gql_parse_arguments is_const p) (\<lambda>(args, p).
          Inr (HV (gql_store_sv hv ''arguments'' (HV args)), p))
        else Inr (HV hv, p)))"

definition gql_parse_directive :: "gql_parser \<Rightarrow> sv parsed" where
  "gql_parse_directive p = parse_directive_with False p"

definition gql_parse_directives :: "gql_parser \<Rightarrow> sv parsed" where
  "gql_parse_directives p =
     bnd (parse_while (\<lambda>q. kind q = TOK_AT)
            (\<lambda>av p. bnd (gql_parse_directive p) (\<lambda>(d, p). Inr (av @ [d], p))) [] p) (\<lambda>(av, p).
     Inr (AV av, p))"

definition gql_parse_const_directives :: "gql_parser \<Rightarrow> sv parsed" where
  "gql_parse_const_directives p =
     bnd (parse_while (\<lambda>q. kind q = TOK_AT)
            (\<lambda>av p. bnd (parse_directive_with True p) (\<lambda>(d, p). Inr (av @ [d], p))) [] p) (\<lambda>(av, p).
     Inr (AV av, p))"

end
