(* ===== verification/Parser_Values_Lemmas.thy ===== *)
theory Parser_Values_Lemmas
  imports Parser_Values
begin

text \<open>
  Correctness of the value parser: every call returns or throws within its frames and loop
  budgets, leaves the nesting counter as it found it, consumes input, and the values it
  builds are nested no deeper than the limit. The rules are stated relative to one base
  state \<open>r\<close> (\<open>follows r p\<close>), so that a chain of calls needs no transitivity steps.
\<close>

section \<open>Rules relative to a base state\<close>

lemma advance_from [wp]:
  assumes "follows r p" "kind p \<noteq> TOK_EOF" "\<And>q. follows r q \<Longrightarrow> consumes r q \<Longrightarrow> P q"
  shows "ok (gql_advance p) P"
  using assms by (blast intro: gql_advance_wp follows_consumes consumesD)

lemma expect_from [wp]:
  assumes "follows r p" "k \<noteq> TOK_EOF" "\<And>q. follows r q \<Longrightarrow> consumes r q \<Longrightarrow> P q"
  shows "ok (gql_expect p k msg) P"
  using assms by (blast intro: gql_expect_wp follows_consumes consumesD)

lemma parse_name_from [wp]:
  assumes "follows r p" "\<And>q. follows r q \<Longrightarrow> consumes r q \<Longrightarrow> P (gql_copy_token_sv p, q)"
  shows "ok (gql_parse_name p msg) P"
  using assms by (blast intro: gql_parse_name_wp follows_consumes consumesD)

lemma parse_fragment_name_from [wp]:
  assumes "follows r p" "\<And>q. follows r q \<Longrightarrow> consumes r q \<Longrightarrow> P (gql_copy_token_sv p, q)"
  shows "ok (gql_parse_fragment_name p) P"
  using assms by (blast intro: gql_parse_fragment_name_wp follows_consumes consumesD)

lemma ok_ifI [wp]: "(c \<Longrightarrow> ok a P) \<Longrightarrow> (\<not> c \<Longrightarrow> ok b P) \<Longrightarrow> ok (if c then a else b) P"
  by simp

lemma ok_bndI [wp]: "ok m (\<lambda>x. ok (f x) P) \<Longrightarrow> ok (bnd m f) P"
  by (simp add: ok_but_bnd_eq)

lemma follows_push_error: "follows r p \<Longrightarrow> follows r (push_error e p)"
  by (auto simp: follows_def push_error_def lexed_def same_input_def sink_grows_def split: option.splits)

lemma follows_note_duplicate: "follows r p \<Longrightarrow> follows r (note_duplicate h k m l p)"
  by (auto simp: note_duplicate_def intro: follows_push_error)

lemma note_duplicate_fields [simp]:
  "kind (note_duplicate h k m l p) = kind p" "depth (note_duplicate h k m l p) = depth p"
  by (auto simp: note_duplicate_def push_error_def)

lemma depth_update_frame [simp]:
  "lexed (p\<lparr>depth := d\<rparr>) = lexed p"
  "same_input (p\<lparr>depth := d\<rparr>) q = same_input p q" "same_input p (q\<lparr>depth := d\<rparr>) = same_input p q"
  "sink_grows (p\<lparr>depth := d\<rparr>) q = sink_grows p q" "sink_grows p (q\<lparr>depth := d\<rparr>) = sink_grows p q"
  by (simp_all add: lexed_def same_input_def sink_grows_def split: option.splits)

lemma deeper_follows: "lexed p \<Longrightarrow> follows (p\<lparr>depth := d\<rparr>) (p\<lparr>depth := d\<rparr>)"
  by (rule follows_refl) simp

lemma consumes_back: "consumes (p\<lparr>depth := d\<rparr>) q \<Longrightarrow> consumes p (q\<lparr>depth := depth p\<rparr>)"
  by (auto simp: consumes_def follows_def)

lemma peek_name_kind [simp]: "gql_peek_name p w \<Longrightarrow> kind p = TOK_NAME"
  by (simp add: gql_peek_name_def)

text \<open>
  Loops: the invariant may speak of the state, and a loop that makes no round consumes
  nothing, so the rule hands on what had been consumed before it.
\<close>

lemma parse_while_inv:
  assumes "follows r p" and "I a p"
    and body: "\<And>a q. I a q \<Longrightarrow> guard q \<Longrightarrow> follows q q \<Longrightarrow> depth q = depth r \<Longrightarrow>
      ok (body a q) (\<lambda>(a', q'). I a' q' \<and> consumes q q')"
    and post: "\<And>a q. I a q \<Longrightarrow> \<not> guard q \<Longrightarrow> follows r q \<Longrightarrow> consumes r p \<longrightarrow> consumes r q \<Longrightarrow> P (a, q)"
  shows "ok (parse_while guard body a p) P"
proof -
  have p: "lexed p" using assms(1) by (rule follows_lexed)
  have "consuming_loop Out_Of_Fuel guard body (\<lambda>a q. I a q \<and> follows p q) left"
  proof (rule consuming_loop.intro)
    fix a q
    assume inv: "I a q \<and> follows p q" and g: "guard q"
    then have "follows q q" "depth q = depth r"
      using follows_depth [OF assms(1)] by (auto intro: follows_refl dest: follows_depth)
    with inv g have "ok (body a q) (\<lambda>(a', q'). I a' q' \<and> consumes q q')" by (intro body) auto
    then show "ok (body a q) (\<lambda>(a', q'). (I a' q' \<and> follows p q') \<and> left q' < left q)"
      using inv by (auto elim!: ok_but_weaken intro: consumes_left follows_trans consumesD)
  qed
  from consuming_loop.loop_ok [OF this, of a p "Suc (left p)"] assms(2) follows_refl [OF p]
  have "ok (parse_while guard body a p)
      (\<lambda>(a', q). (I a' q \<and> follows p q) \<and> \<not> guard q \<and> left q \<le> left p)"
    unfolding parse_while_def by simp
  then show ?thesis
    by (rule ok_but_weaken)
      (auto intro!: post intro: follows_trans [OF assms(1)] consumes_follows)
qed

lemma parse_while_from:
  assumes "follows r p" and "I a"
    and "\<And>a q. I a \<Longrightarrow> guard q \<Longrightarrow> follows q q \<Longrightarrow> depth q = depth r \<Longrightarrow>
      ok (body a q) (\<lambda>(a', q'). I a' \<and> consumes q q')"
    and "\<And>a q. I a \<Longrightarrow> \<not> guard q \<Longrightarrow> follows r q \<Longrightarrow> consumes r p \<longrightarrow> consumes r q \<Longrightarrow> P (a, q)"
  shows "ok (parse_while guard body a p) P"
  using assms by (intro parse_while_inv [where I = "\<lambda>a q. I a"]) auto

lemma parse_until_from:
  assumes "follows r p" and "I a"
    and "\<And>a q. I a \<Longrightarrow> kind q \<noteq> close \<Longrightarrow> follows q q \<Longrightarrow> depth q = depth r \<Longrightarrow>
      ok (body a q) (\<lambda>(a', q'). I a' \<and> consumes q q')"
    and "\<And>a q. I a \<Longrightarrow> kind q = close \<Longrightarrow> follows r q \<Longrightarrow> consumes r p \<longrightarrow> consumes r q \<Longrightarrow> P (a, q)"
  shows "ok (parse_until close body a p) P"
  unfolding parse_until_def using assms by (intro parse_while_from [where I = I]) auto

text \<open>A loop entered with the guard true ends with a list that is not empty.\<close>

lemma parse_until_some:
  assumes "follows r p" and "kind p \<noteq> close"
    and "\<And>a q. list_all J a \<Longrightarrow> kind q \<noteq> close \<Longrightarrow> follows q q \<Longrightarrow> depth q = depth r \<Longrightarrow>
      ok (body a q) (\<lambda>(a', q'). list_all J a' \<and> a' \<noteq> [] \<and> consumes q q')"
    and "\<And>a q. list_all J a \<Longrightarrow> a \<noteq> [] \<Longrightarrow> kind q = close \<Longrightarrow> follows r q \<Longrightarrow>
      consumes r p \<longrightarrow> consumes r q \<Longrightarrow> P (a, q)"
  shows "ok (parse_until close body [] p) P"
  unfolding parse_until_def
proof (rule parse_while_inv [OF assms(1), where I = "\<lambda>a q. list_all J a \<and> (a = [] \<longrightarrow> kind q \<noteq> close)"])
  fix a q
  assume "list_all J a \<and> (a = [] \<longrightarrow> kind q \<noteq> close)" "kind q \<noteq> close" "follows q q" "depth q = depth r"
  with assms(3) [of a q]
  show "ok (body a q) (\<lambda>(a', q'). (list_all J a' \<and> (a' = [] \<longrightarrow> kind q' \<noteq> close)) \<and> consumes q q')"
    by (auto elim!: ok_but_weaken)
qed (use assms(2,4) in auto)

section \<open>Type references\<close>

text \<open>How deep a type reference is wrapped.\<close>

lemma type_reference_ok:
  "lexed p \<Longrightarrow> left p < n \<Longrightarrow> ok (gql_parse_type_reference n p) (\<lambda>(t, q). consumes p q)"
proof (induction n arbitrary: p)
  case 0
  then show ?case by simp
next
  case (Suc n)
  have p: "follows p p" using Suc.prems(1) by (rule follows_refl)
  have inner: "ok (gql_parse_type_reference n q) (\<lambda>(t, q'). follows p q' \<and> consumes p q')" if "consumes p q" for q
  proof -
    have "lexed q" "left q < n" using that consumes_left [OF that] Suc.prems(2) by auto
    from Suc.IH [OF this] that show ?thesis
      by (auto elim!: ok_but_weaken intro: consumes_trans consumesD)
  qed
  show ?case
    using p by (auto simp: gql_make_type_wrapper_def case_prod_unfold
        intro!: wp ok_but_weaken [OF inner])
qed

section \<open>Values\<close>

text \<open>How deep lists and objects are nested in a value.\<close>

fun sv_nest :: "sv \<Rightarrow> nat" where
  "sv_nest (AV xs) = Suc (foldr max (map sv_nest xs) 0)"
| "sv_nest (HV h) = Suc (foldr max (map (\<lambda>(k, v). sv_nest v) h) 0)"
| "sv_nest _ = 0"

lemma foldr_max_le: "foldr max xs (0::nat) \<le> b \<longleftrightarrow> (\<forall>x \<in> set xs. x \<le> b)"
  by (induction xs) auto

definition nest_ok :: "gql_parser \<Rightarrow> sv \<Rightarrow> bool" where
  "nest_ok p v \<longleftrightarrow> int (sv_nest v) + depth p \<le> GQL_PARSER_MAX_DEPTH"

lemma gql_store_sv_mem: "(k, v) \<in> set (gql_store_sv h k' v') \<Longrightarrow> (k, v) \<in> set h \<or> k = k' \<and> v = v'"
  using set_hv_store_subset [of h k' v'] by (auto simp: gql_store_sv_def)

text \<open>Frames that are enough at a given depth.\<close>

definition frames_at :: "gql_parser \<Rightarrow> nat" where
  "frames_at p = nat (2 * (GQL_PARSER_MAX_DEPTH - depth p) + 1)"

definition in_depth :: "gql_parser \<Rightarrow> bool" where
  "in_depth p \<longleftrightarrow> 0 \<le> depth p \<and> depth p \<le> GQL_PARSER_MAX_DEPTH"

definition value_result :: "gql_parser \<Rightarrow> sv \<times> gql_parser \<Rightarrow> bool" where
  "value_result p = (\<lambda>(v, q). consumes p q \<and> nest_ok p v)"


lemma value_frames_enough:
  assumes "lexed p" "in_depth p"
  shows "(frames_at p < n \<longrightarrow> ok (gql_parse_value n c p) (value_result p)) \<and>
     (frames_at p \<le> n \<longrightarrow> ok (gql_parse_list_value n c p) (value_result p)) \<and>
     (frames_at p \<le> n \<longrightarrow> ok (gql_parse_object_value n c p) (value_result p))"
  using assms
proof (induction n arbitrary: p c)
  case 0
  then show ?case by (auto simp: frames_at_def in_depth_def)
next
  case (Suc n)
  note p = follows_refl [OF Suc.prems(1)]
  have flat: "nest_ok p v" if "sv_nest v = 0" for v
    using Suc.prems(2) that by (simp add: nest_ok_def in_depth_def)
  have copy: "ok (gql_copy_value_sv p) (\<lambda>v. ok (gql_advance p) (\<lambda>p'. value_result p (v, p')))"
    if "kind p \<noteq> TOK_EOF"
    using p that flat by (auto intro!: wp simp: value_result_def)
  have val: "ok (gql_parse_value (Suc n) c p) (value_result p)" if "frames_at p < Suc n"
    using that Suc.IH [OF Suc.prems, of c] p copy
    by (auto simp: ok_but_bnd_eq value_result_def flat intro!: wp split: gql_token_kind.splits)
  let ?p = "p\<lparr>depth := depth p + 1\<rparr>"
  note p1 = deeper_follows [OF Suc.prems(1), where d = "depth p + 1"]
  have item: "ok (gql_parse_value n c q) P"
    if "follows r q" "depth r = depth p + 1" "depth p + 1 \<le> GQL_PARSER_MAX_DEPTH" "frames_at p \<le> Suc n"
      "\<And>v q'. follows r q' \<Longrightarrow> consumes r q' \<Longrightarrow> int (sv_nest v) + depth p + 1 \<le> GQL_PARSER_MAX_DEPTH \<Longrightarrow> P (v, q')"
    for r q P
  proof -
    have "in_depth q" "lexed q" "frames_at q < n" "depth q = depth p + 1"
      using that(1-4) Suc.prems(2) follows_depth [OF that(1)] by (auto simp: in_depth_def frames_at_def)
    with Suc.IH [of q c] that(1) show ?thesis
      by (auto simp: value_result_def nest_ok_def ac_simps elim!: ok_but_weaken
          intro!: that(5) intro: follows_consumes follows_trans consumesD)
  qed
  have closed: "value_result p (w, q\<lparr>depth := depth q - 1\<rparr>)"
    if "consumes ?p q" "int (sv_nest w) + depth p \<le> GQL_PARSER_MAX_DEPTH" for w q
    using that consumes_back [where p = p and d = "depth p + 1" and q = q] consumes_depth [of ?p q]
    by (simp add: value_result_def nest_ok_def)
  let ?le = "\<lambda>v. int (sv_nest v) + depth p + 1 \<le> GQL_PARSER_MAX_DEPTH"
  have arr: "int (sv_nest (AV av)) + depth p \<le> GQL_PARSER_MAX_DEPTH"
    if "\<forall>v \<in> set av. ?le v" "depth p + 1 \<le> GQL_PARSER_MAX_DEPTH" for av
  proof -
    have "foldr max (map sv_nest av) 0 \<le> nat (GQL_PARSER_MAX_DEPTH - depth p - 1)"
      using that by (auto simp: foldr_max_le le_nat_iff)
    with that(2) show ?thesis by simp
  qed
  have obj: "int (sv_nest (HV hv)) + depth p \<le> GQL_PARSER_MAX_DEPTH"
    if "\<forall>(k, v) \<in> set hv. ?le v" "depth p + 1 \<le> GQL_PARSER_MAX_DEPTH" for hv
  proof -
    have "foldr max (map (\<lambda>(k, v). sv_nest v) hv) 0 \<le> nat (GQL_PARSER_MAX_DEPTH - depth p - 1)"
      using that by (fastforce simp: foldr_max_le le_nat_iff)
    with that(2) show ?thesis by simp
  qed
  have list: "ok (gql_parse_list_value (Suc n) c p) (value_result p)" if "frames_at p \<le> Suc n"
    using that p1
    by (auto simp: Let_def
        intro!: wp parse_until_from [where I = "\<lambda>av. \<forall>v \<in> set av. ?le v"] closed arr item)
  have object: "ok (gql_parse_object_value (Suc n) c p) (value_result p)" if "frames_at p \<le> Suc n"
    using that p1
    by (auto simp: Let_def dest!: gql_store_sv_mem
        intro!: wp parse_until_from [where I = "\<lambda>hv. \<forall>(k, v) \<in> set hv. ?le v"] closed obj item
          follows_note_duplicate)
  show ?case using val list object by simp
qed


declare gql_parse_value.simps [simp del] gql_parse_list_value.simps [simp del]
  gql_parse_object_value.simps [simp del] gql_parse_type_reference.simps [simp del]

text \<open>
  The rules the clients use: the frames of the model are enough at every depth the parser
  can be in.
\<close>

lemma in_depth_frames: "in_depth p \<Longrightarrow> frames_at p < value_frames"
  by (auto simp: in_depth_def frames_at_def value_frames_def GQL_PARSER_MAX_DEPTH_def)

lemma in_depth_follows: "follows p q \<Longrightarrow> in_depth p \<Longrightarrow> in_depth q"
  by (simp add: in_depth_def follows_depth)

lemma parse_value_from [wp]:
  assumes "follows r p" "in_depth r"
    and "\<And>v q. follows r q \<Longrightarrow> consumes r q \<Longrightarrow> nest_ok r v \<Longrightarrow> P (v, q)"
  shows "ok (gql_parse_value value_frames c p) P"
proof -
  have "lexed p" "in_depth p" using assms by (auto intro: in_depth_follows)
  from value_frames_enough [OF this, of value_frames c] in_depth_frames [OF this(2)]
  have "ok (gql_parse_value value_frames c p) (value_result p)" by simp
  then show ?thesis
    using assms(1) follows_depth [OF assms(1)]
    by (auto simp: value_result_def nest_ok_def elim!: ok_but_weaken
        intro!: assms(3) intro: follows_consumes follows_trans consumesD)
qed

lemma parse_type_reference_from [wp]:
  assumes "follows r p" and "\<And>t q. follows r q \<Longrightarrow> consumes r q \<Longrightarrow> P (t, q)"
  shows "ok (gql_parse_type_reference (type_frames p) p) P"
proof -
  have "ok (gql_parse_type_reference (type_frames p) p) (\<lambda>(t, q). consumes p q)"
    using assms(1) by (intro type_reference_ok) (auto simp: type_frames_def)
  then show ?thesis
    using assms(1) by (auto elim!: ok_but_weaken
        intro!: assms(2) intro: follows_consumes follows_trans consumesD)
qed

text \<open>Hashes of arguments: every value is nested no deeper than the limit allows.\<close>

definition hv_nest_ok :: "gql_parser \<Rightarrow> hv \<Rightarrow> bool" where
  "hv_nest_ok p h \<longleftrightarrow> (\<forall>(k, v) \<in> set h. nest_ok p v)"

lemma hv_nest_ok_Nil [simp]: "hv_nest_ok p []"
  by (simp add: hv_nest_ok_def)

lemma hv_nest_ok_store: "hv_nest_ok p h \<Longrightarrow> nest_ok p v \<Longrightarrow> hv_nest_ok p (gql_store_sv h k v)"
  by (auto simp: hv_nest_ok_def dest!: gql_store_sv_mem)

lemma in_depth_at: "depth q = depth r \<Longrightarrow> in_depth r \<Longrightarrow> in_depth q"
  by (simp add: in_depth_def)

lemma nest_ok_at: "depth q = depth r \<Longrightarrow> nest_ok q v \<Longrightarrow> nest_ok r v"
  by (simp add: nest_ok_def)

lemmas at_depth = in_depth_at nest_ok_at

lemma parse_arguments_from [wp]:
  assumes "follows r p" "in_depth r"
    and "\<And>h q. follows r q \<Longrightarrow> consumes r q \<Longrightarrow> hv_nest_ok r h \<Longrightarrow> P (h, q)"
  shows "ok (gql_parse_arguments c p) P"
  unfolding gql_parse_arguments_def
  by (insert assms(1,2))
    (assumption | rule wp conjI impI parse_until_from [where I = "hv_nest_ok r"] follows_note_duplicate
        assms(3) hv_nest_ok_store | erule (1) at_depth | simp)+

lemma parse_directive_from [wp]:
  assumes "follows r p" "in_depth r" and "\<And>d q. follows r q \<Longrightarrow> consumes r q \<Longrightarrow> P (d, q)"
  shows "ok (parse_directive_with c p) P"
  unfolding parse_directive_with_def Let_def
  by (insert assms(1,2)) (assumption | rule wp assms(3) conjI impI | simp split del: if_split | simp)+

lemma parse_directives_from [wp]:
  assumes "follows r p" "in_depth r" and "\<And>ds q. follows r q \<Longrightarrow> consumes r p \<longrightarrow> consumes r q \<Longrightarrow> P (ds, q)"
  shows "ok (gql_parse_directives p) P"
  unfolding gql_parse_directives_def gql_parse_directive_def
  by (insert assms(1,2))
    (assumption | rule wp parse_while_from [where I = "\<lambda>_. True"] assms(3) TrueI | erule (1) at_depth | simp)+

lemma parse_const_directives_from [wp]:
  assumes "follows r p" "in_depth r" and "\<And>ds q. follows r q \<Longrightarrow> consumes r p \<longrightarrow> consumes r q \<Longrightarrow> P (ds, q)"
  shows "ok (gql_parse_const_directives p) P"
  unfolding gql_parse_const_directives_def
  by (insert assms(1,2))
    (assumption | rule wp parse_while_from [where I = "\<lambda>_. True"] assms(3) TrueI | erule (1) at_depth | simp)+

section \<open>The loop over directives\<close>

text \<open>The loop over a list of directives is such a loop; its exit condition is the guard.\<close>

interpretation directive_loop: consuming_loop Out_Of_Fuel "\<lambda>q. kind q = TOK_AT"
  "\<lambda>av p. bnd (parse_directive_with is_const p) (\<lambda>(d, p). Inr (av @ [d], p))"
  "\<lambda>av q. lexed q \<and> in_depth q" left for is_const
proof unfold_locales
  fix av :: "sv list" and s
  assume s: "lexed s \<and> in_depth s"
  then show "ok (bnd (parse_directive_with is_const s) (\<lambda>(d, p). Inr (av @ [d], p)))
      (\<lambda>(av', q). (lexed q \<and> in_depth q) \<and> left q < left s)"
    by (intro wp parse_directive_from [of s s])
      (auto intro: follows_refl consumes_left in_depth_follows)
qed

lemma directives_end:
  assumes "lexed p" "in_depth p"
  shows "ok (gql_parse_directives p) (\<lambda>(ds, q). kind q \<noteq> TOK_AT \<and> left q \<le> left p)"
  using directive_loop.loop_ok [of p "Suc (left p)" False "[]"] assms
  by (auto simp: gql_parse_directives_def gql_parse_directive_def parse_while_def ok_but_bnd_eq
      elim!: ok_but_weaken)

end
