(* ===== verification/Parser_Selections.thy ===== *)
theory Parser_Selections
  imports Parser_Values_Lemmas
begin

text \<open>
  Selection sets, fields, fragment spreads and inline fragments of
  \<^verbatim>\<open>src/parser_graphqlperl_runtime.h\<close>. The first argument counts nested C calls, three per
  level of selections; \<^verbatim>\<open>GQL_PARSER_MAX_DEPTH\<close> bounds the levels, so the constant
  \<open>selection_frames\<close> is enough for every document. The lemmas show that, and that the nodes
  are well formed (\<open>selection_ok\<close>): the fields the later stages read are there, with
  selections and values nested no deeper than the limit.
\<close>

section \<open>The parser\<close>

text \<open>
  \<^verbatim>\<open>hv_fetch\<close> of a key that the callee has just stored, on the hash it returned; the C code
  does not test the result.
\<close>

definition member_of :: "sv \<Rightarrow> string \<Rightarrow> sv" where
  "member_of node key =
     (case node of HV h \<Rightarrow> (case hv_fetch h key of Some v \<Rightarrow> v | None \<Rightarrow> Undef) | _ \<Rightarrow> Undef)"

fun gql_parse_selection_set :: "nat \<Rightarrow> gql_parser \<Rightarrow> sv parsed"
  and gql_parse_selection :: "nat \<Rightarrow> gql_parser \<Rightarrow> sv parsed"
  and gql_parse_field :: "nat \<Rightarrow> gql_parser \<Rightarrow> sv parsed"
where
  "gql_parse_selection_set 0 p = Inl Out_Of_Fuel"
| "gql_parse_selection_set (Suc n) p =
     (let p = p\<lparr>depth := depth p + 1\<rparr>
      in if depth p > GQL_PARSER_MAX_DEPTH
         then gql_throw (tok_start p) ''Query is too deeply nested (exceeds maximum nesting depth)''
         else
           bnd (gql_expect p TOK_LBRACE (Some ''Expected name'')) (\<lambda>p.
           if kind p = TOK_RBRACE then gql_throw (tok_start p) ''Expected name''
           else
             bnd (parse_until TOK_RBRACE (\<lambda>av p.
                    bnd (gql_parse_selection n p) (\<lambda>(s, p). Inr (av @ [s], p))) [] p) (\<lambda>(av, p).
             bnd (gql_expect p TOK_RBRACE None) (\<lambda>p.
             Inr (HV (gql_store_sv [] ''selections'' (AV av)), p\<lparr>depth := depth p - 1\<rparr>)))))"
| "gql_parse_selection 0 p = Inl Out_Of_Fuel"
| "gql_parse_selection (Suc n) p =
     (if kind p = TOK_SPREAD then
        bnd (gql_advance p) (\<lambda>p.
        if gql_peek_name p ''on'' then
          bnd (gql_advance p) (\<lambda>lookahead.
          if kind lookahead \<noteq> TOK_NAME then
            gql_throw (tok_start p) (''Unexpected Name '' @ quoted ''on'')
          else
            bnd (gql_advance p) (\<lambda>p.
            bnd (gql_parse_name p ''Expected name'') (\<lambda>(on, p).
            let hv = gql_store_sv [] ''on'' on
            in bnd (if kind p = TOK_AT then
                      bnd (gql_parse_directives p) (\<lambda>(ds, p). Inr (gql_store_sv hv ''directives'' ds, p))
                    else Inr (hv, p)) (\<lambda>(hv, p).
               bnd (gql_parse_selection_set n p) (\<lambda>(sel, p).
               let hv = gql_store_sv hv ''selections'' (member_of sel ''selections'');
                   hv = gql_store_sv hv ''kind'' (PV False ''inline_fragment'')
               in Inr (HV (gql_store_current_location p hv), p))))))
        else if kind p = TOK_LBRACE then
          bnd (gql_parse_selection_set n p) (\<lambda>(sel, p).
          let hv = gql_store_sv [] ''selections'' (member_of sel ''selections'');
              hv = gql_store_sv hv ''kind'' (PV False ''inline_fragment'')
          in Inr (HV (gql_store_current_location p hv), p))
        else if kind p = TOK_AT then
          bnd (gql_parse_directives p) (\<lambda>(ds, p).
          bnd (gql_parse_selection_set n p) (\<lambda>(sel, p).
          let hv = gql_store_sv [] ''directives'' ds;
              hv = gql_store_sv hv ''selections'' (member_of sel ''selections'');
              hv = gql_store_sv hv ''kind'' (PV False ''inline_fragment'')
          in Inr (HV (gql_store_current_location p hv), p)))
        else
          bnd (gql_parse_fragment_name p) (\<lambda>(name, p).
          let hv = gql_store_sv [] ''name'' name
          in if kind p = TOK_AT then
               bnd (gql_parse_directives p) (\<lambda>(ds, p).
               let hv = gql_store_sv hv ''directives'' ds;
                   hv = gql_store_sv hv ''kind'' (PV False ''fragment_spread'')
               in Inr (HV (gql_store_current_or_endline_location p hv), p))
             else
               let hv = gql_store_sv hv ''kind'' (PV False ''fragment_spread'')
               in Inr (HV (gql_store_current_location p hv), p)))
      else gql_parse_field n p)"
| "gql_parse_field 0 p = Inl Out_Of_Fuel"
| "gql_parse_field (Suc n) p =
     bnd (gql_parse_name p ''Expected name'') (\<lambda>(first, p).
     bnd (if kind p = TOK_COLON then
            bnd (gql_advance p) (\<lambda>p.
            bnd (gql_parse_name p ''Expected name'') (\<lambda>(name, p).
            Inr (gql_store_sv (gql_store_sv [] ''alias'' first) ''name'' name, p)))
          else Inr (gql_store_sv [] ''name'' first, p)) (\<lambda>(hv, p).
     bnd (if kind p = TOK_LPAREN then
            bnd (gql_parse_arguments False p) (\<lambda>(args, p).
            Inr (gql_store_sv hv ''arguments'' (HV args), p))
          else Inr (hv, p)) (\<lambda>(hv, p).
     let had_directives = (kind p = TOK_AT)
     in bnd (if had_directives then
               bnd (gql_parse_directives p) (\<lambda>(ds, p). Inr (gql_store_sv hv ''directives'' ds, p))
             else Inr (hv, p)) (\<lambda>(hv, p).
     let had_selection_set = (kind p = TOK_LBRACE)
     in bnd (if had_selection_set then
               bnd (gql_parse_selection_set n p) (\<lambda>(sel, p).
               Inr (gql_store_sv hv ''selections'' (member_of sel ''selections''), p))
             else Inr (hv, p)) (\<lambda>(hv, p).
     let hv = gql_store_sv hv ''kind'' (PV False ''field'')
     in Inr (HV (if had_selection_set then gql_store_current_location p hv
                 else if had_directives then gql_store_current_or_endline_location p hv
                 else gql_store_current_location p hv), p))))))"

definition selection_frames :: nat where
  "selection_frames = 1540"

section \<open>What a selection node looks like\<close>

definition is_PV :: "sv \<Rightarrow> bool" where
  "is_PV s = (case s of PV _ _ \<Rightarrow> True | _ \<Rightarrow> False)"

definition optional :: "(sv \<Rightarrow> bool) \<Rightarrow> sv option \<Rightarrow> bool" where
  "optional P x = (case x of Some v \<Rightarrow> P v | None \<Rightarrow> True)"

definition present :: "(sv \<Rightarrow> bool) \<Rightarrow> sv option \<Rightarrow> bool" where
  "present P x = (case x of Some v \<Rightarrow> P v | None \<Rightarrow> False)"

lemma optional_simps [simp]: "optional P None" "optional P (Some v) = P v"
  and present_simps [simp]: "\<not> present P None" "present P (Some v) = P v"
  by (simp_all add: optional_def present_def)

text \<open>
  \<open>levels\<close> is how many levels of selections may follow. The values of the arguments of a
  field are nested at most to what the parser's counter leaves at that place.
\<close>

definition arguments_ok :: "nat \<Rightarrow> sv \<Rightarrow> bool" where
  "arguments_ok levels v = (case v of HV h \<Rightarrow> list_all (\<lambda>(k, w). sv_nest w \<le> levels) h | _ \<Rightarrow> False)"

fun selection_ok :: "nat \<Rightarrow> sv \<Rightarrow> bool" where
  "selection_ok levels (HV h) =
     (let subselections = (\<lambda>s. case (s, levels) of
            (AV xs, Suc l) \<Rightarrow> xs \<noteq> [] \<and> list_all (selection_ok l) xs | _ \<Rightarrow> False)
      in hv_fetch h ''kind'' = Some (PV False ''field'') \<and> present is_PV (hv_fetch h ''name'') \<and>
           optional is_PV (hv_fetch h ''alias'') \<and>
           optional (arguments_ok levels) (hv_fetch h ''arguments'') \<and>
           optional subselections (hv_fetch h ''selections'') \<or>
         hv_fetch h ''kind'' = Some (PV False ''inline_fragment'') \<and> hv_fetch h ''name'' = None \<and>
           optional is_PV (hv_fetch h ''on'') \<and> present subselections (hv_fetch h ''selections'') \<or>
         hv_fetch h ''kind'' = Some (PV False ''fragment_spread'') \<and> present is_PV (hv_fetch h ''name'') \<and>
           hv_fetch h ''selections'' = None)"
| "selection_ok levels _ = False"

definition selections_ok :: "nat \<Rightarrow> sv \<Rightarrow> bool" where
  "selections_ok levels s = (case (s, levels) of
     (AV xs, Suc l) \<Rightarrow> xs \<noteq> [] \<and> list_all (selection_ok l) xs | _ \<Rightarrow> False)"

lemma selection_ok_HV:
  "selection_ok levels (HV h) \<longleftrightarrow>
     hv_fetch h ''kind'' = Some (PV False ''field'') \<and> present is_PV (hv_fetch h ''name'') \<and>
       optional is_PV (hv_fetch h ''alias'') \<and>
       optional (arguments_ok levels) (hv_fetch h ''arguments'') \<and>
       optional (selections_ok levels) (hv_fetch h ''selections'') \<or>
     hv_fetch h ''kind'' = Some (PV False ''inline_fragment'') \<and> hv_fetch h ''name'' = None \<and>
       optional is_PV (hv_fetch h ''on'') \<and> present (selections_ok levels) (hv_fetch h ''selections'') \<or>
     hv_fetch h ''kind'' = Some (PV False ''fragment_spread'') \<and> present is_PV (hv_fetch h ''name'') \<and>
       hv_fetch h ''selections'' = None"
  by (simp add: selections_ok_def [abs_def] Let_def)

declare selection_ok.simps(1) [simp del]

section \<open>The frames are enough and the nodes are well formed\<close>

definition levels :: "gql_parser \<Rightarrow> nat" where
  "levels p = nat (GQL_PARSER_MAX_DEPTH - depth p)"

lemma is_PV_copy_token [simp]: "is_PV (gql_copy_token_sv p)"
  by (simp add: is_PV_def gql_copy_token_sv_def gql_make_string_sv_def)

lemma arguments_ok_levels: "hv_nest_ok r h \<Longrightarrow> in_depth r \<Longrightarrow> arguments_ok (levels r) (HV h)"
  by (auto simp: arguments_ok_def hv_nest_ok_def nest_ok_def levels_def in_depth_def list_all_iff)

lemma fetch_store_location [simp]:
  "k \<noteq> ''location'' \<Longrightarrow> hv_fetch (gql_store_current_location p h) k = hv_fetch h k"
  "k \<noteq> ''location'' \<Longrightarrow> hv_fetch (gql_store_current_or_endline_location p h) k = hv_fetch h k"
  "k \<noteq> ''location'' \<Longrightarrow> hv_fetch (gql_store_endline_location p h) k = hv_fetch h k"
  by (simp_all add: gql_store_current_location_def gql_store_current_or_endline_location_def
      gql_store_endline_location_def)

lemma member_of_store [simp]: "member_of (HV (gql_store_sv h k v)) k = v"
  by (simp add: member_of_def)

definition selections_result :: "gql_parser \<Rightarrow> sv \<times> gql_parser \<Rightarrow> bool" where
  "selections_result p = (\<lambda>(v, q). consumes p q \<and> selections_ok (levels p) (member_of v ''selections''))"

definition selection_result :: "gql_parser \<Rightarrow> sv \<times> gql_parser \<Rightarrow> bool" where
  "selection_result p = (\<lambda>(v, q). consumes p q \<and> selection_ok (levels p) v)"

lemma selection_frames_enough:
  assumes "lexed p" "in_depth p"
  shows "(3 * levels p + 1 \<le> n \<longrightarrow> ok (gql_parse_selection_set n p) (selections_result p)) \<and>
     (3 * levels p + 3 \<le> n \<longrightarrow> ok (gql_parse_selection n p) (selection_result p)) \<and>
     (3 * levels p + 2 \<le> n \<longrightarrow> ok (gql_parse_field n p) (selection_result p))"
  using assms
proof (induction n arbitrary: p)
  case 0
  then show ?case by simp
next
  case (Suc n)
  note p = follows_refl [OF Suc.prems(1)]
  let ?p = "p\<lparr>depth := depth p + 1\<rparr>"
  note p1 = deeper_follows [OF Suc.prems(1), where d = "depth p + 1"]
  have subselections: "ok (gql_parse_selection_set n q) P"
    if "follows p q" "3 * levels p + 1 \<le> n"
      "\<And>v q'. follows p q' \<Longrightarrow> consumes p q' \<Longrightarrow> selections_ok (levels p) (member_of v ''selections'') \<Longrightarrow> P (v, q')"
    for q P
  proof -
    have "in_depth q" "lexed q" "levels q = levels p"
      using that(1) Suc.prems(2) follows_depth [OF that(1)] by (auto simp: in_depth_def levels_def)
    with Suc.IH [of q] that(2) have "ok (gql_parse_selection_set n q) (selections_result q)" by simp
    then show ?thesis
      using that(1) \<open>levels q = levels p\<close>
      by (auto simp: selections_result_def elim!: ok_but_weaken
          intro!: that(3) intro: follows_consumes follows_trans consumesD)
  qed
  have item: "ok (gql_parse_selection n q) P"
    if "follows q q" "depth q = depth p + 1" "\<not> GQL_PARSER_MAX_DEPTH < depth p + 1" "3 * levels p + 1 \<le> Suc n"
      "\<And>v q'. consumes q q' \<Longrightarrow> selection_ok (levels p - 1) v \<Longrightarrow> P (v, q')"
    for q P
  proof -
    have "in_depth q" "lexed q" "levels q = levels p - 1" "0 < levels p"
      using that(1-3) Suc.prems(2) by (auto simp: in_depth_def levels_def)
    with Suc.IH [of q] that(4) have "ok (gql_parse_selection n q) (selection_result q)" by simp
    then show ?thesis
      using \<open>levels q = levels p - 1\<close>
      by (auto simp: selection_result_def elim!: ok_but_weaken intro!: that(5))
  qed
  have selection_set: "ok (gql_parse_selection_set (Suc n) p) (selections_result p)"
    if "3 * levels p + 1 \<le> Suc n"
  proof -
    have closed: "selections_result p
        (HV (gql_store_sv [] ''selections'' (AV av)), q\<lparr>depth := depth q - 1\<rparr>)"
      if "consumes ?p q" "av \<noteq> []" "list_all (selection_ok (levels p - 1)) av"
        "\<not> GQL_PARSER_MAX_DEPTH < depth p + 1" for av q
    proof -
      have "0 < levels p" using that(4) by (simp add: levels_def)
      then obtain l where "levels p = Suc l" by (cases "levels p") auto
      then show ?thesis
        using that consumes_back [where p = p and d = "depth p + 1" and q = q] consumes_depth [of ?p q]
        by (simp add: selections_result_def selections_ok_def)
    qed
    show ?thesis
      unfolding gql_parse_selection_set.simps Let_def
      by (insert that p1)
        (assumption | rule wp parse_until_some [where J = "selection_ok (levels p - 1)"] item closed conjI impI
          | simp split del: if_split)+
  qed
  have fld: "ok (gql_parse_field (Suc n) p) (selection_result p)" if "3 * levels p + 2 \<le> Suc n"
    unfolding gql_parse_field.simps Let_def
    by (insert that p Suc.prems(2))
      (assumption | rule wp conjI impI | rule subselections
        | simp add: selection_result_def selection_ok_HV arguments_ok_levels split del: if_split)+
  have inner: "ok (gql_parse_field n p) (selection_result p)" if "3 * levels p + 3 \<le> Suc n"
    using Suc.IH [OF Suc.prems] that by simp
  have sel: "ok (gql_parse_selection (Suc n) p) (selection_result p)" if "3 * levels p + 3 \<le> Suc n"
    unfolding gql_parse_selection.simps Let_def
    by (insert that p Suc.prems(2) inner [OF that])
      (assumption | rule wp conjI impI | rule subselections
        | simp add: selection_result_def selection_ok_HV split del: if_split)+
  show ?case using selection_set fld sel by simp
qed

declare gql_parse_selection_set.simps [simp del] gql_parse_selection.simps [simp del]
  gql_parse_field.simps [simp del]

lemma parse_selection_set_from [wp]:
  assumes "follows r p" "in_depth r"
    and "\<And>v q. follows r q \<Longrightarrow> consumes r q \<Longrightarrow>
      selections_ok (levels r) (member_of v ''selections'') \<Longrightarrow> P (v, q)"
  shows "ok (gql_parse_selection_set selection_frames p) P"
proof -
  have "lexed p" "in_depth p" "levels p = levels r" "levels p \<le> 512"
    using assms(1,2) follows_depth [OF assms(1)]
    by (auto simp: in_depth_def levels_def GQL_PARSER_MAX_DEPTH_def)
  with selection_frames_enough [of p selection_frames]
  have "ok (gql_parse_selection_set selection_frames p) (selections_result p)"
    by (simp add: selection_frames_def)
  then show ?thesis
    using assms(1) \<open>levels p = levels r\<close>
    by (auto simp: selections_result_def elim!: ok_but_weaken
        intro!: assms(3) intro: follows_consumes follows_trans consumesD)
qed

end
