(* ===== verification/Parser_Definitions.thy ===== *)
theory Parser_Definitions
  imports Parser_Selections
begin

text \<open>
  Operations, fragments, the type system definitions and the document of
  \<^verbatim>\<open>src/parser_graphqlperl_runtime.h\<close>, one definition per C function, in the order of the
  source.
\<close>

section \<open>Executable definitions\<close>

text \<open>A description is the undefined value or a hash with one key.\<close>

definition gql_parse_description :: "gql_parser \<Rightarrow> sv parsed" where
  "gql_parse_description p =
     (if kind p = TOK_STRING \<or> kind p = TOK_BLOCK_STRING then
        bnd (gql_copy_value_sv p) (\<lambda>desc.
        bnd (gql_advance p) (\<lambda>p.
        Inr (HV (gql_store_sv [] ''description'' desc), p)))
      else Inr (Undef, p))"

definition store_description :: "sv \<Rightarrow> hv \<Rightarrow> hv" where
  "store_description description hv =
     (if SvOK description then gql_store_sv hv ''description'' (member_of description ''description'')
      else hv)"

text \<open>The three optional parts that several definitions share: a default value, and directives.\<close>

definition parse_default_value :: "hv \<Rightarrow> gql_parser \<Rightarrow> hv parsed" where
  "parse_default_value hv p =
     (if kind p = TOK_EQUALS then
        bnd (gql_advance p) (\<lambda>p.
        bnd (gql_parse_value value_frames True p) (\<lambda>(v, p).
        Inr (gql_store_sv hv ''default_value'' v, p)))
      else Inr (hv, p))"

definition parse_opt_const_directives :: "hv \<Rightarrow> gql_parser \<Rightarrow> hv parsed" where
  "parse_opt_const_directives hv p =
     (if kind p = TOK_AT then
        bnd (gql_parse_const_directives p) (\<lambda>(ds, p). Inr (gql_store_sv hv ''directives'' ds, p))
      else Inr (hv, p))"

definition parse_opt_directives :: "hv \<Rightarrow> gql_parser \<Rightarrow> hv parsed" where
  "parse_opt_directives hv p =
     (if kind p = TOK_AT then
        bnd (gql_parse_directives p) (\<lambda>(ds, p). Inr (gql_store_sv hv ''directives'' ds, p))
      else Inr (hv, p))"

definition parse_variable_definition :: "hv \<Rightarrow> gql_parser \<Rightarrow> hv parsed" where
  "parse_variable_definition hv p =
     bnd (gql_parse_description p) (\<lambda>(description, p).
     bnd (gql_expect p TOK_DOLLAR None) (\<lambda>p.
     bnd (gql_parse_name p ''Expected name'') (\<lambda>(name, p).
     bnd (gql_expect p TOK_COLON None) (\<lambda>p.
     bnd (gql_parse_type_reference (type_frames p) p) (\<lambda>(t, p).
     bnd (parse_default_value (gql_store_sv [] ''type'' t) p) (\<lambda>(def, p).
     bnd (parse_opt_const_directives def p) (\<lambda>(def, p).
     let def = store_description description def;
         p = note_duplicate hv (SvPV name)
               (''Variable '' @ in_quotes (CHR ''$'' # SvPV name) @ '' is defined more than once.'') True p
     in Inr (gql_store_sv hv (SvPV name) (HV def), p))))))))"

definition gql_parse_variable_definitions :: "gql_parser \<Rightarrow> sv parsed" where
  "gql_parse_variable_definitions p =
     bnd (gql_expect p TOK_LPAREN None) (\<lambda>p.
     if kind p = TOK_RPAREN then gql_throw (tok_start p) ''Expected $argument: Type''
     else
       bnd (parse_until TOK_RPAREN parse_variable_definition [] p) (\<lambda>(hv, p).
       bnd (gql_expect p TOK_RPAREN None) (\<lambda>p.
       Inr (HV (gql_store_sv [] ''variables'' (HV hv)), p))))"

definition operation_keyword :: "gql_parser \<Rightarrow> bool" where
  "operation_keyword p \<longleftrightarrow>
     gql_peek_name p ''query'' \<or> gql_peek_name p ''mutation'' \<or> gql_peek_name p ''subscription''"

definition gql_parse_operation_definition :: "gql_parser \<Rightarrow> sv \<Rightarrow> sv parsed" where
  "gql_parse_operation_definition p description =
     (if kind p = TOK_LBRACE then
        bnd (gql_parse_selection_set selection_frames p) (\<lambda>(sel, p).
        let hv = gql_store_sv [] ''selections'' (member_of sel ''selections'');
            hv = gql_store_sv hv ''kind'' (PV False ''operation'')
        in Inr (HV (gql_store_current_location p hv), p))
      else if \<not> operation_keyword p then gql_throw (tok_start p) ''Expected executable definition''
      else
        let hv = gql_store_sv [] ''operationType'' (gql_copy_token_sv p)
        in bnd (gql_advance p) (\<lambda>p.
           bnd (if kind p = TOK_NAME then
                  bnd (gql_parse_name p ''Expected name'') (\<lambda>(name, p).
                  Inr (gql_store_sv hv ''name'' name, p))
                else Inr (hv, p)) (\<lambda>(hv, p).
           bnd (if kind p = TOK_LPAREN then
                  bnd (gql_parse_variable_definitions p) (\<lambda>(vars, p).
                  Inr (gql_store_sv hv ''variables'' (member_of vars ''variables''), p))
                else Inr (hv, p)) (\<lambda>(hv, p).
           bnd (parse_opt_directives hv p) (\<lambda>(hv, p).
           bnd (gql_parse_selection_set selection_frames p) (\<lambda>(sel, p).
           let hv = gql_store_sv hv ''selections'' (member_of sel ''selections'');
               hv = store_description description hv;
               hv = gql_store_sv hv ''kind'' (PV False ''operation'')
           in Inr (HV (gql_store_current_location p hv), p)))))))"

definition gql_parse_fragment_definition :: "gql_parser \<Rightarrow> sv \<Rightarrow> sv parsed" where
  "gql_parse_fragment_definition p description =
     bnd (gql_advance p) (\<lambda>p.
     bnd (gql_parse_fragment_name p) (\<lambda>(name, p).
     if \<not> gql_peek_name p ''on'' then gql_throw (tok_start p) (''Expected '' @ quoted ''on'')
     else
       bnd (gql_advance p) (\<lambda>p.
       bnd (gql_parse_name p ''Expected name'') (\<lambda>(on, p).
       let hv = gql_store_sv (gql_store_sv [] ''name'' name) ''on'' on
       in bnd (parse_opt_directives hv p) (\<lambda>(hv, p).
          bnd (gql_parse_selection_set selection_frames p) (\<lambda>(sel, p).
          let hv = gql_store_sv hv ''selections'' (member_of sel ''selections'');
              hv = store_description description hv;
              hv = gql_store_sv hv ''kind'' (PV False ''fragment'')
          in Inr (HV (gql_store_current_location p hv), p)))))))"

section \<open>Members of type definitions\<close>

text \<open>A member is returned as a hash with the one entry, which the caller takes out again.\<close>

definition first_entry :: "sv \<Rightarrow> string \<times> sv" where
  "first_entry item = (case item of HV (e # _) \<Rightarrow> e | _ \<Rightarrow> ([], Undef))"

definition gql_parse_input_value_definition :: "gql_parser \<Rightarrow> sv parsed" where
  "gql_parse_input_value_definition p =
     bnd (gql_parse_description p) (\<lambda>(description, p).
     bnd (gql_parse_name p ''Expected name'') (\<lambda>(name, p).
     bnd (gql_expect p TOK_COLON None) (\<lambda>p.
     bnd (gql_parse_type_reference (type_frames p) p) (\<lambda>(t, p).
     bnd (parse_default_value (gql_store_sv [] ''type'' t) p) (\<lambda>(def, p).
     bnd (parse_opt_const_directives def p) (\<lambda>(def, p).
     Inr (HV (gql_store_sv [] (SvPV name) (HV (store_description description def))), p)))))))"

definition gql_parse_arguments_definition :: "gql_parser \<Rightarrow> sv parsed" where
  "gql_parse_arguments_definition p =
     bnd (gql_expect p TOK_LPAREN None) (\<lambda>p.
     if kind p = TOK_RPAREN then gql_throw_expected_message p (tok_start p) ''Expected name''
     else
       bnd (parse_until TOK_RPAREN (\<lambda>args p.
              bnd (gql_parse_input_value_definition p) (\<lambda>(item, p).
              let (key, v) = first_entry item;
                  p = note_duplicate args key (defined_twice ''Argument'' key) False p
              in Inr (gql_store_sv args key v, p))) [] p) (\<lambda>(args, p).
       bnd (gql_expect p TOK_RPAREN None) (\<lambda>p.
       Inr (HV (gql_store_sv [] ''args'' (HV args)), p))))"

definition parse_opt_args :: "hv \<Rightarrow> gql_parser \<Rightarrow> hv parsed" where
  "parse_opt_args hv p =
     (if kind p = TOK_LPAREN then
        bnd (gql_parse_arguments_definition p) (\<lambda>(args, p).
        Inr (gql_store_sv hv ''args'' (member_of args ''args''), p))
      else Inr (hv, p))"

definition gql_parse_field_definition :: "gql_parser \<Rightarrow> sv parsed" where
  "gql_parse_field_definition p =
     bnd (gql_parse_description p) (\<lambda>(description, p).
     bnd (gql_parse_name p ''Expected name'') (\<lambda>(name, p).
     bnd (parse_opt_args [] p) (\<lambda>(def, p).
     bnd (gql_expect p TOK_COLON None) (\<lambda>p.
     bnd (gql_parse_type_reference (type_frames p) p) (\<lambda>(t, p).
     bnd (parse_opt_const_directives (gql_store_sv def ''type'' t) p) (\<lambda>(def, p).
     Inr (HV (gql_store_sv [] (SvPV name) (HV (store_description description def))), p)))))))"

text \<open>A list of names separated by a token: interfaces, union members, directive locations.\<close>

definition parse_separated_names :: "gql_token_kind \<Rightarrow> gql_parser \<Rightarrow> sv list parsed" where
  "parse_separated_names sep p =
     bnd (gql_parse_name p ''Expected name'') (\<lambda>(name, p).
     parse_while (\<lambda>q. kind q = sep) (\<lambda>av p.
       bnd (gql_advance p) (\<lambda>p.
       bnd (gql_parse_name p ''Expected name'') (\<lambda>(name, p).
       Inr (av @ [name], p)))) [name] p)"

definition skip_token :: "gql_token_kind \<Rightarrow> gql_parser \<Rightarrow> gql_error + gql_parser" where
  "skip_token k p = (if kind p = k then gql_advance p else Inr p)"

section \<open>Type definitions\<close>

definition gql_parse_schema_definition_extended :: "gql_parser \<Rightarrow> bool \<Rightarrow> sv parsed" where
  "gql_parse_schema_definition_extended p allow_empty_body =
     bnd (gql_advance p) (\<lambda>p.
     let had_directives = (kind p = TOK_AT)
     in bnd (parse_opt_const_directives [] p) (\<lambda>(hv, p).
        if allow_empty_body \<and> kind p \<noteq> TOK_LBRACE then
          let hv = gql_store_sv hv ''kind'' (PV False ''schema'')
          in Inr (HV (if had_directives then gql_store_endline_location p hv
                      else gql_store_current_location p hv), p)
        else
          bnd (gql_expect p TOK_LBRACE None) (\<lambda>p.
          if kind p = TOK_RBRACE then gql_throw (tok_start p) ''Expected name''
          else
            bnd (parse_until TOK_RBRACE (\<lambda>hv p.
                   bnd (gql_parse_name p ''Expected name'') (\<lambda>(op_name, p).
                   bnd (gql_expect p TOK_COLON None) (\<lambda>p.
                   bnd (gql_parse_name p ''Expected name'') (\<lambda>(name, p).
                   Inr (gql_store_sv hv (SvPV op_name) name, p))))) hv p) (\<lambda>(hv, p).
            bnd (gql_expect p TOK_RBRACE None) (\<lambda>p.
            let hv = gql_store_sv hv ''kind'' (PV False ''schema'')
            in Inr (HV (gql_store_endline_location p hv), p))))))"

definition gql_parse_schema_definition :: "gql_parser \<Rightarrow> sv parsed" where
  "gql_parse_schema_definition p = gql_parse_schema_definition_extended p False"

definition gql_parse_scalar_type_definition :: "gql_parser \<Rightarrow> sv parsed" where
  "gql_parse_scalar_type_definition p =
     bnd (gql_advance p) (\<lambda>p.
     bnd (gql_parse_name p ''Expected name'') (\<lambda>(name, p).
     let had_directives = (kind p = TOK_AT)
     in bnd (parse_opt_const_directives (gql_store_sv [] ''name'' name) p) (\<lambda>(hv, p).
        let hv = gql_store_sv hv ''kind'' (PV False ''scalar'')
        in Inr (HV (if had_directives then gql_store_endline_location p hv
                    else gql_store_current_location p hv), p))))"

definition parse_interfaces :: "string \<Rightarrow> hv \<Rightarrow> gql_parser \<Rightarrow> hv parsed" where
  "parse_interfaces k hv p =
     (if (k = ''type'' \<or> k = ''interface'') \<and> gql_peek_name p ''implements'' then
        bnd (gql_advance p) (\<lambda>p.
        bnd (skip_token TOK_AMP p) (\<lambda>p.
        bnd (parse_separated_names TOK_AMP p) (\<lambda>(interfaces, p).
        Inr (gql_store_sv hv ''interfaces'' (AV interfaces), p))))
      else Inr (hv, p))"

definition parse_fields :: "string \<Rightarrow> gql_parser \<Rightarrow> hv parsed" where
  "parse_fields k p =
     bnd (gql_advance p) (\<lambda>p.
     if kind p = TOK_RBRACE then gql_throw (tok_start p) ''Expected name''
     else
       bnd (parse_until TOK_RBRACE (\<lambda>fields p.
              bnd (if k = ''input'' then gql_parse_input_value_definition p
                   else gql_parse_field_definition p) (\<lambda>(item, p).
              let (key, v) = first_entry item;
                  p = note_duplicate fields key
                        (defined_twice ((if k = ''input'' then ''Input'' else ''Type'') @ '' field'') key) False p
              in Inr (gql_store_sv fields key v, p))) [] p) (\<lambda>(fields, p).
       bnd (gql_expect p TOK_RBRACE None) (\<lambda>p.
       Inr (fields, p))))"

definition gql_parse_object_type_definition :: "gql_parser \<Rightarrow> string \<Rightarrow> sv parsed" where
  "gql_parse_object_type_definition p k =
     bnd (gql_advance p) (\<lambda>p.
     bnd (gql_parse_name p ''Expected name'') (\<lambda>(name, p).
     bnd (parse_interfaces k (gql_store_sv [] ''name'' name) p) (\<lambda>(hv, p).
     let had_directives = (kind p = TOK_AT)
     in bnd (parse_opt_const_directives hv p) (\<lambda>(hv, p).
     let had_body = (kind p = TOK_LBRACE)
     in bnd (if had_body then parse_fields k p else Inr ([], p)) (\<lambda>(fields, p).
     let hv = gql_store_sv hv ''fields'' (HV fields);
         hv = gql_store_sv hv ''kind'' (PV False k)
     in Inr (HV (if had_directives \<or> had_body then gql_store_endline_location p hv
                 else gql_store_current_location p hv), p))))))"

definition gql_parse_union_type_definition :: "gql_parser \<Rightarrow> sv parsed" where
  "gql_parse_union_type_definition p =
     bnd (gql_advance p) (\<lambda>p.
     bnd (gql_parse_name p ''Expected name'') (\<lambda>(name, p).
     let had_directives = (kind p = TOK_AT)
     in bnd (parse_opt_const_directives (gql_store_sv [] ''name'' name) p) (\<lambda>(hv, p).
     let had_members = (kind p = TOK_EQUALS)
     in bnd (if had_members then
               bnd (gql_advance p) (\<lambda>p.
               bnd (skip_token TOK_PIPE p) (\<lambda>p.
               if kind p \<noteq> TOK_NAME then gql_throw_expected_message p (tok_start p) ''Expected name''
               else
                 bnd (parse_separated_names TOK_PIPE p) (\<lambda>(types, p).
                 Inr (gql_store_sv hv ''types'' (AV types), p))))
             else Inr (hv, p)) (\<lambda>(hv, p).
     let hv = gql_store_sv hv ''kind'' (PV False ''union'')
     in Inr (HV (if had_members then gql_store_current_location p hv
                 else if had_directives then gql_store_endline_location p hv
                 else gql_store_current_location p hv), p)))))"

definition parse_enum_value :: "hv \<Rightarrow> gql_parser \<Rightarrow> hv parsed" where
  "parse_enum_value vals p =
     bnd (gql_parse_description p) (\<lambda>(description, p).
     bnd (gql_parse_name p ''Expected name'') (\<lambda>(name, p).
     if SvPV name = ''true'' \<or> SvPV name = ''false'' \<or> SvPV name = ''null'' then
       gql_throw (if tok_start p > 0 then tok_start p - 1 else tok_start p) ''Invalid enum value''
     else
       bnd (parse_opt_const_directives [] p) (\<lambda>(value_hv, p).
       let p = note_duplicate vals (SvPV name) (defined_twice ''Enum value'' (SvPV name)) False p
       in Inr (gql_store_sv vals (SvPV name) (HV (store_description description value_hv)), p))))"

definition gql_parse_enum_type_definition :: "gql_parser \<Rightarrow> sv parsed" where
  "gql_parse_enum_type_definition p =
     bnd (gql_advance p) (\<lambda>p.
     bnd (gql_parse_name p ''Expected name'') (\<lambda>(name, p).
     let had_directives = (kind p = TOK_AT)
     in bnd (parse_opt_const_directives (gql_store_sv [] ''name'' name) p) (\<lambda>(hv, p).
     let had_body = (kind p = TOK_LBRACE)
     in bnd (if had_body then
               bnd (gql_advance p) (\<lambda>p.
               if kind p = TOK_RBRACE then gql_throw (tok_start p) ''Expected name''
               else
                 bnd (parse_until TOK_RBRACE parse_enum_value [] p) (\<lambda>(vals, p).
                 bnd (gql_expect p TOK_RBRACE None) (\<lambda>p.
                 Inr (vals, p))))
             else Inr ([], p)) (\<lambda>(vals, p).
     let hv = gql_store_sv hv ''values'' (HV vals);
         hv = gql_store_sv hv ''kind'' (PV False ''enum'')
     in Inr (HV (if had_directives \<or> had_body then gql_store_endline_location p hv
                 else gql_store_current_location p hv), p)))))"

definition gql_parse_directive_definition :: "gql_parser \<Rightarrow> sv parsed" where
  "gql_parse_directive_definition p =
     bnd (gql_advance p) (\<lambda>p.
     bnd (gql_expect p TOK_AT None) (\<lambda>p.
     bnd (gql_parse_name p ''Expected name'') (\<lambda>(name, p).
     bnd (parse_opt_args (gql_store_sv [] ''name'' name) p) (\<lambda>(hv, p).
     bnd (if gql_peek_name p ''repeatable'' then
            bnd (gql_advance p) (\<lambda>p. Inr (gql_store_sv hv ''repeatable'' (IV 1), p))
          else Inr (hv, p)) (\<lambda>(hv, p).
     if \<not> gql_peek_name p ''on'' then gql_throw (tok_start p) (''Expected '' @ quoted ''on'')
     else
       bnd (gql_advance p) (\<lambda>p.
       bnd (skip_token TOK_PIPE p) (\<lambda>p.
       if kind p \<noteq> TOK_NAME then gql_throw_expected_message p (tok_start p) ''Expected name''
       else
         bnd (parse_separated_names TOK_PIPE p) (\<lambda>(locations, p).
         let hv = gql_store_sv hv ''locations'' (AV locations);
             hv = gql_store_sv hv ''kind'' (PV False ''directive'')
         in Inr (HV (gql_store_endline_location p hv), p)))))))))"

section \<open>Type system definitions and extensions\<close>

text \<open>An extension has to bring something: the check over the keys of its node.\<close>

definition nonempty_array_at :: "hv \<Rightarrow> string \<Rightarrow> bool" where
  "nonempty_array_at h key = (case hv_fetch h key of Some (AV xs) \<Rightarrow> xs \<noteq> [] | _ \<Rightarrow> False)"

definition nonempty_hash_at :: "hv \<Rightarrow> string \<Rightarrow> bool" where
  "nonempty_hash_at h key = (case hv_fetch h key of Some (HV xs) \<Rightarrow> xs \<noteq> [] | _ \<Rightarrow> False)"

definition extension_has_content :: "hv \<Rightarrow> bool" where
  "extension_has_content h \<longleftrightarrow>
     list_ex (nonempty_array_at h) [''directives'', ''interfaces'', ''types''] \<or>
     list_ex (nonempty_hash_at h) [''fields'', ''values''] \<or>
     (case hv_fetch h ''kind'' of
        Some k \<Rightarrow> SvOK k \<and> SvPV k = ''schema'' \<and>
          (hv_exists h ''query'' \<or> hv_exists h ''mutation'' \<or> hv_exists h ''subscription'')
      | None \<Rightarrow> False)"

definition hash_of :: "sv \<Rightarrow> hv" where
  "hash_of s = (case s of HV h \<Rightarrow> h | _ \<Rightarrow> [])"

definition parse_type_system_node :: "bool \<Rightarrow> gql_parser \<Rightarrow> sv parsed" where
  "parse_type_system_node is_extend p =
     (if gql_peek_name p ''schema'' then
        (if is_extend then gql_parse_schema_definition_extended p True else gql_parse_schema_definition p)
      else if gql_peek_name p ''scalar'' then gql_parse_scalar_type_definition p
      else if gql_peek_name p ''type'' then gql_parse_object_type_definition p ''type''
      else if gql_peek_name p ''interface'' then gql_parse_object_type_definition p ''interface''
      else if gql_peek_name p ''input'' then gql_parse_object_type_definition p ''input''
      else if gql_peek_name p ''union'' then gql_parse_union_type_definition p
      else if gql_peek_name p ''enum'' then gql_parse_enum_type_definition p
      else if gql_peek_name p ''directive'' then gql_parse_directive_definition p
      else gql_throw (tok_start p) ''Expected type system definition'')"

definition gql_parse_type_system_definition :: "gql_parser \<Rightarrow> sv \<Rightarrow> sv parsed" where
  "gql_parse_type_system_definition p description =
     (let is_extend = gql_peek_name p ''extend''
      in bnd (if is_extend then gql_advance p else Inr p) (\<lambda>p.
         bnd (parse_type_system_node is_extend p) (\<lambda>(node, p).
         bnd (if is_extend then
                if \<not> extension_has_content (hash_of node) then
                  gql_throw (tok_start p) ''Type system extension must add a directive or member''
                else Inr (HV (gql_store_sv (hash_of node) ''extension'' (IV 1)))
              else Inr node) (\<lambda>node.
         Inr (HV (store_description description (hash_of node)), p)))))"

section \<open>Documents\<close>

definition gql_parse_definition :: "gql_parser \<Rightarrow> sv parsed" where
  "gql_parse_definition p =
     (if kind p = TOK_LBRACE then gql_parse_operation_definition p Undef
      else if kind p = TOK_STRING \<or> kind p = TOK_BLOCK_STRING then
        bnd (gql_parse_description p) (\<lambda>(description, p).
        if gql_peek_name p ''fragment'' then gql_parse_fragment_definition p description
        else if operation_keyword p then gql_parse_operation_definition p description
        else gql_parse_type_system_definition p description)
      else if gql_peek_name p ''fragment'' then gql_parse_fragment_definition p Undef
      else if operation_keyword p then gql_parse_operation_definition p Undef
      else gql_parse_type_system_definition p Undef)"

definition gql_parse_definitions :: "gql_parser \<Rightarrow> sv list parsed" where
  "gql_parse_definitions p =
     parse_while (\<lambda>q. kind q \<noteq> TOK_EOF)
       (\<lambda>av p. bnd (gql_parse_definition p) (\<lambda>(d, p). Inr (av @ [d], p))) [] p"

definition gql_preflight_token_limit :: "sv \<Rightarrow> gql_error + unit" where
  "gql_preflight_token_limit source_sv =
     (if int (length (SvPV source_sv)) \<le> GQL_PARSER_MAX_TOKENS then Inr ()
      else
        bnd (gql_advance (gql_parser_init source_sv True)) (\<lambda>scan.
        bnd (parse_while (\<lambda>q. kind q \<noteq> TOK_EOF)
               (\<lambda>_ p. bnd (gql_advance p) (\<lambda>p. Inr ((), p))) () scan) (\<lambda>_.
        Inr ())))"

definition gql_parse_document :: "sv \<Rightarrow> bool \<Rightarrow> gql_error + sv" where
  "gql_parse_document source_sv no_loc =
     bnd (gql_preflight_token_limit source_sv) (\<lambda>_.
     bnd (gql_advance (gql_parser_init source_sv no_loc)) (\<lambda>p.
     bnd (gql_parse_definitions p) (\<lambda>(ds, p).
     Inr (AV ds))))"

text \<open>The parse for validation appends to the array of the caller, which is returned with the tree.\<close>

definition gql_parse_document_for_validation ::
  "sv \<Rightarrow> bool \<Rightarrow> sv list \<Rightarrow> gql_error + sv \<times> sv list" where
  "gql_parse_document_for_validation source_sv no_loc errors =
     bnd (gql_preflight_token_limit source_sv) (\<lambda>_.
     bnd (gql_advance ((gql_parser_init source_sv no_loc)\<lparr>validation_errors := Some errors\<rparr>)) (\<lambda>p.
     bnd (gql_parse_definitions p) (\<lambda>(ds, p).
     Inr (AV ds, the (validation_errors p)))))"

end
