(* ===== verification/Parser_Definitions_Lemmas.thy ===== *)
theory Parser_Definitions_Lemmas
  imports Parser_Definitions
begin

text \<open>
  Total correctness of the definition parsers and of the document: the rules have the form
  of those of the value and selection parsers, and end in the theorems about
  \<^verbatim>\<open>gql_parse_document\<close>.
\<close>

section \<open>Shared parts\<close>

lemma peek_not_EOF [simp]: "gql_peek_name p w \<Longrightarrow> kind p \<noteq> TOK_EOF"
  by simp

lemma operation_keyword_kind [simp]: "operation_keyword p \<Longrightarrow> kind p = TOK_NAME"
  by (auto simp: operation_keyword_def)

lemma consumes_note_duplicate [simp]: "consumes r p \<Longrightarrow> consumes r (note_duplicate h k m l p)"
  unfolding consumes_def using follows_note_duplicate
  by (auto simp: note_duplicate_def push_error_def)

lemma hv_fetch_if [simp]: "hv_fetch (if c then a else b) k = (if c then hv_fetch a k else hv_fetch b k)"
  by simp

definition keeps :: "string \<Rightarrow> hv \<Rightarrow> hv \<Rightarrow> bool" where
  "keeps key h h' \<longleftrightarrow> (\<forall>k. k \<noteq> key \<longrightarrow> hv_fetch h' k = hv_fetch h k)"

lemma keeps_refl [simp]: "keeps key h h"
  and keeps_store [simp]: "keeps key h (gql_store_sv h key v)"
  by (simp_all add: keeps_def)

lemma keepsD: "keeps key h h' \<Longrightarrow> k \<noteq> key \<Longrightarrow> hv_fetch h' k = hv_fetch h k"
  by (simp add: keeps_def)

lemma fetch_store_description [simp]:
  "k \<noteq> ''description'' \<Longrightarrow> hv_fetch (store_description d h) k = hv_fetch h k"
  by (simp add: store_description_def)

lemma parse_description_from [wp]:
  assumes "follows r p" and "\<And>d q. follows r q \<Longrightarrow> consumes r p \<longrightarrow> consumes r q \<Longrightarrow>
      kind p = TOK_STRING \<or> kind p = TOK_BLOCK_STRING \<longrightarrow> consumes r q \<Longrightarrow> P (d, q)"
  shows "ok (gql_parse_description p) P"
  unfolding gql_parse_description_def
  by (insert assms(1)) (assumption | rule wp assms(2) conjI impI | auto)+

lemma parse_default_value_from [wp]:
  assumes "follows r p" "in_depth r" and "\<And>hv' q. keeps ''default_value'' hv hv' \<Longrightarrow>
      follows r q \<Longrightarrow> consumes r p \<longrightarrow> consumes r q \<Longrightarrow> P (hv', q)"
  shows "ok (parse_default_value hv p) P"
  unfolding parse_default_value_def
  by (insert assms(1,2)) (assumption | rule wp assms(3) | simp)+

lemma parse_opt_directives_from [wp]:
  assumes "follows r p" "in_depth r" and "\<And>hv' q. keeps ''directives'' hv hv' \<Longrightarrow>
      follows r q \<Longrightarrow> consumes r p \<longrightarrow> consumes r q \<Longrightarrow> P (hv', q)"
  shows "ok (parse_opt_directives hv p) P"
  unfolding parse_opt_directives_def
  by (insert assms(1,2)) (assumption | rule wp assms(3) | simp)+

lemma parse_opt_const_directives_from [wp]:
  assumes "follows r p" "in_depth r" and "\<And>hv' q. keeps ''directives'' hv hv' \<Longrightarrow>
      follows r q \<Longrightarrow> consumes r p \<longrightarrow> consumes r q \<Longrightarrow> P (hv', q)"
  shows "ok (parse_opt_const_directives hv p) P"
  unfolding parse_opt_const_directives_def
  by (insert assms(1,2)) (assumption | rule wp assms(3) | simp)+

lemma skip_token_from [wp]:
  assumes "follows r p" "k \<noteq> TOK_EOF"
    and "\<And>q. follows r q \<Longrightarrow> consumes r p \<longrightarrow> consumes r q \<Longrightarrow> P q"
  shows "ok (skip_token k p) P"
  unfolding skip_token_def
  by (insert assms(1,2)) (assumption | rule wp assms(3) | simp)+

lemma parse_separated_names_from [wp]:
  assumes "follows r p" "sep \<noteq> TOK_EOF" and "\<And>ns q. list_all is_PV ns \<Longrightarrow> ns \<noteq> [] \<Longrightarrow>
      follows r q \<Longrightarrow> consumes r q \<Longrightarrow> P (ns, q)"
  shows "ok (parse_separated_names sep p) P"
  unfolding parse_separated_names_def
  by (insert assms(1,2))
    (assumption | rule wp parse_while_from [where I = "\<lambda>ns. list_all is_PV ns \<and> ns \<noteq> []"] assms(3) conjI | simp)+

section \<open>Operations and fragments\<close>

definition is_HV :: "sv \<Rightarrow> bool" where
  "is_HV s = (case s of HV _ \<Rightarrow> True | _ \<Rightarrow> False)"

lemma is_HV_HV [simp]: "is_HV (HV h)"
  by (simp add: is_HV_def)

definition operation_ok :: "nat \<Rightarrow> hv \<Rightarrow> bool" where
  "operation_ok lv h \<longleftrightarrow> hv_fetch h ''kind'' = Some (PV False ''operation'') \<and>
     optional is_PV (hv_fetch h ''name'') \<and> optional is_PV (hv_fetch h ''operationType'') \<and>
     optional is_HV (hv_fetch h ''variables'') \<and> present (selections_ok lv) (hv_fetch h ''selections'')"

definition fragment_ok :: "nat \<Rightarrow> hv \<Rightarrow> bool" where
  "fragment_ok lv h \<longleftrightarrow> hv_fetch h ''kind'' = Some (PV False ''fragment'') \<and>
     present is_PV (hv_fetch h ''name'') \<and> present is_PV (hv_fetch h ''on'') \<and>
     present (selections_ok lv) (hv_fetch h ''selections'')"

lemma variable_definition_from [wp]:
  assumes "follows r p" "in_depth r" and "\<And>hv' q. consumes r q \<Longrightarrow> P (hv', q)"
  shows "ok (parse_variable_definition hv p) P"
  unfolding parse_variable_definition_def Let_def
  by (insert assms(1,2))
    (assumption | rule wp assms(3) | simp)+

lemma variable_definitions_from [wp]:
  assumes "follows r p" "in_depth r" and "\<And>v q. is_HV (member_of v ''variables'') \<Longrightarrow>
     follows r q \<Longrightarrow> consumes r q \<Longrightarrow> P (v, q)"
  shows "ok (gql_parse_variable_definitions p) P"
  unfolding gql_parse_variable_definitions_def
  by (insert assms(1,2))
    (assumption | rule wp parse_until_from [where I = "\<lambda>_. True"] assms(3) conjI impI TrueI | erule (1) at_depth
      | simp split del: if_split)+

lemma operation_definition_from [wp]:
  assumes "follows r p" "in_depth r"
    and "\<And>h q. operation_ok (levels r) h \<Longrightarrow> consumes r q \<Longrightarrow> P (HV h, q)"
  shows "ok (gql_parse_operation_definition p d) P"
  unfolding gql_parse_operation_definition_def Let_def
  by (insert assms(1,2))
    (assumption | rule wp assms(3) conjI impI | simp add: operation_ok_def keepsD split del: if_split)+

lemma fragment_definition_from [wp]:
  assumes "follows r p" "kind p \<noteq> TOK_EOF" "in_depth r"
    and "\<And>h q. fragment_ok (levels r) h \<Longrightarrow> consumes r q \<Longrightarrow> P (HV h, q)"
  shows "ok (gql_parse_fragment_definition p d) P"
  unfolding gql_parse_fragment_definition_def Let_def
  by (insert assms(1,2,3))
    (assumption | rule wp assms(4) conjI impI | simp add: fragment_ok_def keepsD split del: if_split)+

section \<open>Type system definitions\<close>

lemma input_value_definition_from [wp]:
  assumes "follows r p" "in_depth r" and "\<And>v q. follows r q \<Longrightarrow> consumes r q \<Longrightarrow> P (v, q)"
  shows "ok (gql_parse_input_value_definition p) P"
  unfolding gql_parse_input_value_definition_def
  by (insert assms(1,2)) (assumption | rule wp assms(3) | simp)+

lemma arguments_definition_from [wp]:
  assumes "follows r p" "in_depth r" and "\<And>v q. follows r q \<Longrightarrow> consumes r q \<Longrightarrow> P (v, q)"
  shows "ok (gql_parse_arguments_definition p) P"
  unfolding gql_parse_arguments_definition_def Let_def case_prod_unfold
  by (insert assms(1,2))
    (assumption | rule wp parse_until_from [where I = "\<lambda>_. True"] assms(3) conjI impI TrueI
      | erule (1) at_depth | simp split del: if_split)+

lemma parse_opt_args_from [wp]:
  assumes "follows r p" "in_depth r" and "\<And>hv' q. keeps ''args'' hv hv' \<Longrightarrow>
      follows r q \<Longrightarrow> consumes r p \<longrightarrow> consumes r q \<Longrightarrow> P (hv', q)"
  shows "ok (parse_opt_args hv p) P"
  unfolding parse_opt_args_def
  by (insert assms(1,2)) (assumption | rule wp assms(3) | simp)+

lemma field_definition_from [wp]:
  assumes "follows r p" "in_depth r" and "\<And>v q. follows r q \<Longrightarrow> consumes r q \<Longrightarrow> P (v, q)"
  shows "ok (gql_parse_field_definition p) P"
  unfolding gql_parse_field_definition_def
  by (insert assms(1,2)) (assumption | rule wp assms(3) | simp)+

text \<open>
  A type system node is a hash whose kind is one of eight; the parsers below share the
  shape of their rule.
\<close>

definition type_system_kind :: "string \<Rightarrow> bool" where
  "type_system_kind k \<longleftrightarrow> k \<in> {''schema'', ''scalar'', ''type'', ''interface'', ''input'', ''union'',
     ''enum'', ''directive''}"

definition is_AV_of_names :: "sv \<Rightarrow> bool" where
  "is_AV_of_names s = (case s of AV ns \<Rightarrow> ns \<noteq> [] \<and> list_all is_PV ns | _ \<Rightarrow> False)"

definition type_node_ok :: "hv \<Rightarrow> sv \<Rightarrow> bool" where
  "type_node_ok h kind_sv = (case kind_sv of
     PV u k \<Rightarrow> type_system_kind k \<and>
        (k \<noteq> ''schema'' \<longrightarrow> present is_PV (hv_fetch h ''name'')) \<and>
        (k \<in> {''type'', ''interface'', ''input''} \<longrightarrow> present is_HV (hv_fetch h ''fields'')) \<and>
        (k = ''enum'' \<longrightarrow> present is_HV (hv_fetch h ''values'')) \<and>
        (k = ''directive'' \<longrightarrow> present is_AV_of_names (hv_fetch h ''locations''))
   | _ \<Rightarrow> False)"

definition type_system_ok :: "hv \<Rightarrow> bool" where
  "type_system_ok h \<longleftrightarrow> present (type_node_ok h) (hv_fetch h ''kind'')"

lemmas type_system_simps = type_system_ok_def type_node_ok_def type_system_kind_def keepsD

lemma type_system_ok_ifI [wp]:
  "(c \<Longrightarrow> type_system_ok a) \<Longrightarrow> (\<not> c \<Longrightarrow> type_system_ok b) \<Longrightarrow> type_system_ok (if c then a else b)"
  by simp

lemma schema_definition_from [wp]:
  assumes "follows r p" "kind p \<noteq> TOK_EOF" "in_depth r"
    and "\<And>h q. type_system_ok h \<Longrightarrow> follows r q \<Longrightarrow> consumes r q \<Longrightarrow> P (HV h, q)"
  shows "ok (gql_parse_schema_definition_extended p e) P"
  unfolding gql_parse_schema_definition_extended_def Let_def
  by (insert assms(1,2,3))
    (assumption | rule wp parse_until_from [where I = "\<lambda>_. True"] assms(4) conjI impI TrueI
      | simp add: type_system_simps split del: if_split)+

lemma scalar_type_definition_from [wp]:
  assumes "follows r p" "kind p \<noteq> TOK_EOF" "in_depth r"
    and "\<And>h q. type_system_ok h \<Longrightarrow> follows r q \<Longrightarrow> consumes r q \<Longrightarrow> P (HV h, q)"
  shows "ok (gql_parse_scalar_type_definition p) P"
  unfolding gql_parse_scalar_type_definition_def Let_def
  by (insert assms(1,2,3))
    (assumption | rule wp assms(4) conjI impI
      | simp add: type_system_simps split del: if_split)+

lemma parse_interfaces_from [wp]:
  assumes "follows r p" "in_depth r" and "\<And>hv' q. keeps ''interfaces'' hv hv' \<Longrightarrow>
      follows r q \<Longrightarrow> consumes r p \<longrightarrow> consumes r q \<Longrightarrow> P (hv', q)"
  shows "ok (parse_interfaces k hv p) P"
  unfolding parse_interfaces_def
  by (insert assms(1,2)) (assumption | erule conjE | rule wp assms(3) | simp)+

lemma parse_fields_from [wp]:
  assumes "follows r p" "kind p \<noteq> TOK_EOF" "in_depth r"
    and "\<And>hv' q. follows r q \<Longrightarrow> consumes r q \<Longrightarrow> P (hv', q)"
  shows "ok (parse_fields k p) P"
  unfolding parse_fields_def Let_def case_prod_unfold
  by (insert assms(1,2,3))
    (assumption | rule wp parse_until_from [where I = "\<lambda>_. True"] assms(4) conjI impI TrueI
      | erule (1) at_depth | simp split del: if_split)+

lemma object_type_definition_from [wp]:
  assumes "follows r p" "kind p \<noteq> TOK_EOF" "in_depth r" "k \<in> {''type'', ''interface'', ''input''}"
    and "\<And>h q. type_system_ok h \<Longrightarrow> follows r q \<Longrightarrow> consumes r q \<Longrightarrow> P (HV h, q)"
  shows "ok (gql_parse_object_type_definition p k) P"
  unfolding gql_parse_object_type_definition_def Let_def
  by (insert assms(1,2,3,4))
    (assumption | rule wp assms(5) conjI impI
      | simp add: type_system_simps split del: if_split
      | auto simp: type_system_simps split del: if_split)+

lemma union_type_definition_from [wp]:
  assumes "follows r p" "kind p \<noteq> TOK_EOF" "in_depth r"
    and "\<And>h q. type_system_ok h \<Longrightarrow> follows r q \<Longrightarrow> consumes r q \<Longrightarrow> P (HV h, q)"
  shows "ok (gql_parse_union_type_definition p) P"
  unfolding gql_parse_union_type_definition_def Let_def
  by (insert assms(1,2,3))
    (assumption | rule wp assms(4) conjI impI | simp add: type_system_simps split del: if_split)+

lemma enum_value_from [wp]:
  assumes "follows r p" "in_depth r" and "\<And>hv' q. follows r q \<Longrightarrow> consumes r q \<Longrightarrow> P (hv', q)"
  shows "ok (parse_enum_value vals p) P"
  unfolding parse_enum_value_def Let_def
  by (insert assms(1,2))
    (assumption | rule wp assms(3) conjI impI follows_note_duplicate | simp split del: if_split)+

lemma enum_type_definition_from [wp]:
  assumes "follows r p" "kind p \<noteq> TOK_EOF" "in_depth r"
    and "\<And>h q. type_system_ok h \<Longrightarrow> follows r q \<Longrightarrow> consumes r q \<Longrightarrow> P (HV h, q)"
  shows "ok (gql_parse_enum_type_definition p) P"
  unfolding gql_parse_enum_type_definition_def Let_def
  by (insert assms(1,2,3))
    (assumption | rule wp parse_until_from [where I = "\<lambda>_. True"] assms(4) conjI impI TrueI
      | erule (1) at_depth | simp add: type_system_simps split del: if_split)+

lemma directive_definition_from [wp]:
  assumes "follows r p" "kind p \<noteq> TOK_EOF" "in_depth r"
    and "\<And>h q. type_system_ok h \<Longrightarrow> follows r q \<Longrightarrow> consumes r q \<Longrightarrow> P (HV h, q)"
  shows "ok (gql_parse_directive_definition p) P"
  unfolding gql_parse_directive_definition_def Let_def
  by (insert assms(1,2,3))
    (assumption | rule wp assms(4) conjI impI
      | simp add: type_system_simps is_AV_of_names_def split del: if_split)+

lemma type_system_node_from [wp]:
  assumes "follows r p" "in_depth r"
    and "\<And>h q. type_system_ok h \<Longrightarrow> follows r q \<Longrightarrow> consumes r q \<Longrightarrow> P (HV h, q)"
  shows "ok (parse_type_system_node e p) P"
  unfolding parse_type_system_node_def gql_parse_schema_definition_def
  by (insert assms(1,2))
    (assumption | rule wp assms(3) | simp split del: if_split)+

lemma type_system_ok_stores [simp]:
  "type_system_ok h \<Longrightarrow> type_system_ok (gql_store_sv h ''extension'' v)"
  "type_system_ok h \<Longrightarrow> type_system_ok (store_description d h)"
  by (auto simp: type_system_ok_def type_node_ok_def present_def split: option.splits sv.splits)

lemma hash_of_HV [simp]: "hash_of (HV h) = h"
  by (simp add: hash_of_def)

lemma type_system_definition_from [wp]:
  assumes "follows r p" "in_depth r"
    and "\<And>h q. type_system_ok h \<Longrightarrow> follows r q \<Longrightarrow> consumes r q \<Longrightarrow> P (HV h, q)"
  shows "ok (gql_parse_type_system_definition p d) P"
  unfolding gql_parse_type_system_definition_def Let_def
  by (insert assms(1,2))
    (assumption | rule wp assms(3) conjI impI | simp split del: if_split)+

section \<open>Documents\<close>

definition definition_ok :: "sv \<Rightarrow> bool" where
  "definition_ok d = (case d of
     HV h \<Rightarrow> operation_ok 512 h \<or> fragment_ok 512 h \<or> type_system_ok h | _ \<Rightarrow> False)"

lemma levels_zero: "depth r = 0 \<Longrightarrow> levels r = 512"
  by (simp add: levels_def GQL_PARSER_MAX_DEPTH_def)

lemma definition_from [wp]:
  assumes "follows r p" "in_depth r" "depth r = 0" "kind p \<noteq> TOK_EOF"
    and "\<And>d q. definition_ok d \<Longrightarrow> consumes r q \<Longrightarrow> P (d, q)"
  shows "ok (gql_parse_definition p) P"
  unfolding gql_parse_definition_def
  by (insert assms(1-4))
    (assumption | rule wp assms(5) conjI impI | simp add: definition_ok_def levels_zero split del: if_split)+

definition fresh_parser :: "gql_parser \<Rightarrow> bool" where
  "fresh_parser p \<longleftrightarrow> scannable p \<and> token_count p = 0 \<and> depth p = 0"

lemma fresh_parser_init [simp]:
  "fresh_parser (gql_parser_init s n)" "fresh_parser (gql_parser_init s n\<lparr>validation_errors := e\<rparr>)"
  by (simp_all add: fresh_parser_def scannable_def gql_parser_init_def)

lemma first_advance:
  assumes "fresh_parser p"
    and "\<And>q. follows q q \<Longrightarrow> depth q = 0 \<Longrightarrow> same_input p q \<Longrightarrow> validation_errors q = validation_errors p \<Longrightarrow> P q"
  shows "ok (gql_advance p) P"
  using gql_advance_ok [of p] assms
  by (auto simp: fresh_parser_def GQL_PARSER_MAX_TOKENS_def elim!: ok_but_weaken intro: follows_refl)

lemma definitions_ok:
  assumes "follows r p" "depth r = 0"
    and "\<And>ds q. list_all definition_ok ds \<Longrightarrow> follows r q \<Longrightarrow> P (ds, q)"
  shows "ok (gql_parse_definitions p) P"
  unfolding gql_parse_definitions_def
  by (insert assms(1,2))
    (assumption | rule wp parse_while_from [where I = "list_all definition_ok"] assms(3) conjI impI
      | simp add: in_depth_def GQL_PARSER_MAX_DEPTH_def)+

lemma preflight_ok: "P () \<Longrightarrow> ok (gql_preflight_token_limit s) P"
  unfolding gql_preflight_token_limit_def
  by (assumption | rule wp first_advance [OF fresh_parser_init(1)] parse_while_from [where I = "\<lambda>_. True"] | simp)+

text \<open>
  C1. Parsing ends on every source. It throws one of the errors of the code, or it returns a
  list of definitions of the shape the clients rely on; the frames and loop budgets of the
  model are enough for every document.
\<close>

theorem gql_parse_document_total:
  "ok (gql_parse_document source_sv no_loc)
     (\<lambda>doc. \<exists>ds. doc = AV ds \<and> list_all definition_ok ds)"
  unfolding gql_parse_document_def
  by (assumption | rule wp preflight_ok first_advance [OF fresh_parser_init(1)] definitions_ok | simp)+

text \<open>
  C16. Parsing for validation ends on every source, its definitions have the same shape, and
  the errors it finds are appended to those it was given.
\<close>

theorem parse_document_for_validation_total:
  "ok (gql_parse_document_for_validation source_sv no_loc errors)
     (\<lambda>(doc, errors'). (\<exists>ds. doc = AV ds \<and> list_all definition_ok ds) \<and> (\<exists>new. errors' = errors @ new))"
  unfolding gql_parse_document_for_validation_def
  by (assumption | rule wp preflight_ok first_advance [OF fresh_parser_init(2)] definitions_ok
      | auto simp: follows_def sink_grows_def)+

end
