(* ===== verification/Validation.thy ===== *)
theory Validation
  imports Validation_Directives Validation_Cost Validation_Structure_Lemmas Parser_Definitions_Lemmas
begin

text \<open>
  The entry points \<^verbatim>\<open>gql_validation_parse_ast\<close> and \<^verbatim>\<open>gql_validation_validate\<close> of
  \<^verbatim>\<open>src/validation.h\<close>: all rules over one document, in the order of the code.
\<close>

section \<open>The document\<close>

text \<open>A document that is a reference is the tree already; a string is parsed.\<close>

definition gql_validation_parse_ast :: "sv \<Rightarrow> sv option \<Rightarrow> gql_error + sv \<times> sv list" where
  "gql_validation_parse_ast document options =
     (if SvROK document then Inr (document, [])
      else
        let no_loc =
          (case options of
             Some (HV h) \<Rightarrow>
               (case hv_fetch h ''no_location'' of
                  Some v \<Rightarrow> v
                | None \<Rightarrow> (case hv_fetch h ''noLocation'' of Some v \<Rightarrow> v | None \<Rightarrow> Undef))
           | _ \<Rightarrow> Undef)
        in gql_parse_document_for_validation document (SvTRUE no_loc) [])"

definition executable_kind :: "string \<Rightarrow> bool" where
  "executable_kind k \<longleftrightarrow> k = ''operation'' \<or> k = ''fragment''"

definition not_executable_errors :: "sv list \<Rightarrow> sv list" where
  "not_executable_errors ast =
     concat (map (\<lambda>node.
       case node_kind node of
         Some k \<Rightarrow>
           if executable_kind k then []
           else [gql_validation_error (quote_name ''The '' k '' definition is not executable.'')
                   (hv_fetch node ''location'')]
       | None \<Rightarrow> []) (hashes ast))"

definition operations_of :: "sv list \<Rightarrow> sv list" where
  "operations_of ast = map HV (filter (\<lambda>node. node_kind node = Some ''operation'') (hashes ast))"

section \<open>All rules\<close>

text \<open>The last loop: per operation, the subscription errors and then the operation itself.\<close>

definition operation_errors :: "nat \<Rightarrow> validation_env \<Rightarrow> sv list list \<Rightarrow> sv list \<Rightarrow> gql_error + sv list" where
  "operation_errors n env seeds operations =
     each (\<lambda>(operation, seed) errors.
       case operation of
         HV h \<Rightarrow>
           bnd (gql_validation_validate_operation n env h) (\<lambda>es.
           Inr (errors @ filter SvOK seed @ es))
       | _ \<Rightarrow> Inr errors) (zip operations seeds) []"

definition validate_ast :: "nat \<Rightarrow> validation_env \<Rightarrow> sv list \<Rightarrow> sv list \<Rightarrow> gql_error + sv list" where
  "validate_ast n env ast parse_errors =
     (let operations = operations_of ast;
          env = env\<lparr>env_fragments := gql_validation_build_fragments_map ast\<rparr>;
          fragments = env_fragments env
      in bnd (gql_validation_push_usage_errors ast operations fragments) (\<lambda>usage_errors.
         bnd (gql_validation_push_subscription_errors operations fragments) (\<lambda>seeds.
         bnd (gql_validation_push_fragment_cycle_errors fragments) (\<lambda>cycle_errors.
         bnd (gql_validation_validate_fragments n env) (\<lambda>fragment_errors.
         bnd (gql_validation_validate_document_directives env ast) (\<lambda>directive_errors.
         bnd (operation_errors n env seeds operations) (\<lambda>selection_errors.
         Inr (parse_errors @ not_executable_errors ast @
              gql_validation_push_operation_errors operations @
              gql_validation_push_fragment_name_errors ast @ usage_errors @ fragment_errors @
              directive_errors @ filter SvOK cycle_errors @ selection_errors))))))))"

definition gql_validation_validate ::
  "nat \<Rightarrow> validation_env \<Rightarrow> sv \<Rightarrow> sv option \<Rightarrow> gql_error + sv list" where
  "gql_validation_validate n env document options =
     bnd (gql_validation_parse_ast document options) (\<lambda>(ast_sv, errors).
     case ast_sv of
       AV ast \<Rightarrow> validate_ast n env ast errors
     | _ \<Rightarrow> Inl (Croak ''Validation AST must be an array reference''))"

end
