(* ===== verification/Validation_Cost_Lemmas.thy ===== *)
theory Validation_Cost_Lemmas
  imports Validation_Cost Validation_Structure_Lemmas
begin

text \<open>
  The saturating 64-bit cost against the unbounded cost: the two agree up to the limit, and
  everything above it is reported as one more than the limit.
\<close>

section \<open>The unbounded cost\<close>

definition true_field_cost :: "nat \<Rightarrow> nat \<Rightarrow> nat \<Rightarrow> nat" where
  "true_field_cost own_cost multiplier child_cost = own_cost + multiplier * child_cost"

fun true_cost :: "nat \<Rightarrow> sv \<Rightarrow> hv \<Rightarrow> uv \<Rightarrow> sv list \<Rightarrow> sv option \<Rightarrow> hv \<Rightarrow> nat" where
  "true_cost 0 compiled fragments default_list_size selections parent seen = 0"
| "true_cost (Suc n) compiled fragments default_list_size selections parent seen =
     sum_list (map (\<lambda>selection.
       if node_kind selection = Some ''field'' then
         (case cost_field compiled parent selection of
            None \<Rightarrow> 1
          | Some field \<Rightarrow>
              let child_cost =
                (case (hv_fetch field ''type'', selection_array selection) of
                   (Some t, Some nested) \<Rightarrow>
                     true_cost n compiled fragments default_list_size nested
                       (gql_validation_named_type_name_sv t) seen
                 | _ \<Rightarrow> 0);
                  child_cost = (if field_is_list field \<and> child_cost = 0 then 1 else child_cost)
              in true_field_cost (unat (field_own_cost field))
                   (unat (field_multiplier default_list_size field)) child_cost)
       else if node_kind selection = Some ''inline_fragment'' then
         (case selection_array selection of
            None \<Rightarrow> 0
          | Some nested \<Rightarrow>
              true_cost n compiled fragments default_list_size nested
                (case fetch_ok selection ''on'' of Some on \<Rightarrow> Some on | None \<Rightarrow> parent) seen)
       else if node_kind selection = Some ''fragment_spread'' then
         (case fetch_ok selection ''name'' of
            None \<Rightarrow> 0
          | Some name \<Rightarrow>
              if hv_exists seen (SvPV name) then 0
              else
                (case fragment_at fragments name of
                   None \<Rightarrow> 0
                 | Some fragment \<Rightarrow>
                     (case selection_array fragment of
                        None \<Rightarrow> 0
                      | Some nested \<Rightarrow>
                          true_cost n compiled fragments default_list_size nested
                            (case fetch_ok fragment ''on'' of Some on \<Rightarrow> Some on | None \<Rightarrow> parent)
                            (hv_store seen (SvPV name) (IV 1)))))
       else 0) (hashes selections))"

section \<open>Saturation\<close>

text \<open>\<open>represents m c k\<close>: the word \<open>c\<close> is the number \<open>k\<close> cut off one above the limit.\<close>

definition represents :: "uv \<Rightarrow> uv \<Rightarrow> nat \<Rightarrow> bool" where
  "represents max_cost c k \<longleftrightarrow> unat c = min k (Suc (unat max_cost))"

definition limit_ok :: "uv \<Rightarrow> bool" where
  "limit_ok max_cost \<longleftrightarrow> unat max_cost < 2 ^ 64 - 1"

lemma unat_uv: "unat (w :: uv) < 18446744073709551616"
  using unsigned_less [where 'a = nat, of w] by simp

lemma unat_limit_plus_1: "limit_ok m \<Longrightarrow> unat (m + 1) = Suc (unat m)"
  by (simp add: limit_ok_def unat_word_ariths(1))

lemma cost_add_represents:
  assumes "limit_ok m" "unat acc \<le> unat m" "min (unat add) (Suc (unat m)) = min k (Suc (unat m))"
  shows "represents m (gql_validation_cost_add acc add m) (unat acc + k)"
proof -
  have d: "unat (m - acc) = unat m - unat acc"
    using assms(2) by (simp add: unat_sub_if')
  show ?thesis
  proof (cases "add > m - acc")
    case True
    then have "unat m - unat acc < unat add" using d by (simp add: word_less_nat_alt)
    then have "unat m < unat acc + k"
      using assms(2,3) by (auto simp: min_def split: if_splits)
    then show ?thesis
      using True unat_limit_plus_1 [OF assms(1)] by (simp add: gql_validation_cost_add_def represents_def)
  next
    case False
    then have le: "unat add \<le> unat m - unat acc" using d by (simp add: word_less_nat_alt not_less)
    then have k: "unat add = k" "unat acc + k \<le> unat m"
      using assms(2,3) by (auto simp: min_def split: if_splits)
    with unat_uv [of m] k have "unat (acc + add) = unat acc + k" by (simp add: unat_word_ariths(1))
    with False k show ?thesis by (simp add: gql_validation_cost_add_def represents_def)
  qed
qed

lemma representsD: "represents m c k \<Longrightarrow> min (unat c) (Suc (unat m)) = min k (Suc (unat m))"
  by (simp add: represents_def)

text \<open>What a round leaves: the running number, or the early return above the limit.\<close>

definition running :: "uv \<Rightarrow> nat \<Rightarrow> uv + uv \<Rightarrow> bool" where
  "running m k r = (case r of
     Inl c \<Rightarrow> unat c = Suc (unat m) \<and> unat m < k
   | Inr acc \<Rightarrow> unat acc = k \<and> k \<le> unat m)"

lemma checked_running: "represents m c k \<Longrightarrow> running m k (checked_total m c)"
  by (auto simp: running_def represents_def checked_total_def word_less_nat_alt)

lemma add_field_cost_running:
  assumes m: "limit_ok m" and acc: "unat acc \<le> unat m" and child: "represents m child k"
  shows "running m (unat acc + (unat own + unat mult * k)) (add_field_cost m acc own mult child)"
proof -
  define a where "a = gql_validation_cost_add acc own m"
  have a: "represents m a (unat acc + unat own)"
    unfolding a_def by (rule cost_add_represents [OF m acc]) simp
  show ?thesis
  proof (cases "a > m")
    case True
    then have "unat a = Suc (unat m)" "unat m < unat acc + unat own"
      using a by (auto simp: represents_def word_less_nat_alt)
    with True show ?thesis by (simp add: add_field_cost_def a_def [symmetric] running_def)
  next
    case False
    then have t: "unat a = unat acc + unat own" "unat a \<le> unat m"
      using a by (auto simp: represents_def word_less_nat_alt)
    have rest: "unat (m - a) = unat m - unat a" using t(2) by (simp add: unat_sub_if')
    show ?thesis
    proof (cases "child = 0")
      case True
      then have "k = 0" using child by (simp add: represents_def)
      with True False t show ?thesis by (simp add: add_field_cost_def a_def [symmetric] running_def)
    next
      case c: False
      then have pos: "0 < unat child" by (simp add: unat_gt_0)
      have quot: "unat ((m - a) div child) = (unat m - unat a) div unat child"
        by (simp add: unat_div rest)
      show ?thesis
      proof (cases "mult > (m - a) div child")
        case True
        then have "(unat m - unat a) div unat child < unat mult"
          using quot by (simp add: word_less_nat_alt)
        then have "unat m - unat a < unat mult * unat child"
          using pos by (simp add: div_less_iff_less_mult)
        also have "\<dots> \<le> unat mult * k"
          using child by (intro mult_le_mono2) (simp add: represents_def)
        finally have "unat m < unat acc + (unat own + unat mult * k)" using t by simp
        with True False c unat_limit_plus_1 [OF m] show ?thesis
          by (simp add: add_field_cost_def a_def [symmetric] running_def)
      next
        case small: False
        then have "unat mult \<le> (unat m - unat a) div unat child"
          using quot by (simp add: word_less_nat_alt not_less)
        then have "unat mult * unat child \<le> unat m - unat a"
          using pos by (simp add: less_eq_div_iff_mult_less_eq)
        moreover have "unat mult * unat child = unat mult * k"
        proof (cases "unat mult = 0")
          case False
          then have "unat child \<le> unat m"
            using calculation by (metis One_nat_def Suc_leI diff_le_self le_trans mult_le_mono1 nat_mult_1 neq0_conv)
          with child show ?thesis by (auto simp: represents_def min_def split: if_splits)
        qed simp
        ultimately have k: "unat a + unat mult * k \<le> unat m" using t(2) by linarith
        have "unat (mult * child) = unat mult * k"
          using k unat_uv [of m]
          by (simp only: unat_word_ariths(2) \<open>unat mult * unat child = unat mult * k\<close>) simp
        with k unat_uv [of m] have "unat (a + mult * child) = unat a + unat mult * k"
          by (simp add: unat_word_ariths(1))
        with k t False c small show ?thesis
          by (simp add: add_field_cost_def a_def [symmetric] running_def word_less_nat_alt)
      qed
    qed
  qed
qed

text \<open>The loop, from a running number.\<close>

lemma cost_loop_represents:
  assumes "\<And>x acc. x \<in> set xs \<Longrightarrow> unat acc \<le> unat m \<Longrightarrow> ok_but e (f x acc) (running m (unat acc + g x))"
    and "unat acc \<le> unat m"
  shows "ok_but e (cost_loop f xs acc) (\<lambda>c. represents m c (unat acc + sum_list (map g xs)))"
  using assms
proof (induction xs arbitrary: acc)
  case Nil
  then show ?case by (simp add: represents_def)
next
  case (Cons x xs)
  show ?case
  proof (simp, rule ok_but_bnd [OF Cons.prems(1)])
    fix r
    assume r: "running m (unat acc + g x) r"
    show "ok_but e (case r of Inl c \<Rightarrow> Inr c | Inr acc \<Rightarrow> cost_loop f xs acc)
        (\<lambda>c. represents m c (unat acc + (g x + sum_list (map g xs))))"
    proof (cases r)
      case (Inl c)
      with r show ?thesis by (simp add: running_def represents_def)
    next
      case (Inr acc')
      with r Cons.IH [of acc'] Cons.prems show ?thesis by (simp add: running_def add.assoc)
    qed
  qed (use Cons.prems in auto)
qed

section \<open>The cost of a selection\<close>

lemma size_selection_array: "selection_array s = Some nested \<Longrightarrow> size (AV nested) < size (HV s)"
  by (auto simp: selection_array_def fetch_av_def split: option.splits sv.splits dest!: size_hv_fetch)

lemma budget_jump:
  assumes "fragment_at fr name = Some fragment" "\<not> hv_exists seen (SvPV name)" "selection_array fragment = Some nested"
  shows "size (AV nested) + budget fr (hv_store seen (SvPV name) x) < budget fr seen"
proof -
  have "hv_fetch fr (SvPV name) = Some (HV fragment)"
    using assms(1) by (auto simp: fragment_at_def split: option.splits sv.splits)
  from budget_store [OF this, of seen x] assms(2) size_selection_array [OF assms(3)]
  show ?thesis by (simp add: hv_exists_keys)
qed

lemma selection_cost_represents:
  assumes m: "limit_ok m"
  shows "size (AV selections) + budget fr seen < n \<Longrightarrow>
    ok_but e (gql_validation_selection_cost n compiled fr dls m selections parent seen)
      (\<lambda>c. represents m c (true_cost n compiled fr dls selections parent seen))"
proof (induction n arbitrary: selections parent seen)
  case 0
  then show ?case by simp
next
  case (Suc n)
  have nested: "ok_but e (bnd (gql_validation_selection_cost n compiled fr dls m ss par seen)
        (\<lambda>c. Inr (checked_total m (gql_validation_cost_add acc c m))))
      (running m (unat acc + true_cost n compiled fr dls ss par seen))"
    if "HV h \<in> set selections" "selection_array h = Some ss" "unat acc \<le> unat m" for h ss par acc
    using Suc.prems size_AV_mem [OF that(1)] size_selection_array [OF that(2)] cost_add_represents [OF m that(3)]
    by (intro ok_but_bnd [OF Suc.IH]) (auto intro!: checked_running dest: representsD)
  have own: "ok_but e (case cost_field compiled parent h of
          None \<Rightarrow> Inr (add_field_cost m acc 1 1 0)
        | Some field \<Rightarrow>
            bnd (case (hv_fetch field ''type'', selection_array h) of
                   (Some t, Some ss) \<Rightarrow>
                     gql_validation_selection_cost n compiled fr dls m ss
                       (gql_validation_named_type_name_sv t) seen
                 | _ \<Rightarrow> Inr 0) (\<lambda>child_cost.
            let child_cost = (if field_is_list field \<and> child_cost = 0 then 1 else child_cost)
            in Inr (add_field_cost m acc (field_own_cost field) (field_multiplier dls field) child_cost)))
      (running m (unat acc + (case cost_field compiled parent h of
          None \<Rightarrow> 1
        | Some field \<Rightarrow>
            let child_cost =
              (case (hv_fetch field ''type'', selection_array h) of
                 (Some t, Some ss) \<Rightarrow> true_cost n compiled fr dls ss (gql_validation_named_type_name_sv t) seen
               | _ \<Rightarrow> 0);
                child_cost = (if field_is_list field \<and> child_cost = 0 then 1 else child_cost)
            in true_field_cost (unat (field_own_cost field)) (unat (field_multiplier dls field)) child_cost)))"
    if h: "HV h \<in> set selections" and acc: "unat acc \<le> unat m" for h acc
  proof (cases "cost_field compiled parent h")
    case None
    have "represents m 0 0" by (simp add: represents_def)
    from add_field_cost_running [OF m acc this, of 1 1] None show ?thesis by simp
  next
    case (Some field)
    let ?k = "case (hv_fetch field ''type'', selection_array h) of
        (Some t, Some ss) \<Rightarrow> true_cost n compiled fr dls ss (gql_validation_named_type_name_sv t) seen | _ \<Rightarrow> 0"
    have rec: "ok_but e (case (hv_fetch field ''type'', selection_array h) of
        (Some t, Some ss) \<Rightarrow>
          gql_validation_selection_cost n compiled fr dls m ss (gql_validation_named_type_name_sv t) seen
      | _ \<Rightarrow> Inr 0) (\<lambda>c. represents m c ?k)"
      using Suc.prems size_AV_mem [OF h] size_selection_array [of h]
      by (auto split: option.splits intro!: Suc.IH) (simp_all add: represents_def)
    have charge: "represents m (if l \<and> c = 0 then 1 else c) (if l \<and> k = 0 then 1 else k)"
      if "represents m c k" for l c k
      using that by (auto simp: represents_def min_def unat_gt_0 split: if_splits)
    show ?thesis
      unfolding Some option.case Let_def true_field_cost_def
      by (rule ok_but_bnd [OF rec]) (simp only: ok_but_Inr, rule add_field_cost_running [OF m acc charge])
  qed
  have step: "ok_but e
      (if node_kind h = Some ''field'' then
         (case cost_field compiled parent h of
            None \<Rightarrow> Inr (add_field_cost m acc 1 1 0)
          | Some field \<Rightarrow>
              bnd (case (hv_fetch field ''type'', selection_array h) of
                     (Some t, Some ss) \<Rightarrow>
                       gql_validation_selection_cost n compiled fr dls m ss
                         (gql_validation_named_type_name_sv t) seen
                   | _ \<Rightarrow> Inr 0) (\<lambda>child_cost.
              let child_cost = (if field_is_list field \<and> child_cost = 0 then 1 else child_cost)
              in Inr (add_field_cost m acc (field_own_cost field) (field_multiplier dls field) child_cost)))
       else rest) (running m (unat acc + (if node_kind h = Some ''field'' then
          (case cost_field compiled parent h of
             None \<Rightarrow> 1
           | Some field \<Rightarrow>
               let child_cost =
                 (case (hv_fetch field ''type'', selection_array h) of
                    (Some t, Some ss) \<Rightarrow> true_cost n compiled fr dls ss (gql_validation_named_type_name_sv t) seen
                  | _ \<Rightarrow> 0);
                   child_cost = (if field_is_list field \<and> child_cost = 0 then 1 else child_cost)
               in true_field_cost (unat (field_own_cost field)) (unat (field_multiplier dls field)) child_cost)
          else k)))"
    if "HV h \<in> set selections" "unat acc \<le> unat m"
      "node_kind h \<noteq> Some ''field'' \<Longrightarrow> ok_but e rest (running m (unat acc + k))" for h acc rest k
    using own [OF that(1,2)] that(3) by auto
  have still: "running m (unat acc + 0) (Inr acc)" "running m (unat acc + 0) (checked_total m acc)"
    if "unat acc \<le> unat m" for acc
    using that by (simp_all add: running_def checked_total_def word_less_nat_alt)
  have spread: "ok_but e (bnd (gql_validation_selection_cost n compiled fr dls m ss par
          (hv_store seen (SvPV name) x)) (\<lambda>c. Inr (checked_total m (gql_validation_cost_add acc c m))))
      (running m (unat acc + true_cost n compiled fr dls ss par (hv_store seen (SvPV name) x)))"
    if "fragment_at fr name = Some f" "\<not> hv_exists seen (SvPV name)" "selection_array f = Some ss"
      "unat acc \<le> unat m" for name f ss par acc x
    using Suc.prems budget_jump [OF that(1-3), of x] cost_add_represents [OF m that(4)]
    by (intro ok_but_bnd [OF Suc.IH]) (auto intro!: checked_running dest: representsD)
  have "ok_but e (gql_validation_selection_cost (Suc n) compiled fr dls m selections parent seen)
      (\<lambda>c. represents m c (unat (0 :: uv) + true_cost (Suc n) compiled fr dls selections parent seen))"
    unfolding gql_validation_selection_cost.simps true_cost.simps
    by (rule cost_loop_represents)
      (rule step, simp, assumption, auto intro: nested spread still [simplified] split: option.splits)
  then show ?case by simp
qed

text \<open>
  C8. The check of one operation with 64-bit arithmetic reports it exactly where its cost over
  the natural numbers is above the limit.
\<close>

theorem operation_cost_exact:
  assumes "limit_ok max_cost" "operation_selected operation_name node"
    and "cost_root compiled node = Some root" "selection_array node = Some selections"
  shows "operation_cost_errors compiled fragments default_list_size max_cost operation_name node =
    Inr (if unat max_cost <
           true_cost (cost_frames fragments selections) compiled fragments default_list_size
             selections (Some root) []
         then [cost_error max_cost node] else [])"
proof -
  have "\<exists>c. gql_validation_selection_cost (cost_frames fragments selections) compiled fragments
      default_list_size max_cost selections (Some root) [] = Inr c \<and>
      represents max_cost c (true_cost (cost_frames fragments selections) compiled fragments
        default_list_size selections (Some root) [])"
    by (rule ok_but_all, rule selection_cost_represents [OF assms(1)]) (simp add: cost_frames_def)
  with assms(2-) show ?thesis
    by (auto simp: operation_cost_errors_def represents_def word_less_nat_alt)
qed

text \<open>A schema with a field that costs 3 and returns a list of integers, and one that costs nothing.\<close>

definition sample_schema :: sv where
  "sample_schema =
     HV [(''roots'', HV [(''query'', PV False ''Query'')]),
         (''types'', HV [(''Query'', HV [(''kind'', PV False ''OBJECT''),
            (''fields'', HV [
              (''many'', HV [(''cost'', IV 3),
                 (''type'', HV [(''kind'', PV False ''LIST''),
                    (''of'', HV [(''kind'', PV False ''NAMED''), (''name'', PV False ''Int'')])])]),
              (''one'', HV [(''type'', HV [(''kind'', PV False ''NAMED''), (''name'', PV False ''Int'')])])])])])]"

definition sample_operation :: hv where
  "sample_operation =
     [(''kind'', PV False ''operation''),
      (''selections'', AV [HV [(''kind'', PV False ''field''), (''name'', PV False ''one'')],
                           HV [(''kind'', PV False ''field''), (''name'', PV False ''many'')]])]"

lemmas sample_eval = sample_schema_def sample_operation_def limit_ok_def operation_selected_def text_at_def
  cost_root_def selection_array_def hv_fetch_def fetch_ok_def node_kind_def SvOK_def SvPOK_def
  fetch_hv_def fetch_av_def gql_validation_compiled_hv_from_sv_def gql_validation_compiled_type_hv_def operation_type_text_def
  cost_field_def field_is_list_def field_own_cost_def field_multiplier_def true_field_cost_def
  cost_frames_def SvUV_def gql_validation_type_is_list.simps cost_error_def

theorem operation_cost_exact_witness:
  "operation_cost_errors sample_schema [] 10 13 None sample_operation = Inr [cost_error 13 sample_operation]
   \<and> operation_cost_errors sample_schema [] 10 14 None sample_operation = Inr []"
  using operation_cost_exact [of 13 None sample_operation sample_schema "PV False ''Query''" _ "[]" 10]
    operation_cost_exact [of 14 None sample_operation sample_schema "PV False ''Query''" _ "[]" 10]
  by (simp add: sample_eval)

end
