(* ===== verification/Unread_Fields.thy ===== *)
theory Unread_Fields
  imports Location
begin

text \<open>
  What the lexer does not read. A function \<open>F\<close> on parser states that leaves the source, the cursor and
  the tokens alone commutes with every operation of the lexer (locale \<open>unread\<close>): it changes only
  fields these operations neither read nor write. \<open>same F m m'\<close> says that \<open>m'\<close> is \<open>m\<close> with its result
  mapped by \<open>F\<close>; its rules follow the shape of the code.
\<close>

section \<open>The same up to a function\<close>

definition same :: "('a \<Rightarrow> 'b) \<Rightarrow> gql_error + 'a \<Rightarrow> gql_error + 'b \<Rightarrow> bool" where
  "same F m m' \<longleftrightarrow> m' = map_sum id F m"

named_theorems sames "functions that behave the same up to fields they do not read"

lemma same_Inr [sames]: "b = F a \<Longrightarrow> same F (Inr a) (Inr b)"
  by (simp add: same_def)

lemma same_throw [sames]: "same F (gql_throw i m) (gql_throw i m)"
  "same F (gql_throw_simple_error m) (gql_throw_simple_error m)"
  "same F (gql_throw_unexpected_character i c) (gql_throw_unexpected_character i c)"
  "same F (gql_throw_expected_message p i m) (gql_throw_expected_message p i m)"
  "same F (gql_throw_expected_token p k) (gql_throw_expected_token p k)"
  "same F (Inl e) (Inl e)"
  by (simp_all add: same_def gql_throw_def gql_throw_simple_error_def gql_throw_unexpected_character_def
      gql_throw_expected_message_def gql_throw_expected_token_def)

lemma same_if [sames]: "same F a a' \<Longrightarrow> same F b b' \<Longrightarrow> same F (if c then a else b) (if c then a' else b')"
  by simp

lemma same_bnd_eq: "(\<And>x. same G (f x) (f' x)) \<Longrightarrow> same G (bnd m f) (bnd m f')"
  by (cases m) (auto simp: same_def)

section \<open>The lexer\<close>

locale unread =
  fixes F :: "gql_parser \<Rightarrow> gql_parser"
  assumes fields [simp]:
    "src (F p) = src p" "len (F p) = len p" "pos (F p) = pos p" "last_pos (F p) = last_pos p"
    "tok_start (F p) = tok_start p" "tok_end (F p) = tok_end p" "val_start (F p) = val_start p"
    "val_end (F p) = val_end p" "kind (F p) = kind p" "is_utf8 (F p) = is_utf8 p"
    "no_location (F p) = no_location p" "line_starts (F p) = line_starts p" "token_count (F p) = token_count p"
    and updates:
    "(F p)\<lparr>pos := a\<rparr> = F (p\<lparr>pos := a\<rparr>)" "(F p)\<lparr>last_pos := b\<rparr> = F (p\<lparr>last_pos := b\<rparr>)"
    "(F p)\<lparr>tok_start := a\<rparr> = F (p\<lparr>tok_start := a\<rparr>)" "(F p)\<lparr>tok_end := a\<rparr> = F (p\<lparr>tok_end := a\<rparr>)"
    "(F p)\<lparr>val_start := a\<rparr> = F (p\<lparr>val_start := a\<rparr>)" "(F p)\<lparr>val_end := a\<rparr> = F (p\<lparr>val_end := a\<rparr>)"
    "(F p)\<lparr>kind := k\<rparr> = F (p\<lparr>kind := k\<rparr>)" "(F p)\<lparr>token_count := d\<rparr> = F (p\<lparr>token_count := d\<rparr>)"
begin

lemma unread_left [simp]: "left (F p) = left p"
  by (simp add: left_def)

lemma unread_texts [simp]:
  "tok_text (F p) = tok_text p" "gql_copy_token_sv (F p) = gql_copy_token_sv p"
  "gql_copy_value_sv (F p) = gql_copy_value_sv p" "gql_peek_name (F p) = gql_peek_name p"
  "gql_current_token_desc (F p) = gql_current_token_desc p"
  "gql_throw_expected_message (F p) = gql_throw_expected_message p"
  "gql_throw_expected_token (F p) = gql_throw_expected_token p"
  by (simp_all add: Let_def tok_text_def gql_copy_token_sv_def gql_copy_value_sv_def gql_peek_name_def fun_eq_iff
      gql_make_string_sv_def gql_current_token_desc_def gql_throw_expected_message_def gql_throw_expected_token_def
      cong: gql_token_kind.case_cong)

lemma unread_line_column [simp]:
  "gql_line_column_from_pos (F p) = gql_line_column_from_pos p" "after_last (F p) = after_last p"
  "gql_line_column_from_last (F p) = gql_line_column_from_last p"
  by (auto simp: gql_line_column_from_pos_def after_last_def gql_line_column_from_last_def fun_eq_iff Let_def split: option.split)

lemma unread_locations [simp]:
  "gql_make_current_location (F p) = gql_make_current_location p"
  "gql_store_current_location (F p) = gql_store_current_location p"
  "gql_store_endline_location (F p) = gql_store_endline_location p"
  "gql_store_current_or_endline_location (F p) = gql_store_current_or_endline_location p"
  by (simp_all add: Let_def case_prod_unfold gql_make_current_location_def gql_make_location_def fun_eq_iff
      gql_store_current_location_def gql_store_endline_location_def gql_store_current_or_endline_location_def
      gql_make_endline_location_def gql_make_current_or_endline_location_def)

lemma skip_comment_unread [simp]: "skip_comment (F p) = F (skip_comment p)"
proof (induction p rule: skip_comment.induct)
  case (1 p)
  then show ?case by (subst (1 2) skip_comment.simps) (simp add: updates)
qed

lemma skip_ignored_unread [simp]: "gql_skip_ignored (F p) = F (gql_skip_ignored p)"
proof (induction p rule: gql_skip_ignored.induct)
  case (1 p)
  then show ?case by (subst (1 2) gql_skip_ignored.simps) (simp add: updates)
qed

lemma skip_while_unread [simp]: "skip_while f (F p) scan = skip_while f p scan"
proof (induction f p scan rule: skip_while.induct)
  case (1 f p scan)
  then show ?case by (subst (1 2) skip_while.simps) simp
qed

lemma same_bnd [sames]:
  "same F m m' \<Longrightarrow> (\<And>p. same G (f p) (f' (F p))) \<Longrightarrow> same G (bnd m f) (bnd m' f')"
  "same (apsnd F) n n' \<Longrightarrow> (\<And>a p. same G (g (a, p)) (g' (a, F p))) \<Longrightarrow> same G (bnd n g) (bnd n' g')"
  by (cases m; auto simp: same_def) (cases n; auto simp: same_def)

lemma lex_string_same [sames]: "same F (lex_string p scan) (lex_string (F p) scan)"
proof (induction p scan rule: lex_string.induct)
  case (1 p scan)
  then show ?case
    by (subst (1 2) lex_string.simps) (auto simp: end_token_def updates intro!: sames)
qed

lemma triple_at_unread [simp]: "triple_at (F p) = triple_at p"
  by (simp add: triple_at_def fun_eq_iff)

lemma lex_block_string_same [sames]: "same F (lex_block_string p scan) (lex_block_string (F p) scan)"
proof (induction p scan rule: lex_block_string.induct)
  case (1 p scan)
  then show ?case
    by (subst (1 2) lex_block_string.simps) (auto simp: end_token_def updates intro!: sames)
qed

lemma digit_at_unread [simp]: "digit_at (F p) = digit_at p"
  by (simp add: digit_at_def fun_eq_iff)

lemma lex_parts_unread [simp]:
  "lex_sign (F p) = lex_sign p" "lex_integer_part (F p) = lex_integer_part p"
  "lex_fraction (F p) = lex_fraction p" "lex_exponent (F p) = lex_exponent p"
  by (simp_all add: lex_sign_def lex_integer_part_def lex_fraction_def lex_exponent_def fun_eq_iff Let_def cong: if_cong)

lemma lex_number_same [sames]: "same F (lex_number p) (lex_number (F p))"
  by (auto simp: lex_number_def value_token_def end_token_def updates same_def bnd_def split: sum.splits)

lemma lex_by_char_same [sames]: "same F (lex_by_char p) (lex_by_char (F p))"
  by (auto simp: lex_by_char_def Let_def lex_spread_def lex_quote_def lex_name_def value_token_def end_token_def updates
      split: option.split intro!: sames)

lemma lex_token_same [sames]: "same F (gql_lex_token p) (gql_lex_token (F p))"
  by (auto simp: gql_lex_token_def updates intro!: sames)

lemma advance_same [sames]: "same F (gql_advance p) (gql_advance (F p))"
  by (auto simp: gql_advance_def updates intro!: sames)

lemma expect_same [sames]: "same F (gql_expect p k m) (gql_expect (F p) k m)"
  by (auto simp: gql_expect_def split: option.split intro!: sames)

lemma parse_name_same [sames]: "same (apsnd F) (gql_parse_name p m) (gql_parse_name (F p) m)"
  by (auto simp: gql_parse_name_def intro!: sames)

lemma parse_fragment_name_same [sames]: "same (apsnd F) (gql_parse_fragment_name p) (gql_parse_fragment_name (F p))"
  by (auto simp: gql_parse_fragment_name_def intro!: sames)

end

end
