(* ===== verification/Parser_Modes.thy ===== *)
theory Parser_Modes
  imports Parser_Definitions_Lemmas Unread_Fields
begin

text \<open>
  Parsing for validation is public parsing that also takes notes: with the sink for duplicate
  diagnostics forgotten, every function of the parser behaves the same. \<open>same F m m'\<close> says
  that \<open>m'\<close> is \<open>m\<close> with its result mapped by \<open>F\<close>; its rules follow the shape of the code.
\<close>

section \<open>Forgetting the sink\<close>

definition forget :: "gql_parser \<Rightarrow> gql_parser" where
  "forget p = p\<lparr>validation_errors := None\<rparr>"

abbreviation forget_with :: "'a \<times> gql_parser \<Rightarrow> 'a \<times> gql_parser" where
  "forget_with \<equiv> apsnd forget"

interpretation forgetting: unread forget
  by unfold_locales (simp_all add: forget_def)

lemma forget_fields [simp]: "depth (forget p) = depth p" "validation_errors (forget p) = None"
  by (simp_all add: forget_def)

lemma forget_update:
  "(forget p)\<lparr>depth := d\<rparr> = forget (p\<lparr>depth := d\<rparr>)" "(forget p)\<lparr>token_count := n\<rparr> = forget (p\<lparr>token_count := n\<rparr>)"
  by (simp_all add: forget_def)

lemma forget_note [simp]: "forget (note_duplicate h k m l p) = forget p"
  by (simp add: note_duplicate_def push_error_def forget_def)

lemma note_forget [simp]: "note_duplicate h k m l (forget p) = forget p"
  by (simp add: note_duplicate_def)

section \<open>The parser\<close>

lemma skip_token_same [sames]: "same forget (skip_token k p) (skip_token k (forget p))"
  by (auto simp: skip_token_def intro!: sames)

lemma ploop_same:
  "(\<And>p. guard (forget p) = guard p) \<Longrightarrow> (\<And>a p. same forget_with (body a p) (body a (forget p))) \<Longrightarrow>
    same forget_with (ploop n e guard body a p) (ploop n e guard body a (forget p))"
proof (induction n arbitrary: a p)
  case 0
  show ?case unfolding ploop.simps by (rule sames)
next
  case (Suc n)
  show ?case unfolding ploop.simps Suc.prems(1)
    by (rule sames Suc | simp add: Suc)+
qed

lemma parse_while_same [sames]:
  "(\<And>p. guard (forget p) = guard p) \<Longrightarrow> (\<And>a p. same forget_with (body a p) (body a (forget p))) \<Longrightarrow>
    same forget_with (parse_while guard body a p) (parse_while guard body a (forget p))"
  by (simp add: parse_while_def ploop_same)

lemma parse_until_same [sames]:
  "(\<And>a p. same forget_with (body a p) (body a (forget p))) \<Longrightarrow>
    same forget_with (parse_until k body a p) (parse_until k body a (forget p))"
  by (simp add: parse_until_def parse_while_same)

lemma type_reference_same [sames]:
  "same forget_with (gql_parse_type_reference n p) (gql_parse_type_reference n (forget p))"
proof (induction n arbitrary: p)
  case 0
  show ?case unfolding gql_parse_type_reference.simps by (rule sames)
next
  case (Suc n)
  show ?case unfolding gql_parse_type_reference.simps
    by (rule sames Suc | simp cong: if_cong split del: if_split)+
qed

text \<open>The value after a duplicate was noted is parsed from the same state.\<close>

lemma value_same:
  "same forget_with (gql_parse_value n c p) (gql_parse_value n c (forget p))"
  "same forget_with (gql_parse_list_value n c p) (gql_parse_list_value n c (forget p))"
  "same forget_with (gql_parse_object_value n c p) (gql_parse_object_value n c (forget p))"
proof (induction n arbitrary: c p)
  case 0
  {
    case 1
    show ?case unfolding gql_parse_value.simps by (rule sames)
  next
    case 2
    show ?case unfolding gql_parse_list_value.simps by (rule sames)
  next
    case 3
    show ?case unfolding gql_parse_object_value.simps by (rule sames)
  }
next
  case (Suc n)
  have noted: "same forget_with (gql_parse_value n c (note_duplicate h k m l p)) (gql_parse_value n c (forget p))" for c h k m l p
    using Suc.IH(1) [of c "note_duplicate h k m l p"] by simp
  {
    case 1
    show ?case
      unfolding gql_parse_value.simps by (cases "kind p"; (rule sames Suc same_bnd_eq | simp cong: if_cong split del: if_split)+)
  next
    case 2
    show ?case unfolding gql_parse_list_value.simps Let_def
      by (rule sames Suc | simp add: forget_update cong: if_cong split del: if_split)+
  next
    case 3
    show ?case unfolding gql_parse_object_value.simps Let_def
      by (rule sames Suc noted | simp add: forget_update cong: if_cong split del: if_split)+
  }
qed

lemmas parse_value_same [sames] = value_same(1)

lemma noted_same [sames]:
  "same forget_with (gql_parse_value n c (note_duplicate h k m l p)) (gql_parse_value n c (forget p))"
  using value_same(1) [of n c "note_duplicate h k m l p"] by simp

text \<open>Every operation is proved by the rules for the operations it is made of.\<close>

lemma arguments_same [sames]: "same forget_with (gql_parse_arguments c p) (gql_parse_arguments c (forget p))"
  unfolding gql_parse_arguments_def by (rule sames | simp cong: if_cong split del: if_split)+

lemma directive_same [sames]: "same forget_with (parse_directive_with c p) (parse_directive_with c (forget p))"
  unfolding parse_directive_with_def Let_def by (rule sames | simp cong: if_cong split del: if_split)+

lemma directives_same [sames]: "same forget_with (gql_parse_directives p) (gql_parse_directives (forget p))"
  unfolding gql_parse_directives_def gql_parse_directive_def by (rule sames | simp cong: if_cong split del: if_split)+

lemma const_directives_same [sames]:
  "same forget_with (gql_parse_const_directives p) (gql_parse_const_directives (forget p))"
  unfolding gql_parse_const_directives_def by (rule sames | simp cong: if_cong split del: if_split)+

lemma selection_same:
  "same forget_with (gql_parse_selection_set n p) (gql_parse_selection_set n (forget p))"
  "same forget_with (gql_parse_selection n p) (gql_parse_selection n (forget p))"
  "same forget_with (gql_parse_field n p) (gql_parse_field n (forget p))"
proof (induction n arbitrary: p)
  case 0
  {
    case 1
    show ?case unfolding gql_parse_selection_set.simps by (rule sames)
  next
    case 2
    show ?case unfolding gql_parse_selection.simps by (rule sames)
  next
    case 3
    show ?case unfolding gql_parse_field.simps by (rule sames)
  }
next
  case (Suc n)
  {
    case 1
    show ?case unfolding gql_parse_selection_set.simps Let_def
      by (rule sames Suc | simp add: forget_update cong: if_cong split del: if_split)+
  next
    case 2
    show ?case unfolding gql_parse_selection.simps Let_def by (rule sames Suc | simp cong: if_cong split del: if_split)+
  next
    case 3
    show ?case unfolding gql_parse_field.simps Let_def by (rule sames Suc | simp cong: if_cong split del: if_split)+
  }
qed

lemmas selection_set_same [sames] = selection_same(1)

lemma description_same [sames]: "same forget_with (gql_parse_description p) (gql_parse_description (forget p))"
  unfolding gql_parse_description_def by (rule sames same_bnd_eq | simp cong: if_cong split del: if_split)+

lemma optional_same [sames]:
  "same forget_with (parse_default_value h p) (parse_default_value h (forget p))"
  "same forget_with (parse_opt_const_directives h p) (parse_opt_const_directives h (forget p))"
  "same forget_with (parse_opt_directives h p) (parse_opt_directives h (forget p))"
  unfolding parse_default_value_def parse_opt_const_directives_def parse_opt_directives_def
  by (rule sames | simp cong: if_cong split del: if_split)+

lemma forget_type_frames [simp]: "type_frames (forget p) = type_frames p"
  by (simp add: type_frames_def)

lemma forget_operation_keyword [simp]: "operation_keyword (forget p) = operation_keyword p"
  by (simp add: operation_keyword_def)

lemma variables_same [sames]:
  "same forget_with (parse_variable_definition h p) (parse_variable_definition h (forget p))"
  "same forget_with (gql_parse_variable_definitions p) (gql_parse_variable_definitions (forget p))"
proof -
  show one: "same forget_with (parse_variable_definition h p) (parse_variable_definition h (forget p))" for h p
    unfolding parse_variable_definition_def Let_def by (rule sames | simp cong: if_cong split del: if_split)+
  show "same forget_with (gql_parse_variable_definitions p) (gql_parse_variable_definitions (forget p))"
    unfolding gql_parse_variable_definitions_def by (rule sames one | simp cong: if_cong split del: if_split)+
qed

lemma executable_same [sames]:
  "same forget_with (gql_parse_operation_definition p d) (gql_parse_operation_definition (forget p) d)"
  "same forget_with (gql_parse_fragment_definition p d) (gql_parse_fragment_definition (forget p) d)"
  unfolding gql_parse_operation_definition_def gql_parse_fragment_definition_def Let_def
  by (rule sames | simp cong: if_cong split del: if_split)+

lemma input_value_same [sames]:
  "same forget_with (gql_parse_input_value_definition p) (gql_parse_input_value_definition (forget p))"
  unfolding gql_parse_input_value_definition_def by (rule sames | simp cong: if_cong split del: if_split)+

lemma arguments_definition_same [sames]:
  "same forget_with (gql_parse_arguments_definition p) (gql_parse_arguments_definition (forget p))"
  "same forget_with (parse_opt_args h p) (parse_opt_args h (forget p))"
proof -
  show args: "same forget_with (gql_parse_arguments_definition p) (gql_parse_arguments_definition (forget p))" for p
    unfolding gql_parse_arguments_definition_def Let_def case_prod_unfold by (rule sames | simp cong: if_cong split del: if_split)+
  show "same forget_with (parse_opt_args h p) (parse_opt_args h (forget p))"
    unfolding parse_opt_args_def by (rule sames args | simp cong: if_cong split del: if_split)+
qed

lemma field_definition_same [sames]:
  "same forget_with (gql_parse_field_definition p) (gql_parse_field_definition (forget p))"
  unfolding gql_parse_field_definition_def by (rule sames | simp cong: if_cong split del: if_split)+

lemma separated_names_same [sames]:
  "same forget_with (parse_separated_names k p) (parse_separated_names k (forget p))"
  unfolding parse_separated_names_def by (rule sames | simp cong: if_cong split del: if_split)+

lemma schema_same [sames]:
  "same forget_with (gql_parse_schema_definition_extended p e) (gql_parse_schema_definition_extended (forget p) e)"
  "same forget_with (gql_parse_schema_definition p) (gql_parse_schema_definition (forget p))"
  unfolding gql_parse_schema_definition_def gql_parse_schema_definition_extended_def Let_def
  by (rule sames | simp cong: if_cong split del: if_split)+

lemma scalar_same [sames]:
  "same forget_with (gql_parse_scalar_type_definition p) (gql_parse_scalar_type_definition (forget p))"
  unfolding gql_parse_scalar_type_definition_def Let_def by (rule sames | simp cong: if_cong split del: if_split)+

lemma members_same [sames]:
  "same forget_with (parse_interfaces k h p) (parse_interfaces k h (forget p))"
  "same forget_with (parse_fields k p) (parse_fields k (forget p))"
  unfolding parse_interfaces_def parse_fields_def Let_def case_prod_unfold by (rule sames | simp cong: if_cong split del: if_split)+

lemma object_same [sames]:
  "same forget_with (gql_parse_object_type_definition p k) (gql_parse_object_type_definition (forget p) k)"
  unfolding gql_parse_object_type_definition_def Let_def by (rule sames | simp cong: if_cong split del: if_split)+

lemma union_same [sames]:
  "same forget_with (gql_parse_union_type_definition p) (gql_parse_union_type_definition (forget p))"
  unfolding gql_parse_union_type_definition_def Let_def by (rule sames | simp cong: if_cong split del: if_split)+

lemma enum_same [sames]:
  "same forget_with (parse_enum_value h p) (parse_enum_value h (forget p))"
  "same forget_with (gql_parse_enum_type_definition p) (gql_parse_enum_type_definition (forget p))"
proof -
  show val: "same forget_with (parse_enum_value h p) (parse_enum_value h (forget p))" for h p
    unfolding parse_enum_value_def Let_def by (rule sames | simp cong: if_cong split del: if_split)+
  show "same forget_with (gql_parse_enum_type_definition p) (gql_parse_enum_type_definition (forget p))"
    unfolding gql_parse_enum_type_definition_def Let_def by (rule sames val | simp cong: if_cong split del: if_split)+
qed

lemma directive_definition_same [sames]:
  "same forget_with (gql_parse_directive_definition p) (gql_parse_directive_definition (forget p))"
  unfolding gql_parse_directive_definition_def Let_def by (rule sames | simp cong: if_cong split del: if_split)+

lemma type_system_same [sames]:
  "same forget_with (parse_type_system_node e p) (parse_type_system_node e (forget p))"
  "same forget_with (gql_parse_type_system_definition p d) (gql_parse_type_system_definition (forget p) d)"
  unfolding gql_parse_type_system_definition_def parse_type_system_node_def Let_def
  by (rule sames same_bnd_eq | simp cong: if_cong split del: if_split)+

lemma definition_same [sames]: "same forget_with (gql_parse_definition p) (gql_parse_definition (forget p))"
  unfolding gql_parse_definition_def by (rule sames | simp cong: if_cong split del: if_split)+

lemma definitions_same [sames]: "same forget_with (gql_parse_definitions p) (gql_parse_definitions (forget p))"
  unfolding gql_parse_definitions_def by (rule sames | simp cong: if_cong split del: if_split)+

section \<open>The two entry points agree\<close>

text \<open>
  C10. Parsing for validation and public parsing agree on every source: with the collected
  errors left out, they return the same tree or throw the same error at the same place.
\<close>

theorem parse_modes_agree:
  "map_sum id fst (gql_parse_document_for_validation source_sv no_loc errors) = gql_parse_document source_sv no_loc"
proof -
  let ?p = "gql_parser_init source_sv no_loc"
  have init: "forget (?p\<lparr>validation_errors := Some errors\<rparr>) = ?p" by (simp add: forget_def gql_parser_init_def)
  have start: "same forget (gql_advance (?p\<lparr>validation_errors := Some errors\<rparr>)) (gql_advance ?p)"
    using forgetting.advance_same [of "?p\<lparr>validation_errors := Some errors\<rparr>"] unfolding init .
  have "same fst (gql_parse_document_for_validation source_sv no_loc errors) (gql_parse_document source_sv no_loc)"
    unfolding gql_parse_document_for_validation_def gql_parse_document_def
    by (rule start sames same_bnd_eq | simp cong: if_cong split del: if_split)+
  then show ?thesis by (simp add: same_def)
qed

end
