(* ===== verification/Escape_Lemmas.thy ===== *)
theory Escape_Lemmas
  imports Lexer_Lemmas
begin

text \<open>
  What the escape decoder computes: the four digits it reads are the number they denote, the
  output never outgrows the buffer the code allocates before the loop, and decoding inverts
  escaping, also through the lexer.
\<close>

section \<open>Four hexadecimal digits\<close>

text \<open>The digits as they are written, and the four digits of a number.\<close>

definition hex_char :: "nat \<Rightarrow> char" where
  "hex_char n = ''0123456789ABCDEF'' ! (n mod 16)"

definition hex4 :: "nat \<Rightarrow> string" where
  "hex4 n = [hex_char (n div 4096), hex_char (n div 256), hex_char (n div 16), hex_char n]"

lemma all_digits: "(\<forall>m<16. P m) \<longleftrightarrow> list_all P [0..<16]"
  by (auto simp: list_all_iff)

lemma hex_digit_value_char [simp]: "hex_digit_value (hex_char n) = Some (of_nat (n mod 16))"
proof -
  have "\<forall>m<16. hex_digit_value (''0123456789ABCDEF'' ! m) = Some (of_nat m)"
    unfolding all_digits by (simp add: upt_rec hex_digit_value_def byte_of_def)
  then show ?thesis unfolding hex_char_def by simp
qed

lemma isXDIGIT_hex_char [simp]: "isXDIGIT (hex_char n)"
proof -
  have "\<forall>m<16. isXDIGIT (''0123456789ABCDEF'' ! m)"
    unfolding all_digits by (simp add: upt_rec isXDIGIT_def isDIGIT_def byte_of_def)
  then show ?thesis unfolding hex_char_def by simp
qed

text \<open>Shifting in a digit is multiplying and adding, as long as the word does not overflow.\<close>

lemma shift_in_digit:
  assumes "d < 16"
  shows "push_bit 4 (of_nat w :: uv) OR of_nat d = of_nat (16 * w + d)"
proof -
  have "\<not> bit d k" if "4 \<le> k" for k
  proof -
    have "(16 :: nat) \<le> 2 ^ k" using power_increasing [OF that, of "2::nat"] by simp
    then show ?thesis using assms by (simp add: bit_iff_odd)
  qed
  then have "push_bit 4 w AND d = 0"
    by (intro bit_eqI) (auto simp: bit_and_iff bit_push_bit_iff not_le)
  then have "push_bit 4 w OR d = push_bit 4 w + d" by (simp add: disjunctive_add_eq_or)
  then have "push_bit 4 w OR d = 16 * w + d" by (simp add: push_bit_eq_mult)
  then show ?thesis by (simp flip: of_nat_or_eq add: push_bit_of_nat)
qed

lemma hex4_sum:
  assumes "(n::nat) < 65536"
  shows "16 * (16 * (16 * (n div 4096 mod 16) + n div 256 mod 16) + n div 16 mod 16) + n mod 16 = n"
proof -
  have "n div 256 = n div 16 div 16" "n div 4096 = n div 16 div 16 div 16"
    by (simp_all flip: div_mult2_eq)
  moreover have "n div 16 div 16 div 16 < 16" using assms by (simp flip: div_mult2_eq add: less_mult_imp_div_less)
  ultimately show ?thesis
    using mult_div_mod_eq [of 16 n] mult_div_mod_eq [of 16 "n div 16"] mult_div_mod_eq [of 16 "n div 16 div 16"]
    by simp
qed

lemma hex_loop_digit:
  "hex_loop (Suc m) (hex_char d # cs) (of_nat w) = hex_loop m cs (of_nat (16 * w + d mod 16))"
  by (simp only: hex_loop.simps hex_digit_value_char option.case shift_in_digit mod_less_divisor zero_less_numeral)

text \<open>The four digits of a number decode to that number, whatever follows them.\<close>

lemma hex4_decodes:
  assumes "n < 65536"
  shows "gql_hex4_to_uv (hex4 n @ rest) = Some (of_nat n)"
proof -
  have "hex_loop 4 = hex_loop (Suc (Suc (Suc (Suc 0))))"
    by (rule arg_cong [of _ _ hex_loop]) simp
  then have "gql_hex4_to_uv (hex4 n @ rest) = hex_loop (Suc (Suc (Suc (Suc 0)))) (hex4 n @ rest) (of_nat 0)"
    unfolding gql_hex4_to_uv_def by simp
  also have "\<dots> = Some (of_nat n)"
    unfolding hex4_def append_Cons hex_loop_digit hex_loop.simps(1)
    by (simp only: mult_0_right add_0 hex4_sum [OF assms])
  finally show ?thesis .
qed


section \<open>The buffer\<close>

lemma length_utf8_bytes: "length (utf8_bytes n) \<le> 4"
  by (simp add: utf8_bytes_def)

lemma unescape_loop_length:
  "i \<le> length s \<Longrightarrow> ok (unescape_loop s i out u) (\<lambda>(u', out'). length out' + i \<le> length out + length s)"
proof (induction "length s - i" arbitrary: i out u rule: less_induct)
  case less
  have step: "ok (unescape_loop s j (out @ b) v) (\<lambda>(u', out'). length out' + i \<le> length out + length s)"
    if "i < j" "j \<le> length s" "length b + i \<le> j" for j b v
  proof -
    have "ok (unescape_loop s j (out @ b) v) (\<lambda>(u', out'). length out' + j \<le> length (out @ b) + length s)"
      using that less.prems by (intro less.hyps) auto
    then show ?thesis by (rule ok_but_weaken) (use that in auto)
  qed
  have bytes: "length (utf8_bytes k) \<le> 6" "length (utf8_bytes k) \<le> 12" for k
    using length_utf8_bytes [of k] by auto
  show ?case
    using less.prems step bytes by (subst unescape_loop.simps) (simp add: Let_def split: option.splits)
qed

text \<open>
  C19. The decoded text is never longer than the raw one: the loop writes inside the buffer of
  \<^verbatim>\<open>len + 1\<close> bytes the code allocates before it, the final NUL included.
\<close>

theorem unescape_fits_buffer:
  assumes "gql_unescape_string_sv raw = Inr out"
  shows "length (SvPV out) < length (SvPV raw) + 1"
  using unescape_loop_length [of 0 "SvPV raw" "[]" "SvUTF8 raw"] assms
  by (auto simp: gql_unescape_string_sv_def bnd_def split: sum.splits)


theorem unescape_fits_buffer_witness:
  "\<exists>out. gql_unescape_string_sv (PV False [BSLASH, CHR ''n'']) = Inr out \<and> length (SvPV out) < 3"
proof -
  have "gql_unescape_string_sv (PV False [BSLASH, CHR ''n'']) = Inr (PV False [LF])"
    by (simp add: gql_unescape_string_sv_def SvUTF8_def unescape_loop.simps simple_escape_def)
  with unescape_fits_buffer [OF this] show ?thesis by simp
qed

section \<open>Escaping\<close>

text \<open>A printer for string values: quotes, backslashes and control bytes are escaped.\<close>

definition control_byte :: "char \<Rightarrow> bool" where
  "control_byte c \<longleftrightarrow> byte_of c < 0x20"

definition escape_char :: "char \<Rightarrow> string" where
  "escape_char c =
     (if c = DQUOTE \<or> c = BSLASH then [BSLASH, c]
      else if control_byte c then BSLASH # CHR ''u'' # hex4 (nat (byte_of c))
      else [c])"

definition escape_string :: "string \<Rightarrow> string" where
  "escape_string s = concat (map escape_char s)"

lemma escape_string_simps [simp]:
  "escape_string [] = []" "escape_string (c # s) = escape_char c @ escape_string s"
  by (simp_all add: escape_string_def)

lemma utf8_bytes_control: "control_byte c \<Longrightarrow> utf8_bytes (byte_of c) = [c]"
  by (simp add: utf8_bytes_def control_byte_def byte_char_def byte_of_def)

lemma byte_of_range: "0 \<le> byte_of c \<and> byte_of c < 256"
proof -
  have "byte_of c = int (of_char c)" by (simp only: byte_of_def of_nat_of_char)
  with nat_of_char_less_256 [of c] show ?thesis by simp
qed

lemma unat_small: "n < 2 ^ 64 \<Longrightarrow> unat (of_nat n :: uv) = n"
  by (simp add: unsigned_of_nat take_bit_nat_eq_self)

lemma control_byte_quote [simp]: "\<not> control_byte DQUOTE" "\<not> control_byte BSLASH"
  by (simp_all add: control_byte_def byte_of_def)

lemma unescape_loop_escape:
  "raw = pre @ escape_string s \<Longrightarrow> i = length pre \<Longrightarrow>
    unescape_loop raw i out u = Inr (u \<or> list_ex control_byte s, out @ s)"
proof (induction s arbitrary: pre i out u)
  case Nil
  then show ?case by (subst unescape_loop.simps) simp
next
  case (Cons c s)
  have rest: "unescape_loop raw j (out @ [c]) v = Inr (v \<or> list_ex control_byte s, (out @ [c]) @ s)"
    if "j = length pre + length (escape_char c)" for j v
    using Cons.prems that by (intro Cons.IH [where pre = "pre @ escape_char c"]) simp_all
  consider "c = DQUOTE" | "c = BSLASH" | "c \<noteq> DQUOTE" "c \<noteq> BSLASH" "control_byte c"
    | "c \<noteq> DQUOTE" "c \<noteq> BSLASH" "\<not> control_byte c" by blast
  then show ?case
  proof cases
    case 3
    have raw: "drop (i + 2) raw = hex4 (nat (byte_of c)) @ escape_string s"
        "raw ! i = BSLASH" "raw ! (i + 1) = CHR ''u''" "i + 5 < length raw"
      using Cons.prems 3 by (simp_all add: escape_char_def hex4_def nth_append)
    have n: "nat (byte_of c) < 32" using 3 byte_of_range [of c] by (simp add: control_byte_def)
    have "gql_hex4_to_uv (drop (i + 2) raw) = Some (of_nat (nat (byte_of c)))"
      unfolding raw using n by (intro hex4_decodes) simp
    moreover have unat: "unat (of_nat (nat (byte_of c)) :: uv) = nat (byte_of c)"
      by (rule unat_small, rule less_trans [OF n]) simp
    moreover have "uint (of_nat (nat (byte_of c)) :: uv) = byte_of c"
      unfolding uint_nat unat using byte_of_range [of c] by simp
    moreover have "\<not> 0xD800 \<le> (of_nat (nat (byte_of c)) :: uv)"
      using n by (simp only: word_le_nat_alt unat) simp
    ultimately show ?thesis
      using raw rest [of "i + 6" True] 3 Cons.prems
      by (subst unescape_loop.simps) (simp add: simple_escape_def utf8_bytes_control escape_char_def hex4_def)
  qed (subst unescape_loop.simps;
    use rest [of "i + 2" u] rest [of "i + 1" u] Cons.prems in
      \<open>simp add: nth_append escape_char_def simple_escape_def\<close>)+
qed


lemma length_escape_char_pos: "escape_char c \<noteq> []"
  by (simp add: escape_char_def)

lemma hd_escape_char: "hd (escape_char c) \<noteq> DQUOTE"
  by (simp add: escape_char_def)

lemma control_byte_line [simp]: "control_byte LF" "control_byte CR"
  by (simp_all add: control_byte_def byte_of_def)

lemma lex_string_escape:
  assumes "len p = length (src p)"
  shows "src p = pre @ escape_string s @ DQUOTE # post \<Longrightarrow> scan = length pre \<Longrightarrow>
    lex_string p scan =
      Inr (end_token (p\<lparr>val_end := scan + length (escape_string s)\<rparr>) TOK_STRING
             (scan + length (escape_string s) + 1))"
proof (induction s arbitrary: pre scan)
  case Nil
  with assms show ?case by (subst lex_string.simps) simp
next
  case (Cons c s)
  have rest: "lex_string p j =
      Inr (end_token (p\<lparr>val_end := j + length (escape_string s)\<rparr>) TOK_STRING (j + length (escape_string s) + 1))"
    if "j = scan + length (escape_char c)" for j
    using Cons.prems that by (intro Cons.IH [where pre = "pre @ escape_char c"]) simp_all
  consider "c = DQUOTE" | "c = BSLASH" | "c \<noteq> DQUOTE" "c \<noteq> BSLASH" "control_byte c"
    | "c \<noteq> DQUOTE" "c \<noteq> BSLASH" "\<not> control_byte c" by blast
  then show ?case
  proof cases
    case 3
    obtain a b d e where hex: "hex4 (nat (byte_of c)) = [a, b, d, e]"
        "isXDIGIT a" "isXDIGIT b" "isXDIGIT d" "isXDIGIT e"
      using isXDIGIT_hex_char unfolding hex4_def by blast
    have "src p = pre @ [BSLASH, CHR ''u'', a, b, d, e] @ escape_string s @ DQUOTE # post"
      using Cons.prems 3 hex by (simp add: escape_char_def)
    then show ?thesis
      using rest [of "scan + 6"] 3 Cons.prems(2) assms hex
      by (subst lex_string.simps)
        (simp add: nth_append strchr_escapes_def escape_char_def, simp add: eval_nat_numeral)
  next
    case 4
    then have "c \<noteq> LF" "c \<noteq> CR" "\<not> byte_of c < 0x20" by (auto simp: control_byte_def [symmetric])
    with 4 show ?thesis
      using rest [of "scan + 1"] Cons.prems assms
      by (subst lex_string.simps) (simp add: nth_append escape_char_def)
  qed (subst lex_string.simps; use rest [of "scan + 2"] Cons.prems assms in
      \<open>simp add: nth_append escape_char_def strchr_escapes_def\<close>)+
qed

text \<open>
  Printing a string value and reading it back gives the value: on the escaped text between
  quotes the lexer ends a string token exactly behind the closing quote, and the value of the
  token is the string. (Two quotes followed by a third open a block string.)
\<close>

lemma lex_printed_string:
  assumes "len p = length (src p)" "src p = pre @ DQUOTE # escape_string s @ DQUOTE # post"
    and "pos p = length pre" "token_count p < GQL_PARSER_MAX_TOKENS"
    and "s = [] \<longrightarrow> take 1 post \<noteq> [DQUOTE]"
  shows "\<exists>q. gql_lex_token p = Inr q \<and> kind q = TOK_STRING \<and>
    pos q = length pre + length (escape_string s) + 2 \<and>
    gql_copy_value_sv q = Inr (PV (is_utf8 p \<or> list_ex control_byte s) s)"
proof -
  let ?p = "p\<lparr>tok_start := pos p, tok_end := pos p, val_start := pos p, val_end := pos p,
    token_count := token_count p + 1\<rparr>"
  let ?e = "pos p + 1 + length (escape_string s)"
  have quote: "at p (pos p) = DQUOTE" "pos p < len p" using assms(1-3) by simp_all
  have "\<not> (pos p + 2 < len p \<and> at p (pos p + 1) = DQUOTE \<and> at p (pos p + 2) = DQUOTE)"
  proof (cases s)
    case Nil
    with assms show ?thesis by (cases post) (auto simp: nth_append)
  next
    case (Cons c s')
    then have "escape_string s \<noteq> [] \<and> hd (escape_string s) \<noteq> DQUOTE"
      using length_escape_char_pos [of c] hd_escape_char [of c] by simp
    then have "at p (pos p + 1) \<noteq> DQUOTE"
      using assms(2,3) by (cases "escape_string s") (simp_all add: nth_append)
    then show ?thesis by simp
  qed
  then have "lex_quote ?p = lex_string (?p\<lparr>val_start := pos p + 1\<rparr>) (pos p + 1)"
    by (auto simp: lex_quote_def)
  also have "\<dots> = Inr (end_token (?p\<lparr>val_start := pos p + 1, val_end := ?e\<rparr>) TOK_STRING (?e + 1))"
    using assms(1-3) lex_string_escape [of "?p\<lparr>val_start := pos p + 1\<rparr>" "pre @ [DQUOTE]" s post "pos p + 1"] by simp
  finally have lex: "gql_lex_token p = Inr (end_token (?p\<lparr>val_start := pos p + 1, val_end := ?e\<rparr>) TOK_STRING (?e + 1))"
    using quote assms(4) by (simp add: gql_lex_token_def lex_by_char_def punct_kind_def)
  have "take (length (escape_string s)) (drop (pos p + 1) (src p)) = escape_string s"
    using assms(2,3) by simp
  with lex show ?thesis
    using unescape_loop_escape [of "escape_string s" "[]" s 0 "[]" "is_utf8 p"] assms(3)
    by (simp add: end_token_def gql_copy_value_sv_def gql_make_string_sv_def gql_unescape_string_sv_def SvUTF8_def Let_def)
qed

end
