(* ===== verification/Reading.thy ===== *)
theory Reading
  imports Escape_Lemmas
begin

text \<open>
  Reading printed text back. \<open>here t p\<close>: the text from the cursor of \<open>p\<close> on is \<open>t\<close>, and the
  token limit leaves room for it. \<open>reads t q\<close>: \<open>q\<close> is the state after the first token of \<open>t\<close>
  was read (whatever the nesting counter), and \<open>lexable t\<close>: there is such a state. The lemmas follow one token at a time.
\<close>

section \<open>Text at the cursor\<close>

definition here :: "string \<Rightarrow> gql_parser \<Rightarrow> bool" where
  "here t p \<longleftrightarrow> len p = length (src p) \<and> pos p \<le> len p \<and> drop (pos p) (src p) = t
     \<and> token_count p + int (length t) \<le> GQL_PARSER_MAX_TOKENS"

definition reads :: "string \<Rightarrow> gql_parser \<Rightarrow> bool" where
  "reads t q \<longleftrightarrow> (\<exists>p r. here t p \<and> gql_advance p = Inr r \<and> q = r\<lparr>depth := depth q\<rparr>)"

definition lexable :: "string \<Rightarrow> bool" where
  "lexable t \<longleftrightarrow> (\<forall>p. here t p \<longrightarrow> (\<exists>q. gql_advance p = Inr q))"

lemma readsI: "here t p \<Longrightarrow> gql_advance p = Inr q \<Longrightarrow> reads t q"
  unfolding reads_def by (rule exI [of _ p], rule exI [of _ q]) simp

lemma readsE:
  assumes "reads t q"
  obtains p r where "here t p" "gql_advance p = Inr r" "q = r\<lparr>depth := depth q\<rparr>"
  using assms unfolding reads_def by blast

lemma reads_depth: "reads t q \<Longrightarrow> reads t (q\<lparr>depth := d\<rparr>)"
  unfolding reads_def by (metis gql_parser.select_convs(13) gql_parser.surjective gql_parser.update_convs(13))

lemma reads_induct:
  assumes "reads t q" "\<And>p r. here t p \<Longrightarrow> gql_advance p = Inr r \<Longrightarrow> P r" "\<And>r d. P r \<Longrightarrow> P (r\<lparr>depth := d\<rparr>)"
  shows "P q"
  using assms by (elim readsE) metis

text \<open>What a token operation does not change.\<close>

definition like :: "gql_parser \<Rightarrow> gql_parser \<Rightarrow> bool" where
  "like p q \<longleftrightarrow> src q = src p \<and> len q = len p \<and> is_utf8 q = is_utf8 p \<and> no_location q = no_location p \<and> depth q = depth p
     \<and> validation_errors q = validation_errors p"

lemma like_refl [simp]: "like p p"
  by (simp add: like_def)

lemma like_trans [trans]: "like p q \<Longrightarrow> like q r \<Longrightarrow> like p r"
  by (simp add: like_def)

lemma here_at: "here t p \<Longrightarrow> k < length t \<Longrightarrow> at p (pos p + k) = t ! k \<and> pos p + k < len p"
  by (auto simp: here_def)

lemma here_length: "here t p \<Longrightarrow> length t = len p - pos p"
  by (auto simp: here_def)

lemma here_hd: "here (c # t) p \<Longrightarrow> at p (pos p) = c \<and> pos p < len p"
  using here_at [of "c # t" p 0] by simp

lemma drop_append_eq:
  assumes "drop k xs = a @ t"
  shows "drop (k + length a) xs = t"
proof -
  have "drop (length a) (drop k xs) = t" using assms by (simp del: drop_drop)
  then show ?thesis by (simp add: add.commute)
qed

lemma here_forward: "here (a @ t) p \<Longrightarrow> here t (p\<lparr>pos := pos p + length a\<rparr>)"
  using drop_append_eq [of "pos p" "src p" a t] here_length [of "a @ t" p] by (auto simp: here_def)

lemma here_last_pos [simp]: "here t (p\<lparr>last_pos := x\<rparr>) = here t p" "here t (p\<lparr>depth := d\<rparr>) = here t p"
  by (simp_all add: here_def)

lemma gql_advance_like: "gql_advance p = Inr q \<Longrightarrow> here t p \<Longrightarrow> like p q"
  using gql_advance_ok [of p] by (auto simp: here_def scannable_def like_def same_input_def)

section \<open>Ignored characters\<close>

definition solid :: "char \<Rightarrow> bool" where
  "solid c \<longleftrightarrow> c \<notin> {CHR '','', CHR '' '', TAB, LF, CR, CHR ''#'', CHR 0xEF}"

lemma skip_solid: "here (c # t) p \<Longrightarrow> solid c \<Longrightarrow> gql_skip_ignored p = p"
  using here_hd [of c t p] by (subst gql_skip_ignored.simps) (simp add: solid_def)

lemma skip_end: "here [] p \<Longrightarrow> gql_skip_ignored p = p"
  by (subst gql_skip_ignored.simps) (simp add: here_def)

lemma skip_space: "here (CHR '' '' # t) p \<Longrightarrow> gql_skip_ignored p = gql_skip_ignored (p\<lparr>pos := pos p + 1\<rparr>)"
  using here_hd [of "CHR '' ''" t p] by (subst gql_skip_ignored.simps) simp

text \<open>\<open>marked p\<close>: what \<^verbatim>\<open>gql_advance\<close> sets before it lexes.\<close>

definition marked :: "gql_parser \<Rightarrow> gql_parser" where
  "marked p = (if tok_end p > 0 then p\<lparr>last_pos := Some (tok_end p - 1)\<rparr> else p)"

lemma here_marked [simp]: "here t (marked p) = here t p"
  by (simp add: marked_def)

lemma like_marked [simp]: "like p (marked p)"
  by (simp add: marked_def like_def)

lemma gql_advance_marked: "gql_advance p = gql_lex_token (gql_skip_ignored (marked p))"
  by (simp add: gql_advance_def marked_def)

lemma marked_pos: "marked (p\<lparr>pos := n\<rparr>) = (marked p)\<lparr>pos := n\<rparr>" "pos (marked p) = pos p"
  by (simp_all add: marked_def)

lemma marked_fields [simp]:
  "src (marked p) = src p" "len (marked p) = len p" "pos (marked p) = pos p"
  "token_count (marked p) = token_count p" "is_utf8 (marked p) = is_utf8 p"
  by (simp_all add: marked_def)

lemma advance_space:
  assumes "here (CHR '' '' # t) p"
  shows "gql_advance p = gql_advance (p\<lparr>pos := pos p + 1\<rparr>)" "here t (p\<lparr>pos := pos p + 1\<rparr>)"
  using assms skip_space [of t "marked p"] here_forward [of "[CHR '' '']" t p]
  by (simp_all add: gql_advance_marked marked_pos)

lemma advance_solid: "here (c # t) p \<Longrightarrow> solid c \<Longrightarrow> gql_advance p = gql_lex_token (marked p)"
  using skip_solid [of c t "marked p"] by (simp add: gql_advance_marked)

lemma reads_space: "reads (CHR '' '' # t) q \<Longrightarrow> reads t q"
proof (erule reads_induct)
  show "reads t r" if "here (CHR '' '' # t) p" "gql_advance p = Inr r" for p r
    using advance_space [OF that(1)] that(2) readsI by metis
qed (rule reads_depth)

lemma lexable_space: "lexable t \<Longrightarrow> lexable (CHR '' '' # t)"
  unfolding lexable_def using advance_space by metis

section \<open>Tokens\<close>

text \<open>The first character has been looked at and the token counted.\<close>

definition started :: "gql_parser \<Rightarrow> gql_parser" where
  "started p = (marked p)\<lparr>tok_start := pos p, tok_end := pos p, val_start := pos p, val_end := pos p,
     token_count := token_count p + 1\<rparr>"

lemma advance_by_char:
  assumes "here (c # t) p" "solid c"
  shows "gql_advance p = lex_by_char (started p)"
proof -
  have "token_count p + 1 \<le> GQL_PARSER_MAX_TOKENS" "pos p < len p"
    using assms(1) here_hd [of c t p] by (auto simp: here_def)
  then show ?thesis
    unfolding advance_solid [OF assms] by (auto simp: gql_lex_token_def started_def marked_def)
qed

lemma started_fields [simp]:
  "src (started p) = src p" "len (started p) = len p" "pos (started p) = pos p"
  "tok_start (started p) = pos p" "token_count (started p) = token_count p + 1"
  "is_utf8 (started p) = is_utf8 p" "no_location (started p) = no_location p"
  "depth (started p) = depth p" "validation_errors (started p) = validation_errors p"
  by (simp_all add: started_def marked_def)

text \<open>A token that ends at \<open>pos p + length a\<close>, where the text goes on with \<open>t\<close>.\<close>

lemma here_end:
  assumes "here (a @ t) p" "a \<noteq> []" "src q = src p" "len q = len p" "token_count q = token_count p + 1"
    "pos q = pos p + length a"
  shows "here t q"
proof -
  have "token_count p + 1 + int (length t) \<le> token_count p + int (length (a @ t))"
    using assms(2) by (cases a) simp_all
  with assms here_forward [OF assms(1)] show ?thesis by (auto simp: here_def)
qed

lemma advance_left: "here (c # t) p \<Longrightarrow> solid c \<Longrightarrow> gql_advance p = Inr q \<Longrightarrow> left q = length (c # t)"
proof -
  assume p: "here (c # t) p" "solid c" "gql_advance p = Inr q"
  have "scannable (marked p)" "token_count (marked p) \<le> GQL_PARSER_MAX_TOKENS"
    using p(1) by (auto simp: here_def scannable_def marked_def)
  from gql_lex_token_ok [OF this] p(3) advance_solid [OF p(1,2)]
  have "tok_start q = pos p" "len q = len p" by (auto simp: lexes_def same_input_def marked_def)
  with here_length [OF p(1)] show ?thesis by (simp add: left_def)
qed

lemma reads_left: "reads (c # t) q \<Longrightarrow> solid c \<Longrightarrow> left q = length (c # t)"
proof (erule reads_induct)
  show "solid c \<Longrightarrow> left r = length (c # t)" if "here (c # t) p" "gql_advance p = Inr r" for p r
    using advance_left [OF that(1) _ that(2)] .
qed (simp add: left_def)

subsection \<open>Punctuation\<close>

lemma punct_solid: "punct_kind c = Some k \<Longrightarrow> solid c"
  by (auto simp: punct_kind_def solid_def split: if_splits)

lemma advance_punct:
  assumes "here (c # t) p" "punct_kind c = Some k"
  shows "\<exists>q. gql_advance p = Inr q \<and> kind q = k \<and> here t q"
  using advance_by_char [OF assms(1) punct_solid [OF assms(2)]] here_hd [OF assms(1)] assms
    here_end [of "[c]" t p "end_token (started p) k (pos p + 1)"]
  by (simp add: lex_by_char_def end_token_def)

lemma reads_punct: "reads (c # t) q \<Longrightarrow> punct_kind c = Some k \<Longrightarrow> kind q = k \<and> here t q"
  by (erule reads_induct) (use advance_punct in fastforce)+

lemma lexable_punct: "punct_kind c = Some k \<Longrightarrow> lexable (c # t)"
  unfolding lexable_def using advance_punct by blast

lemma advance_end: "here [] p \<Longrightarrow> \<exists>q. gql_advance p = Inr q \<and> kind q = TOK_EOF"
  using skip_end [of "marked p"]
  by (simp add: gql_advance_marked gql_lex_token_def) (simp add: here_def marked_def)

lemma lexable_end: "lexable []"
  unfolding lexable_def using advance_end by blast

lemma reads_end: "reads [] q \<Longrightarrow> kind q = TOK_EOF"
  by (erule reads_induct) (use advance_end in fastforce)+

text \<open>Going on to the next token.\<close>

lemma next_token:
  assumes "here t p" "lexable t"
  obtains q where "gql_advance p = Inr q" "reads t q" "like p q"
  using assms gql_advance_like [of p _ t] unfolding lexable_def by (blast intro: readsI)


subsection \<open>Names\<close>

text \<open>What follows a printed token: nothing, a space or a punctuator.\<close>

definition calm :: "string \<Rightarrow> bool" where
  "calm t \<longleftrightarrow> t = [] \<or> hd t = CHR '' '' \<or> punct_kind (hd t) \<noteq> None"

definition valid_name :: "string \<Rightarrow> bool" where
  "valid_name n \<longleftrightarrow> n \<noteq> [] \<and> name_start (hd n) \<and> list_all name_char n"

lemma isDIGIT_name_char: "isDIGIT c \<Longrightarrow> name_char c"
  by (simp add: name_char_def isALNUM_def)

definition special :: "char list" where
  "special = [CHR '','', CHR '' '', TAB, LF, CR, CHR ''#'', CHR 0xEF, CHR ''.'', DQUOTE, CHR ''-'', CHR ''!'',
     CHR ''$'', CHR ''&'', CHR ''('', CHR '')'', CHR '':'', CHR ''='', CHR ''@'', CHR ''['', CHR '']'',
     CHR ''{'', CHR ''}'', CHR ''|'']"

lemma special_no_name: "list_all (\<lambda>c. \<not> name_char c) special"
  by (simp add: special_def name_char_def isALNUM_def isALPHA_def isDIGIT_def byte_of_def)

lemma plain_char:
  assumes "name_char c"
  shows "solid c" "punct_kind c = None" "c \<noteq> CHR ''.''" "c \<noteq> DQUOTE" "c \<noteq> CHR ''-''"
proof -
  have "c \<notin> set special" using assms special_no_name by (auto simp: list_all_iff)
  then show "solid c" "punct_kind c = None" "c \<noteq> CHR ''.''" "c \<noteq> DQUOTE" "c \<noteq> CHR ''-''"
    by (simp_all add: special_def solid_def punct_kind_def)
qed

lemma name_start_char: "name_start c \<Longrightarrow> name_char c \<and> \<not> isDIGIT c"
  by (auto simp: name_start_def name_char_def isALNUM_def isALPHA_def isDIGIT_def byte_of_def)

lemma calm_breaks: "calm t \<Longrightarrow> t = [] \<or> \<not> name_char (hd t) \<and> hd t \<noteq> CHR ''.'' \<and> hd t \<noteq> DQUOTE"
proof -
  assume "calm t"
  moreover have "punct_kind c = None" "c \<noteq> CHR '' ''" if "name_char c" for c
    using plain_char [OF that] by (auto simp: solid_def)
  moreover have "punct_kind (CHR ''.'') = None" "punct_kind DQUOTE = None" by (simp_all add: punct_kind_def)
  ultimately show ?thesis by (auto simp: calm_def)
qed

lemma drop_eq_Cons: "drop k xs = c # ys \<Longrightarrow> k < length xs \<and> xs ! k = c \<and> drop (k + 1) xs = ys"
  by (metis Cons_nth_drop_Suc Suc_eq_plus1 drop_all list.distinct(1) list.inject not_le_imp_less)

lemma skip_while_span:
  "drop scan (src p) = a @ t \<Longrightarrow> len p = length (src p) \<Longrightarrow> scan \<le> len p \<Longrightarrow> list_all f a \<Longrightarrow>
    t = [] \<or> \<not> f (hd t) \<Longrightarrow> skip_while f p scan = scan + length a"
proof (induction a arbitrary: scan)
  case Nil
  then have "scan < len p \<longrightarrow> at p scan = hd t" by (auto simp: hd_drop_conv_nth)
  moreover have "scan < len p \<longrightarrow> t \<noteq> []" using Nil.prems by auto
  ultimately show ?case using Nil.prems by (subst skip_while.simps) auto
next
  case (Cons c a)
  then have here: "scan < len p" "at p scan = c" "drop (scan + 1) (src p) = a @ t"
    using drop_eq_Cons [of scan "src p" c "a @ t"] by auto
  then have "skip_while f p (scan + 1) = scan + 1 + length a" using Cons.prems by (intro Cons.IH) auto
  with here Cons.prems show ?case by (subst skip_while.simps) simp
qed

lemma advance_name:
  assumes "here (n @ t) p" "valid_name n" "calm t"
  shows "\<exists>q. gql_advance p = Inr q \<and> kind q = TOK_NAME \<and> tok_text q = n \<and> here t q"
proof -
  obtain c cs where n: "n = c # cs" using assms(2) by (cases n) (auto simp: valid_name_def)
  have c: "name_start c" "list_all name_char cs" using assms(2) n by (auto simp: valid_name_def)
  have hd: "here (c # cs @ t) p" using assms(1) n by simp
  have "drop (pos p + 1) (src p) = cs @ t" "pos p + 1 \<le> len p" "len p = length (src p)"
    using here_forward [of "[c]" "cs @ t" p] hd by (auto simp: here_def)
  then have "skip_while name_char (started p) (pos p + 1) = pos p + 1 + length cs"
    using c(2) calm_breaks [OF assms(3)] by (intro skip_while_span) auto
  then have adv: "gql_advance p = Inr (value_token (started p) TOK_NAME (pos p + length n))"
    using advance_by_char [OF hd] plain_char [of c] name_start_char [OF c(1)] here_hd [OF hd] c(1) n
    by (simp add: lex_by_char_def lex_name_def)
  have "here t (value_token (started p) TOK_NAME (pos p + length n))"
    using n by (intro here_end [OF assms(1)]) (simp_all add: value_token_def end_token_def)
  moreover have "tok_text (value_token (started p) TOK_NAME (pos p + length n)) = n"
    using assms(1) by (simp add: tok_text_def value_token_def end_token_def here_def)
  ultimately show ?thesis using adv by (simp add: value_token_def end_token_def)
qed

lemma reads_name: "reads (n @ t) q \<Longrightarrow> valid_name n \<Longrightarrow> calm t \<Longrightarrow> kind q = TOK_NAME \<and> tok_text q = n \<and> here t q"
  by (erule reads_induct) (use advance_name in \<open>fastforce simp: tok_text_def\<close>)+

lemma lexable_name: "valid_name n \<Longrightarrow> calm t \<Longrightarrow> lexable (n @ t)"
  unfolding lexable_def using advance_name by blast

lemma copy_token: "gql_copy_token_sv q = PV (is_utf8 q) (tok_text q)"
  by (simp add: gql_copy_token_sv_def gql_make_string_sv_def tok_text_def)

end
