(* ===== verification/Numbers.thy ===== *)
theory Numbers
  imports Reading
begin

text \<open>
  The tokens of printed integers and strings. \<open>dec_int i\<close> is the decimal text of \<open>i\<close>; the lexer
  reads it as one \<open>TOK_INT\<close>, and \<^verbatim>\<open>SvIV\<close> of it is \<open>i\<close> on the 64-bit range. A string printed by
  \<open>escape_string\<close> between quotes is one \<open>TOK_STRING\<close> with that string as its value.
\<close>

section \<open>Printed integers\<close>

lemma byte_of_byte_char: "0 \<le> n \<Longrightarrow> n < 256 \<Longrightarrow> byte_of (byte_char n) = n"
  unfolding byte_of_def byte_char_def by (simp add: of_char_of take_bit_eq_mod)

lemma digit_char:
  assumes "d < 10"
  shows "isDIGIT (digit_char d)" "byte_of (digit_char d) = 48 + int d" "digit_char d = CHR ''0'' \<longleftrightarrow> d = 0"
proof -
  show b: "byte_of (digit_char d) = 48 + int d"
    using assms unfolding digit_char_def by (intro byte_of_byte_char) auto
  then show "isDIGIT (digit_char d)" using assms by (simp add: isDIGIT_def)
  have "byte_of (CHR ''0'') = 48" by (simp add: byte_of_def)
  then have "byte_of (digit_char d) = byte_of (CHR ''0'') \<longleftrightarrow> d = 0" unfolding b by simp
  then show "digit_char d = CHR ''0'' \<longleftrightarrow> d = 0" unfolding byte_of_inject .
qed

lemma dec_digits_digits: "dec_digits n \<noteq> [] \<and> list_all isDIGIT (dec_digits n)"
proof (induction n rule: dec_digits.induct)
  case (1 n)
  then show ?case by (subst (1 2) dec_digits.simps) (auto simp: digit_char)
qed

lemma dec_digits_hd: "0 < n \<Longrightarrow> hd (dec_digits n) \<noteq> CHR ''0''"
proof (induction n rule: dec_digits.induct)
  case (1 n)
  then show ?case using dec_digits_digits [of "n div 10"] by (subst dec_digits.simps) (auto simp: digit_char)
qed

lemma dec_value_append: "dec_value (a @ b) n = dec_value b (dec_value a n)"
  by (induction a arbitrary: n) auto

lemma dec_value_digits: "dec_value (dec_digits n) 0 = int n"
proof (induction n rule: dec_digits.induct)
  case (1 n)
  have "int (n div 10) * 10 + int (n mod 10) = int n" by (simp add: zdiv_int zmod_int)
  with 1 show ?case by (subst dec_digits.simps) (auto simp: dec_value_append digit_char)
qed

lemma minus_no_digit: "\<not> isDIGIT (CHR ''-'')"
  by (simp add: isDIGIT_def byte_of_def)

lemma perl_sviv_dec_int:
  assumes "- (2 ^ 63) \<le> i" "i < 2 ^ 63"
  shows "perl_sviv (dec_int i) = i"
proof (cases "i < 0")
  case True
  with assms show ?thesis by (simp add: perl_sviv_def dec_int_def dec_value_digits Let_def)
next
  case False
  obtain c cs where d: "dec_digits (nat i) = c # cs" "isDIGIT c"
    using dec_digits_digits [of "nat i"] by (cases "dec_digits (nat i)") auto
  then have "c \<noteq> CHR ''-''" using minus_no_digit by auto
  then show ?thesis
    using False assms d(1) dec_value_digits [of "nat i"] by (simp add: perl_sviv_def dec_int_def Let_def)
qed

text \<open>The scanner stops behind the digits, and takes no fraction and no exponent.\<close>

lemma lex_integer_part_digits:
  assumes "drop scan (src p) = dec_digits n @ t" "len p = length (src p)" "scan \<le> len p" "calm t"
  shows "lex_integer_part p scan = Inr (scan + length (dec_digits n))"
proof (cases "n = 0")
  case True
  then have d: "dec_digits n = [CHR ''0'']" by (subst dec_digits.simps) (simp add: digit_char(3))
  have "\<not> digit_at p (scan + 1)"
    using assms d drop_eq_Cons [of scan "src p" "CHR ''0''" t] calm_breaks [OF assms(4)] isDIGIT_name_char
    by (cases t) (auto simp: digit_at_def dest: drop_eq_Cons)
  with d show ?thesis
    using assms(1) drop_eq_Cons [of scan "src p" "CHR ''0''" t] by (simp add: lex_integer_part_def)
next
  case False
  obtain c cs where d: "dec_digits n = c # cs" using dec_digits_digits [of n] by (cases "dec_digits n") auto
  have "at p scan \<noteq> CHR ''0''"
    using assms(1) d dec_digits_hd [of n] False drop_eq_Cons [of scan "src p" c "cs @ t"] by auto
  moreover have "skip_while isDIGIT p scan = scan + length (dec_digits n)"
    using assms dec_digits_digits [of n] calm_breaks [OF assms(4)] isDIGIT_name_char
    by (intro skip_while_span) auto
  ultimately show ?thesis by (simp add: lex_integer_part_def)
qed

lemma no_fraction:
  assumes "drop e (src p) = t" "len p = length (src p)" "calm t"
  shows "lex_fraction p e = Inr (e, False)" "lex_exponent p e False = Inr (e, False)"
proof -
  have "name_char (CHR ''e'')" "name_char (CHR ''E'')"
    by (simp_all add: name_char_def isALNUM_def isALPHA_def byte_of_def)
  then have "e < len p \<Longrightarrow> at p e \<noteq> CHR ''.'' \<and> at p e \<noteq> CHR ''e'' \<and> at p e \<noteq> CHR ''E''"
    using assms calm_breaks [OF assms(3)] by (auto simp: hd_drop_conv_nth [symmetric])
  then show "lex_fraction p e = Inr (e, False)" "lex_exponent p e False = Inr (e, False)"
    by (auto simp: lex_fraction_def lex_exponent_def)
qed

lemma lex_number_dec_int:
  assumes "drop (pos p) (src p) = dec_int i @ t" "len p = length (src p)" "pos p \<le> len p" "calm t"
  shows "lex_number p = Inr (value_token p TOK_INT (pos p + length (dec_int i)))"
proof -
  define s where "s = (if i < 0 then pos p + 1 else pos p)"
  define n where "n = nat \<bar>i\<bar>"
  obtain c cs where d: "dec_digits n = c # cs" "isDIGIT c"
    using dec_digits_digits [of n] by (cases "dec_digits n") auto
  have drop: "drop s (src p) = dec_digits n @ t" "s \<le> len p"
    using assms(1,2) drop_eq_Cons [of "pos p" "src p" "CHR ''-''" "dec_digits n @ t"] assms(3)
    by (auto simp: s_def n_def dec_int_def split: if_splits)
  have e: "s + length (dec_digits n) = pos p + length (dec_int i)"
    by (simp add: s_def n_def dec_int_def)
  have c: "s < len p" "at p s = c" using drop_eq_Cons [of s "src p" c "cs @ t"] drop(1) d(1) assms(2) by auto
  have "lex_sign p (pos p) = Inr s"
  proof (cases "i < 0")
    case True
    then have "at p (pos p) = CHR ''-''"
      using drop_eq_Cons [of "pos p" "src p" "CHR ''-''" "dec_digits (nat (- i)) @ t"] assms(1)
      by (simp add: dec_int_def)
    with True c d(2) show ?thesis by (simp add: lex_sign_def digit_at_def s_def)
  next
    case False
    with c d(2) minus_no_digit show ?thesis by (auto simp: lex_sign_def s_def)
  qed
  moreover have "drop (pos p + length (dec_int i)) (src p) = t"
    using drop_append_eq [OF drop(1)] unfolding e .
  ultimately show ?thesis
    using lex_integer_part_digits [OF drop(1) assms(2) drop(2) assms(4)] e
      no_fraction [of "pos p + length (dec_int i)" p t] assms(2,4)
    by (simp add: lex_number_def)
qed

lemma dec_int_hd: "\<exists>c cs. dec_int i = c # cs \<and> (c = CHR ''-'' \<or> isDIGIT c)"
  using dec_digits_digits [of "nat i"] by (cases "dec_digits (nat i)") (auto simp: dec_int_def)

lemma number_plain:
  assumes "c = CHR ''-'' \<or> isDIGIT c"
  shows "solid c" "punct_kind c = None" "c \<noteq> CHR ''.''" "c \<noteq> DQUOTE"
proof -
  have "solid (CHR ''-'')" "punct_kind (CHR ''-'') = None" by (simp_all add: solid_def punct_kind_def)
  then show "solid c" "punct_kind c = None" "c \<noteq> CHR ''.''" "c \<noteq> DQUOTE"
    using assms plain_char [of c] isDIGIT_name_char [of c] by auto
qed

lemma advance_int:
  assumes "here (dec_int i @ t) p" "calm t"
  shows "\<exists>q. gql_advance p = Inr q \<and> kind q = TOK_INT \<and> tok_text q = dec_int i \<and> here t q"
proof -
  obtain c cs where i: "dec_int i = c # cs" "c = CHR ''-'' \<or> isDIGIT c" using dec_int_hd by blast
  have hd: "here (c # cs @ t) p" using assms(1) i by simp
  have "lex_number (started p) = Inr (value_token (started p) TOK_INT (pos p + length (dec_int i)))"
    using lex_number_dec_int [of "started p" i t] assms by (simp add: here_def)
  then have adv: "gql_advance p = Inr (value_token (started p) TOK_INT (pos p + length (dec_int i)))"
    using advance_by_char [OF hd number_plain(1) [OF i(2)]] number_plain [OF i(2)] here_hd [OF hd] i(2)
    by (auto simp: lex_by_char_def)
  have "here t (value_token (started p) TOK_INT (pos p + length (dec_int i)))"
    using i by (intro here_end [OF assms(1)]) (simp_all add: value_token_def end_token_def)
  moreover have "tok_text (value_token (started p) TOK_INT (pos p + length (dec_int i))) = dec_int i"
    using assms(1) by (simp add: tok_text_def value_token_def end_token_def here_def)
  ultimately show ?thesis using adv by (simp add: value_token_def end_token_def)
qed

section \<open>Printed strings\<close>

lemma advance_string:
  assumes "here (DQUOTE # escape_string s @ DQUOTE # t) p" "calm t"
  shows "\<exists>q. gql_advance p = Inr q \<and> kind q = TOK_STRING \<and> here t q \<and>
    gql_copy_value_sv q = Inr (PV (is_utf8 p \<or> list_ex control_byte s) s)"
proof -
  let ?p = "marked p" and ?l = "length (escape_string s) + 2"
  have adv: "gql_advance p = gql_lex_token ?p"
    by (rule advance_solid [OF assms(1)]) (simp add: solid_def)
  have "token_count p < GQL_PARSER_MAX_TOKENS" using assms(1) by (simp add: here_def)
  moreover have "src p = take (pos p) (src p) @ DQUOTE # escape_string s @ DQUOTE # t"
    using assms(1) append_take_drop_id [of "pos p" "src p"] by (simp add: here_def)
  moreover have "s = [] \<longrightarrow> take 1 t \<noteq> [DQUOTE]" using calm_breaks [OF assms(2)] by (cases t) auto
  ultimately obtain q where q: "gql_lex_token ?p = Inr q" "kind q = TOK_STRING" "pos q = pos p + ?l"
      "gql_copy_value_sv q = Inr (PV (is_utf8 p \<or> list_ex control_byte s) s)"
    using lex_printed_string [of ?p "take (pos p) (src p)" s t] assms(1)
    by (auto simp: here_def)
  have "scannable ?p" "token_count ?p \<le> GQL_PARSER_MAX_TOKENS"
    using assms(1) by (auto simp: here_def scannable_def)
  from gql_lex_token_ok [OF this] q(1)
  have l: "src q = src p" "len q = len p" "token_count q \<le> token_count p + 1"
    by (auto simp: lexes_def same_input_def)
  have "here t (p\<lparr>pos := pos p + length (DQUOTE # escape_string s @ [DQUOTE])\<rparr>)"
    by (rule here_forward) (use assms(1) in simp)
  moreover have "token_count p + 1 + int (length t) \<le> GQL_PARSER_MAX_TOKENS"
    using assms(1) by (simp add: here_def)
  ultimately have "here t q" using l q(3) by (auto simp: here_def)
  with q adv show ?thesis by auto
qed

end
