(* ===== verification/Roundtrip_Values.thy ===== *)
theory Roundtrip_Values
  imports Numbers Parser_Values_Lemmas
begin

text \<open>
  Reading back what was printed: type references and values. The abstract syntax is a
  datatype, \<open>print_type\<close> and \<open>print_value\<close> print it, and \<open>type_node\<close> and \<open>value_node\<close> say which
  Perl value the parser has to build for it.
\<close>

section \<open>Steps of the parser on known text\<close>

definition parses :: "'a parsed \<Rightarrow> gql_parser \<Rightarrow> 'a \<Rightarrow> string \<Rightarrow> bool" where
  "parses m q v t \<longleftrightarrow> (\<exists>r. m = Inr (v, r) \<and> reads t r \<and> like q r)"

lemma parsesE:
  assumes "parses m q v t"
  obtains r where "m = Inr (v, r)" "reads t r" "like q r"
  using assms unfolding parses_def by blast

lemma parsesI: "m = Inr (v, r) \<Longrightarrow> reads t r \<Longrightarrow> like q r \<Longrightarrow> parses m q v t"
  unfolding parses_def by blast

lemma parses_bnd:
  assumes "parses m q v t" "\<And>r. reads t r \<Longrightarrow> like q r \<Longrightarrow> parses (f (v, r)) r w u"
  shows "parses (bnd m f) q w u"
proof -
  from assms(1) obtain r where r: "m = Inr (v, r)" "reads t r" "like q r" by (rule parsesE)
  with assms(2) [OF r(2,3)] show ?thesis by (auto simp: parses_def intro: like_trans)
qed

lemma parses_like: "parses m r v t \<Longrightarrow> like q r \<Longrightarrow> parses m q v t"
  by (auto simp: parses_def intro: like_trans)

lemma advance_step:
  assumes "reads (c # t) q" "punct_kind c = Some k" "lexable t"
  shows "\<exists>r. gql_advance q = Inr r \<and> reads t r \<and> like q r"
  using reads_punct [OF assms(1,2)] next_token [of t q] assms(3) by metis

lemma expect_step:
  assumes "reads (c # t) q" "punct_kind c = Some k" "lexable t"
  shows "\<exists>r. gql_expect q k m = Inr r \<and> reads t r \<and> like q r"
  using advance_step [OF assms] reads_punct [OF assms(1,2)] by (simp add: gql_expect_def)

lemma name_step:
  assumes "reads (n @ t) q" "valid_name n" "calm t" "lexable t"
  obtains r where "gql_advance q = Inr r" "gql_parse_name q m = Inr (PV (is_utf8 q) n, r)" "reads t r" "like q r"
  using reads_name [OF assms(1-3)] next_token [OF _ assms(4), of q] copy_token [of q]
  by (metis bnd_Inr gql_parse_name_def)

text \<open>The next token is not of kind \<open>k\<close>.\<close>

definition without :: "gql_token_kind \<Rightarrow> string \<Rightarrow> bool" where
  "without k t \<longleftrightarrow> (\<forall>q. reads t q \<longrightarrow> kind q \<noteq> k)"

lemma without_punct: "punct_kind c = Some k' \<Longrightarrow> k' \<noteq> k \<Longrightarrow> without k (c # t)"
  unfolding without_def using reads_punct by blast

lemma without_end: "k \<noteq> TOK_EOF \<Longrightarrow> without k []"
  unfolding without_def using reads_end by blast

lemma without_space: "without k t \<Longrightarrow> without k (CHR '' '' # t)"
  unfolding without_def using reads_space by blast

lemma without_name: "valid_name n \<Longrightarrow> calm t \<Longrightarrow> k \<noteq> TOK_NAME \<Longrightarrow> without k (n @ t)"
  unfolding without_def using reads_name by blast

lemma calm_simps [simp]: "calm []" "calm (c # t) \<longleftrightarrow> c = CHR '' '' \<or> punct_kind c \<noteq> None"
  by (simp_all add: calm_def)

lemma punct_kinds [simp]:
  "punct_kind (CHR ''['') = Some TOK_LBRACKET" "punct_kind (CHR '']'') = Some TOK_RBRACKET"
  "punct_kind (CHR ''{'') = Some TOK_LBRACE" "punct_kind (CHR ''}'') = Some TOK_RBRACE"
  "punct_kind (CHR ''('') = Some TOK_LPAREN" "punct_kind (CHR '')'') = Some TOK_RPAREN"
  "punct_kind (CHR '':'') = Some TOK_COLON" "punct_kind (CHR ''!'') = Some TOK_BANG"
  "punct_kind (CHR ''$'') = Some TOK_DOLLAR" "punct_kind (CHR ''@'') = Some TOK_AT"
  "punct_kind (CHR ''='') = Some TOK_EQUALS"
  by (simp_all add: punct_kind_def)

section \<open>Type references\<close>

datatype gtype = Named string | ListOf gtype | NonNull gtype

fun print_type :: "gtype \<Rightarrow> string" where
  "print_type (Named n) = n"
| "print_type (ListOf t) = CHR ''['' # print_type t @ '']''"
| "print_type (NonNull t) = print_type t @ ''!''"

fun type_node :: "bool \<Rightarrow> gtype \<Rightarrow> sv" where
  "type_node u (Named n) = PV u n"
| "type_node u (ListOf t) = gql_make_type_wrapper (type_node u t) ''list''"
| "type_node u (NonNull t) = gql_make_type_wrapper (type_node u t) ''non_null''"

text \<open>What the grammar admits: names are names, and no type is marked non-null twice.\<close>

fun type_wf :: "gtype \<Rightarrow> bool" where
  "type_wf (Named n) = valid_name n"
| "type_wf (ListOf t) = type_wf t"
| "type_wf (NonNull t) = (type_wf t \<and> (case t of NonNull _ \<Rightarrow> False | _ \<Rightarrow> True))"

lemma lexable_type: "type_wf t \<Longrightarrow> calm u \<Longrightarrow> lexable (print_type t @ u)"
  by (induction t arbitrary: u) (auto simp: lexable_name intro: lexable_punct)

lemma reads_type:
  "reads (print_type t @ u) q \<Longrightarrow> type_wf t \<Longrightarrow> calm u \<Longrightarrow> lexable u \<Longrightarrow> without TOK_BANG u \<Longrightarrow> size t < n \<Longrightarrow>
    parses (gql_parse_type_reference n q) q (type_node (is_utf8 q) t) u"
proof (induction t arbitrary: u q n rule: measure_induct_rule [where f = size])
  case (less t)
  obtain m where n: "n = Suc m" using less.prems(6) by (cases n) auto
  let ?base = "if kind q = TOK_LBRACKET then
            bnd (gql_advance q) (\<lambda>p.
            bnd (gql_parse_type_reference m p) (\<lambda>(t, p).
            bnd (gql_expect p TOK_RBRACKET None) (\<lambda>p.
            Inr (gql_make_type_wrapper t ''list'', p))))
          else gql_parse_name q ''Expected name''"
  have base: "\<exists>r. ?base = Inr (type_node (is_utf8 q) s, r) \<and> reads v r \<and> like q r"
    if "reads (print_type s @ v) q" "type_wf s" "\<forall>s'. s \<noteq> NonNull s'" "calm v" "lexable v" "size s \<le> size t" for s v
  proof (cases s)
    note base = that
    case (Named a)
    with that have a: "reads (a @ v) q" "valid_name a" by auto
    obtain r where "gql_parse_name q ''Expected name'' = Inr (PV (is_utf8 q) a, r)" "reads v r" "like q r"
      by (rule name_step [OF a base(4,5)])
    with reads_name [OF a base(4)] Named show ?thesis by simp
  next
    note base = that
    case (ListOf a)
    have bracket: "calm (CHR '']'' # v)" "lexable (CHR '']'' # v)" "without TOK_BANG (CHR '']'' # v)"
      by (simp_all add: lexable_punct without_punct)
    have q: "reads (CHR ''['' # print_type a @ CHR '']'' # v) q" "type_wf a" using that ListOf by auto
    obtain r where r: "gql_advance q = Inr r" "reads (print_type a @ CHR '']'' # v) r" "like q r"
      using advance_step [OF q(1)] lexable_type [OF q(2) bracket(1)] by auto
    have a: "size a < size t" "size a < m" using ListOf base(6) less.prems(6) n by auto
    obtain r' where r': "gql_parse_type_reference m r = Inr (type_node (is_utf8 r) a, r')"
        "reads (CHR '']'' # v) r'" "like r r'"
      by (rule parsesE [OF less.IH [OF a(1) r(2) q(2) bracket a(2)]])
    obtain r2 where "gql_expect r' TOK_RBRACKET None = Inr r2" "reads v r2" "like r' r2"
      using expect_step [OF r'(2)] base(5) by auto
    with r r' reads_punct [OF q(1)] ListOf show ?thesis by (auto simp: like_def)
  qed (use that in auto)
  show ?case
  proof (cases "\<exists>s. t = NonNull s")
    case True
    then obtain s where t: "t = NonNull s" by blast
    have q: "reads (print_type s @ CHR ''!'' # u) q" "type_wf s" "\<forall>s'. s \<noteq> NonNull s'"
      using less.prems t by (auto split: gtype.splits)
    obtain r where r: "reads (CHR ''!'' # u) r" "like q r" and e: "?base = Inr (type_node (is_utf8 q) s, r)"
      using base [OF q] t by (auto simp: lexable_punct)
    obtain r' where "gql_advance r = Inr r'" "reads u r'" "like r r'" "kind r = TOK_BANG"
      using advance_step [OF r(1)] reads_punct [OF r(1)] less.prems(4) by auto
    with r e t show ?thesis
      unfolding n gql_parse_type_reference.simps e by (auto simp: parses_def intro: like_trans)
  next
    case False
    then obtain r where r: "reads u r" "like q r" and e: "?base = Inr (type_node (is_utf8 q) t, r)"
      using base [of t u] less.prems by auto
    then show ?thesis
      using less.prems(5) unfolding n gql_parse_type_reference.simps e by (auto simp: parses_def without_def)
  qed
qed

section \<open>Values\<close>

datatype gvalue =
    VVar string
  | VInt int
  | VStr string
  | VBool bool
  | VNull
  | VEnum string
  | VList "gvalue list"
  | VObj "(string \<times> gvalue) list"

fun print_value :: "gvalue \<Rightarrow> string" where
  "print_value (VVar n) = CHR ''$'' # n"
| "print_value (VInt i) = dec_int i"
| "print_value (VStr s) = DQUOTE # escape_string s @ [DQUOTE]"
| "print_value (VBool b) = (if b then ''true'' else ''false'')"
| "print_value VNull = ''null''"
| "print_value (VEnum n) = n"
| "print_value (VList vs) = CHR ''['' # concat (map (\<lambda>v. print_value v @ '' '') vs) @ '']''"
| "print_value (VObj fs) = CHR ''{'' # concat (map (\<lambda>(k, v). k @ CHR '':'' # print_value v @ '' '') fs) @ ''}''"

fun value_node :: "bool \<Rightarrow> gvalue \<Rightarrow> sv" where
  "value_node u (VVar n) = Ref (PV u n)"
| "value_node u (VInt i) = IV i"
| "value_node u (VStr s) = PV (u \<or> list_ex control_byte s) s"
| "value_node u (VBool b) = PBool b"
| "value_node u VNull = Undef"
| "value_node u (VEnum n) = Ref (Ref (PV u n))"
| "value_node u (VList vs) = AV (map (value_node u) vs)"
| "value_node u (VObj fs) = HV (map (\<lambda>(k, v). (k, value_node u v)) fs)"

text \<open>How deep lists and objects are nested.\<close>

fun value_levels :: "gvalue \<Rightarrow> nat" where
  "value_levels (VList vs) = Suc (foldr max (map value_levels vs) 0)"
| "value_levels (VObj fs) = Suc (foldr max (map (\<lambda>(k, v). value_levels v) fs) 0)"
| "value_levels _ = 0"

text \<open>
  The values of the grammar: integers in the range of a scalar, enum names that are no
  keyword, field names given once. \<open>c\<close> asks for a constant.
\<close>

fun value_wf :: "bool \<Rightarrow> gvalue \<Rightarrow> bool" where
  "value_wf c (VVar n) = (\<not> c \<and> valid_name n)"
| "value_wf c (VInt i) = (- (2 ^ 63) \<le> i \<and> i < 2 ^ 63)"
| "value_wf c (VEnum n) = (valid_name n \<and> n \<notin> {''true'', ''false'', ''null''})"
| "value_wf c (VList vs) = list_all (value_wf c) vs"
| "value_wf c (VObj fs) = (distinct (map fst fs) \<and> list_all (\<lambda>(k, v). valid_name k \<and> value_wf c v) fs)"
| "value_wf c _ = True"

lemma valid_names: "valid_name ''true''" "valid_name ''false''" "valid_name ''null''"
  by (simp_all add: valid_name_def name_start_def name_char_def isALNUM_def isALPHA_def byte_of_def)

lemma lexable_string: "calm t \<Longrightarrow> lexable (DQUOTE # escape_string s @ DQUOTE # t)"
  unfolding lexable_def using advance_string by blast

lemma lexable_int: "calm t \<Longrightarrow> lexable (dec_int i @ t)"
  unfolding lexable_def using advance_int by blast

lemma lexable_value: "value_wf c v \<Longrightarrow> calm t \<Longrightarrow> lexable (print_value v @ t)"
  using lexable_name [OF valid_names(1)] lexable_name [OF valid_names(2)] lexable_name [OF valid_names(3)]
  by (cases v) (auto simp: lexable_string lexable_int lexable_name intro: lexable_punct)

text \<open>Every token in the text starts with a character that is neither ignored nor a hash sign.\<close>

lemma solid_value: "value_wf c v \<Longrightarrow> print_value v \<noteq> [] \<and> solid (hd (print_value v))"
proof (cases v)
  case (VInt i)
  obtain d ds where "dec_int i = d # ds" "solid d" using dec_int_hd [of i] number_plain(1) by blast
  with VInt show ?thesis by simp
next
  case (VEnum n)
  assume "value_wf c v"
  with VEnum have "valid_name n" by simp
  with VEnum plain_char(1) show ?thesis by (cases n) (simp_all add: valid_name_def)
qed (auto simp: solid_def)

lemma solid_name: "valid_name n \<Longrightarrow> n \<noteq> [] \<and> solid (hd n)"
  using plain_char(1) by (cases n) (auto simp: valid_name_def)

section \<open>Loops over printed items\<close>

text \<open>
  A loop up to a closing character on printed items: \<open>I a xs\<close> is what holds when the items
  \<open>xs\<close> are still to be read.
\<close>

lemma loop_items:
  assumes step: "\<And>a x xs q. I a (x # xs) \<Longrightarrow> reads (concat (map pr (x # xs)) @ u) q \<Longrightarrow> like p q \<Longrightarrow>
      guard q \<and> I (add a x) xs \<and> parses (body a q) q (add a x) (concat (map pr xs) @ u)"
    and stop: "\<And>q. reads u q \<Longrightarrow> like p q \<Longrightarrow> \<not> guard q"
  shows "I a xs \<Longrightarrow> reads (concat (map pr xs) @ u) q \<Longrightarrow> like p q \<Longrightarrow> length xs < n \<Longrightarrow>
    parses (ploop n e guard body a q) q (foldl add a xs) u"
proof (induction xs arbitrary: a q n)
  case Nil
  then show ?case using stop by (cases n) (auto simp: ploop.simps parses_def)
next
  case (Cons x xs)
  obtain m where n: "n = Suc m" using Cons.prems(4) by (cases n) auto
  from step [OF Cons.prems(1-3)] obtain r where r: "guard q" "I (add a x) xs" "body a q = Inr (add a x, r)"
      "reads (concat (map pr xs) @ u) r" "like q r" by (auto elim: parsesE)
  have "parses (ploop m e guard body (add a x) r) r (foldl add (add a x) xs) u"
    using Cons.IH [OF r(2,4)] r(5) Cons.prems(3,4) n by (auto intro: like_trans)
  with r n show ?case by (auto simp: ploop.simps intro: parses_like)
qed

lemma length_items: "(\<And>x. x \<in> set xs \<Longrightarrow> pr x \<noteq> []) \<Longrightarrow> length xs \<le> length (concat (map pr xs))"
proof (induction xs)
  case (Cons x xs)
  then have "length (pr x) \<ge> 1" "length xs \<le> length (concat (map pr xs))" by (auto simp: Suc_le_eq)
  then show ?case by simp
qed simp

text \<open>\<open>L\<close> is what an item needs to know of the text behind it; the closing character and every item satisfy it.\<close>

lemma until_items:
  assumes item: "\<And>x t. J x \<Longrightarrow> L (pr x @ t) \<and> without close (pr x @ t) \<and> pr x \<noteq> [] \<and> solid (hd (pr x))"
    and step: "\<And>a x xs t q. I a (x # xs) \<Longrightarrow> J x \<Longrightarrow> reads (pr x @ t) q \<Longrightarrow> like p q \<Longrightarrow> L t \<Longrightarrow>
      I (add a x) xs \<and> parses (body a q) q (add a x) t"
    and close: "punct_kind c = Some close" and last: "L (c # t)" and all: "list_all J xs"
    and start: "I a xs" "reads (concat (map pr xs) @ c # t) p"
  shows "parses (parse_until close body a p) p (foldl add a xs) (c # t)"
proof -
  have rest: "L (concat (map pr ys) @ c # t)" if "list_all J ys" for ys
    using that item last by (cases ys) auto
  have "\<exists>d ds. concat (map pr xs) @ c # t = d # ds \<and> solid d"
  proof (cases xs)
    case Nil
    then show ?thesis using punct_solid [OF close] by simp
  next
    case (Cons x ys)
    then show ?thesis using item [of x "[]"] all by (cases "pr x") auto
  qed
  then have "left p = length (concat (map pr xs) @ c # t)"
    using start(2) by (metis reads_left)
  moreover have "length xs \<le> length (concat (map pr xs))"
    using item all by (intro length_items) (auto simp: list_all_iff)
  ultimately have n: "length xs < Suc (left p)" by simp
  show ?thesis
    unfolding parse_until_def parse_while_def
  proof (rule loop_items [where I = "\<lambda>a ys. I a ys \<and> list_all J ys"])
    fix a x ys q
    assume a: "I a (x # ys) \<and> list_all J (x # ys)" "reads (concat (map pr (x # ys)) @ c # t) q" "like p q"
    then have q: "reads (pr x @ concat (map pr ys) @ c # t) q" "J x" "list_all J ys" by simp_all
    from step [OF _ q(2,1) a(3) rest [OF q(3)]] a(1) item [OF q(2)] q(1,3)
    show "kind q \<noteq> close \<and> (I (add a x) ys \<and> list_all J ys) \<and>
        parses (body a q) q (add a x) (concat (map pr ys) @ c # t)"
      unfolding without_def by blast
  next
    show "\<not> kind q \<noteq> close" if "reads (c # t) q" for q
      using reads_punct [OF that close] by simp
  qed (use start all n in simp_all)
qed

lemma until_closed:
  assumes "\<And>x t. J x \<Longrightarrow> L (pr x @ t) \<and> without close (pr x @ t) \<and> pr x \<noteq> [] \<and> solid (hd (pr x))"
    and "\<And>a x xs t q. I a (x # xs) \<Longrightarrow> J x \<Longrightarrow> reads (pr x @ t) q \<Longrightarrow> like p q \<Longrightarrow> L t \<Longrightarrow>
      I (add a x) xs \<and> parses (body a q) q (add a x) t"
    and close: "punct_kind c = Some close" and "L (c # t)" and "list_all J xs"
    and "I a xs" "reads (concat (map pr xs) @ c # t) p" and t: "lexable t"
  shows "\<exists>r. bnd (parse_until close body a p) (\<lambda>(a, p). bnd (gql_expect p close m) (\<lambda>p. g a p)) =
      g (foldl add a xs) r \<and> reads t r \<and> like p r"
proof -
  have "parses (parse_until close body a p) p (foldl add a xs) (c # t)"
    by (rule until_items [where J = J and I = I and pr = pr and L = L]) fact+
  then obtain q where q: "parse_until close body a p = Inr (foldl add a xs, q)" "reads (c # t) q" "like p q"
    by (rule parsesE)
  with expect_step [OF q(2) close t, of m] show ?thesis by (auto simp: like_def)
qed

lemma foldl_snoc: "foldl (\<lambda>a x. a @ [f x]) a xs = a @ map f xs"
  by (induction xs arbitrary: a) auto

section \<open>Reading a value\<close>

definition value_reads :: "bool \<Rightarrow> gvalue \<Rightarrow> bool" where
  "value_reads c v \<longleftrightarrow> (\<forall>q n t. reads (print_value v @ t) q \<longrightarrow> calm t \<longrightarrow> lexable t \<longrightarrow>
     depth q + int (value_levels v) \<le> GQL_PARSER_MAX_DEPTH \<longrightarrow> 2 * value_levels v < n \<longrightarrow>
     parses (gql_parse_value n c q) q (value_node (is_utf8 q) v) t)"

lemma value_readsD:
  "value_reads c v \<Longrightarrow> reads (print_value v @ t) q \<Longrightarrow> calm t \<Longrightarrow> lexable t \<Longrightarrow>
    depth q + int (value_levels v) \<le> GQL_PARSER_MAX_DEPTH \<Longrightarrow> 2 * value_levels v < n \<Longrightarrow> u = is_utf8 q \<Longrightarrow>
    parses (gql_parse_value n c q) q (value_node u v) t"
  by (simp add: value_reads_def)

lemmas value_cases = gql_parse_value.simps(2)

lemma advance_after: "here t q \<Longrightarrow> lexable t \<Longrightarrow> \<exists>r. gql_advance q = Inr r \<and> reads t r \<and> like q r"
  using next_token by metis

lemma reads_int: "reads (dec_int i @ t) q \<Longrightarrow> calm t \<Longrightarrow> kind q = TOK_INT \<and> tok_text q = dec_int i \<and> here t q"
  by (erule reads_induct) (use advance_int in \<open>fastforce simp: tok_text_def\<close>)+

lemma copy_value_depth: "gql_copy_value_sv (q\<lparr>depth := d\<rparr>) = gql_copy_value_sv q"
  by (simp add: gql_copy_value_sv_def gql_make_string_sv_def Let_def)

lemma reads_string:
  "reads (DQUOTE # escape_string s @ DQUOTE # t) q \<Longrightarrow> calm t \<Longrightarrow>
    kind q = TOK_STRING \<and> here t q \<and> gql_copy_value_sv q = Inr (PV (is_utf8 q \<or> list_ex control_byte s) s)"
proof (erule reads_induct)
  fix p r assume "calm t" and p: "here (DQUOTE # escape_string s @ DQUOTE # t) p" "gql_advance p = Inr r"
  with advance_string [OF p(1)] gql_advance_like [OF p(2,1)]
  show "kind r = TOK_STRING \<and> here t r \<and> gql_copy_value_sv r = Inr (PV (is_utf8 r \<or> list_ex control_byte s) s)"
    by (auto simp: like_def)
qed (simp add: copy_value_depth)

lemma scalar_reads:
  assumes "value_wf c v" "value_levels v = 0"
  shows "value_reads c v"
  unfolding value_reads_def
proof (intro allI impI)
  fix q n t
  assume q: "reads (print_value v @ t) q" and t: "calm t" "lexable t" and "2 * value_levels v < n"
  then obtain m where n: "n = Suc m" by (cases n) auto
  have word: "kind q = TOK_NAME \<and> tok_text q = w \<and> (\<exists>r. gql_advance q = Inr r \<and> reads t r \<and> like q r)"
    if "print_value v = w" "valid_name w" for w
    using reads_name [of w t q] q t that advance_after by metis
  show "parses (gql_parse_value n c q) q (value_node (is_utf8 q) v) t"
  proof (cases v)
    case (VVar a)
    then have a: "reads (CHR ''$'' # a @ t) q" "valid_name a" "\<not> c" using q assms(1) by simp_all
    obtain r where r: "gql_advance q = Inr r" "reads (a @ t) r" "like q r"
      using advance_step [OF a(1)] lexable_name [OF a(2) t(1)] by auto
    obtain r' where "gql_parse_name r ''Expected name'' = Inr (PV (is_utf8 r) a, r')" "reads t r'" "like r r'"
      by (rule name_step [OF r(2) a(2) t])
    with r reads_punct [OF a(1)] a(3) VVar show ?thesis by (auto simp: n value_cases parses_def like_def)
  next
    case (VInt i)
    with q t have "kind q = TOK_INT" "tok_text q = dec_int i" "here t q" using reads_int by auto
    with advance_after [OF _ t(2), of q] assms(1) VInt perl_sviv_dec_int [of i] show ?thesis
      by (auto simp: n value_cases parses_def)
  next
    case (VStr s)
    with q t have "kind q = TOK_STRING" "here t q"
        "gql_copy_value_sv q = Inr (PV (is_utf8 q \<or> list_ex control_byte s) s)" using reads_string by auto
    with advance_after [OF _ t(2), of q] VStr show ?thesis by (auto simp: n value_cases parses_def)
  next
    case (VBool b)
    with word [of "print_value v"] valid_names show ?thesis
      by (auto simp: n value_cases parses_def gql_peek_name_def split: if_splits)
  next
    case VNull
    with word [of "print_value v"] valid_names show ?thesis
      by (auto simp: n value_cases parses_def gql_peek_name_def)
  next
    case (VEnum a)
    with word [of a] assms(1) show ?thesis
      by (auto simp: n value_cases parses_def gql_peek_name_def copy_token)
  qed (use assms(2) in auto)
qed

text \<open>An item is followed by a space, which ends its last token and is skipped.\<close>

lemma parses_space: "parses m q v (CHR '' '' # t) \<Longrightarrow> parses m q v t"
  unfolding parses_def using reads_space by blast

lemma lexable_item: "value_wf c v \<Longrightarrow> lexable (print_value v @ CHR '' '' # t)"
  by (rule lexable_value) simp_all

lemma value_first:
  assumes "value_wf c v" "reads (print_value v @ CHR '' '' # t) q"
  shows "kind q \<noteq> TOK_RBRACKET \<and> kind q \<noteq> TOK_RPAREN"
proof (cases v)
  case (VVar a)
  with assms(2) reads_punct [of "CHR ''$''" _ q] show ?thesis by auto
next
  case (VInt i)
  with assms(2) reads_int [of i _ q] show ?thesis by auto
next
  case (VStr s)
  with assms(2) reads_string [of s _ q] show ?thesis by auto
next
  case (VBool b)
  with assms(2) reads_name [OF _ valid_names(1), of _ q] reads_name [OF _ valid_names(2), of _ q]
  show ?thesis by (auto split: if_splits)
next
  case VNull
  with assms(2) reads_name [OF _ valid_names(3), of _ q] show ?thesis by auto
next
  case (VEnum a)
  with assms reads_name [of a _ q] show ?thesis by auto
next
  case (VList vs)
  with assms(2) reads_punct [of "CHR ''[''" _ q] show ?thesis by auto
next
  case (VObj fs)
  with assms(2) reads_punct [of "CHR ''{''" _ q] show ?thesis by auto
qed

text \<open>Named values, as in objects and argument lists: \<open>k:v\<close> and a space.\<close>

definition print_entry :: "string \<times> gvalue \<Rightarrow> string" where
  "print_entry = (\<lambda>(k, v). k @ CHR '':'' # print_value v @ '' '')"

definition entry_node :: "bool \<Rightarrow> string \<times> gvalue \<Rightarrow> string \<times> sv" where
  "entry_node u = (\<lambda>(k, v). (k, value_node u v))"

definition entry_wf :: "bool \<Rightarrow> string \<times> gvalue \<Rightarrow> bool" where
  "entry_wf c = (\<lambda>(k, v). valid_name k \<and> value_wf c v)"

definition fresh_entries :: "hv \<Rightarrow> (string \<times> gvalue) list \<Rightarrow> bool" where
  "fresh_entries h fs \<longleftrightarrow> distinct (map fst fs) \<and> fst ` set h \<inter> fst ` set fs = {}"

lemma store_fresh: "k \<notin> fst ` set h \<Longrightarrow> gql_store_sv h k v = h @ [(k, v)]"
  unfolding gql_store_sv_def hv_store_def by (induction h) auto

lemma foldl_entries: "fresh_entries h fs \<Longrightarrow>
    foldl (\<lambda>h (k, v). gql_store_sv h k (value_node u v)) h fs = h @ map (entry_node u) fs"
  by (induction fs arbitrary: h) (auto simp: fresh_entries_def store_fresh entry_node_def)

lemma fresh_note: "k \<notin> fst ` set h \<Longrightarrow> note_duplicate h k m l p = p"
  by (simp add: note_duplicate_def hv_exists_iff)

text \<open>One round of the two loops over named values.\<close>

lemma entry_step:
  assumes "fresh_entries h ((k, v) # fs)" "entry_wf c (k, v)" "value_reads c v"
    and "reads (print_entry (k, v) @ t) q" "lexable t"
    and "depth q + int (value_levels v) \<le> GQL_PARSER_MAX_DEPTH" "2 * value_levels v < n" "u = is_utf8 q"
  shows "fresh_entries (gql_store_sv h k (value_node u v)) fs \<and>
    parses (bnd (gql_parse_name q ''Expected name'') (\<lambda>(name, p).
            bnd (gql_expect p TOK_COLON None) (\<lambda>p.
            bnd (gql_parse_value n c (note_duplicate h (SvPV name) (provided_twice what (SvPV name)) True p))
              (\<lambda>(v, p). Inr (gql_store_sv h (SvPV name) v, p))))) q (gql_store_sv h k (value_node u v)) t"
proof -
  have k: "valid_name k" "value_wf c v" "k \<notin> fst ` set h" using assms(1,2) by (auto simp: entry_wf_def fresh_entries_def)
  have q: "reads (k @ CHR '':'' # print_value v @ CHR '' '' # t) q" using assms(4) by (simp add: print_entry_def)
  obtain r where r: "gql_parse_name q ''Expected name'' = Inr (PV (is_utf8 q) k, r)"
      "reads (CHR '':'' # print_value v @ CHR '' '' # t) r" "like q r"
    using name_step [OF q k(1), of "''Expected name''"] by (auto simp: lexable_punct)
  obtain r' where r': "gql_expect r TOK_COLON None = Inr r'" "reads (print_value v @ CHR '' '' # t) r'" "like r r'"
    using expect_step [OF r(2) _ lexable_item [OF k(2)]] by auto
  have "parses (gql_parse_value n c r') r' (value_node u v) (CHR '' '' # t)"
    using r' r(3) assms(5-8) by (intro value_readsD [OF assms(3)]) (auto simp: like_def lexable_space)
  from parses_space [OF this] r r' show ?thesis
    using assms(1) k(3) by (auto simp: parses_def fresh_note store_fresh fresh_entries_def like_def)
qed

lemma entry_item:
  "entry_wf c x \<Longrightarrow> k \<noteq> TOK_NAME \<Longrightarrow> lexable (print_entry x @ t) \<and> without k (print_entry x @ t) \<and>
    print_entry x \<noteq> [] \<and> solid (hd (print_entry x))"
  by (cases x) (auto simp: print_entry_def entry_wf_def lexable_name without_name dest: solid_name)

text \<open>Lists and objects.\<close>

lemma lexable_items:
  "(\<And>x t. J x \<Longrightarrow> lexable (pr x @ t)) \<Longrightarrow> punct_kind c = Some k \<Longrightarrow> list_all J xs \<Longrightarrow> lexable (concat (map pr xs) @ c # t)"
  by (cases xs) (simp_all add: lexable_punct)

lemma frames_below: "2 * Suc l < n \<Longrightarrow> \<exists>m. n = Suc (Suc m) \<and> 2 * l < m"
  by (cases n; cases "n - 1") auto

lemma list_reads:
  assumes "list_all (\<lambda>v. value_wf c v \<and> value_reads c v) vs"
  shows "value_reads c (VList vs)"
  unfolding value_reads_def
proof (intro allI impI)
  fix q :: gql_parser and n t
  let ?l = "foldr max (map value_levels vs) 0" and ?pr = "\<lambda>v. print_value v @ '' ''" and ?u = "is_utf8 q"
  let ?J = "\<lambda>v. value_wf c v \<and> value_reads c v \<and> value_levels v \<le> ?l" and ?q = "q\<lparr>depth := depth q + 1\<rparr>"
  assume q: "reads (print_value (VList vs) @ t) q" and t: "calm t" "lexable t"
    and d: "depth q + int (value_levels (VList vs)) \<le> GQL_PARSER_MAX_DEPTH"
    and "2 * value_levels (VList vs) < n"
  then obtain m where n: "n = Suc (Suc m)" "2 * ?l < m" using frames_below [of ?l n] by auto
  have q': "reads (CHR ''['' # concat (map ?pr vs) @ CHR '']'' # t) q" using q by simp
  have J: "list_all ?J vs" using assms foldr_max_le [of "map value_levels vs" ?l] by (auto simp: list_all_iff)
  have item: "lexable (?pr v @ u) \<and> without TOK_RBRACKET (?pr v @ u) \<and> ?pr v \<noteq> [] \<and> solid (hd (?pr v))"
    if "?J v" for v u
    using that lexable_item [of c v] value_first [of c v] solid_value [of c v] by (auto simp: without_def)
  have lex: "lexable (concat (map ?pr vs) @ CHR '']'' # t)"
    by (rule lexable_items [where J = ?J and k = TOK_RBRACKET]) (use item J in blast, simp, fact)
  obtain r where r: "gql_expect ?q TOK_LBRACKET None = Inr r" "reads (concat (map ?pr vs) @ CHR '']'' # t) r" "like ?q r"
    using expect_step [OF reads_depth [OF q'] punct_kinds(1) lex] by blast
  have step: "True \<and> parses (bnd (gql_parse_value m c p) (\<lambda>(v, p). Inr (a @ [v], p))) p (a @ [value_node ?u v]) u"
    if "?J v" "reads (?pr v @ u) p" "like r p" "lexable u" for v a u p
  proof -
    have "parses (gql_parse_value m c p) p (value_node ?u v) (CHR '' '' # u)"
      using that n(2) d r(3) by (intro value_readsD) (auto simp: like_def lexable_space)
    from parses_space [OF this] show ?thesis by (auto simp: parses_def)
  qed
  obtain s where s: "bnd (parse_until TOK_RBRACKET (\<lambda>av p. bnd (gql_parse_value m c p) (\<lambda>(v, p). Inr (av @ [v], p))) [] r)
      (\<lambda>(av, p). bnd (gql_expect p TOK_RBRACKET None) (\<lambda>p. Inr (AV av, p\<lparr>depth := depth p - 1\<rparr>))) =
      Inr (AV (map (value_node ?u) vs), s\<lparr>depth := depth s - 1\<rparr>)" "reads t s" "like r s"
    using until_closed [where L = lexable and J = ?J and I = "\<lambda>_ _. True" and pr = ?pr and a = "[]" and xs = vs and t = t and p = r and m = None
      and c = "CHR '']''" and add = "\<lambda>a v. a @ [value_node ?u v]" and g = "\<lambda>av p. Inr (AV av, p\<lparr>depth := depth p - 1\<rparr>)",
      OF item step punct_kinds(2) lexable_punct [OF punct_kinds(2)] J TrueI r(2) t(2)]
    by (auto simp: foldl_snoc)
  have "like q (s\<lparr>depth := depth s - 1\<rparr>)" using r(3) s(3) by (auto simp: like_def)
  with reads_punct [OF q' punct_kinds(1)] r s reads_depth [OF s(2)] d
  show "parses (gql_parse_value n c q) q (value_node ?u (VList vs)) t"
    by (auto simp: n value_cases gql_parse_list_value.simps(2) parses_def)
qed

lemma object_reads:
  assumes "distinct (map fst fs)" "list_all (\<lambda>(k, v). entry_wf c (k, v) \<and> value_reads c v) fs"
  shows "value_reads c (VObj fs)"
  unfolding value_reads_def
proof (intro allI impI)
  fix q :: gql_parser and n t
  let ?l = "foldr max (map (\<lambda>(k, v). value_levels v) fs) 0" and ?u = "is_utf8 q"
  let ?J = "\<lambda>(k, v). entry_wf c (k, v) \<and> value_reads c v \<and> value_levels v \<le> ?l" and ?q = "q\<lparr>depth := depth q + 1\<rparr>"
  assume q: "reads (print_value (VObj fs) @ t) q" and t: "calm t" "lexable t"
    and d: "depth q + int (value_levels (VObj fs)) \<le> GQL_PARSER_MAX_DEPTH"
    and "2 * value_levels (VObj fs) < n"
  then obtain m where n: "n = Suc (Suc m)" "2 * ?l < m" using frames_below [of ?l n] by auto
  have q': "reads (CHR ''{'' # concat (map print_entry fs) @ CHR ''}'' # t) q"
    using q by (simp add: print_entry_def)
  have J: "list_all ?J fs"
    using assms(2) foldr_max_le [of "map (\<lambda>(k, v). value_levels v) fs" ?l] by (auto simp: list_all_iff)
  have item: "lexable (print_entry x @ u) \<and> without TOK_RBRACE (print_entry x @ u) \<and> print_entry x \<noteq> [] \<and>
      solid (hd (print_entry x))" if "?J x" for x u
    using that by (intro entry_item) auto
  have lex: "lexable (concat (map print_entry fs) @ CHR ''}'' # t)"
    by (rule lexable_items [where J = ?J and k = TOK_RBRACE]) (use item J in blast, simp, fact)
  obtain r where r: "gql_expect ?q TOK_LBRACE (Some ''Expected name'') = Inr r"
      "reads (concat (map print_entry fs) @ CHR ''}'' # t) r" "like ?q r"
    using expect_step [OF reads_depth [OF q'] punct_kinds(3) lex] by blast
  let ?body = "\<lambda>h p. bnd (gql_parse_name p ''Expected name'') (\<lambda>(name, p).
            bnd (gql_expect p TOK_COLON None) (\<lambda>p.
            bnd (gql_parse_value m c (note_duplicate h (SvPV name) (provided_twice ''Input field'' (SvPV name)) True p))
              (\<lambda>(v, p). Inr (gql_store_sv h (SvPV name) v, p))))"
  have step: "fresh_entries ((\<lambda>h (k, v). gql_store_sv h k (value_node ?u v)) h x) xs \<and>
      parses (?body h p) p ((\<lambda>h (k, v). gql_store_sv h k (value_node ?u v)) h x) u"
    if "fresh_entries h (x # xs)" "?J x" "reads (print_entry x @ u) p" "like r p" "lexable u" for h x xs u p
    using that n(2) d r(3) entry_step [of h "fst x" "snd x" xs c u p m ?u "''Input field''"]
    by (auto simp: like_def split: prod.splits)
  obtain s where s: "bnd (parse_until TOK_RBRACE ?body [] r)
      (\<lambda>(h, p). bnd (gql_expect p TOK_RBRACE None) (\<lambda>p. Inr (HV h, p\<lparr>depth := depth p - 1\<rparr>))) =
      Inr (HV (map (entry_node ?u) fs), s\<lparr>depth := depth s - 1\<rparr>)" "reads t s" "like r s"
    using until_closed [where L = lexable and J = ?J and I = fresh_entries and pr = print_entry and a = "[]" and xs = fs and t = t and p = r and m = None
      and c = "CHR ''}''" and add = "\<lambda>h (k, v). gql_store_sv h k (value_node ?u v)" and g = "\<lambda>h p. Inr (HV h, p\<lparr>depth := depth p - 1\<rparr>)",
      OF item step punct_kinds(4) lexable_punct [OF punct_kinds(4)] J _ r(2) t(2)] assms(1)
    by (auto simp: foldl_entries fresh_entries_def)
  have "like q (s\<lparr>depth := depth s - 1\<rparr>)" using r(3) s(3) by (auto simp: like_def)
  with reads_punct [OF q' punct_kinds(3)] r s reads_depth [OF s(2)] d
  show "parses (gql_parse_value n c q) q (value_node ?u (VObj fs)) t"
    by (auto simp: n value_cases gql_parse_object_value.simps(2) parses_def entry_node_def)
qed

lemma value_wf_reads: "value_wf c v \<Longrightarrow> value_reads c v"
proof (induction v)
  case (VList vs)
  then show ?case by (intro list_reads) (simp add: list_all_iff)
next
  case (VObj fs)
  then show ?case by (intro object_reads) (auto simp: list_all_iff entry_wf_def)
qed (auto intro: scalar_reads)

end
