(* ===== verification/Roundtrip_Queries.thy ===== *)
theory Roundtrip_Queries
  imports Roundtrip_Values Parser_Definitions_Lemmas
begin

text \<open>
  Reading back printed executable documents: arguments, directives, selections, operations and
  fragments. The printed text puts a space behind everything a later part could run into, so
  that every token is followed by a space or a punctuator. Locations are not asked for.
\<close>

section \<open>Arguments and directives\<close>

definition print_args :: "(string \<times> gvalue) list \<Rightarrow> string" where
  "print_args as = (if as = [] then [] else CHR ''('' # concat (map print_entry as) @ '')'')"

definition args_wf :: "bool \<Rightarrow> (string \<times> gvalue) list \<Rightarrow> bool" where
  "args_wf c as \<longleftrightarrow> distinct (map fst as) \<and> list_all (entry_wf c) as"

definition args_levels :: "(string \<times> gvalue) list \<Rightarrow> nat" where
  "args_levels as = foldr max (map (\<lambda>(k, v). value_levels v) as) 0"

definition args_entry :: "bool \<Rightarrow> (string \<times> gvalue) list \<Rightarrow> hv" where
  "args_entry u as = (if as = [] then [] else [(''arguments'', HV (map (entry_node u) as))])"

type_synonym gdirective = "string \<times> (string \<times> gvalue) list"

definition print_directive :: "gdirective \<Rightarrow> string" where
  "print_directive = (\<lambda>(n, as). CHR ''@'' # n @ print_args as @ '' '')"

definition directive_wf :: "bool \<Rightarrow> gdirective \<Rightarrow> bool" where
  "directive_wf c = (\<lambda>(n, as). valid_name n \<and> args_wf c as)"

definition directives_levels :: "gdirective list \<Rightarrow> nat" where
  "directives_levels ds = foldr max (map (\<lambda>(n, as). args_levels as) ds) 0"

definition directive_node :: "bool \<Rightarrow> gdirective \<Rightarrow> sv" where
  "directive_node u = (\<lambda>(n, as). HV ((''name'', PV u n) # args_entry u as))"

definition directives_entry :: "bool \<Rightarrow> gdirective list \<Rightarrow> hv" where
  "directives_entry u ds = (if ds = [] then [] else [(''directives'', AV (map (directive_node u) ds))])"

text \<open>Where the parser may nest values \<open>l\<close> levels deep.\<close>

definition room :: "gql_parser \<Rightarrow> nat \<Rightarrow> bool" where
  "room q l \<longleftrightarrow> 0 \<le> depth q \<and> depth q + int l \<le> GQL_PARSER_MAX_DEPTH"

lemma room_like: "like q r \<Longrightarrow> room r l = room q l"
  by (simp add: room_def like_def)

lemma room_mono: "room q l \<Longrightarrow> k \<le> l \<Longrightarrow> room q k"
  by (simp add: room_def)

lemma room_frames: "room q l \<Longrightarrow> 2 * l < value_frames"
  by (simp add: room_def value_frames_def GQL_PARSER_MAX_DEPTH_def)

lemma value_step:
  assumes "value_wf c v" "reads (print_value v @ t) q" "calm t" "lexable t" "room q (value_levels v)" "u = is_utf8 q"
  shows "parses (gql_parse_value value_frames c q) q (value_node u v) t"
  using assms room_frames by (intro value_readsD [OF value_wf_reads]) (auto simp: room_def)

lemma args_step:
  assumes "args_wf c as" "as \<noteq> []" "reads (print_args as @ t) q" "lexable t" "room q (args_levels as)"
  shows "parses (gql_parse_arguments c q) q (map (entry_node (is_utf8 q)) as) t"
proof -
  let ?u = "is_utf8 q" and ?l = "args_levels as"
  let ?J = "\<lambda>(k, v). entry_wf c (k, v) \<and> value_levels v \<le> ?l"
  have q: "reads (CHR ''('' # concat (map print_entry as) @ CHR '')'' # t) q"
    using assms(2,3) by (simp add: print_args_def)
  have J: "list_all ?J as"
    using assms(1) foldr_max_le [of "map (\<lambda>(k, v). value_levels v) as" ?l]
    by (auto simp: list_all_iff args_wf_def args_levels_def)
  have item: "lexable (print_entry x @ u) \<and> without TOK_RPAREN (print_entry x @ u) \<and> print_entry x \<noteq> [] \<and>
      solid (hd (print_entry x))" if "?J x" for x u
    using that by (intro entry_item) auto
  have lex: "lexable (concat (map print_entry as) @ CHR '')'' # t)"
    by (rule lexable_items [where J = ?J and k = TOK_RPAREN]) (use item J in blast, simp, fact)
  obtain r where r: "gql_expect q TOK_LPAREN None = Inr r" "reads (concat (map print_entry as) @ CHR '')'' # t) r" "like q r"
    using expect_step [OF q punct_kinds(5) lex] by blast
  have "kind r \<noteq> TOK_RPAREN" using r(2) assms(2) item J by (cases as) (auto simp: without_def)
  let ?body = "\<lambda>h p. bnd (gql_parse_name p ''Expected name'') (\<lambda>(name, p).
            bnd (gql_expect p TOK_COLON None) (\<lambda>p.
            bnd (gql_parse_value value_frames c (note_duplicate h (SvPV name) (provided_twice ''Argument'' (SvPV name)) True p))
              (\<lambda>(v, p). Inr (gql_store_sv h (SvPV name) v, p))))"
  have step: "fresh_entries ((\<lambda>h (k, v). gql_store_sv h k (value_node ?u v)) h x) xs \<and>
      parses (?body h p) p ((\<lambda>h (k, v). gql_store_sv h k (value_node ?u v)) h x) w"
    if "fresh_entries h (x # xs)" "?J x" "reads (print_entry x @ w) p" "like r p" "lexable w" for h x xs w p
    using that r(3) assms(5) room_frames [OF assms(5)] value_wf_reads [of c "snd x"]
      entry_step [of h "fst x" "snd x" xs c w p value_frames ?u "''Argument''"]
    by (auto simp: like_def room_def entry_wf_def split: prod.splits)
  obtain s where "bnd (parse_until TOK_RPAREN ?body [] r)
      (\<lambda>(h, p). bnd (gql_expect p TOK_RPAREN None) (\<lambda>p. Inr (h, p))) = Inr (map (entry_node ?u) as, s)" "reads t s" "like r s"
    using until_closed [where L = lexable and J = ?J and I = fresh_entries and pr = print_entry and a = "[]" and xs = as and t = t and p = r and m = None
      and c = "CHR '')''" and add = "\<lambda>h (k, v). gql_store_sv h k (value_node ?u v)" and g = "\<lambda>h p. Inr (h, p)",
      OF item step punct_kinds(6) lexable_punct [OF punct_kinds(6)] J _ r(2) assms(4)] assms(1)
    by (auto simp: foldl_entries fresh_entries_def args_wf_def)
  with r \<open>kind r \<noteq> TOK_RPAREN\<close> show ?thesis
    by (auto simp: gql_parse_arguments_def parses_def intro: like_trans)
qed

text \<open>The optional arguments of a directive or a field.\<close>

lemma opt_args_step:
  assumes "args_wf c as" "reads (print_args as @ t) q" "lexable t" "without TOK_LPAREN t" "room q (args_levels as)"
    "''arguments'' \<notin> fst ` set h" "u = is_utf8 q"
  shows "parses (if kind q = TOK_LPAREN then
            bnd (gql_parse_arguments c q) (\<lambda>(args, p). Inr (g (gql_store_sv h ''arguments'' (HV args)), p))
          else Inr (g h, q)) q (g (h @ args_entry u as)) t"
proof (cases "as = []")
  case True
  with assms show ?thesis by (simp add: print_args_def without_def args_entry_def parses_def)
next
  case False
  then have "kind q = TOK_LPAREN"
    using assms(2) reads_punct [OF _ punct_kinds(5), of _ q] by (simp add: print_args_def)
  with args_step [OF assms(1) False assms(2,3,5)] False assms(6,7) show ?thesis
    by (auto simp: args_entry_def parses_def store_fresh)
qed

lemma print_args_start:
  "calm t \<Longrightarrow> calm (print_args as @ t)" "lexable t \<Longrightarrow> lexable (print_args as @ t)"
  "without k t \<Longrightarrow> k \<noteq> TOK_LPAREN \<Longrightarrow> without k (print_args as @ t)"
  by (auto simp: print_args_def lexable_punct without_punct)

lemma directive_step:
  assumes "directive_wf c d" "reads (print_directive d @ t) q" "lexable t" "without TOK_LPAREN t" "room q (args_levels (snd d))"
    "u = is_utf8 q"
  shows "parses (parse_directive_with c q) q (directive_node u d) t"
proof -
  obtain n as where d: "d = (n, as)" by (cases d)
  with assms have wf: "valid_name n" "args_wf c as" "room q (args_levels as)" by (auto simp: directive_wf_def)
  have q: "reads (CHR ''@'' # n @ print_args as @ CHR '' '' # t) q" using assms(2) d by (simp add: print_directive_def)
  have calm: "calm (print_args as @ CHR '' '' # t)" "lexable (print_args as @ CHR '' '' # t)"
    using print_args_start assms(3) lexable_space by simp_all
  obtain r where r: "gql_expect q TOK_AT None = Inr r" "reads (n @ print_args as @ CHR '' '' # t) r" "like q r"
    using expect_step [OF q punct_kinds(10) lexable_name [OF wf(1) calm(1)]] by blast
  obtain s where s: "gql_parse_name r ''Expected name'' = Inr (PV (is_utf8 r) n, s)"
      "reads (print_args as @ CHR '' '' # t) s" "like r s"
    by (rule name_step [OF r(2) wf(1) calm])
  have "like q s" using r(3) s(3) by (rule like_trans)
  then have "parses (if kind s = TOK_LPAREN then
            bnd (gql_parse_arguments c s) (\<lambda>(args, p). Inr (HV (gql_store_sv [(''name'', PV u n)] ''arguments'' (HV args)), p))
          else Inr (HV [(''name'', PV u n)], s)) s (HV ([(''name'', PV u n)] @ args_entry u as)) (CHR '' '' # t)"
    using assms(3,4,6) wf(3) lexable_space without_space room_like [OF \<open>like q s\<close>] \<open>like q s\<close>
    by (intro opt_args_step [where g = HV, OF wf(2) s(2)]) (auto simp: like_def)
  note body = parses_like [OF parses_space [OF this] \<open>like q s\<close>]
  have "is_utf8 r = u" using r(3) assms(6) by (simp add: like_def)
  then have "parse_directive_with c q = (if kind s = TOK_LPAREN then
            bnd (gql_parse_arguments c s) (\<lambda>(args, p). Inr (HV (gql_store_sv [(''name'', PV u n)] ''arguments'' (HV args)), p))
          else Inr (HV [(''name'', PV u n)], s))"
    by (simp add: parse_directive_with_def r(1) s(1) store_fresh)
  with body show ?thesis by (simp add: d directive_node_def)
qed

lemma print_directive_Cons: "print_directive d @ t = CHR ''@'' # tl (print_directive d) @ t"
  by (cases d) (simp add: print_directive_def)

text \<open>What may follow a list of directives.\<close>

definition stops :: "string \<Rightarrow> bool" where
  "stops t \<longleftrightarrow> lexable t \<and> without TOK_LPAREN t \<and> without TOK_AT t"

lemma print_directives_start:
  "stops t \<Longrightarrow> list_all (directive_wf c) ds \<Longrightarrow> lexable (concat (map print_directive ds) @ t)"
  "stops t \<Longrightarrow> without TOK_LPAREN (concat (map print_directive ds) @ t)"
  "without k t \<Longrightarrow> k \<noteq> TOK_AT \<Longrightarrow> without k (concat (map print_directive ds) @ t)"
  "calm t \<Longrightarrow> calm (concat (map print_directive ds) @ t)"
  by (cases ds; auto simp: stops_def print_directive_def lexable_punct without_punct split: prod.splits)+

lemma directives_loop:
  assumes "list_all (directive_wf c) ds" "reads (concat (map print_directive ds) @ t) q" "stops t" "room q (directives_levels ds)"
  shows "parses (parse_while (\<lambda>q. kind q = TOK_AT)
            (\<lambda>av p. bnd (parse_directive_with c p) (\<lambda>(d, p). Inr (av @ [d], p))) [] q) q (map (directive_node (is_utf8 q)) ds) t"
proof -
  let ?u = "is_utf8 q" and ?l = "directives_levels ds"
  let ?J = "\<lambda>d. directive_wf c d \<and> args_levels (snd d) \<le> ?l"
  have J: "list_all ?J ds"
    using assms(1) foldr_max_le [of "map (\<lambda>(n, as). args_levels as) ds" ?l]
    by (fastforce simp: list_all_iff directives_levels_def)
  have n: "length ds < Suc (left q)"
  proof (cases ds)
    case (Cons d ds')
    then obtain x where x: "concat (map print_directive ds) @ t = CHR ''@'' # x"
      using print_directive_Cons [of d "concat (map print_directive ds') @ t"] by simp
    then have "left q = length (concat (map print_directive ds) @ t)"
      using assms(2) reads_left [of "CHR ''@''" x q] by (simp add: solid_def)
    moreover have "length ds \<le> length (concat (map print_directive ds))"
      by (rule length_items) (auto simp: print_directive_def)
    ultimately show ?thesis by simp
  qed simp
  have "parses (ploop (Suc (left q)) Out_Of_Fuel (\<lambda>q. kind q = TOK_AT)
      (\<lambda>av p. bnd (parse_directive_with c p) (\<lambda>(d, p). Inr (av @ [d], p))) [] q) q
      (foldl (\<lambda>av d. av @ [directive_node ?u d]) [] ds) t"
  proof (rule loop_items [where I = "\<lambda>_ ds. list_all ?J ds" and pr = print_directive])
    fix a x xs p
    assume xs: "list_all ?J (x # xs)" "reads (concat (map print_directive (x # xs)) @ t) p" "like q p"
    let ?t = "concat (map print_directive xs) @ t"
    have p: "reads (print_directive x @ ?t) p" "directive_wf c x" "list_all (directive_wf c) xs"
      using xs(1,2) by (auto simp: list_all_iff)
    have "parses (parse_directive_with c p) p (directive_node ?u x) ?t"
      using xs(1) xs(3) assms(4) print_directives_start(1,2) [OF assms(3)] p(3)
      by (intro directive_step [OF p(2,1)]) (auto simp: like_def room_def)
    moreover have "kind p = TOK_AT"
      using p(1) reads_punct [OF _ punct_kinds(10), of _ p] by (auto simp: print_directive_def split: prod.splits)
    ultimately show "kind p = TOK_AT \<and> list_all ?J xs \<and> parses (bnd (parse_directive_with c p) (\<lambda>(d, p). Inr (a @ [d], p))) p
        (a @ [directive_node ?u x]) ?t"
      using xs(1) by (auto simp: parses_def)
  next
    show "kind p \<noteq> TOK_AT" if "reads t p" for p using that assms(3) by (auto simp: stops_def without_def)
  qed (use J n assms(2) in simp_all)
  then show ?thesis by (simp add: parse_while_def foldl_snoc)
qed

lemma directives_first:
  "reads (concat (map print_directive ds) @ t) q \<Longrightarrow> stops t \<Longrightarrow> kind q = TOK_AT \<longleftrightarrow> ds \<noteq> []"
  using reads_punct [OF _ punct_kinds(10), of _ q]
  by (cases ds) (auto simp: stops_def without_def print_directive_def split: prod.splits)

lemma opt_directives_step:
  assumes "list_all (directive_wf c) ds" "reads (concat (map print_directive ds) @ t) q" "stops t" "room q (directives_levels ds)"
    "''directives'' \<notin> fst ` set h" "u = is_utf8 q"
    and parser: "parser q = bnd (parse_while (\<lambda>q. kind q = TOK_AT)
            (\<lambda>av p. bnd (parse_directive_with c p) (\<lambda>(d, p). Inr (av @ [d], p))) [] q) (\<lambda>(av, p). Inr (AV av, p))"
  shows "parses (if kind q = TOK_AT then bnd (parser q) (\<lambda>(ds, p). Inr (gql_store_sv h ''directives'' ds, p)) else Inr (h, q))
     q (h @ directives_entry u ds) t"
proof (cases "ds = []")
  case True
  with assms directives_first [OF assms(2,3)] show ?thesis by (simp add: directives_entry_def parses_def)
next
  case False
  with directives_loop [OF assms(1-4)] directives_first [OF assms(2,3)] assms(5,6) show ?thesis
    unfolding parser by (auto simp: parses_def directives_entry_def store_fresh)
qed

section \<open>Selections\<close>

subsection \<open>The spread token\<close>

lemma advance_spread:
  assumes "here (''...'' @ t) p"
  shows "\<exists>q. gql_advance p = Inr q \<and> kind q = TOK_SPREAD \<and> here t q"
proof -
  have p: "here (CHR ''.'' # CHR ''.'' # CHR ''.'' # t) p" using assms by simp
  have dot: "solid (CHR ''.'')" "punct_kind (CHR ''.'') = None" by (simp_all add: solid_def punct_kind_def)
  have "pos p + 2 < len p" "at p (pos p + 1) = CHR ''.''" "at p (pos p + 2) = CHR ''.''"
    using here_at [OF p, of 1] here_at [OF p, of 2] by simp_all
  then have "gql_advance p = Inr (end_token (started p) TOK_SPREAD (pos p + 3))"
    using advance_by_char [OF p dot(1)] here_hd [OF p] dot(2) by (simp add: lex_by_char_def lex_spread_def)
  moreover have "here t (end_token (started p) TOK_SPREAD (pos p + 3))"
    by (rule here_end [OF assms]) (simp_all add: end_token_def)
  ultimately show ?thesis by (simp add: end_token_def)
qed

lemma reads_spread: "reads (''...'' @ t) q \<Longrightarrow> kind q = TOK_SPREAD \<and> here t q"
  by (erule reads_induct) (use advance_spread in fastforce)+

lemma lexable_spread: "lexable (''...'' @ t)"
  unfolding lexable_def using advance_spread by blast

lemma spread_step: "reads (''...'' @ t) q \<Longrightarrow> lexable t \<Longrightarrow> \<exists>r. gql_advance q = Inr r \<and> reads t r \<and> like q r"
  using reads_spread advance_after by blast

subsection \<open>Abstract selections\<close>

datatype gselection =
    GField "string option" string "(string \<times> gvalue) list" "gdirective list" "gselection list"
  | GSpread string "gdirective list"
  | GInline "string option" "gdirective list" "gselection list"

definition print_directives :: "gdirective list \<Rightarrow> string" where
  "print_directives ds = concat (map print_directive ds)"

fun print_selection :: "gselection \<Rightarrow> string" where
  "print_selection (GField a n as ds ss) =
     (case a of Some x \<Rightarrow> x @ '':'' | None \<Rightarrow> []) @ n @ print_args as @ '' '' @ print_directives ds @
     (if ss = [] then [] else CHR ''{'' # concat (map print_selection ss) @ ''} '')"
| "print_selection (GSpread n ds) = ''...'' @ n @ '' '' @ print_directives ds"
| "print_selection (GInline on ds ss) =
     ''...'' @ (case on of Some x \<Rightarrow> ''on '' @ x @ '' '' | None \<Rightarrow> []) @ print_directives ds @
     CHR ''{'' # concat (map print_selection ss) @ ''} ''"

fun selection_node :: "bool \<Rightarrow> gselection \<Rightarrow> sv" where
  "selection_node u (GField a n as ds ss) =
     HV ((case a of Some x \<Rightarrow> [(''alias'', PV u x)] | None \<Rightarrow> []) @ [(''name'', PV u n)] @ args_entry u as @
         directives_entry u ds @ (if ss = [] then [] else [(''selections'', AV (map (selection_node u) ss))]) @
         [(''kind'', PV False ''field'')])"
| "selection_node u (GSpread n ds) =
     HV ([(''name'', PV u n)] @ directives_entry u ds @ [(''kind'', PV False ''fragment_spread'')])"
| "selection_node u (GInline on ds ss) =
     HV ((case on of Some x \<Rightarrow> [(''on'', PV u x)] | None \<Rightarrow> []) @ directives_entry u ds @
         [(''selections'', AV (map (selection_node u) ss)), (''kind'', PV False ''inline_fragment'')])"

fun selection_wf :: "gselection \<Rightarrow> bool" where
  "selection_wf (GField a n as ds ss) =
     (pred_option valid_name a \<and> valid_name n \<and> args_wf False as \<and> list_all (directive_wf False) ds \<and> list_all selection_wf ss)"
| "selection_wf (GSpread n ds) = (valid_name n \<and> n \<noteq> ''on'' \<and> list_all (directive_wf False) ds)"
| "selection_wf (GInline on ds ss) =
     (pred_option valid_name on \<and> list_all (directive_wf False) ds \<and> ss \<noteq> [] \<and> list_all selection_wf ss)"

fun selection_levels :: "gselection \<Rightarrow> nat" where
  "selection_levels (GField a n as ds ss) =
     max (args_levels as) (max (directives_levels ds) (if ss = [] then 0 else Suc (foldr max (map selection_levels ss) 0)))"
| "selection_levels (GSpread n ds) = directives_levels ds"
| "selection_levels (GInline on ds ss) =
     max (directives_levels ds) (Suc (foldr max (map selection_levels ss) 0))"

text \<open>What follows a selection: another one, or the end of the set.\<close>

definition after_selection :: "string \<Rightarrow> bool" where
  "after_selection t \<longleftrightarrow> stops t \<and> without TOK_COLON t \<and> without TOK_LBRACE t"

lemma after_punct: "punct_kind c = Some k \<Longrightarrow> k \<notin> {TOK_LPAREN, TOK_AT, TOK_COLON, TOK_LBRACE} \<Longrightarrow> after_selection (c # t)"
  by (auto simp: after_selection_def stops_def lexable_punct without_punct)

lemma after_end: "after_selection []"
  by (auto simp: after_selection_def stops_def lexable_end without_end)

lemma after_name: "valid_name n \<Longrightarrow> calm t \<Longrightarrow> after_selection (n @ t)"
  by (auto simp: after_selection_def stops_def lexable_name without_name)

lemma after_space: "after_selection t \<Longrightarrow> after_selection (CHR '' '' # t)"
  by (auto simp: after_selection_def stops_def lexable_space without_space)

lemma after_spread: "after_selection (''...'' @ t)"
  using lexable_spread [of t] reads_spread [of t] by (auto simp: after_selection_def stops_def without_def)

lemma selection_first:
  assumes "selection_wf s"
  shows "after_selection (print_selection s @ t)" "without TOK_RBRACE (print_selection s @ t)"
    "print_selection s \<noteq> [] \<and> solid (hd (print_selection s))"
proof -
  have "\<exists>n w. (valid_name n \<and> calm (w @ t) \<or> n = ''...'') \<and> print_selection s = n @ w"
  proof (cases s)
    case (GField a n as ds ss)
    let ?m = "case a of Some x \<Rightarrow> x | None \<Rightarrow> n" and ?w = "drop (length (case a of Some x \<Rightarrow> x | None \<Rightarrow> n)) (print_selection s)"
    have "valid_name ?m \<and> calm (?w @ t) \<and> print_selection s = ?m @ ?w"
      using assms GField by (cases a) (auto simp: print_args_start)
    then show ?thesis by blast
  qed (rule exI [of _ "''...''"], rule exI [of _ "drop 3 (print_selection s)"], simp)+
  then obtain n w where n: "valid_name n \<and> calm (w @ t) \<or> n = ''...''" "print_selection s = n @ w" by blast
  have dot: "solid (CHR ''.'')" by (simp add: solid_def)
  show "after_selection (print_selection s @ t)" using n after_name [of n "w @ t"] after_spread [of "w @ t"] by auto
  show "without TOK_RBRACE (print_selection s @ t)"
    using n without_name [of n "w @ t"] reads_spread [of "w @ t"] by (auto simp: without_def)
  show "print_selection s \<noteq> [] \<and> solid (hd (print_selection s))" using n solid_name [of n] dot by auto
qed

subsection \<open>Reading a selection\<close>

definition selection_reads :: "gselection \<Rightarrow> bool" where
  "selection_reads s \<longleftrightarrow> (\<forall>q n t. reads (print_selection s @ t) q \<longrightarrow> after_selection t \<longrightarrow> no_location q \<longrightarrow>
     room q (selection_levels s) \<longrightarrow> 3 * selection_levels s + 3 \<le> n \<longrightarrow>
     parses (gql_parse_selection n q) q (selection_node (is_utf8 q) s) t)"

lemma selection_readsD:
  "selection_reads s \<Longrightarrow> reads (print_selection s @ t) q \<Longrightarrow> after_selection t \<Longrightarrow> no_location q \<Longrightarrow>
    room q (selection_levels s) \<Longrightarrow> 3 * selection_levels s + 3 \<le> n \<Longrightarrow> u = is_utf8 q \<Longrightarrow>
    parses (gql_parse_selection n q) q (selection_node u s) t"
  by (simp add: selection_reads_def)

lemma after_items:
  "list_all selection_wf ss \<Longrightarrow> after_selection (concat (map print_selection ss) @ CHR ''}'' # t)"
  using selection_first(1) by (cases ss) (auto simp: after_punct)

lemma set_step:
  assumes "list_all (\<lambda>s. selection_wf s \<and> selection_reads s) ss" "ss \<noteq> []" "no_location q"
    and q: "reads (CHR ''{'' # concat (map print_selection ss) @ CHR ''}'' # t) q" and t: "lexable t"
    and d: "room q (Suc (foldr max (map selection_levels ss) 0))"
    and n: "3 * Suc (foldr max (map selection_levels ss) 0) + 1 \<le> n" and u: "u = is_utf8 q"
  shows "parses (gql_parse_selection_set n q) q (HV [(''selections'', AV (map (selection_node u) ss))]) t"
proof -
  let ?l = "foldr max (map selection_levels ss) 0" and ?q = "q\<lparr>depth := depth q + 1\<rparr>"
  let ?J = "\<lambda>s. selection_wf s \<and> selection_reads s \<and> selection_levels s \<le> ?l"
  obtain m where n': "n = Suc m" "3 * ?l + 3 \<le> m" using n by (cases n) auto
  have J: "list_all ?J ss" using assms(1) foldr_max_le [of "map selection_levels ss" ?l] by (auto simp: list_all_iff)
  have after: "after_selection (concat (map print_selection xs) @ CHR ''}'' # t)" if "list_all ?J xs" for xs
    using that by (intro after_items) (auto simp: list_all_iff)
  obtain r where r: "gql_expect ?q TOK_LBRACE (Some ''Expected name'') = Inr r"
      "reads (concat (map print_selection ss) @ CHR ''}'' # t) r" "like ?q r"
    using expect_step [OF reads_depth [OF q] punct_kinds(3)] after [OF J] unfolding after_selection_def stops_def by blast
  have ne: "kind r \<noteq> TOK_RBRACE"
    using selection_first(2) r(2) J assms(2) by (cases ss) (auto simp: without_def)
  have item: "after_selection (print_selection x @ w) \<and> without TOK_RBRACE (print_selection x @ w) \<and>
      print_selection x \<noteq> [] \<and> solid (hd (print_selection x))" if "?J x" for x w
    using selection_first [of x] that by blast
  let ?body = "\<lambda>av p. bnd (gql_parse_selection m p) (\<lambda>(s, p). Inr (av @ [s], p))"
  have step: "True \<and> parses (?body a p) p (a @ [selection_node u x]) w"
    if x: "?J x" "reads (print_selection x @ w) p" "like r p" "after_selection w" for a x w p
  proof -
    have "room p ?l" "no_location p" "u = is_utf8 p" using d x(3) r(3) assms(3) u by (auto simp: room_def like_def)
    then have "parses (gql_parse_selection m p) p (selection_node u x) w"
      using x n'(2) by (intro selection_readsD) (auto intro: room_mono)
    then show ?thesis by (auto simp: parses_def)
  qed
  have last: "after_selection (CHR ''}'' # t)" by (rule after_punct [OF punct_kinds(4)]) simp
  obtain s where s: "bnd (parse_until TOK_RBRACE ?body [] r) (\<lambda>(av, p). bnd (gql_expect p TOK_RBRACE None) (\<lambda>p.
      Inr (HV (gql_store_sv [] ''selections'' (AV av)), p\<lparr>depth := depth p - 1\<rparr>))) =
      Inr (HV (gql_store_sv [] ''selections'' (AV (map (selection_node u) ss))), s\<lparr>depth := depth s - 1\<rparr>)" "reads t s" "like r s"
    using until_closed [where L = after_selection and J = ?J and I = "\<lambda>_ _. True" and pr = print_selection and a = "[]" and xs = ss
      and t = t and p = r and m = None and c = "CHR ''}''" and add = "\<lambda>av s. av @ [selection_node u s]"
      and g = "\<lambda>av p. Inr (HV (gql_store_sv [] ''selections'' (AV av)), p\<lparr>depth := depth p - 1\<rparr>)",
      OF item step punct_kinds(4) last J TrueI r(2) t]
    by (auto simp: foldl_snoc)
  have "like q (s\<lparr>depth := depth s - 1\<rparr>)" using r(3) s(3) by (auto simp: like_def)
  with r(1) ne s(1) reads_depth [OF s(2)] d show ?thesis
    by (auto simp: n'(1) gql_parse_selection_set.simps(2) parses_def store_fresh room_def)
qed

text \<open>The selections of a field or an inline fragment, with the space behind the brace.\<close>

definition print_body :: "gselection list \<Rightarrow> string" where
  "print_body ss = (if ss = [] then [] else CHR ''{'' # concat (map print_selection ss) @ ''} '')"

definition body_levels :: "gselection list \<Rightarrow> nat" where
  "body_levels ss = (if ss = [] then 0 else Suc (foldr max (map selection_levels ss) 0))"

lemma body_step:
  assumes "list_all (\<lambda>s. selection_wf s \<and> selection_reads s) ss" "ss \<noteq> []" "no_location q"
    and "reads (print_body ss @ t) q" "lexable t" "room q (body_levels ss)" "3 * body_levels ss + 1 \<le> n" "u = is_utf8 q"
  shows "parses (gql_parse_selection_set n q) q (HV [(''selections'', AV (map (selection_node u) ss))]) t"
  using assms set_step [of ss q "CHR '' '' # t" n u] parses_space lexable_space
  by (simp add: print_body_def body_levels_def)

lemma stops_body: "after_selection t \<Longrightarrow> stops (print_body ss @ t)"
  by (auto simp: print_body_def after_selection_def stops_def lexable_punct without_punct)

lemma body_first: "reads (print_body ss @ t) q \<Longrightarrow> after_selection t \<Longrightarrow> kind q = TOK_LBRACE \<longleftrightarrow> ss \<noteq> []"
  using reads_punct [OF _ punct_kinds(3), of _ q]
  by (cases "ss = []") (auto simp: print_body_def after_selection_def without_def)

lemma stops_open: "ss \<noteq> [] \<Longrightarrow> stops (print_body ss @ t)"
  by (simp add: print_body_def stops_def lexable_punct without_punct)

lemma body_open: "reads (print_body ss @ t) q \<Longrightarrow> ss \<noteq> [] \<Longrightarrow> kind q = TOK_LBRACE"
  using reads_punct [OF _ punct_kinds(3), of _ q] by (simp add: print_body_def)

lemma stops_directives: "stops t \<Longrightarrow> list_all (directive_wf c) ds \<Longrightarrow> lexable (print_directives ds @ t)"
  "stops t \<Longrightarrow> without TOK_LPAREN (print_directives ds @ t)"
  "without k t \<Longrightarrow> k \<noteq> TOK_AT \<Longrightarrow> without k (print_directives ds @ t)"
  unfolding print_directives_def by (fact print_directives_start)+

lemma opt_query_directives_step:
  assumes "list_all (directive_wf False) ds" "reads (print_directives ds @ t) q" "stops t" "room q (directives_levels ds)"
    "''directives'' \<notin> fst ` set h" "u = is_utf8 q"
  shows "parses (if kind q = TOK_AT then bnd (gql_parse_directives q) (\<lambda>(ds, p). Inr (gql_store_sv h ''directives'' ds, p))
      else Inr (h, q)) q (h @ directives_entry u ds) t"
  using assms by (intro opt_directives_step)
    (simp_all add: print_directives_def gql_parse_directives_def gql_parse_directive_def)

lemma query_directives_cases:
  assumes "list_all (directive_wf False) ds" "reads (print_directives ds @ t) q" "stops t" "room q (directives_levels ds)"
  obtains "ds = []" "kind q \<noteq> TOK_AT" "reads t q"
  | r where "ds \<noteq> []" "kind q = TOK_AT" "gql_parse_directives q = Inr (AV (map (directive_node (is_utf8 q)) ds), r)"
      "reads t r" "like q r"
proof (cases "ds = []")
  case True
  with assms directives_first [of ds t q] that(1) show ?thesis by (simp add: print_directives_def)
next
  case False
  with directives_loop [OF assms(1) _ assms(3,4)] directives_first [of ds t q] assms(2,3) that(2) show ?thesis
    by (auto simp: print_directives_def gql_parse_directives_def gql_parse_directive_def elim: parsesE)
qed

lemma spread_reads:
  assumes "selection_wf (GSpread n ds)"
  shows "selection_reads (GSpread n ds)"
  unfolding selection_reads_def
proof (intro allI impI)
  fix q :: gql_parser and k t
  let ?u = "is_utf8 q" and ?h = "[(''name'', PV (is_utf8 q) n)]"
  assume q: "reads (print_selection (GSpread n ds) @ t) q" and t: "after_selection t" and loc: "no_location q"
    and d: "room q (selection_levels (GSpread n ds))" and "3 * selection_levels (GSpread n ds) + 3 \<le> k"
  then obtain m where k: "k = Suc m" by (cases k) auto
  have wf: "valid_name n" "n \<noteq> ''on''" "list_all (directive_wf False) ds" and t': "stops t"
    using assms t by (auto simp: after_selection_def)
  let ?t = "CHR '' '' # print_directives ds @ t"
  have q': "reads (''...'' @ n @ ?t) q" using q by simp
  have lex: "lexable ?t" using stops_directives(1) [OF t' wf(3)] by (rule lexable_space)
  obtain r where r: "gql_advance q = Inr r" "reads (n @ ?t) r" "like q r"
    using spread_step [OF q' lexable_name [OF wf(1)]] by auto
  have name: "kind r = TOK_NAME" "tok_text r = n" using reads_name [OF r(2) wf(1)] by auto
  obtain s where s: "gql_parse_name r ''Expected name'' = Inr (PV (is_utf8 r) n, s)" "reads ?t s" "like r s"
    by (rule name_step [OF r(2) wf(1) _ lex]) simp
  have like: "like q s" using r(3) s(3) by (rule like_trans)
  have "room s (directives_levels ds)" "no_location s" "is_utf8 r = ?u" "is_utf8 s = ?u"
    using d loc like r(3) by (auto simp: room_def like_def)
  note after = reads_spread [OF q'] r(1) name wf(2) s(1) this
  have eq: "gql_parse_selection k q = (if kind s = TOK_AT then
       bnd (gql_parse_directives s) (\<lambda>(ds, p). Inr (HV (gql_store_current_or_endline_location p
         [(''name'', PV ?u n), (''directives'', ds), (''kind'', PV False ''fragment_spread'')]), p))
     else Inr (HV [(''name'', PV ?u n), (''kind'', PV False ''fragment_spread'')], s))"
    using after by (simp add: k gql_parse_selection.simps(2) gql_peek_name_def gql_parse_fragment_name_def store_fresh
        gql_store_current_location_def Let_def)
  from wf(3) reads_space [OF s(2)] t' \<open>room s (directives_levels ds)\<close>
  show "parses (gql_parse_selection k q) q (selection_node ?u (GSpread n ds)) t"
  proof (rule query_directives_cases)
    assume "ds = []" "kind s \<noteq> TOK_AT" "reads t s"
    with eq like show ?thesis by (simp add: parses_def directives_entry_def)
  next
    fix r' assume r': "ds \<noteq> []" "kind s = TOK_AT" "gql_parse_directives s = Inr (AV (map (directive_node (is_utf8 s)) ds), r')"
      "reads t r'" "like s r'"
    then have "no_location r'" "like q r'" using loc like by (auto simp: like_def)
    with eq r' after show ?thesis
      by (simp add: parses_def directives_entry_def gql_store_current_or_endline_location_def)
  qed
qed

text \<open>Directives and then a set: what is read when both are there.\<close>

lemma name_on: "valid_name ''on''"
  by (simp add: valid_name_def name_start_def name_char_def isALNUM_def isALPHA_def byte_of_def)

lemma directives_body:
  assumes "list_all (directive_wf False) ds" "list_all (\<lambda>s. selection_wf s \<and> selection_reads s) ss" "ss \<noteq> []" "no_location q"
    and "reads (print_directives ds @ print_body ss @ t) q" "lexable t"
    and "room q (directives_levels ds)" "room q (body_levels ss)" "3 * body_levels ss + 1 \<le> n" "u = is_utf8 q"
  obtains s where "ds = []" "kind q = TOK_LBRACE"
      "gql_parse_selection_set n q = Inr (HV [(''selections'', AV (map (selection_node u) ss))], s)"
      "reads t s" "like q s" "no_location s"
  | r s where "ds \<noteq> []" "kind q = TOK_AT" "gql_parse_directives q = Inr (AV (map (directive_node u) ds), r)"
      "kind r = TOK_LBRACE" "gql_parse_selection_set n r = Inr (HV [(''selections'', AV (map (selection_node u) ss))], s)"
      "reads t s" "like q s" "no_location s"
proof -
  have set: "\<exists>s. kind r = TOK_LBRACE \<and> gql_parse_selection_set n r = Inr (HV [(''selections'', AV (map (selection_node u) ss))], s) \<and>
      reads t s \<and> like q s \<and> no_location s" if r: "reads (print_body ss @ t) r" "like q r" for r
  proof -
    have "no_location r" "room r (body_levels ss)" "u = is_utf8 r" using r(2) assms(4,8,10) by (auto simp: like_def room_def)
    then have "parses (gql_parse_selection_set n r) r (HV [(''selections'', AV (map (selection_node u) ss))]) t"
      using assms(6,9) r(1) by (intro body_step [OF assms(2,3)]) simp_all
    then obtain s where "gql_parse_selection_set n r = Inr (HV [(''selections'', AV (map (selection_node u) ss))], s)"
        "reads t s" "like r s" by (rule parsesE)
    then show ?thesis using r body_open [OF r(1)] assms(3,4) by (auto simp: like_def)
  qed
  show thesis
    using assms(1,5) stops_open [OF assms(3), of t] assms(7)
  proof (rule query_directives_cases)
    assume "ds = []" "kind q \<noteq> TOK_AT" "reads (print_body ss @ t) q"
    with set [of q] that(1) show thesis by auto
  next
    fix r assume r: "ds \<noteq> []" "kind q = TOK_AT" "gql_parse_directives q = Inr (AV (map (directive_node (is_utf8 q)) ds), r)"
      "reads (print_body ss @ t) r" "like q r"
    with set [OF r(4,5)] assms(10) that(2) show thesis by auto
  qed
qed

lemma inline_reads:
  assumes "selection_wf (GInline on ds ss)" "list_all (\<lambda>s. selection_wf s \<and> selection_reads s) ss"
  shows "selection_reads (GInline on ds ss)"
  unfolding selection_reads_def
proof (intro allI impI)
  fix q :: gql_parser and k t
  let ?u = "is_utf8 q" and ?t = "print_directives ds @ print_body ss @ t"
  assume q: "reads (print_selection (GInline on ds ss) @ t) q" and t: "after_selection t" and loc: "no_location q"
    and d: "room q (selection_levels (GInline on ds ss))" and "3 * selection_levels (GInline on ds ss) + 3 \<le> k"
  have wf: "list_all (directive_wf False) ds" "ss \<noteq> []" using assms(1) by auto
  have l: "selection_levels (GInline on ds ss) = max (directives_levels ds) (body_levels ss)" using wf(2) by (simp add: body_levels_def)
  obtain m where k: "k = Suc m" "3 * body_levels ss + 1 \<le> m"
    using \<open>3 * selection_levels (GInline on ds ss) + 3 \<le> k\<close> unfolding l by (cases k) auto
  note stop = stops_open [OF wf(2), of t]
  have t': "lexable t" using t by (simp add: after_selection_def stops_def)
  have lex: "lexable ?t" by (rule stops_directives(1) [OF stop wf(1)])
  have rooms: "room r (directives_levels ds)" "room r (body_levels ss)" "no_location r" "?u = is_utf8 r" if "like q r" for r
    using d that loc unfolding l by (auto simp: room_def like_def)
  have finish: "HV (gql_store_current_location p h) = HV h" if "no_location p" for p h
    using that by (simp add: gql_store_current_location_def)
  show "parses (gql_parse_selection k q) q (selection_node ?u (GInline on ds ss)) t"
  proof (cases on)
    case None
    have q': "reads (''...'' @ ?t) q" using q None wf(2) by (simp add: print_body_def)
    obtain r where r: "gql_advance q = Inr r" "reads ?t r" "like q r" using spread_step [OF q' lex] by auto
    note simps = k(1) gql_parse_selection.simps(2) parses_def gql_peek_name_def finish store_fresh
      directives_entry_def member_of_def hv_fetch_Cons reads_spread [OF q'] r(1) None
    from wf(1) assms(2) wf(2) rooms(3) [OF r(3)] r(2) t' rooms(1,2) [OF r(3)] k(2) rooms(4) [OF r(3)]
    show ?thesis
    proof (rule directives_body)
      fix s assume "ds = []" "kind r = TOK_LBRACE"
        "gql_parse_selection_set m r = Inr (HV [(''selections'', AV (map (selection_node ?u) ss))], s)"
        "reads t s" "like r s" "no_location s"
      then show ?thesis using like_trans [OF r(3), of s] by (simp add: simps)
    next
      fix r' s assume "ds \<noteq> []" "kind r = TOK_AT" "gql_parse_directives r = Inr (AV (map (directive_node ?u) ds), r')"
        "gql_parse_selection_set m r' = Inr (HV [(''selections'', AV (map (selection_node ?u) ss))], s)"
        "reads t s" "like r s" "no_location s"
      then show ?thesis using like_trans [OF r(3), of s] by (simp add: simps)
    qed
  next
    case (Some x)
    then have x: "valid_name x" using assms(1) by simp
    let ?t2 = "CHR '' '' # ?t"
    have q': "reads (''...'' @ ''on'' @ CHR '' '' # x @ ?t2) q" using q Some wf(2) by (simp add: print_body_def)
    obtain r where r: "gql_advance q = Inr r" "reads (''on'' @ CHR '' '' # x @ ?t2) r" "like q r"
      using spread_step [OF q' lexable_name [OF name_on]] by auto
    have on: "kind r = TOK_NAME" "tok_text r = ''on''" "here (CHR '' '' # x @ ?t2) r"
      using reads_name [OF r(2) name_on] by auto
    obtain r2 where r2: "gql_advance r = Inr r2" "reads (x @ ?t2) r2" "like r r2"
      using advance_after [OF on(3)] lexable_space [OF lexable_name [OF x]] reads_space by auto
    obtain r3 where r3: "gql_parse_name r2 ''Expected name'' = Inr (PV (is_utf8 r2) x, r3)" "reads ?t2 r3" "like r2 r3"
      by (rule name_step [OF r2(2) x _ lexable_space [OF lex]]) simp
    have n2: "kind r2 = TOK_NAME" using reads_name [OF r2(2) x] by simp
    have like: "like q r3" "is_utf8 r2 = ?u" using r(3) r2(3) r3(3) by (auto simp: like_def)
    note simps = k(1) gql_parse_selection.simps(2) parses_def gql_peek_name_def finish store_fresh Let_def
      directives_entry_def member_of_def hv_fetch_Cons reads_spread [OF q'] r(1) r2(1) r3(1) on n2 like(2) Some
    from wf(1) assms(2) wf(2) rooms(3) [OF like(1)] reads_space [OF r3(2)] t' rooms(1,2) [OF like(1)] k(2) rooms(4) [OF like(1)]
    show ?thesis
    proof (rule directives_body)
      fix s assume "ds = []" "kind r3 = TOK_LBRACE"
        "gql_parse_selection_set m r3 = Inr (HV [(''selections'', AV (map (selection_node ?u) ss))], s)"
        "reads t s" "like r3 s" "no_location s"
      then show ?thesis using like_trans [OF like(1), of s] by (simp add: simps)
    next
      fix r' s assume "ds \<noteq> []" "kind r3 = TOK_AT" "gql_parse_directives r3 = Inr (AV (map (directive_node ?u) ds), r')"
        "gql_parse_selection_set m r' = Inr (HV [(''selections'', AV (map (selection_node ?u) ss))], s)"
        "reads t s" "like r3 s" "no_location s"
      then show ?thesis using like_trans [OF like(1), of s] by (simp add: simps)
    qed
  qed
qed

definition body_entry :: "bool \<Rightarrow> gselection list \<Rightarrow> hv" where
  "body_entry u ss = (if ss = [] then [] else [(''selections'', AV (map (selection_node u) ss))])"

lemma opt_args_cases:
  assumes "args_wf c as" "reads (print_args as @ t) q" "lexable t" "without TOK_LPAREN t" "room q (args_levels as)"
  obtains "as = []" "kind q \<noteq> TOK_LPAREN" "reads t q"
  | r where "as \<noteq> []" "kind q = TOK_LPAREN" "gql_parse_arguments c q = Inr (map (entry_node (is_utf8 q)) as, r)" "reads t r" "like q r"
proof (cases "as = []")
  case True
  with assms that(1) show ?thesis by (simp add: print_args_def without_def)
next
  case False
  then have "kind q = TOK_LPAREN"
    using assms(2) reads_punct [OF _ punct_kinds(5), of _ q] by (simp add: print_args_def)
  with args_step [OF assms(1) False assms(2,3,5)] False that(2) show ?thesis by (auto elim: parsesE)
qed

lemma opt_body_cases:
  assumes "list_all (\<lambda>s. selection_wf s \<and> selection_reads s) ss" "no_location q"
    and "reads (print_body ss @ t) q" "after_selection t" "room q (body_levels ss)" "3 * body_levels ss + 1 \<le> n" "u = is_utf8 q"
  obtains "ss = []" "kind q \<noteq> TOK_LBRACE" "reads t q"
  | r where "ss \<noteq> []" "kind q = TOK_LBRACE" "gql_parse_selection_set n q = Inr (HV [(''selections'', AV (map (selection_node u) ss))], r)"
      "reads t r" "like q r"
proof (cases "ss = []")
  case True
  with assms body_first [OF assms(3,4)] that(1) show ?thesis by (simp add: print_body_def)
next
  case False
  moreover have "lexable t" using assms(4) by (simp add: after_selection_def stops_def)
  ultimately have "parses (gql_parse_selection_set n q) q (HV [(''selections'', AV (map (selection_node u) ss))]) t"
    using assms by (intro body_step) simp_all
  with body_first [OF assms(3,4)] False that(2) show ?thesis by (auto elim: parsesE)
qed

lemma field_reads:
  assumes "selection_wf (GField a n as ds ss)" "list_all (\<lambda>s. selection_wf s \<and> selection_reads s) ss"
  shows "selection_reads (GField a n as ds ss)"
  unfolding selection_reads_def
proof (intro allI impI)
  fix q :: gql_parser and k t
  let ?u = "is_utf8 q" and ?l = "selection_levels (GField a n as ds ss)"
  assume q: "reads (print_selection (GField a n as ds ss) @ t) q" and t: "after_selection t" and loc: "no_location q"
    and d: "room q ?l" and k: "3 * ?l + 3 \<le> k"
  have wf: "pred_option valid_name a" "valid_name n" "args_wf False as" "list_all (directive_wf False) ds" using assms(1) by auto
  have l: "?l = max (args_levels as) (max (directives_levels ds) (body_levels ss))" by (simp add: body_levels_def)
  obtain m where m: "k = Suc (Suc m)" "3 * body_levels ss + 1 \<le> m" using k unfolding l by (cases k; cases "k - 1") auto
  have env: "room r (directives_levels ds) \<and> room r (body_levels ss) \<and> room r (args_levels as) \<and> no_location r \<and> is_utf8 r = ?u"
    if "like q r" for r
    using d that loc unfolding l by (auto simp: room_def like_def)
  let ?C3 = "\<lambda>had_directives hv p. let had_selection_set = (kind p = TOK_LBRACE)
     in bnd (if had_selection_set then
               bnd (gql_parse_selection_set m p) (\<lambda>(sel, p).
               Inr (gql_store_sv hv ''selections'' (member_of sel ''selections''), p))
             else Inr (hv, p)) (\<lambda>(hv, p).
     let hv = gql_store_sv hv ''kind'' (PV False ''field'')
     in Inr (HV (if had_selection_set then gql_store_current_location p hv
                 else if had_directives then gql_store_current_or_endline_location p hv
                 else gql_store_current_location p hv), p))"
  let ?C2 = "\<lambda>hv p. let had_directives = (kind p = TOK_AT)
     in bnd (if had_directives then
               bnd (gql_parse_directives p) (\<lambda>(ds, p). Inr (gql_store_sv hv ''directives'' ds, p))
             else Inr (hv, p)) (\<lambda>(hv, p). ?C3 had_directives hv p)"
  let ?C1 = "\<lambda>hv p. bnd (if kind p = TOK_LPAREN then
            bnd (gql_parse_arguments False p) (\<lambda>(args, p). Inr (gql_store_sv hv ''arguments'' (HV args), p))
          else Inr (hv, p)) (\<lambda>(hv, p). ?C2 hv p)"
  let ?t3 = "print_body ss @ t" and ?e3 = "body_entry ?u ss @ [(''kind'', PV False ''field'')]"
  let ?t2 = "print_directives ds @ ?t3"
  have stop: "stops ?t3" by (rule stops_body [OF t])
  have C3: "parses (?C3 b h r) q (HV (h @ ?e3)) t"
    if r: "reads ?t3 r" "like q r" and h: "fst ` set h \<inter> {''selections'', ''kind''} = {}" for b h r
    using assms(2) _ r(1) t
  proof (rule opt_body_cases)
    show "no_location r" "room r (body_levels ss)" "3 * body_levels ss + 1 \<le> m" "?u = is_utf8 r" using env [OF r(2)] m by auto
  next
    assume "ss = []" "kind r \<noteq> TOK_LBRACE" "reads t r"
    then show ?thesis
      using env [OF r(2)] r(2) h by (simp add: parses_def body_entry_def store_fresh gql_store_current_location_def
          gql_store_current_or_endline_location_def Let_def)
  next
    fix s assume "ss \<noteq> []" "kind r = TOK_LBRACE" "reads t s" "like r s"
      "gql_parse_selection_set m r = Inr (HV [(''selections'', AV (map (selection_node ?u) ss))], s)"
    then show ?thesis
      using env [OF like_trans [OF r(2)], of s] like_trans [OF r(2), of s] h
      by (simp add: parses_def body_entry_def store_fresh gql_store_current_location_def member_of_def hv_fetch_Cons)
  qed
  have C2: "parses (?C2 h r) q (HV (h @ directives_entry ?u ds @ ?e3)) t"
    if r: "reads ?t2 r" "like q r" and h: "fst ` set h \<inter> {''directives'', ''selections'', ''kind''} = {}" for h r
    using wf(4) r(1) stop
  proof (rule query_directives_cases)
    show "room r (directives_levels ds)" using env [OF r(2)] by simp
  next
    assume "ds = []" "kind r \<noteq> TOK_AT" "reads ?t3 r"
    then show ?thesis using C3 [of r h False] r(2) h by (simp add: directives_entry_def)
  next
    fix s assume "ds \<noteq> []" "kind r = TOK_AT" "gql_parse_directives r = Inr (AV (map (directive_node (is_utf8 r)) ds), s)"
      "reads ?t3 s" "like r s"
    then show ?thesis
      using C3 [of s "h @ [(''directives'', AV (map (directive_node ?u) ds))]" True] like_trans [OF r(2), of s] h env [OF r(2)]
      by (simp add: directives_entry_def store_fresh)
  qed
  have C1: "parses (?C1 h r) q (HV (h @ args_entry ?u as @ directives_entry ?u ds @ ?e3)) t"
    if r: "reads (print_args as @ CHR '' '' # ?t2) r" "like q r"
      and h: "fst ` set h \<inter> {''arguments'', ''directives'', ''selections'', ''kind''} = {}" for h r
    using wf(3) r(1)
  proof (rule opt_args_cases)
    show "lexable (CHR '' '' # ?t2)" "without TOK_LPAREN (CHR '' '' # ?t2)"
      using stops_directives(1,2) [OF stop] wf(4) by (auto intro: lexable_space without_space)
    show "room r (args_levels as)" using env [OF r(2)] by simp
  next
    assume "as = []" "kind r \<noteq> TOK_LPAREN" "reads (CHR '' '' # ?t2) r"
    then show ?thesis using C2 [OF reads_space r(2), of h] h by (simp add: args_entry_def)
  next
    fix s assume "as \<noteq> []" "kind r = TOK_LPAREN" "gql_parse_arguments False r = Inr (map (entry_node (is_utf8 r)) as, s)"
      "reads (CHR '' '' # ?t2) s" "like r s"
    then show ?thesis
      using C2 [OF reads_space like_trans [OF r(2)], of s "h @ [(''arguments'', HV (map (entry_node ?u) as))]"] h env [OF r(2)]
      by (simp add: args_entry_def store_fresh)
  qed
  let ?t1 = "print_args as @ CHR '' '' # ?t2"
  have t1: "calm ?t1" "lexable ?t1" "without TOK_COLON ?t1"
    using stops_directives(1,2) [OF stop] wf(4) t
    by (auto simp: print_args_start lexable_space print_body_def after_selection_def without_punct
        intro!: print_args_start without_space stops_directives(3))
  have field: "gql_parse_selection k q = gql_parse_field (Suc m) q" if "kind q = TOK_NAME"
    using that by (simp add: m(1) gql_parse_selection.simps(2))
  show "parses (gql_parse_selection k q) q (selection_node ?u (GField a n as ds ss)) t"
  proof (cases a)
    case None
    then have q': "reads (n @ ?t1) q" using q by (simp add: print_body_def)
    obtain r where r: "gql_parse_name q ''Expected name'' = Inr (PV ?u n, r)" "reads ?t1 r" "like q r"
      by (rule name_step [OF q' wf(2) t1(1,2)])
    have "kind r \<noteq> TOK_COLON" using t1(3) r(2) by (simp add: without_def)
    then have "gql_parse_selection k q = ?C1 [(''name'', PV ?u n)] r"
      using field reads_name [OF q' wf(2) t1(1)] r(1) by (simp add: gql_parse_field.simps(2) store_fresh)
    with C1 [OF r(2,3), of "[(''name'', PV ?u n)]"] None show ?thesis by (simp add: body_entry_def)
  next
    case (Some x)
    then have x: "valid_name x" and q': "reads (x @ CHR '':'' # n @ ?t1) q" using q wf(1) by (simp_all add: print_body_def)
    have lex: "lexable (n @ ?t1)" using lexable_name [OF wf(2) t1(1)] .
    obtain r where r: "gql_parse_name q ''Expected name'' = Inr (PV ?u x, r)" "reads (CHR '':'' # n @ ?t1) r" "like q r"
      by (rule name_step [OF q' x]) (simp_all add: lexable_punct)
    obtain r' where r': "gql_advance r = Inr r'" "reads (n @ ?t1) r'" "like r r'"
      using advance_step [OF r(2) punct_kinds(7) lex] by blast
    obtain s where s: "gql_parse_name r' ''Expected name'' = Inr (PV (is_utf8 r') n, s)" "reads ?t1 s" "like r' s"
      by (rule name_step [OF r'(2) wf(2) t1(1,2)])
    have qs: "like q s" "is_utf8 r' = ?u" using r(3) r'(3) s(3) by (auto simp: like_def)
    have "gql_parse_selection k q = ?C1 [(''alias'', PV ?u x), (''name'', PV ?u n)] s"
      using field reads_name [OF q' x] reads_punct [OF r(2) punct_kinds(7)] r(1) r'(1) s(1) qs(2)
      by (simp add: gql_parse_field.simps(2) store_fresh)
    with C1 [OF s(2) qs(1), of "[(''alias'', PV ?u x), (''name'', PV ?u n)]"] Some show ?thesis by (simp add: body_entry_def)
  qed
qed

lemma selection_wf_reads: "selection_wf s \<Longrightarrow> selection_reads s"
proof (induction s)
  case (GField a n as ds ss)
  then show ?case by (intro field_reads) (auto simp: list_all_iff)
next
  case (GSpread n ds)
  then show ?case by (rule spread_reads)
next
  case (GInline on ds ss)
  then show ?case by (intro inline_reads) (auto simp: list_all_iff)
qed

end
