(* ===== verification/Roundtrip_Documents.thy ===== *)
theory Roundtrip_Documents
  imports Roundtrip_Queries
begin

text \<open>
  Printed documents of operations and fragments are read back: \<open>gql_parse_document\<close> on
  \<open>print_document ds\<close> returns the nodes of \<open>ds\<close>.
\<close>

section \<open>Abstract documents\<close>

text \<open>A variable: name, type, default value, directives.\<close>

datatype gvariable = GVariable string gtype "gvalue option" "gdirective list"

datatype gdefinition =
    GAnonymous "gselection list"
  | GOperation string "string option" "gvariable list" "gdirective list" "gselection list"
  | GFragment string string "gdirective list" "gselection list"

definition print_default :: "gvalue option \<Rightarrow> string" where
  "print_default def = (case def of Some v \<Rightarrow> CHR ''='' # print_value v | None \<Rightarrow> [])"

fun print_variable :: "gvariable \<Rightarrow> string" where
  "print_variable (GVariable n t def ds) =
     CHR ''$'' # n @ CHR '':'' # print_type t @ print_default def @ '' '' @ print_directives ds"

definition print_variables :: "gvariable list \<Rightarrow> string" where
  "print_variables vs = (if vs = [] then [] else CHR ''('' # concat (map print_variable vs) @ '')'')"

fun print_definition :: "gdefinition \<Rightarrow> string" where
  "print_definition (GAnonymous ss) = print_body ss"
| "print_definition (GOperation k n vs ds ss) =
     k @ '' '' @ (case n of Some x \<Rightarrow> x | None \<Rightarrow> []) @ print_variables vs @ '' '' @ print_directives ds @ print_body ss"
| "print_definition (GFragment n on ds ss) =
     ''fragment'' @ '' '' @ n @ '' '' @ ''on'' @ '' '' @ on @ '' '' @ print_directives ds @ print_body ss"

definition print_document :: "gdefinition list \<Rightarrow> string" where
  "print_document ds = concat (map print_definition ds)"

text \<open>The nodes of the parser.\<close>

definition variable_name :: "gvariable \<Rightarrow> string" where
  "variable_name v = (case v of GVariable n _ _ _ \<Rightarrow> n)"

fun variable_node :: "bool \<Rightarrow> gvariable \<Rightarrow> sv" where
  "variable_node u (GVariable n t def ds) =
     HV ((''type'', type_node u t) #
       (case def of Some v \<Rightarrow> [(''default_value'', value_node u v)] | None \<Rightarrow> []) @ directives_entry u ds)"

definition variables_entry :: "bool \<Rightarrow> gvariable list \<Rightarrow> hv" where
  "variables_entry u vs =
     (if vs = [] then [] else [(''variables'', HV (map (\<lambda>v. (variable_name v, variable_node u v)) vs))])"

fun definition_node :: "bool \<Rightarrow> gdefinition \<Rightarrow> sv" where
  "definition_node u (GAnonymous ss) = HV (body_entry u ss @ [(''kind'', PV False ''operation'')])"
| "definition_node u (GOperation k n vs ds ss) =
     HV ([(''operationType'', PV u k)] @ (case n of Some x \<Rightarrow> [(''name'', PV u x)] | None \<Rightarrow> []) @
       variables_entry u vs @ directives_entry u ds @ body_entry u ss @ [(''kind'', PV False ''operation'')])"
| "definition_node u (GFragment n on ds ss) =
     HV ([(''name'', PV u n), (''on'', PV u on)] @ directives_entry u ds @ body_entry u ss @
       [(''kind'', PV False ''fragment'')])"

text \<open>
  What the grammar and the limits of the parser admit: a definition nests at most 512 levels,
  and the variables of an operation are distinct. Default values and the directives of a
  variable are constant.
\<close>

definition MAX_LEVELS :: nat where
  "MAX_LEVELS = nat GQL_PARSER_MAX_DEPTH"

fun variable_wf :: "gvariable \<Rightarrow> bool" where
  "variable_wf (GVariable n t def ds) =
     (valid_name n \<and> type_wf t \<and> pred_option (value_wf True) def \<and> list_all (directive_wf True) ds \<and>
      pred_option (\<lambda>v. value_levels v \<le> MAX_LEVELS) def \<and> directives_levels ds \<le> MAX_LEVELS)"

definition selections_wf :: "gdirective list \<Rightarrow> gselection list \<Rightarrow> bool" where
  "selections_wf ds ss \<longleftrightarrow> list_all (directive_wf False) ds \<and> directives_levels ds \<le> MAX_LEVELS \<and>
     ss \<noteq> [] \<and> list_all selection_wf ss \<and> body_levels ss \<le> MAX_LEVELS"

fun definition_wf :: "gdefinition \<Rightarrow> bool" where
  "definition_wf (GAnonymous ss) = selections_wf [] ss"
| "definition_wf (GOperation k n vs ds ss) =
     (k \<in> {''query'', ''mutation'', ''subscription''} \<and> pred_option valid_name n \<and>
      distinct (map variable_name vs) \<and> list_all variable_wf vs \<and> selections_wf ds ss)"
| "definition_wf (GFragment n on ds ss) =
     (valid_name n \<and> n \<noteq> ''on'' \<and> valid_name on \<and> selections_wf ds ss)"

section \<open>Variables\<close>

lemma opt_const_directives_step:
  assumes "list_all (directive_wf True) ds" "reads (print_directives ds @ t) q" "stops t" "room q (directives_levels ds)"
    "''directives'' \<notin> fst ` set h" "u = is_utf8 q"
  shows "parses (parse_opt_const_directives h q) q (h @ directives_entry u ds) t"
  unfolding parse_opt_const_directives_def
  using assms by (intro opt_directives_step [where c = True])
    (simp_all add: print_directives_def gql_parse_const_directives_def)

text \<open>What follows a variable: another one or the closing parenthesis.\<close>

definition after_variable :: "string \<Rightarrow> bool" where
  "after_variable t \<longleftrightarrow> stops t \<and> without TOK_EQUALS t \<and> without TOK_BANG t"

lemma after_variable_punct:
  "punct_kind c = Some k \<Longrightarrow> k \<notin> {TOK_LPAREN, TOK_AT, TOK_EQUALS, TOK_BANG} \<Longrightarrow> after_variable (c # t)"
  by (auto simp: after_variable_def stops_def lexable_punct without_punct)

lemma default_step:
  assumes "pred_option (value_wf True) def" "reads (print_default def @ CHR '' '' # t) q" "lexable t" "without TOK_EQUALS t"
    and "pred_option (\<lambda>v. room q (value_levels v)) def" "''default_value'' \<notin> fst ` set h" "u = is_utf8 q"
  shows "parses (parse_default_value h q) q
      (h @ (case def of Some v \<Rightarrow> [(''default_value'', value_node u v)] | None \<Rightarrow> [])) t"
proof (cases def)
  case None
  with assms show ?thesis
    using reads_space [of t q] by (simp add: print_default_def parse_default_value_def parses_def without_def)
next
  case (Some v)
  then have v: "value_wf True v" "room q (value_levels v)" and q: "reads (CHR ''='' # print_value v @ CHR '' '' # t) q"
    using assms by (simp_all add: print_default_def)
  obtain r where r: "gql_advance q = Inr r" "reads (print_value v @ CHR '' '' # t) r" "like q r"
    using advance_step [OF q punct_kinds(11) lexable_item [OF v(1)]] by blast
  have "parses (gql_parse_value value_frames True r) r (value_node u v) (CHR '' '' # t)"
    using v r assms(3,7) by (intro value_step) (auto simp: lexable_space like_def room_def)
  from parses_space [OF this] r reads_punct [OF q punct_kinds(11)] Some assms(6) show ?thesis
    by (auto simp: parse_default_value_def parses_def store_fresh intro: like_trans)
qed

lemma parses_from: "parses m p v t \<Longrightarrow> like q p \<Longrightarrow> \<exists>r. m = Inr (v, r) \<and> reads t r \<and> like q r"
  unfolding parses_def using like_trans by blast

lemma type_first: "type_wf t \<Longrightarrow> print_type t \<noteq> [] \<and> solid (hd (print_type t)) \<and> size t \<le> length (print_type t)"
proof (induction t)
  case (Named n)
  then show ?case using solid_name [of n] by simp
qed (auto simp: solid_def)

lemma type_step:
  assumes "type_wf t" "reads (print_type t @ w) q" "calm w" "lexable w" "without TOK_BANG w" "u = is_utf8 q"
  shows "parses (gql_parse_type_reference (type_frames q) q) q (type_node u t) w"
proof -
  obtain c cs where "print_type t = c # cs" "solid c" using type_first [OF assms(1)] by (cases "print_type t") auto
  then have "left q = length (print_type t @ w)" using reads_left [of c "cs @ w" q] assms(2) by simp
  then have "size t < type_frames q" using type_first [OF assms(1)] by (simp add: type_frames_def)
  with reads_type [OF assms(2,1,3-5)] assms(6) show ?thesis by simp
qed

definition fresh_variables :: "hv \<Rightarrow> gvariable list \<Rightarrow> bool" where
  "fresh_variables h vs \<longleftrightarrow> distinct (map variable_name vs) \<and> fst ` set h \<inter> variable_name ` set vs = {}"

lemma foldl_variables: "fresh_variables h vs \<Longrightarrow>
    foldl (\<lambda>h v. gql_store_sv h (variable_name v) (variable_node u v)) h vs = h @ map (\<lambda>v. (variable_name v, variable_node u v)) vs"
  by (induction vs arbitrary: h) (auto simp: fresh_variables_def store_fresh)

lemma variable_step:
  assumes "fresh_variables h (v # vs)" "variable_wf v" "reads (print_variable v @ w) q" "after_variable w" "depth q = 0" "u = is_utf8 q"
  shows "fresh_variables (gql_store_sv h (variable_name v) (variable_node u v)) vs \<and>
    parses (parse_variable_definition h q) q (gql_store_sv h (variable_name v) (variable_node u v)) w"
proof -
  obtain n t def ds where v: "v = GVariable n t def ds" by (cases v)
  have wf: "valid_name n" "type_wf t" "pred_option (value_wf True) def" "list_all (directive_wf True) ds" using assms(2) v by auto
  have fresh: "n \<notin> fst ` set h" using assms(1) v by (auto simp: fresh_variables_def variable_name_def)
  let ?t3 = "print_directives ds @ w"
  let ?t2 = "print_default def @ CHR '' '' # ?t3" and ?d = "case def of Some v \<Rightarrow> [(''default_value'', value_node u v)] | None \<Rightarrow> []"
  have w: "stops w" "without TOK_EQUALS w" "without TOK_BANG w" using assms(4) by (auto simp: after_variable_def)
  have t3: "lexable ?t3" "without TOK_EQUALS ?t3" "without TOK_BANG ?t3"
    using stops_directives(1) [OF w(1) wf(4)] stops_directives(3) w(2,3) by auto
  have t2: "calm ?t2" "lexable ?t2" "without TOK_BANG ?t2"
    using t3 by (auto simp: print_default_def lexable_space without_space lexable_punct without_punct split: option.splits)
  have q: "reads (CHR ''$'' # n @ CHR '':'' # print_type t @ ?t2) q" using assms(3) v by simp
  have env: "room r (directives_levels ds) \<and> pred_option (\<lambda>v. room r (value_levels v)) def \<and> is_utf8 r = u" if "like q r" for r
    using that assms(2,5,6) v
    by (cases def) (auto simp: room_def like_def MAX_LEVELS_def GQL_PARSER_MAX_DEPTH_def)
  obtain q1 where q1: "gql_expect q TOK_DOLLAR None = Inr q1" "reads (n @ CHR '':'' # print_type t @ ?t2) q1" "like q q1"
    using expect_step [OF q punct_kinds(9), of None] lexable_name [OF wf(1)] by auto
  obtain q2 where q2: "gql_parse_name q1 ''Expected name'' = Inr (PV u n, q2)" "reads (CHR '':'' # print_type t @ ?t2) q2" "like q q2"
    using name_step [OF q1(2) wf(1), of "''Expected name''"] env [OF q1(3)] like_trans [OF q1(3)] by (auto simp: lexable_punct)
  obtain q3 where q3: "gql_expect q2 TOK_COLON None = Inr q3" "reads (print_type t @ ?t2) q3" "like q q3"
    using expect_step [OF q2(2) punct_kinds(7) lexable_type [OF wf(2) t2(1)], of None] like_trans [OF q2(3)] by auto
  obtain q4 where q4: "gql_parse_type_reference (type_frames q3) q3 = Inr (type_node u t, q4)" "reads ?t2 q4" "like q q4"
    using parses_from [OF type_step [OF wf(2) q3(2) t2] q3(3)] env [OF q3(3)] by blast
  obtain q5 where q5: "parse_default_value [(''type'', type_node u t)] q4 = Inr ([(''type'', type_node u t)] @ ?d, q5)"
      "reads ?t3 q5" "like q q5"
  proof -
    have "pred_option (\<lambda>v. room q4 (value_levels v)) def" "u = is_utf8 q4" using env [OF q4(3)] by simp_all
    from parses_from [OF default_step [OF wf(3) q4(2) t3(1,2) this(1) _ this(2), of "[(''type'', type_node u t)]"] q4(3)] that
    show thesis by auto
  qed
  have "''directives'' \<notin> fst ` set ([(''type'', type_node u t)] @ ?d)" by (cases def) simp_all
  then obtain q6 where q6: "parse_opt_const_directives ([(''type'', type_node u t)] @ ?d) q5 =
      Inr (([(''type'', type_node u t)] @ ?d) @ directives_entry u ds, q6)" "reads w q6" "like q q6"
    using parses_from [OF opt_const_directives_step [OF wf(4) q5(2) w(1)] q5(3)] env [OF q5(3)] by blast
  have "parse_variable_definition h q = Inr (gql_store_sv h n (variable_node u v), q6)"
    using reads_punct [OF q punct_kinds(9)] q1(1) q2(1) q3(1) q4(1) q5(1) q6(1) fresh
    by (simp add: parse_variable_definition_def gql_parse_description_def fresh_note store_description_def SvOK_def v store_fresh)
  with q6 assms(1) fresh v show ?thesis
    by (auto simp: parses_def fresh_variables_def variable_name_def store_fresh)
qed

lemma variable_item:
  "k \<noteq> TOK_DOLLAR \<Longrightarrow> variable_wf v \<Longrightarrow> after_variable (print_variable v @ t) \<and> without k (print_variable v @ t) \<and>
    print_variable v \<noteq> [] \<and> solid (hd (print_variable v))"
  by (cases v) (auto simp: without_punct solid_def intro!: after_variable_punct)

lemma variables_step:
  assumes "distinct (map variable_name vs)" "list_all variable_wf vs" "vs \<noteq> []" "reads (print_variables vs @ t) q" "lexable t"
    "depth q = 0" "u = is_utf8 q"
  shows "parses (gql_parse_variable_definitions q) q (HV (variables_entry u vs)) t"
proof -
  have q: "reads (CHR ''('' # concat (map print_variable vs) @ CHR '')'' # t) q" using assms(3,4) by (simp add: print_variables_def)
  have item: "after_variable (print_variable x @ w) \<and> without TOK_RPAREN (print_variable x @ w) \<and> print_variable x \<noteq> [] \<and>
      solid (hd (print_variable x))" if "variable_wf x" for x w
    using that by (intro variable_item) simp_all
  have lex: "lexable (concat (map print_variable vs) @ CHR '')'' # t)"
    by (rule lexable_items [where J = variable_wf and k = TOK_RPAREN])
      (use item assms(2) in \<open>simp_all add: after_variable_def stops_def\<close>)
  obtain r where r: "gql_expect q TOK_LPAREN None = Inr r" "reads (concat (map print_variable vs) @ CHR '')'' # t) r" "like q r"
    using expect_step [OF q punct_kinds(5) lex] by blast
  have ne: "kind r \<noteq> TOK_RPAREN" using r(2) assms(2,3) item by (cases vs) (auto simp: without_def)
  have step: "fresh_variables (gql_store_sv h (variable_name x) (variable_node u x)) xs \<and>
      parses (parse_variable_definition h p) p (gql_store_sv h (variable_name x) (variable_node u x)) w"
    if "fresh_variables h (x # xs)" "variable_wf x" "reads (print_variable x @ w) p" "like r p" "after_variable w" for h x xs w p
    using that r(3) assms(6,7) by (intro variable_step) (auto simp: like_def)
  have last: "after_variable (CHR '')'' # t)" by (rule after_variable_punct [OF punct_kinds(6)]) simp
  obtain s where "bnd (parse_until TOK_RPAREN parse_variable_definition [] r) (\<lambda>(hv, p). bnd (gql_expect p TOK_RPAREN None) (\<lambda>p.
      Inr (HV (gql_store_sv [] ''variables'' (HV hv)), p))) =
      Inr (HV (gql_store_sv [] ''variables'' (HV (map (\<lambda>v. (variable_name v, variable_node u v)) vs))), s)" "reads t s" "like r s"
    using until_closed [where L = after_variable and J = variable_wf and I = fresh_variables and pr = print_variable and a = "[]"
        and xs = vs and t = t and p = r and m = None and c = "CHR '')''"
        and add = "\<lambda>h v. gql_store_sv h (variable_name v) (variable_node u v)"
        and g = "\<lambda>h p. Inr (HV (gql_store_sv [] ''variables'' (HV h)), p)",
        OF item step punct_kinds(6) last assms(2) _ r(2) assms(5)] assms(1)
    by (auto simp: foldl_variables fresh_variables_def)
  with r ne assms(3) show ?thesis
    by (auto simp: gql_parse_variable_definitions_def parses_def variables_entry_def store_fresh intro: like_trans)
qed

section \<open>Definitions\<close>

lemma rooms_below: "selections_wf ds ss \<Longrightarrow> depth q = 0 \<Longrightarrow> room q (directives_levels ds) \<and> room q (body_levels ss)"
  by (auto simp: selections_wf_def room_def MAX_LEVELS_def GQL_PARSER_MAX_DEPTH_def)

lemma body_frames: "selections_wf ds ss \<Longrightarrow> 3 * body_levels ss + 1 \<le> selection_frames"
  by (auto simp: selections_wf_def MAX_LEVELS_def GQL_PARSER_MAX_DEPTH_def selection_frames_def)

lemma selections_all: "selections_wf ds ss \<Longrightarrow> list_all (\<lambda>s. selection_wf s \<and> selection_reads s) ss"
  using selection_wf_reads by (auto simp: selections_wf_def list_all_iff)

text \<open>Directives and selections end both kinds of definition.\<close>

lemma definition_tail:
  assumes "selections_wf ds ss" "reads (print_directives ds @ print_body ss @ t) q" "lexable t" "depth q = 0" "no_location q"
    "fst ` set h \<inter> {''directives'', ''selections'', ''kind''} = {}" "u = is_utf8 q"
  shows "parses (bnd (parse_opt_directives h q) (\<lambda>(hv, p).
      bnd (gql_parse_selection_set selection_frames p) (\<lambda>(sel, p).
      let hv = gql_store_sv hv ''selections'' (member_of sel ''selections'');
          hv = store_description Undef hv;
          hv = gql_store_sv hv ''kind'' (PV False k)
      in Inr (HV (gql_store_current_location p hv), p)))) q
    (HV (h @ directives_entry u ds @ body_entry u ss @ [(''kind'', PV False k)])) t"
proof -
  have wf: "list_all (directive_wf False) ds" "ss \<noteq> []" using assms(1) by (auto simp: selections_wf_def)
  note rooms = rooms_below [OF assms(1,4)]
  note simps = parse_opt_directives_def parses_def directives_entry_def body_entry_def store_fresh member_of_def hv_fetch_Cons
    store_description_def SvOK_def gql_store_current_location_def
  from wf(1) selections_all [OF assms(1)] wf(2) assms(5,2,3) conjunct1 [OF rooms] conjunct2 [OF rooms] body_frames [OF assms(1)] assms(7)
  show ?thesis
  proof (rule directives_body)
    fix s assume "ds = []" "kind q = TOK_LBRACE"
      "gql_parse_selection_set selection_frames q = Inr (HV [(''selections'', AV (map (selection_node u) ss))], s)"
      "reads t s" "like q s" "no_location s"
    with wf(2) assms(6) show ?thesis by (simp add: simps)
  next
    fix r s assume "ds \<noteq> []" "kind q = TOK_AT" "gql_parse_directives q = Inr (AV (map (directive_node u) ds), r)"
      "gql_parse_selection_set selection_frames r = Inr (HV [(''selections'', AV (map (selection_node u) ss))], s)"
      "reads t s" "like q s" "no_location s"
    with wf(2) assms(6) show ?thesis by (simp add: simps)
  qed
qed

lemma anonymous_step:
  assumes "definition_wf (GAnonymous ss)" "reads (print_definition (GAnonymous ss) @ t) q" "lexable t" "depth q = 0" "no_location q"
    "u = is_utf8 q"
  shows "parses (gql_parse_definition q) q (definition_node u (GAnonymous ss)) t"
proof -
  have wf: "selections_wf [] ss" "ss \<noteq> []" and q: "reads (print_body ss @ t) q" using assms by (auto simp: selections_wf_def)
  have "parses (gql_parse_selection_set selection_frames q) q (HV [(''selections'', AV (map (selection_node u) ss))]) t"
    using rooms_below [OF wf(1) assms(4)] body_frames [OF wf(1)] assms(3,5,6) wf(2) q
    by (intro body_step [OF selections_all [OF wf(1)]]) simp_all
  then obtain s where "gql_parse_selection_set selection_frames q = Inr (HV [(''selections'', AV (map (selection_node u) ss))], s)"
      "reads t s" "like q s" by (rule parsesE)
  moreover have "kind q = TOK_LBRACE" using body_open [OF q wf(2)] .
  moreover have "no_location s" using assms(5) \<open>like q s\<close> by (simp add: like_def)
  ultimately show ?thesis using wf(2)
    by (simp add: gql_parse_definition_def gql_parse_operation_definition_def parses_def body_entry_def store_fresh
        member_of_def hv_fetch_Cons gql_store_current_location_def)
qed

lemma keyword_names: "valid_name ''query''" "valid_name ''mutation''" "valid_name ''subscription''" "valid_name ''fragment''"
  by (simp_all add: valid_name_def name_start_def name_char_def isALNUM_def isALPHA_def byte_of_def)

lemma tail_start:
  assumes "selections_wf ds ss"
  shows "lexable (print_directives ds @ print_body ss @ t)" "without TOK_LPAREN (print_directives ds @ print_body ss @ t)"
    "without TOK_NAME (print_directives ds @ print_body ss @ t)"
proof -
  have ds: "list_all (directive_wf False) ds" "ss \<noteq> []" using assms(1) by (auto simp: selections_wf_def)
  show "lexable (print_directives ds @ print_body ss @ t)" "without TOK_LPAREN (print_directives ds @ print_body ss @ t)"
    using stops_directives(1,2) [OF stops_open [OF ds(2)]] ds(1) by auto
  show "without TOK_NAME (print_directives ds @ print_body ss @ t)"
    using ds(2) by (intro stops_directives(3)) (simp_all add: print_body_def without_punct)
qed

lemma operation_step:
  assumes "definition_wf (GOperation k n vs ds ss)" "reads (print_definition (GOperation k n vs ds ss) @ t) q" "lexable t"
    "depth q = 0" "no_location q" "u = is_utf8 q"
  shows "parses (gql_parse_definition q) q (definition_node u (GOperation k n vs ds ss)) t"
proof -
  have wf: "selections_wf ds ss" "pred_option valid_name n" "distinct (map variable_name vs)" "list_all variable_wf vs"
      "k \<in> {''query'', ''mutation'', ''subscription''}" using assms(1) by auto
  let ?t2 = "print_directives ds @ print_body ss @ t"
  let ?t1 = "print_variables vs @ CHR '' '' # ?t2" and ?n = "case n of Some x \<Rightarrow> x | None \<Rightarrow> []"
  note t2 = tail_start [OF wf(1), of t]
  have t1: "calm ?t1" "lexable ?t1" "without TOK_NAME ?t1"
    using t2 by (auto simp: print_variables_def lexable_space without_space lexable_punct without_punct)
  have env: "depth r = 0 \<and> no_location r \<and> is_utf8 r = u" if "like q r" for r
    using that assms(4-6) by (simp add: like_def)
  let ?C2 = "\<lambda>hv p. bnd (parse_opt_directives hv p) (\<lambda>(hv, p).
      bnd (gql_parse_selection_set selection_frames p) (\<lambda>(sel, p).
      let hv = gql_store_sv hv ''selections'' (member_of sel ''selections'');
          hv = store_description Undef hv;
          hv = gql_store_sv hv ''kind'' (PV False ''operation'')
      in Inr (HV (gql_store_current_location p hv), p)))"
  let ?C1 = "\<lambda>hv p. bnd (if kind p = TOK_LPAREN then
        bnd (gql_parse_variable_definitions p) (\<lambda>(vars, p).
        Inr (gql_store_sv hv ''variables'' (member_of vars ''variables''), p))
      else Inr (hv, p)) (\<lambda>(hv, p). ?C2 hv p)"
  let ?e2 = "directives_entry u ds @ body_entry u ss @ [(''kind'', PV False ''operation'')]"
  have C2: "parses (?C2 h r) q (HV (h @ ?e2)) t"
    if "reads ?t2 r" "like q r" "fst ` set h \<inter> {''directives'', ''selections'', ''kind''} = {}" for h r
    by (rule parses_like [OF definition_tail [OF wf(1) that(1) assms(3) _ _ that(3)] that(2)])
      (use env [OF that(2)] in simp_all)
  have C1: "parses (?C1 h r) q (HV (h @ variables_entry u vs @ ?e2)) t"
    if r: "reads ?t1 r" "like q r" and h: "fst ` set h \<inter> {''variables'', ''directives'', ''selections'', ''kind''} = {}" for h r
  proof (cases "vs = []")
    case True
    then have "reads ?t2 r" using r(1) reads_space by (simp add: print_variables_def)
    moreover have "kind r \<noteq> TOK_LPAREN" using calculation t2(2) by (simp add: without_def)
    ultimately show ?thesis using C2 [OF _ r(2)] h True by (simp add: variables_entry_def)
  next
    case False
    have "kind r = TOK_LPAREN" using r(1) False reads_punct [OF _ punct_kinds(5), of _ r] by (simp add: print_variables_def)
    moreover obtain s where s: "gql_parse_variable_definitions r = Inr (HV (variables_entry u vs), s)" "reads (CHR '' '' # ?t2) s" "like r s"
      by (rule parsesE [OF variables_step [OF wf(3,4) False r(1) lexable_space [OF t2(1)]]])
        (use env [OF r(2)] in simp_all)
    ultimately show ?thesis
      using C2 [OF reads_space [OF s(2)] like_trans [OF r(2) s(3)],
          of "h @ [(''variables'', HV (map (\<lambda>v. (variable_name v, variable_node u v)) vs))]"] h False
      by (simp add: variables_entry_def member_of_def hv_fetch_Cons store_fresh)
  qed
  have k: "valid_name k" using wf(5) keyword_names by auto
  have q: "reads (k @ CHR '' '' # ?n @ ?t1) q" using assms(2) by (simp split: option.splits)
  have name: "kind q = TOK_NAME" "tok_text q = k" "here (CHR '' '' # ?n @ ?t1) q" using reads_name [OF q k] by auto
  have "lexable (?n @ ?t1)" using t1 wf(2) by (cases n) (simp_all add: lexable_name)
  then obtain r where r: "gql_advance q = Inr r" "reads (?n @ ?t1) r" "like q r"
    using advance_after [OF name(3) lexable_space] reads_space by blast
  let ?h = "[(''operationType'', PV u k)]"
  have start: "gql_parse_definition q = bnd (if kind r = TOK_NAME then
        bnd (gql_parse_name r ''Expected name'') (\<lambda>(name, p). Inr (gql_store_sv ?h ''name'' name, p))
      else Inr (?h, r)) (\<lambda>(hv, p). ?C1 hv p)"
  proof -
    have "k \<noteq> ''fragment''" using wf(5) by auto
    then have "\<not> gql_peek_name q ''fragment''" using name(2) by (simp add: gql_peek_name_def)
    moreover have "operation_keyword q" using name(1,2) wf(5) unfolding gql_peek_name_def operation_keyword_def by blast
    moreover have "gql_copy_token_sv q = PV u k" using name(2) assms(6) by (simp add: copy_token)
    moreover have "gql_store_sv [] ''operationType'' (PV u k) = ?h" by (simp add: store_fresh)
    moreover have "gql_parse_definition q = gql_parse_operation_definition q Undef"
      using name(1) calculation by (simp add: gql_parse_definition_def)
    ultimately show ?thesis
      unfolding gql_parse_operation_definition_def by (simp only: name(1) r(1) bnd_Inr Let_def gql_token_kind.distinct simp_thms if_True if_False)
  qed
  show ?thesis
  proof (cases n)
    case None
    then have "reads ?t1 r" "kind r \<noteq> TOK_NAME" using r(2) t1(3) by (simp_all add: without_def)
    with C1 [OF _ r(3), of ?h] show ?thesis unfolding start by (simp add: None)
  next
    case (Some x)
    then have x: "valid_name x" "reads (x @ ?t1) r" using wf(2) r(2) by simp_all
    obtain s where s: "gql_parse_name r ''Expected name'' = Inr (PV (is_utf8 r) x, s)" "reads ?t1 s" "like r s"
      by (rule name_step [OF x(2,1) t1(1,2)])
    from C1 [OF s(2) like_trans [OF r(3) s(3)], of "[(''operationType'', PV u k), (''name'', PV u x)]"]
      reads_name [OF x(2,1) t1(1)] s(1) env [OF r(3)]
    show ?thesis unfolding start by (simp add: Some store_fresh)
  qed
qed

lemma name_space:
  assumes "reads (n @ CHR '' '' # t) q" "valid_name n" "lexable t" "u = is_utf8 q"
  obtains r where "gql_advance q = Inr r" "gql_parse_name q m = Inr (PV u n, r)" "kind q = TOK_NAME" "tok_text q = n"
    "reads t r" "like q r"
proof (rule name_step [OF assms(1,2) _ lexable_space [OF assms(3)], of m])
  fix r assume "gql_advance q = Inr r" "gql_parse_name q m = Inr (PV (is_utf8 q) n, r)" "reads (CHR '' '' # t) r" "like q r"
  with reads_name [OF assms(1,2)] assms(4) show thesis by (intro that [of r]) (simp_all add: reads_space)
qed simp

lemma fragment_step:
  assumes "definition_wf (GFragment n on ds ss)" "reads (print_definition (GFragment n on ds ss) @ t) q" "lexable t"
    "depth q = 0" "no_location q" "u = is_utf8 q"
  shows "parses (gql_parse_definition q) q (definition_node u (GFragment n on ds ss)) t"
proof -
  have wf: "selections_wf ds ss" "valid_name n" "n \<noteq> ''on''" "valid_name on" using assms(1) by auto
  let ?t = "print_directives ds @ print_body ss @ t"
  note lex = tail_start(1) [OF wf(1), of t]
  have env: "u = is_utf8 r" if "like q r" for r using that assms(6) by (simp add: like_def)
  have q: "reads (''fragment'' @ CHR '' '' # n @ CHR '' '' # ''on'' @ CHR '' '' # on @ CHR '' '' # ?t) q"
    using assms(2) by simp
  have lexes: "lexable (on @ CHR '' '' # ?t)" "lexable (''on'' @ CHR '' '' # on @ CHR '' '' # ?t)"
      "lexable (n @ CHR '' '' # ''on'' @ CHR '' '' # on @ CHR '' '' # ?t)"
    using lexable_name [OF wf(4)] lexable_name [OF name_on] lexable_name [OF wf(2)] by simp_all
  obtain q1 where q1: "gql_advance q = Inr q1" "kind q = TOK_NAME" "tok_text q = ''fragment''"
      "reads (n @ CHR '' '' # ''on'' @ CHR '' '' # on @ CHR '' '' # ?t) q1" "like q q1"
    by (rule name_space [OF q keyword_names(4) lexes(3) assms(6)])
  obtain q2 where q2: "gql_parse_name q1 ''Expected name'' = Inr (PV u n, q2)" "tok_text q1 = n"
      "reads (''on'' @ CHR '' '' # on @ CHR '' '' # ?t) q2" "like q1 q2"
    by (rule name_space [OF q1(4) wf(2) lexes(2) env [OF q1(5)]])
  note l2 = like_trans [OF q1(5) q2(4)]
  obtain q3 where q3: "gql_advance q2 = Inr q3" "kind q2 = TOK_NAME" "tok_text q2 = ''on''" "reads (on @ CHR '' '' # ?t) q3" "like q2 q3"
    by (rule name_space [OF q2(3) name_on lexes(1) env [OF l2]])
  note l3 = like_trans [OF l2 q3(5)]
  obtain q4 where q4: "gql_parse_name q3 ''Expected name'' = Inr (PV u on, q4)" "reads ?t q4" "like q3 q4"
    by (rule name_space [OF q3(4) wf(4) lex env [OF l3]])
  have l4: "like q q4" "depth q4 = 0" "no_location q4" "u = is_utf8 q4"
    using like_trans [OF l3 q4(3)] assms(4-6) by (auto simp: like_def)
  have "gql_parse_definition q = bnd (parse_opt_directives [(''name'', PV u n), (''on'', PV u on)] q4) (\<lambda>(hv, p).
      bnd (gql_parse_selection_set selection_frames p) (\<lambda>(sel, p).
      let hv = gql_store_sv hv ''selections'' (member_of sel ''selections'');
          hv = store_description Undef hv;
          hv = gql_store_sv hv ''kind'' (PV False ''fragment'')
      in Inr (HV (gql_store_current_location p hv), p)))"
    using q1(1-3) q2(1,2) q3(1-3) q4(1) wf(3)
    by (simp add: gql_parse_definition_def gql_parse_fragment_definition_def gql_parse_fragment_name_def gql_peek_name_def store_fresh)
  with parses_like [OF definition_tail [OF wf(1) q4(2) assms(3) l4(2,3) _ l4(4), of "[(''name'', PV u n), (''on'', PV u on)]"] l4(1)]
  show ?thesis by simp
qed

section \<open>Documents\<close>

lemma definition_step:
  assumes "definition_wf d" "reads (print_definition d @ t) q" "lexable t" "depth q = 0" "no_location q" "u = is_utf8 q"
  shows "parses (gql_parse_definition q) q (definition_node u d) t"
  using assms by (cases d) (simp_all only: anonymous_step operation_step fragment_step)

lemma definition_first:
  assumes "definition_wf d"
  shows "lexable (print_definition d @ t)" "without TOK_EOF (print_definition d @ t)"
    "print_definition d \<noteq> [] \<and> solid (hd (print_definition d))"
proof -
  have "\<exists>n w. (valid_name n \<and> calm (w @ t) \<or> n = ''{'') \<and> print_definition d = n @ w"
  proof (cases d)
    case (GAnonymous ss)
    then have "print_definition d = ''{'' @ drop 1 (print_definition d)"
      using assms by (simp add: selections_wf_def print_body_def)
    then show ?thesis by blast
  next
    case (GOperation k n vs ds ss)
    then have "print_definition d = k @ drop (length k) (print_definition d)" "calm (drop (length k) (print_definition d) @ t)"
        "valid_name k"
      using assms keyword_names by auto
    then show ?thesis by blast
  next
    case (GFragment n on ds ss)
    then have "print_definition d = ''fragment'' @ drop 8 (print_definition d)" "calm (drop 8 (print_definition d) @ t)" by simp_all
    then show ?thesis using keyword_names(4) by blast
  qed
  then obtain n w where n: "valid_name n \<and> calm (w @ t) \<or> n = ''{''" "print_definition d = n @ w" by blast
  have brace: "solid (CHR ''{'')" by (simp add: solid_def)
  show "lexable (print_definition d @ t)" using n lexable_name [of n "w @ t"] by (auto simp: lexable_punct)
  show "without TOK_EOF (print_definition d @ t)" using n without_name [of n "w @ t"] by (auto simp: without_punct)
  show "print_definition d \<noteq> [] \<and> solid (hd (print_definition d))" using n solid_name [of n] brace by auto
qed

text \<open>
  C2. Printing and parsing are inverse on executable documents: for every list of well-formed
  definitions that fits the token limit, parsing the printed text returns the nodes of exactly
  these definitions, in order, with every name, argument, value, type and selection in place.
\<close>

theorem parse_printed_document:
  assumes "list_all definition_wf ds" and "int (length (print_document ds)) \<le> GQL_PARSER_MAX_TOKENS"
  shows "gql_parse_document (PV u (print_document ds)) True = Inr (AV (map (definition_node u) ds))"
proof -
  let ?p = "gql_parser_init (PV u (print_document ds)) True"
  have first: "\<exists>c cs. print_document ds = c # cs \<and> solid c" if "ds \<noteq> []"
    using that assms(1) definition_first(3)
    by (cases ds) (auto simp: print_document_def neq_Nil_conv, metis append_Cons list.sel(1) neq_Nil_conv)
  have here: "here (print_document ds) ?p" using assms(2) by (simp add: here_def gql_parser_init_def)
  have "lexable (concat (map print_definition ds) @ [])" if "list_all definition_wf ds" for ds
    using that definition_first(1) by (cases ds) (auto simp: lexable_end)
  then have lex: "lexable (concat (map print_definition ds))" if "list_all definition_wf ds" for ds using that by simp
  obtain q where q: "gql_advance ?p = Inr q" "reads (print_document ds) q" "like ?p q"
    by (rule next_token [OF here]) (use lex [OF assms(1)] in \<open>simp add: print_document_def\<close>)
  have env: "depth r = 0 \<and> no_location r \<and> u = is_utf8 r" if "like q r" for r
    using q(3) that by (simp add: like_def gql_parser_init_def SvUTF8_def)
  have len: "length ds < Suc (left q)"
  proof (cases "ds = []")
    case False
    then have "left q = length (print_document ds)" using first q(2) reads_left by metis
    moreover have "length ds \<le> length (concat (map print_definition ds))"
      using assms(1) definition_first(3) by (intro length_items) (auto simp: list_all_iff)
    ultimately show ?thesis by (simp add: print_document_def)
  qed simp
  let ?body = "\<lambda>av p. bnd (gql_parse_definition p) (\<lambda>(d, p). Inr (av @ [d], p))"
  have "parses (ploop (Suc (left q)) Out_Of_Fuel (\<lambda>q. kind q \<noteq> TOK_EOF) ?body [] q) q
      (foldl (\<lambda>av d. av @ [definition_node u d]) [] ds) []"
  proof (rule loop_items [where I = "\<lambda>_. list_all definition_wf" and pr = print_definition and u = "[]"])
    fix a d ds' r
    assume d: "list_all definition_wf (d # ds')" "reads (concat (map print_definition (d # ds')) @ []) r" "like q r"
    then have "parses (gql_parse_definition r) r (definition_node u d) (concat (map print_definition ds'))"
      using env [OF d(3)] lex [of ds'] by (intro definition_step) simp_all
    moreover have "kind r \<noteq> TOK_EOF" using d(1,2) definition_first(2) [of d] by (auto simp: without_def)
    ultimately show "kind r \<noteq> TOK_EOF \<and> list_all definition_wf ds' \<and>
        parses (?body a r) r (a @ [definition_node u d]) (concat (map print_definition ds') @ [])"
      using d(1) by (auto simp: parses_def)
  qed (use assms(1) q(2) len reads_end in \<open>auto simp: print_document_def\<close>)
  with q(1) assms(2) show ?thesis
    by (auto simp: gql_parse_document_def gql_preflight_token_limit_def gql_parse_definitions_def parse_while_def parses_def foldl_snoc)
qed

text \<open>A document with every construct, at the limits of the character set of names.\<close>

definition sample_document :: "gdefinition list" where
  "sample_document =
     [GOperation ''query'' (Some ''Q_1'')
        [GVariable ''x'' (NonNull (ListOf (NonNull (Named ''Int'')))) (Some (VList [VInt (- 1), VInt 0])) [(''d'', [])]]
        [(''skip'', [(''if'', VBool False)])]
        [GField (Some ''a'') ''f'' [(''in'', VObj [(''k'', VVar ''x''), (''s'', VStr [DQUOTE, LF])]), (''e'', VEnum ''RED'')]
           [(''d'', [])] [GField None ''g'' [] [] [], GSpread ''F'' []],
         GInline None [] [GField None ''h'' [(''n'', VNull)] [] []]],
      GFragment ''F'' ''T'' [] [GInline (Some ''T'') [(''d'', [])] [GField None ''__typename'' [] [] []]],
      GAnonymous [GField None ''z'' [] [] []]]"

theorem parse_printed_document_witness:
  "gql_parse_document (PV False (print_document sample_document)) True
     = Inr (AV (map (definition_node False) sample_document))"
proof (rule parse_printed_document)
  show "list_all definition_wf sample_document"
    by (simp add: sample_document_def selections_wf_def args_wf_def directive_wf_def entry_wf_def valid_name_def name_start_def
        name_char_def isALNUM_def isALPHA_def isDIGIT_def byte_of_def variable_name_def directives_levels_def args_levels_def
        body_levels_def MAX_LEVELS_def GQL_PARSER_MAX_DEPTH_def)
  show "int (length (print_document sample_document)) \<le> GQL_PARSER_MAX_TOKENS"
    by (simp add: sample_document_def print_document_def print_body_def print_variables_def print_default_def print_directives_def
        print_directive_def print_args_def print_entry_def GQL_PARSER_MAX_TOKENS_def dec_int_def dec_digits.simps escape_char_def hex4_def)
qed

end
