(* ===== verification/Nesting_Limits.thy ===== *)
theory Nesting_Limits
  imports Roundtrip_Documents
begin

text \<open>
  What the nesting limit does: a document that nests one level more than the parser admits is
  refused with the error of the code, at the bracket that goes too deep, whatever follows.
\<close>

section \<open>Values\<close>

definition value_too_deep :: string where
  "value_too_deep = ''Value is too deeply nested (exceeds maximum nesting depth)''"

definition query_too_deep :: string where
  "query_too_deep = ''Query is too deeply nested (exceeds maximum nesting depth)''"

lemma reads_tok_start: "reads (c # t) q \<Longrightarrow> solid c \<Longrightarrow> tok_start q + length (c # t) = len q"
  using reads_left [of c t q] by (simp add: left_def)

lemma solid_bracket: "solid (CHR ''['')" "solid (CHR ''{'')"
  by (simp_all add: solid_def)

lemma too_deep_list:
  "reads (replicate k (CHR ''['') @ t) q \<Longrightarrow> depth q + int l = GQL_PARSER_MAX_DEPTH \<Longrightarrow> l < k \<Longrightarrow> 2 * l + 2 \<le> n \<Longrightarrow>
    gql_parse_value n c q = Inl (Syntax_Error (tok_start q + l) value_too_deep)"
proof (induction l arbitrary: k q n)
  case 0
  then obtain m where "n = Suc (Suc m)" by (cases n; cases "n - 1") auto
  moreover obtain k' where "k = Suc k'" using 0 by (cases k) auto
  moreover have "kind q = TOK_LBRACKET" using 0 reads_punct [OF _ punct_kinds(1), of _ q] calculation(2) by simp
  ultimately show ?case
    using 0 by (simp add: gql_parse_value.simps(2) gql_parse_list_value.simps(2) gql_throw_def value_too_deep_def)
next
  case (Suc l)
  obtain m where n: "n = Suc (Suc m)" "2 * l + 2 \<le> m" using Suc.prems by (cases n; cases "n - 1") auto
  obtain k' where k: "k = Suc k'" "l < k'" using Suc.prems by (cases k) auto
  obtain k2 where k2: "k' = Suc k2" using k by (cases k') auto
  let ?q = "q\<lparr>depth := depth q + 1\<rparr>"
  have q: "reads (CHR ''['' # replicate k' (CHR ''['') @ t) q" using Suc.prems(1) k by simp
  have lex: "lexable (replicate k' (CHR ''['') @ t)" using k2 by (simp add: lexable_punct)
  obtain r where r: "gql_expect ?q TOK_LBRACKET None = Inr r" "reads (replicate k' (CHR ''['') @ t) r" "like ?q r"
    using expect_step [OF reads_depth [OF q] punct_kinds(1) lex] by blast
  have kinds: "kind q = TOK_LBRACKET" "kind r = TOK_LBRACKET"
    using reads_punct [OF q punct_kinds(1)] r(2) k2 reads_punct [OF _ punct_kinds(1), of _ r] by simp_all
  have "tok_start q + length (CHR ''['' # replicate k' (CHR ''['') @ t) = len q" by (rule reads_tok_start [OF q solid_bracket(1)])
  moreover have "tok_start r + length (replicate k' (CHR ''['') @ t) = len r"
    using reads_tok_start [of "CHR ''[''" "replicate k2 (CHR ''['') @ t" r] r(2) k2 solid_bracket(1) by simp
  ultimately have start: "tok_start r = tok_start q + 1" using r(3) by (simp add: like_def)
  have "gql_parse_value m c r = Inl (Syntax_Error (tok_start r + l) value_too_deep)"
    using Suc.prems(2) r(3) n(2) k(2) by (intro Suc.IH [OF r(2)]) (simp_all add: like_def)
  then have "parse_until TOK_RBRACKET (\<lambda>av p. bnd (gql_parse_value m c p) (\<lambda>(v, p). Inr (av @ [v], p))) [] r
      = Inl (Syntax_Error (tok_start q + Suc l) value_too_deep)"
    using kinds(2) start by (simp add: parse_until_def parse_while_def ploop.simps(2))
  with kinds(1) r(1) Suc.prems(2) show ?case
    by (simp add: n(1) gql_parse_value.simps(2) gql_parse_list_value.simps(2))
qed



section \<open>Selections\<close>

lemma too_deep_set:
  "reads (concat (replicate k ''{f'') @ t) q \<Longrightarrow> depth q + int l = GQL_PARSER_MAX_DEPTH \<Longrightarrow> l < k \<Longrightarrow> 3 * l + 1 \<le> n \<Longrightarrow>
    gql_parse_selection_set n q = Inl (Syntax_Error (tok_start q + 2 * l) query_too_deep)"
proof (induction l arbitrary: k q n)
  case 0
  then obtain m where "n = Suc m" by (cases n) auto
  moreover obtain k' where "k = Suc k'" using 0 by (cases k) auto
  ultimately show ?case
    using 0 by (simp add: gql_parse_selection_set.simps(2) gql_throw_def query_too_deep_def)
next
  case (Suc l)
  obtain m where n: "n = Suc (Suc (Suc m))" "3 * l + 2 \<le> m + 1" using Suc.prems by (cases n; cases "n - 1"; cases "n - 2") auto
  obtain k' where k: "k = Suc k'" "l < k'" using Suc.prems by (cases k) auto
  obtain k2 where k2: "k' = Suc k2" using k by (cases k') auto
  have nm: "valid_name ''f''" by (simp add: valid_name_def name_start_def name_char_def isALNUM_def isALPHA_def byte_of_def)
  let ?t = "concat (replicate k' ''{f'') @ t" and ?q = "q\<lparr>depth := depth q + 1\<rparr>"
  have q: "reads (CHR ''{'' # ''f'' @ ?t) q" using Suc.prems(1) k by simp
  have t: "calm ?t" "lexable ?t" using k2 by (simp_all add: lexable_punct)
  obtain r where r: "gql_expect ?q TOK_LBRACE (Some ''Expected name'') = Inr r" "reads (''f'' @ ?t) r" "like ?q r"
    using expect_step [OF reads_depth [OF q] punct_kinds(3) lexable_name [OF nm t(1)]] by blast
  obtain s where s: "gql_parse_name r ''Expected name'' = Inr (PV (is_utf8 r) ''f'', s)" "reads ?t s" "like r s"
    by (rule name_step [OF r(2) nm t])
  have kinds: "kind r = TOK_NAME" "kind s = TOK_LBRACE"
    using reads_name [OF r(2) nm t(1)] s(2) k2 reads_punct [OF _ punct_kinds(3), of _ s] by simp_all
  have "tok_start q + length (CHR ''{'' # ''f'' @ ?t) = len q" by (rule reads_tok_start [OF q solid_bracket(2)])
  moreover have "tok_start s + length ?t = len s"
    using reads_tok_start [of "CHR ''{''" "''f'' @ concat (replicate k2 ''{f'') @ t" s] s(2) k2 solid_bracket(2) by simp
  ultimately have start: "tok_start s = tok_start q + 2" using r(3) s(3) by (simp add: like_def)
  have "gql_parse_selection_set m s = Inl (Syntax_Error (tok_start s + 2 * l) query_too_deep)"
    using Suc.prems(2,4) r(3) s(3) n(1) k(2) by (intro Suc.IH [OF s(2)]) (simp_all add: like_def)
  then have "gql_parse_selection (Suc (Suc m)) r = Inl (Syntax_Error (tok_start q + 2 * Suc l) query_too_deep)"
    using kinds s(1) start by (simp add: gql_parse_selection.simps(2) gql_parse_field.simps(2))
  with r(1) kinds(1) Suc.prems(2) show ?case
    by (simp add: n(1) gql_parse_selection_set.simps(2) parse_until_def parse_while_def ploop.simps(2))
qed



end
