(* ===== verification/Coercion_Types.thy ===== *)
theory Coercion_Types
  imports Validation_Types Roundtrip_Values
begin

text \<open>
  The types of variables and of the places they are used at, against what the types mean: a
  variable may be used where every value of its type is a value of the other type.
  \<open>type_repr t s\<close> says that the compiled type reference \<open>s\<close> stands for \<open>t\<close>.
\<close>

section \<open>Compiled type references\<close>

fun type_repr :: "gtype \<Rightarrow> sv \<Rightarrow> bool" where
  "type_repr (Named n) s =
     (case s of HV h \<Rightarrow> node_kind h = Some ''NAMED'' \<and> (case hv_fetch h ''name'' of Some (PV u m) \<Rightarrow> m = n | _ \<Rightarrow> False)
      | _ \<Rightarrow> False)"
| "type_repr (ListOf t) s =
     (case s of HV h \<Rightarrow> node_kind h = Some ''LIST'' \<and> (case hv_fetch h ''of'' of Some i \<Rightarrow> type_repr t i | None \<Rightarrow> False)
      | _ \<Rightarrow> False)"
| "type_repr (NonNull t) s =
     (case s of HV h \<Rightarrow> node_kind h = Some ''NON_NULL'' \<and> (case hv_fetch h ''of'' of Some i \<Rightarrow> type_repr t i | None \<Rightarrow> False)
      | _ \<Rightarrow> False)"

lemma type_repr_NamedE:
  assumes "type_repr (Named n) s"
  obtains h u where "s = HV h" "node_kind h = Some ''NAMED''" "hv_fetch h ''name'' = Some (PV u n)"
  using assms by (auto split: sv.splits option.splits)

lemma type_repr_ListE:
  assumes "type_repr (ListOf t) s"
  obtains h i where "s = HV h" "node_kind h = Some ''LIST''" "hv_fetch h ''of'' = Some i" "type_repr t i"
  using assms by (auto split: sv.splits option.splits)

lemma type_repr_NonNullE:
  assumes "type_repr (NonNull t) s"
  obtains h i where "s = HV h" "node_kind h = Some ''NON_NULL''" "hv_fetch h ''of'' = Some i" "type_repr t i"
  using assms by (auto split: sv.splits option.splits)

lemma node_kind_fetch: "node_kind h = Some k \<Longrightarrow> \<exists>u. fetch_ok h ''kind'' = Some (PV u k)"
  by (auto simp: node_kind_def SvPOK_def split: option.splits if_splits sv.splits)

fun type_name :: "gtype \<Rightarrow> string" where
  "type_name (Named n) = n"
| "type_name (ListOf t) = type_name t"
| "type_name (NonNull t) = type_name t"

definition nonnull :: "gtype \<Rightarrow> bool" where
  "nonnull t = (case t of NonNull _ \<Rightarrow> True | _ \<Rightarrow> False)"

lemma type_repr_non_null: "type_repr t s \<Longrightarrow> gql_validation_type_is_non_null s = nonnull t"
  by (cases t) (auto simp: gql_validation_type_is_non_null_def nonnull_def split: sv.splits option.splits)

lemma type_repr_name: "type_repr t s \<Longrightarrow> \<exists>u. gql_validation_named_type_name_sv s = Some (PV u (type_name t))"
  by (induction t arbitrary: s)
    (subst gql_validation_named_type_name_sv.simps, force split: sv.splits option.splits)+

section \<open>Names as byte strings\<close>

text \<open>A name is ASCII, so its text does not depend on the UTF-8 flag of the scalar.\<close>

lemma name_char_ascii: "name_char c \<Longrightarrow> byte_of c < 128"
  by (auto simp: name_char_def isALNUM_def isALPHA_def isDIGIT_def byte_of_def)

lemma byte_char_of [simp]: "byte_char (byte_of c) = c"
  by (simp add: byte_char_def byte_of_def)

lemma upgrade_ascii: "list_all (\<lambda>c. byte_of c < 128) s \<Longrightarrow> utf8_upgrade s = s"
  by (induction s) (simp_all add: utf8_upgrade_def utf8_bytes_def)

lemma upgrade_name: "valid_name n \<Longrightarrow> utf8_upgrade n = n"
  by (intro upgrade_ascii) (auto simp: valid_name_def list_all_iff dest: name_char_ascii)

lemma sv_eq_names: "valid_name a \<Longrightarrow> valid_name b \<Longrightarrow> sv_eq (PV u a) (PV v b) \<longleftrightarrow> a = b"
  by (simp add: sv_eq_def sv_upgraded_def SvUTF8_def upgrade_name)

section \<open>Compatible types\<close>

fun types_compatible :: "gtype \<Rightarrow> gtype \<Rightarrow> bool" where
  "types_compatible v (NonNull l) = (case v of NonNull w \<Rightarrow> types_compatible w l | _ \<Rightarrow> False)"
| "types_compatible (NonNull v) l = types_compatible v l"
| "types_compatible (ListOf v) (ListOf l) = types_compatible v l"
| "types_compatible (Named a) (Named b) = (a = b)"
| "types_compatible _ _ = False"

lemma variable_kind [simp]:
  "gql_validation_variable_type_is_kind (PV u n) k = False"
  "gql_validation_variable_type_is_kind (gql_make_type_wrapper t w) k = (w = k)"
  "gql_validation_variable_type_inner (gql_make_type_wrapper t w) = Some t"
  by (simp_all add: gql_validation_variable_type_is_kind_def gql_validation_variable_type_inner_def gql_make_type_wrapper_def SvOK_def)

lemma compatible_at:
  assumes "node_kind h = Some k"
  shows "gql_validation_variable_type_compatible (Some v) (Some (HV h)) =
     (if k = ''NON_NULL'' then
        gql_validation_variable_type_is_kind v ''non_null'' \<and> hv_fetch h ''of'' \<noteq> None \<and>
        gql_validation_variable_type_compatible (gql_validation_variable_type_inner v) (hv_fetch h ''of'')
      else if gql_validation_variable_type_is_kind v ''non_null'' then
        gql_validation_variable_type_compatible (gql_validation_variable_type_inner v) (Some (HV h))
      else if k = ''LIST'' then
        gql_validation_variable_type_is_kind v ''list'' \<and> hv_fetch h ''of'' \<noteq> None \<and>
        gql_validation_variable_type_compatible (gql_validation_variable_type_inner v) (hv_fetch h ''of'')
      else if gql_validation_variable_type_is_kind v ''list'' then False
      else if k = ''NAMED'' \<and> \<not> SvROK v then
        (case fetch_ok h ''name'' of Some name \<Rightarrow> sv_eq v name | None \<Rightarrow> False)
      else False)"
proof -
  obtain u where "fetch_ok h ''kind'' = Some (PV u k)" using node_kind_fetch [OF assms] by blast
  then show ?thesis by (subst gql_validation_variable_type_compatible.simps) (simp add: Let_def)
qed

lemma variable_type_compatible_types:
  "type_wf v \<Longrightarrow> type_wf l \<Longrightarrow> type_repr l s \<Longrightarrow>
    gql_validation_variable_type_compatible (Some (type_node u v)) (Some s) = types_compatible v l"
proof (induction v l arbitrary: s rule: types_compatible.induct [case_names non_null drop_named drop_list list named clash_named clash_list])
  case (non_null v l)
  obtain h i where h: "s = HV h" "node_kind h = Some ''NON_NULL''" "hv_fetch h ''of'' = Some i" "type_repr l i"
    by (rule type_repr_NonNullE [OF non_null.prems(3)])
  with non_null show ?case unfolding h(1) by (subst compatible_at [OF h(2)], cases v) auto
next
  case (drop_named v n)
  obtain h where h: "s = HV h" "node_kind h = Some ''NAMED''" by (rule type_repr_NamedE [OF drop_named.prems(3)])
  with drop_named show ?case unfolding h(1) by (subst compatible_at [OF h(2)]) (auto simp: fetch_ok_def SvOK_def SvROK_def sv_eq_names)
next
  case (drop_list v l)
  obtain h where h: "s = HV h" "node_kind h = Some ''LIST''" by (rule type_repr_ListE [OF drop_list.prems(3)])
  with drop_list show ?case unfolding h(1) by (subst compatible_at [OF h(2)]) (auto simp: fetch_ok_def SvOK_def SvROK_def sv_eq_names)
next
  case (list v l)
  obtain h i where h: "s = HV h" "node_kind h = Some ''LIST''" "hv_fetch h ''of'' = Some i" "type_repr l i"
    by (rule type_repr_ListE [OF list.prems(3)])
  with list show ?case unfolding h(1) by (subst compatible_at [OF h(2)]) (auto simp: fetch_ok_def SvOK_def SvROK_def sv_eq_names)
next
  case (named a b)
  obtain h u' where h: "s = HV h" "node_kind h = Some ''NAMED''" "hv_fetch h ''name'' = Some (PV u' b)"
    by (rule type_repr_NamedE [OF named.prems(3)])
  with named show ?case unfolding h(1) by (subst compatible_at [OF h(2)]) (auto simp: fetch_ok_def SvOK_def SvROK_def sv_eq_names)
next
  case (clash_named v b)
  obtain h where h: "s = HV h" "node_kind h = Some ''NAMED''" by (rule type_repr_NamedE [OF clash_named.prems(3)])
  show ?case unfolding h(1) by (subst compatible_at [OF h(2)]) auto
next
  case (clash_list a l)
  obtain h i where h: "s = HV h" "node_kind h = Some ''LIST''" by (rule type_repr_ListE [OF clash_list.prems(3)])
  show ?case unfolding h(1) by (subst compatible_at [OF h(2)]) auto
qed

section \<open>What the types mean\<close>

text \<open>
  Runtime values after coercion: null, a value of a named type, a list. Named types are taken
  to be disjoint and to have values.
\<close>

datatype rvalue = RNull | RNamed string | RList "rvalue list"

fun inhabits :: "rvalue \<Rightarrow> gtype \<Rightarrow> bool" where
  "inhabits x (Named n) = (x = RNull \<or> x = RNamed n)"
| "inhabits x (ListOf t) = (case x of RNull \<Rightarrow> True | RNamed n \<Rightarrow> False | RList xs \<Rightarrow> list_all (\<lambda>y. inhabits y t) xs)"
| "inhabits x (NonNull t) = (x \<noteq> RNull \<and> inhabits x t)"

lemma null_inhabits: "inhabits RNull t = (\<not> nonnull t)"
  by (cases t) (auto simp: nonnull_def)

text \<open>A value of a type that is not null.\<close>

fun some_value :: "gtype \<Rightarrow> rvalue" where
  "some_value (Named n) = RNamed n"
| "some_value (ListOf t) = RList [some_value t]"
| "some_value (NonNull t) = some_value t"

lemma some_value_inhabits: "inhabits (some_value t) t \<and> some_value t \<noteq> RNull"
  by (induction t) auto

lemma types_compatible_sound: "types_compatible v l \<Longrightarrow> inhabits x v \<Longrightarrow> inhabits x l"
proof (induction v l arbitrary: x rule: types_compatible.induct)
  case (1 v l)
  then show ?case by (cases v) auto
next
  case (3 v l)
  then show ?case by (auto simp: list_all_iff split: rvalue.splits)
qed auto

lemma types_compatible_complete:
  "(\<And>x. inhabits x v \<Longrightarrow> inhabits x l) \<Longrightarrow> type_wf v \<Longrightarrow> type_wf l \<Longrightarrow> types_compatible v l"
proof (induction v l rule: types_compatible.induct [case_names non_null drop_named drop_list list named clash_named clash_list])
  case (non_null v l)
  show ?case
  proof (cases v)
    case (NonNull w)
    have "inhabits x l" if "inhabits x w" for x
    proof (cases "x = RNull")
      case True
      then show ?thesis using non_null.prems(3) by (cases l) (auto simp: null_inhabits nonnull_def)
    next
      case False
      with non_null.prems(1) [of x] that NonNull show ?thesis by simp
    qed
    with non_null NonNull show ?thesis by auto
  qed (use non_null.prems(1) [of RNull] in auto)
next
  case (drop_named v n)
  have "inhabits x (Named n)" if "inhabits x v" for x
    using drop_named.prems(1) [of x] that by (cases "x = RNull") auto
  with drop_named show ?case by auto
next
  case (drop_list v l)
  have "inhabits x (ListOf l)" if "inhabits x v" for x
    using drop_list.prems(1) [of x] that by (cases "x = RNull") auto
  with drop_list show ?case by auto
next
  case (list v l)
  have "inhabits x l" if "inhabits x v" for x
    using list.prems(1) [of "RList [x]"] that by auto
  with list show ?case by auto
next
  case (named a b)
  then show ?case using named.prems(1) [of "RNamed a"] by auto
next
  case (clash_named v b)
  then show ?case using clash_named.prems(1) [of "RList []"] by auto
next
  case (clash_list a l)
  then show ?case using clash_list.prems(1) [of "RNamed a"] by auto
qed

text \<open>
  C9. The type check of variables is exact: a variable of type \<open>v\<close> is admitted at a place of
  type \<open>l\<close> if and only if every value of \<open>v\<close> is a value of \<open>l\<close>.
\<close>

theorem variable_type_compatible_exact:
  assumes "type_wf v" and "type_wf l" and "type_repr l s"
  shows "gql_validation_variable_type_compatible (Some (type_node u v)) (Some s) \<longleftrightarrow>
    (\<forall>x. inhabits x v \<longrightarrow> inhabits x l)"
  using variable_type_compatible_types [OF assms] types_compatible_sound types_compatible_complete assms(1,2) by blast

theorem variable_type_compatible_exact_witness:
  "gql_validation_variable_type_compatible (Some (type_node True (NonNull (ListOf (NonNull (Named ''Int''))))))
     (Some (HV [(''kind'', PV False ''LIST''), (''of'', HV [(''kind'', PV False ''NAMED''), (''name'', PV False ''Int'')])]))
   \<and> \<not> gql_validation_variable_type_compatible (Some (type_node True (ListOf (Named ''Int''))))
     (Some (HV [(''kind'', PV False ''NON_NULL''), (''of'', HV [(''kind'', PV False ''NAMED''), (''name'', PV False ''Int'')])]))"
proof -
  have name: "valid_name ''Int''"
    by (simp add: valid_name_def name_start_def name_char_def isALNUM_def isALPHA_def byte_of_def)
  note repr = node_kind_def fetch_ok_def SvOK_def SvPOK_def hv_fetch_Cons
  have "\<forall>x. inhabits x (NonNull (ListOf (NonNull (Named ''Int'')))) \<longrightarrow> inhabits x (ListOf (Named ''Int''))"
    by (auto simp: list_all_iff split: rvalue.splits)
  moreover have "\<not> (\<forall>x. inhabits x (ListOf (Named ''Int'')) \<longrightarrow> inhabits x (NonNull (Named ''Int'')))"
    by (auto intro!: exI [of _ RNull])
  ultimately show ?thesis
    using variable_type_compatible_exact [of "NonNull (ListOf (NonNull (Named ''Int'')))" "ListOf (Named ''Int'')"
        "HV [(''kind'', PV False ''LIST''), (''of'', HV [(''kind'', PV False ''NAMED''), (''name'', PV False ''Int'')])]" True]
      variable_type_compatible_exact [of "ListOf (Named ''Int'')" "NonNull (Named ''Int'')"
        "HV [(''kind'', PV False ''NON_NULL''), (''of'', HV [(''kind'', PV False ''NAMED''), (''name'', PV False ''Int'')])]" True]
      name by (simp only: type_wf.simps gtype.case type_repr.simps sv.case option.case) (simp add: repr)
qed

end
