(* ===== verification/Coercion.thy ===== *)
theory Coercion
  imports Coercion_Types Validation_Values Roundtrip_Queries
begin

text \<open>
  The literals of a document against the input types of a schema. \<open>coerces\<close> is the rule book:
  which literal may stand where a type is expected. \<^verbatim>\<open>validate_value\<close> and \<^verbatim>\<open>validate_arguments\<close>
  report nothing exactly where it holds.
\<close>

section \<open>Abstract schemas\<close>

text \<open>
  Input types by name: scalars with the optional callback of the application, enums with
  their values, input objects (with the OneOf flag) with their fields: type, and whether
  there is a default. All other kinds of type are \<open>KOutput\<close>.
\<close>

datatype gkind =
    KScalar "sv option"
  | KEnum "string list"
  | KInput bool "(string \<times> gtype \<times> bool) list"
  | KOutput

type_synonym gschema = "string \<Rightarrow> gkind option"

text \<open>The variables of an operation: type, and whether there is a default that is not null.\<close>

type_synonym gvariables = "string \<Rightarrow> (gtype \<times> bool) option"

definition nullable :: "gtype \<Rightarrow> gtype" where
  "nullable t = (case t of NonNull s \<Rightarrow> s | _ \<Rightarrow> t)"

text \<open>A place with or without a default, and a variable with or without one.\<close>

definition usage_allowed :: "gtype \<Rightarrow> bool \<Rightarrow> gtype \<Rightarrow> bool \<Rightarrow> bool" where
  "usage_allowed v has_value t dflt =
     (if nonnull t \<and> \<not> nonnull v \<and> (has_value \<or> dflt) then types_compatible v (nullable t)
      else types_compatible v t)"

text \<open>A variable that is not defined is reported where its value is checked, not here.\<close>

definition position_ok :: "gvariables \<Rightarrow> gvalue \<Rightarrow> gtype \<Rightarrow> bool \<Rightarrow> bool" where
  "position_ok V v t dflt =
     (case v of
        VVar x \<Rightarrow> (case V x of Some (vt, has_value) \<Rightarrow> usage_allowed vt has_value t dflt | None \<Rightarrow> True)
      | _ \<Rightarrow> True)"

definition builtin_accepts :: "string \<Rightarrow> gvalue \<Rightarrow> bool" where
  "builtin_accepts n v =
     (case v of
        VInt i \<Rightarrow> n = ''Int'' \<and> - (2 ^ 31) \<le> i \<and> i < 2 ^ 31 \<or> n = ''Float'' \<or> n = ''ID''
      | VStr s \<Rightarrow> n = ''String'' \<or> n = ''ID''
      | VBool b \<Rightarrow> n = ''Boolean''
      | _ \<Rightarrow> False)"

definition scalar_accepts :: "gschema \<Rightarrow> (sv \<Rightarrow> sv \<Rightarrow> string option) \<Rightarrow> bool \<Rightarrow> gvalue \<Rightarrow> string \<Rightarrow> bool" where
  "scalar_accepts S call_sv u v n =
     (case S n of
        Some (KEnum vs) \<Rightarrow> (case v of VEnum e \<Rightarrow> e \<in> set vs | _ \<Rightarrow> False)
      | Some (KScalar code) \<Rightarrow>
          if builtin_scalar n then builtin_accepts n v
          else (case code of Some c \<Rightarrow> call_sv c (value_node u v) = None | None \<Rightarrow> True)
      | _ \<Rightarrow> False)"

function coerces ::
  "gschema \<Rightarrow> (sv \<Rightarrow> sv \<Rightarrow> string option) \<Rightarrow> gvariables \<Rightarrow> bool \<Rightarrow> gvalue \<Rightarrow> gtype \<Rightarrow> bool" where
  "coerces S call_sv V u v t =
     (case v of
        VNull \<Rightarrow> \<not> nonnull t
      | VVar x \<Rightarrow> V x \<noteq> None
      | VList vs \<Rightarrow>
          (case nullable t of
             ListOf s \<Rightarrow> list_all (\<lambda>w. position_ok V w s False \<and> coerces S call_sv V u w s) vs
           | _ \<Rightarrow> False)
      | VObj fs \<Rightarrow>
          (case S (type_name t) of
             Some (KInput one_of defs) \<Rightarrow>
               (one_of \<longrightarrow> length fs = 1 \<and> snd (hd fs) \<noteq> VNull) \<and>
               list_all (\<lambda>(k, w). case map_of defs k of
                   Some (s, d) \<Rightarrow> position_ok V w s d \<and> coerces S call_sv V u w s | None \<Rightarrow> False) fs \<and>
               list_all (\<lambda>(k, s, d). nonnull s \<and> \<not> d \<longrightarrow> k \<in> fst ` set fs) defs
           | _ \<Rightarrow> False)
      | _ \<Rightarrow> scalar_accepts S call_sv u v (type_name t))"
  by pat_completeness auto
termination
proof (relation "measure (\<lambda>(S, c, V, u, v, t). size v)", goal_cases)
  case (2 S c V u v t vs s w)
  then show ?case by (auto simp: less_Suc_eq_le size_list_estimation')
next
  case (3 S c V u v t fs K one_of defs e k w se s d)
  have "size w \<le> size_list (size_prod (\<lambda>_. 0) size) fs" if "(k, w) \<in> set fs"
    using that size_list_estimation' [of "(k, w)" fs "size w" "size_prod (\<lambda>_. 0) size"] by simp
  with 3 show ?case by (auto simp: less_Suc_eq_le)
qed simp

declare coerces.simps [simp del]

section \<open>What the compiled schema says\<close>

definition flag_of :: "hv \<Rightarrow> string \<Rightarrow> bool" where
  "flag_of h k = (case fetch_ok h k of Some f \<Rightarrow> SvTRUE f | None \<Rightarrow> False)"

definition input_repr :: "gtype \<times> bool \<Rightarrow> sv \<Rightarrow> bool" where
  "input_repr = (\<lambda>(t, d) s. case s of
     HV h \<Rightarrow> (case hv_fetch h ''type'' of Some r \<Rightarrow> type_repr t r | None \<Rightarrow> False) \<and> flag_of h ''has_default_value'' = d
   | _ \<Rightarrow> False)"

definition inputs_repr :: "(string \<times> gtype \<times> bool) list \<Rightarrow> hv \<Rightarrow> bool" where
  "inputs_repr defs h \<longleftrightarrow> distinct (map fst defs) \<and> set (map fst h) = set (map fst defs) \<and>
     list_all (\<lambda>(k, td). case hv_fetch h k of Some s \<Rightarrow> input_repr td s | None \<Rightarrow> False) defs"

fun kind_repr :: "gkind \<Rightarrow> hv \<Rightarrow> bool" where
  "kind_repr (KScalar code) h = (node_kind h = Some ''SCALAR'' \<and> fetch_ok h ''parse_value'' = code)"
| "kind_repr (KEnum vs) h = (node_kind h = Some ''ENUM'' \<and>
     (case fetch_hv h ''values'' of Some g \<Rightarrow> set (map fst g) = set vs | None \<Rightarrow> False))"
| "kind_repr (KInput one_of defs) h = (node_kind h = Some ''INPUT_OBJECT'' \<and> flag_of h ''is_one_of'' = one_of \<and>
     (case fetch_hv h ''fields'' of Some g \<Rightarrow> inputs_repr defs g | None \<Rightarrow> False))"
| "kind_repr KOutput h = (node_kind h \<in> {Some ''OBJECT'', Some ''INTERFACE'', Some ''UNION''})"

definition schema_repr :: "gschema \<Rightarrow> sv \<Rightarrow> bool" where
  "schema_repr S compiled \<longleftrightarrow>
     (\<forall>n u. case (S n, gql_validation_compiled_type_hv compiled (Some (PV u n))) of
        (None, None) \<Rightarrow> True | (Some k, Some h) \<Rightarrow> kind_repr k h | _ \<Rightarrow> False)"

definition input_type :: "gschema \<Rightarrow> gtype \<Rightarrow> bool" where
  "input_type S t \<longleftrightarrow> type_wf t \<and> S (type_name t) \<notin> {None, Some KOutput}"

text \<open>Built-in names belong to scalars, and the fields of input objects have input types.\<close>

definition schema_wf :: "gschema \<Rightarrow> bool" where
  "schema_wf S \<longleftrightarrow> (\<forall>n k. S n = Some k \<longrightarrow>
     (builtin_scalar n \<longrightarrow> (\<exists>code. k = KScalar code)) \<and>
     (case k of KInput one_of defs \<Rightarrow> list_all (\<lambda>(f, t, d). input_type S t) defs | _ \<Rightarrow> True))"

definition variable_repr :: "gtype \<times> bool \<Rightarrow> sv \<Rightarrow> bool" where
  "variable_repr = (\<lambda>(t, d) s. case s of
     HV h \<Rightarrow> type_wf t \<and> hv_fetch h ''type'' \<in> {Some (type_node False t), Some (type_node True t)} \<and>
       (fetch_ok h ''default_value'' \<noteq> None \<longleftrightarrow> d)
   | _ \<Rightarrow> False)"

text \<open>The code marks the environment of a fragment by a key of its own, which is no variable here.\<close>

definition variables_repr :: "gvariables \<Rightarrow> hv \<Rightarrow> bool" where
  "variables_repr V defs \<longleftrightarrow> \<not> hv_exists defs ''__defer_fragment_variables'' \<and>
     (\<forall>x. case (V x, hv_fetch defs x) of
        (None, None) \<Rightarrow> True | (Some td, Some s) \<Rightarrow> variable_repr td s | _ \<Rightarrow> False)"

section \<open>Variables at a place\<close>

lemma type_repr_nullable: "type_repr t s \<Longrightarrow> nonnull t \<Longrightarrow>
    \<exists>h i. s = HV h \<and> hv_fetch h ''of'' = Some i \<and> type_repr (nullable t) i"
  by (cases t) (auto simp: nonnull_def nullable_def split: sv.splits option.splits)

lemma type_node_non_null: "gql_validation_variable_type_is_kind (type_node u v) ''non_null'' = nonnull v"
  by (cases v) (simp_all add: nonnull_def)

lemma variable_fits_iff:
  assumes "variable_repr (vt, has_value) (HV variable)" "type_repr t s" "type_wf t"
  shows "variable_fits s variable d \<longleftrightarrow> usage_allowed vt has_value t d"
proof -
  obtain u where v: "type_wf vt" "hv_fetch variable ''type'' = Some (type_node u vt)"
      "fetch_ok variable ''default_value'' \<noteq> None \<longleftrightarrow> has_value"
    using assms(1) by (auto simp: variable_repr_def)
  have "type_repr (if nonnull t \<and> \<not> nonnull vt \<and> (has_value \<or> d) then nullable t else t) (position_type s variable d)"
    using v type_repr_nullable [OF assms(2)] type_repr_non_null [OF assms(2)] assms(2)
    by (auto simp: position_type_def type_node_non_null split: sv.splits)
  moreover have "type_wf (nullable t)" using assms(3) by (cases t) (auto simp: nullable_def)
  ultimately show ?thesis
    using v assms(3) variable_type_compatible_types
    by (auto simp: variable_fits_def usage_allowed_def split: if_splits)
qed

lemma value_variable_node:
  "value_variable (value_node u v) = (case v of VVar x \<Rightarrow> Some (PV u x) | _ \<Rightarrow> None)"
  by (cases v) (auto simp: value_variable_def SvROK_def)

lemma value_variable_ref [simp]: "value_variable (Ref (PV u x)) = Some (PV u x)"
  by (simp add: value_variable_def SvROK_def)

lemma variable_at_place:
  assumes "variables_repr V defs" "type_repr t s" "type_wf t"
  shows "(case variable_definition (Some defs) (value_node u v) of
     Some (name, variable) \<Rightarrow> variable_fits s variable d | None \<Rightarrow> True) \<longleftrightarrow> position_ok V v t d"
proof (cases "\<exists>x. v = VVar x")
  case True
  then obtain x where x: "v = VVar x" by blast
  show ?thesis
  proof (cases "V x")
    case None
    then have "hv_fetch defs x = None" using assms(1) by (auto simp: variables_repr_def dest!: spec [of _ x] split: option.splits)
    with None x show ?thesis
      by (simp add: variable_definition_def SvOK_def fetch_hv_def position_ok_def)
  next
    case (Some td)
    obtain vt has_value where td: "td = (vt, has_value)" by (cases td)
    obtain r where r: "hv_fetch defs x = Some r" "variable_repr (vt, has_value) r"
      using assms(1) Some td by (auto simp: variables_repr_def dest!: spec [of _ x] split: option.splits)
    then obtain variable where "r = HV variable" by (auto simp: variable_repr_def split: sv.splits)
    with r variable_fits_iff [of vt has_value variable t s d] assms(2,3) Some td x show ?thesis
      by (simp add: variable_definition_def SvOK_def fetch_hv_def position_ok_def)
  qed
next
  case False
  then have "position_ok V v t d" "value_variable (value_node u v) = None"
    by (auto simp: position_ok_def value_variable_node split: gvalue.splits)
  then show ?thesis by (simp add: variable_definition_def)
qed

lemma nested_position:
  assumes "variables_repr V defs" "type_repr t s" "type_wf t"
  shows "gql_validation_validate_nested_variable_position (value_node u v) (Some s) (Some defs) d place loc = [] \<longleftrightarrow>
    position_ok V v t d"
  unfolding variable_at_place [OF assms, where u = u and v = v and d = d, symmetric]
  by (auto simp: gql_validation_validate_nested_variable_position_def split: option.splits)

lemma argument_position:
  assumes "variables_repr V defs" "type_repr t s" "type_wf t" "hv_fetch field ''type'' = Some s" "has_default field = d"
  shows "argument_position_errors key (value_node u v) field (Some defs) loc = [] \<longleftrightarrow> position_ok V v t d"
  unfolding variable_at_place [OF assms(1-3), where u = u and v = v and d = d, symmetric]
  using assms(4,5) by (auto simp: argument_position_errors_def split: option.splits)

section \<open>Values\<close>

lemma compiled_type:
  assumes "schema_repr S compiled" "S n = Some k"
  obtains h where "gql_validation_compiled_type_hv compiled (Some (PV u n)) = Some h" "kind_repr k h"
  using assms(1) [unfolded schema_repr_def, rule_format, of n u] assms(2) by (auto split: option.splits)

lemma scalar_literal:
  assumes "schema_repr S compiled" "schema_wf S" "type_repr t s" "input_type S t"
    and v: "case v of VInt _ \<Rightarrow> True | VStr _ \<Rightarrow> True | VBool _ \<Rightarrow> True | VEnum _ \<Rightarrow> True | _ \<Rightarrow> False"
  shows "validate_literal call_sv compiled (value_node u v) (Some s) loc = [] \<longleftrightarrow> scalar_accepts S call_sv u v (type_name t)"
proof -
  obtain w where w: "gql_validation_named_type_name_sv s = Some (PV w (type_name t))" using type_repr_name [OF assms(3)] by blast
  obtain k where k: "S (type_name t) = Some k" "k \<noteq> KOutput" using assms(4) by (auto simp: input_type_def)
  obtain h where h: "gql_validation_compiled_type_hv compiled (Some (PV w (type_name t))) = Some h" "kind_repr k h"
    using compiled_type [OF assms(1) k(1)] .
  have builtin: "builtin_scalar (type_name t) \<Longrightarrow> \<exists>code. k = KScalar code" using assms(2) k(1) by (auto simp: schema_wf_def)
  show ?thesis
  proof (cases k)
    case (KScalar code)
    have accepts: "builtin_scalar (type_name t) \<Longrightarrow> builtin_valid (type_name t) (value_node u v) = builtin_accepts (type_name t) v"
      using v by (cases v) (auto simp: builtin_scalar_def builtin_valid_def builtin_accepts_def SvROK_def SvIOK_def SvNOK_def SvPOK_def
          sv_isobject_def)
    show ?thesis
      using KScalar h w k(1) accepts
      by (auto simp: validate_literal_def SvOK_def invalid_literal_def scalar_accepts_def split: option.splits)
  next
    case (KEnum vs)
    then obtain g where g: "fetch_hv h ''values'' = Some g" "set (map fst g) = set vs" using h(2) by (auto split: option.splits)
    have "enum_valid h (value_node u v) = (case v of VEnum e \<Rightarrow> e \<in> set vs | _ \<Rightarrow> False)"
      using v g by (cases v) (auto simp: enum_valid_def SvROK_def SvOK_def hv_exists_iff)
    with KEnum h w k(1) show ?thesis
      by (auto simp: validate_literal_def SvOK_def invalid_literal_def scalar_accepts_def)
  next
    case (KInput one_of defs)
    with h w k(1) builtin show ?thesis by (auto simp: validate_literal_def SvOK_def scalar_accepts_def)
  qed (use k in simp)
qed

lemma null_literal: "type_repr t s \<Longrightarrow> null_errors (Some s) loc = [] \<longleftrightarrow> \<not> nonnull t"
  by (simp add: null_errors_def type_repr_non_null)

lemma variable_value:
  "variables_repr V defs \<Longrightarrow> hv_exists defs x \<or> hv_exists defs ''__defer_fragment_variables'' \<longleftrightarrow> V x \<noteq> None"
  unfolding variables_repr_def hv_exists_def
  by (auto dest!: spec [of _ x] split: option.splits)

lemma ball_entries: "(\<And>k v. (k, v) \<in> set fs \<Longrightarrow> P k \<longleftrightarrow> Q (k, v)) \<Longrightarrow> (\<forall>k \<in> fst ` set fs. P k) \<longleftrightarrow> (\<forall>x \<in> set fs. Q x)"
proof -
  assume PQ: "\<And>k v. (k, v) \<in> set fs \<Longrightarrow> P k \<longleftrightarrow> Q (k, v)"
  have "P (fst x) \<longleftrightarrow> Q x" if "x \<in> set fs" for x using PQ [of "fst x" "snd x"] that by simp
  then show ?thesis by simp
qed

text \<open>Missing fields and the rule of OneOf objects.\<close>

lemma inputs_fetch:
  assumes "inputs_repr defs g"
  shows "hv_fetch g k = None \<longleftrightarrow> map_of defs k = None"
    and "map_of defs k = Some td \<Longrightarrow> \<exists>s. hv_fetch g k = Some s \<and> input_repr td s"
proof -
  show "hv_fetch g k = None \<longleftrightarrow> map_of defs k = None"
    using assms by (auto simp: inputs_repr_def hv_fetch_def map_of_eq_None_iff)
  show "map_of defs k = Some td \<Longrightarrow> \<exists>s. hv_fetch g k = Some s \<and> input_repr td s"
    using assms by (auto simp: inputs_repr_def list_all_iff dest!: map_of_SomeD split: option.splits)
qed

lemma input_reprE:
  assumes "input_repr (t, d) s"
  obtains h i where "s = HV h" "hv_fetch h ''type'' = Some i" "type_repr t i" "flag_of h ''has_default_value'' = d"
  using assms by (auto simp: input_repr_def split: sv.splits option.splits)

lemma has_default_flag: "has_default h = flag_of h ''has_default_value''"
  by (auto simp: has_default_def flag_of_def fetch_ok_def SvOK_def SvTRUE_def split: option.splits)

lemma required_input_repr: "input_repr (t, d) s \<Longrightarrow> required_input s \<longleftrightarrow> nonnull t \<and> \<not> d"
  by (erule input_reprE) (auto simp: required_input_def flag_of_def type_repr_non_null split: option.splits)

lemma required_all:
  assumes "inputs_repr defs g"
  shows "(\<forall>k \<in> set (gql_parser_sorted_hash_keys g). k \<in> fst ` set h \<or>
      \<not> (case hv_fetch g k of Some d \<Rightarrow> required_input d | None \<Rightarrow> False)) \<longleftrightarrow>
    list_all (\<lambda>(k, t, d). nonnull t \<and> \<not> d \<longrightarrow> k \<in> fst ` set h) defs"
proof -
  let ?Q = "\<lambda>k. k \<in> fst ` set h \<or> \<not> (case hv_fetch g k of Some d \<Rightarrow> required_input d | None \<Rightarrow> False)"
  have keys: "fst ` set g = fst ` set defs" and dist: "distinct (map fst defs)" using assms by (auto simp: inputs_repr_def)
  have req: "(case hv_fetch g k of Some d \<Rightarrow> required_input d | None \<Rightarrow> False) = (nonnull t \<and> \<not> d)" if "(k, t, d) \<in> set defs" for k t d
    using inputs_fetch(2) [OF assms, of k "(t, d)"] dist that required_input_repr [of t d] by auto
  have "(\<forall>k \<in> set (gql_parser_sorted_hash_keys g). ?Q k) \<longleftrightarrow> (\<forall>(k, t, d) \<in> set defs. nonnull t \<and> \<not> d \<longrightarrow> k \<in> fst ` set h)"
    unfolding set_sorted_hash_keys keys by (rule ball_entries) (auto simp: req)
  then show ?thesis by (auto simp: list_all_iff)
qed

lemma missing_fields_iff:
  assumes "inputs_repr defs g"
  shows "missing_fields g tn h loc = [] \<longleftrightarrow> list_all (\<lambda>(k, t, d). nonnull t \<and> \<not> d \<longrightarrow> k \<in> fst ` set h) defs"
  unfolding required_all [OF assms, symmetric] by (auto simp: missing_fields_def hv_exists_iff)

lemma one_of_iff:
  "flag_of h ''is_one_of'' = one_of \<Longrightarrow> one_of_errors h n (map (entry_node u) fs) loc = [] \<longleftrightarrow>
    (one_of \<longrightarrow> length fs = 1 \<and> snd (hd fs) \<noteq> VNull)"
proof -
  have "SvOK (snd (hd (map (entry_node u) fs))) \<longleftrightarrow> snd (hd fs) \<noteq> VNull" if "length fs = 1"
    using that by (cases fs; cases "snd (hd fs)") (auto simp: entry_node_def SvOK_def split: prod.splits)
  then show "flag_of h ''is_one_of'' = one_of \<Longrightarrow> ?thesis"
    by (auto simp: one_of_errors_def flag_of_def split: option.splits)
qed

lemma list_item_type_iff:
  assumes "type_repr t s" "type_wf t"
  shows "case nullable t of ListOf r \<Rightarrow> \<exists>i. list_item_type (Some s) = Some (Some i) \<and> type_repr r i
    | _ \<Rightarrow> list_item_type (Some s) = None"
proof (cases t)
  case (Named n)
  with assms show ?thesis
    by (auto simp: nullable_def list_item_type_def gql_validation_type_is_non_null_def split: sv.splits option.splits)
next
  case (ListOf r)
  with assms(1) obtain h i where "s = HV h" "node_kind h = Some ''LIST''" "hv_fetch h ''of'' = Some i" "type_repr r i"
    by (auto split: sv.splits option.splits)
  with ListOf show ?thesis by (simp add: nullable_def list_item_type_def gql_validation_type_is_non_null_def)
next
  case (NonNull w)
  with assms(1) obtain h i where h: "s = HV h" "node_kind h = Some ''NON_NULL''" "hv_fetch h ''of'' = Some i" "type_repr w i"
    by (auto split: sv.splits option.splits)
  show ?thesis
  proof (cases w)
    case (Named n)
    with h NonNull show ?thesis
      by (auto simp: nullable_def list_item_type_def gql_validation_type_is_non_null_def split: sv.splits option.splits)
  next
    case (ListOf r)
    with h(4) obtain g j where "i = HV g" "node_kind g = Some ''LIST''" "hv_fetch g ''of'' = Some j" "type_repr r j"
      by (auto split: sv.splits option.splits)
    with h(1-3) NonNull ListOf show ?thesis by (simp add: nullable_def list_item_type_def gql_validation_type_is_non_null_def)
  qed (use assms(2) NonNull in auto)
qed

lemma concat_map_Nil: "concat (map f xs) = [] \<longleftrightarrow> list_all (\<lambda>x. f x = []) xs"
  by (induction xs) auto

lemma if_report: "(if c then [e] else []) = [] \<longleftrightarrow> \<not> c"
  by simp

lemma input_type_item: "input_type S t \<Longrightarrow> nullable t = ListOf r \<Longrightarrow> input_type S r"
  by (cases t) (auto simp: input_type_def nullable_def)

lemma entry_fetch: "distinct (map fst fs) \<Longrightarrow> (k, v) \<in> set fs \<Longrightarrow> hv_fetch (map (entry_node u) fs) k = Some (value_node u v)"
proof -
  assume fs: "distinct (map fst fs)" "(k, v) \<in> set fs"
  have "map fst (map (entry_node u) fs) = map fst fs" by (simp add: entry_node_def case_prod_unfold comp_def)
  then have "distinct (map fst (map (entry_node u) fs))" using fs(1) by (simp only:)
  then show ?thesis
    unfolding hv_fetch_def using fs(2) by (intro map_of_is_SomeI) (auto simp: entry_node_def intro: rev_image_eqI)
qed

lemma keys_entry_node: "fst ` set (map (entry_node u) fs) = fst ` set fs"
  by (force simp: entry_node_def)

lemma validate_value_iff:
  assumes "schema_repr S compiled" "schema_wf S" "variables_repr V defs"
  shows "value_wf False v \<Longrightarrow> type_repr t s \<Longrightarrow> input_type S t \<Longrightarrow>
    gql_validation_validate_value call_sv compiled (value_node u v) (Some s) (Some defs) loc = [] \<longleftrightarrow>
    coerces S call_sv V u v t"
proof (induction v arbitrary: t s)
  case (VVar x)
  then show ?case
    using variable_value [OF assms(3), of x]
    by (subst gql_validation_validate_value.simps, subst coerces.simps) simp
next
  case (VInt i)
  with scalar_literal [OF assms(1,2) VInt(2,3), of "VInt i"] show ?case
    by (subst gql_validation_validate_value.simps, subst coerces.simps) (simp add: value_variable_def)
next
  case (VStr x)
  with scalar_literal [OF assms(1,2) VStr(2,3), of "VStr x"] show ?case
    by (subst gql_validation_validate_value.simps, subst coerces.simps) (simp add: value_variable_def)
next
  case (VBool b)
  with scalar_literal [OF assms(1,2) VBool(2,3), of "VBool b"] show ?case
    by (subst gql_validation_validate_value.simps, subst coerces.simps) (simp add: value_variable_def)
next
  case VNull
  then show ?case
    by (subst gql_validation_validate_value.simps, subst coerces.simps) (simp add: null_literal)
next
  case (VEnum e)
  with scalar_literal [OF assms(1,2) VEnum(2,3), of "VEnum e"] show ?case
    by (subst gql_validation_validate_value.simps, subst coerces.simps) (simp add: value_variable_def SvROK_def)
next
  case (VList vs)
  have wf: "type_wf t" using VList.prems(3) by (simp add: input_type_def)
  show ?case
  proof (cases "\<exists>r. nullable t = ListOf r")
    case True
    then obtain r where r: "nullable t = ListOf r" by blast
    with list_item_type_iff [OF VList.prems(2) wf] obtain i where i: "list_item_type (Some s) = Some (Some i)" "type_repr r i" by auto
    have item: "input_type S r" using input_type_item [OF VList.prems(3) r] .
    have "gql_validation_validate_value call_sv compiled (value_node u (VList vs)) (Some s) (Some defs) loc = [] \<longleftrightarrow>
        list_all (\<lambda>w. gql_validation_validate_nested_variable_position (value_node u w) (Some i) (Some defs) False ''a list item'' loc = []
          \<and> gql_validation_validate_value call_sv compiled (value_node u w) (Some i) (Some defs) loc = []) vs"
      by (subst gql_validation_validate_value.simps) (simp add: i concat_map_Nil list_all_iff)
    also have "\<dots> \<longleftrightarrow> list_all (\<lambda>w. position_ok V w r False \<and> coerces S call_sv V u w r) vs"
      using VList.IH [OF _ _ i(2) item] VList.prems(1) nested_position [OF assms(3) i(2)] item
      by (auto simp: list_all_iff input_type_def)
    finally show ?thesis by (subst coerces.simps) (simp add: r)
  next
    case False
    then have "list_item_type (Some s) = None"
      using list_item_type_iff [OF VList.prems(2) wf] by (auto split: gtype.splits)
    with False show ?thesis
      by (subst gql_validation_validate_value.simps, subst coerces.simps) (simp split: gtype.split)
  qed
next
  case (VObj fs)
  obtain w where w: "gql_validation_named_type_name_sv s = Some (PV w (type_name t))" using type_repr_name [OF VObj.prems(2)] by blast
  obtain k where k: "S (type_name t) = Some k" using VObj.prems(3) by (auto simp: input_type_def)
  obtain h where h: "gql_validation_compiled_type_hv compiled (Some (PV w (type_name t))) = Some h" "kind_repr k h"
    using compiled_type [OF assms(1) k] .
  show ?case
  proof (cases "\<exists>one_of ds. k = KInput one_of ds")
    case False
    then have "node_kind h \<noteq> Some ''INPUT_OBJECT''" using h(2) by (cases k) auto
    with False k h(1) w show ?thesis
      by (subst gql_validation_validate_value.simps, subst coerces.simps) (auto simp: Let_def split: gkind.splits)
  next
    case True
    then obtain one_of ds where kd: "k = KInput one_of ds" by blast
    with h(2) obtain g where g: "fetch_hv h ''fields'' = Some g" "inputs_repr ds g" "flag_of h ''is_one_of'' = one_of"
        "node_kind h = Some ''INPUT_OBJECT''" by (auto split: option.splits)
    have dist: "distinct (map fst fs)" using VObj.prems(1) by simp
    have "list_all (\<lambda>(f, t, d). input_type S t) ds" using assms(2) k kd unfolding schema_wf_def by force
    then have types: "input_type S r" if "map_of ds key = Some (r, d)" for key r d
      using map_of_SomeD [OF that] by (auto simp: list_all_iff)
    let ?h = "map (entry_node u) fs" and ?tn = "Some (PV w (type_name t))"
    let ?entry = "\<lambda>key. case hv_fetch g key of
         None \<Rightarrow> [gql_validation_error
                   (quote_name ''Input field '' key (quote_name '' is not defined on type '' (type_text ?tn) ''.'')) loc]
       | Some (HV field) \<Rightarrow>
           (case hv_fetch ?h key of
              None \<Rightarrow> []
            | Some x \<Rightarrow>
                gql_validation_validate_nested_variable_position x (hv_fetch field ''type'')
                  (Some defs) (has_default field) ''an input object field'' loc @
                gql_validation_validate_value call_sv compiled x (hv_fetch field ''type'') (Some defs) loc)
       | Some _ \<Rightarrow> []"
    let ?fits = "\<lambda>(key, v). case map_of ds key of
        Some (r, d) \<Rightarrow> position_ok V v r d \<and> coerces S call_sv V u v r | None \<Rightarrow> False"
    have entry: "?entry key = [] \<longleftrightarrow> ?fits (key, v)" if kv: "(key, v) \<in> set fs" for key v
    proof (cases "map_of ds key")
      case None
      then show ?thesis using inputs_fetch(1) [OF g(2), of key] by simp
    next
      case (Some rd)
      obtain r d where rd: "rd = (r, d)" by (cases rd)
      obtain q where "hv_fetch g key = Some q" "input_repr (r, d) q" using inputs_fetch(2) [OF g(2)] Some rd by blast
      then obtain field i where f: "hv_fetch g key = Some (HV field)" "hv_fetch field ''type'' = Some i" "type_repr r i"
          "has_default field = d" by (auto elim!: input_reprE simp: has_default_flag)
      have v: "value_wf False v" using VObj.prems(1) kv by (auto simp: list_all_iff)
      have r: "input_type S r" using types Some rd by simp
      have "v \<in> Basic_BNFs.snds (key, v)" by simp
      from VObj.IH [OF kv this v f(3) r] nested_position [OF assms(3) f(3)] r Some rd f entry_fetch [OF dist kv]
      show ?thesis by (simp add: input_type_def)
    qed
    have keys: "set (gql_parser_sorted_hash_keys ?h) = fst ` set fs" using keys_entry_node by simp
    have "gql_validation_validate_value call_sv compiled (value_node u (VObj fs)) (Some s) (Some defs) loc = [] \<longleftrightarrow>
        one_of_errors h ?tn ?h loc = [] \<and> (\<forall>key \<in> set (gql_parser_sorted_hash_keys ?h). ?entry key = []) \<and>
        missing_fields g ?tn ?h loc = []"
      by (subst gql_validation_validate_value.simps)
        (simp add: Let_def w h(1) g(1,4) concat_map_Nil list_all_iff entry_node_def [symmetric] cong: if_cong)
    also have "\<dots> \<longleftrightarrow> one_of_errors h ?tn ?h loc = [] \<and> (\<forall>x \<in> set fs. ?fits x) \<and> missing_fields g ?tn ?h loc = []"
      unfolding keys using ball_entries [of fs "\<lambda>key. ?entry key = []" ?fits] entry by blast
    also have "\<dots> \<longleftrightarrow> coerces S call_sv V u (VObj fs) t"
      unfolding one_of_iff [OF g(3)] missing_fields_iff [OF g(2)] keys_entry_node
      by (subst coerces.simps) (simp add: k kd list_all_iff)
    finally show ?thesis .
  qed
qed

section \<open>Arguments\<close>

definition arguments_accepted ::
  "gschema \<Rightarrow> (sv \<Rightarrow> sv \<Rightarrow> string option) \<Rightarrow> gvariables \<Rightarrow> bool \<Rightarrow> (string \<times> gtype \<times> bool) list \<Rightarrow> (string \<times> gvalue) list \<Rightarrow> bool"
where
  "arguments_accepted S call_sv V u ds as \<longleftrightarrow>
     list_all (\<lambda>(k, v). case map_of ds k of
         Some (t, d) \<Rightarrow> position_ok V v t d \<and> coerces S call_sv V u v t | None \<Rightarrow> False) as \<and>
     list_all (\<lambda>(k, t, d). nonnull t \<and> \<not> d \<longrightarrow> k \<in> fst ` set as) ds"

lemma validate_arguments_accepted:
  assumes "schema_repr S compiled" and "schema_wf S" and "variables_repr V defs"
    and "inputs_repr ds g" and "list_all (\<lambda>(k, t, d). input_type S t) ds" and "args_wf False as"
  shows "gql_validation_validate_arguments call_sv compiled (map (entry_node u) as) g (Some defs) loc = [] \<longleftrightarrow>
    arguments_accepted S call_sv V u ds as"
proof -
  let ?h = "map (entry_node u) as"
  have dist: "distinct (map fst as)" using assms(6) by (simp add: args_wf_def)
  let ?arg = "\<lambda>key. case hv_fetch g key of
         None \<Rightarrow> [gql_validation_error (quote_name ''Unknown argument '' key ''.'') loc]
       | Some (HV def_hv) \<Rightarrow>
           (case hv_fetch ?h key of
              None \<Rightarrow> []
            | Some arg_value \<Rightarrow>
                argument_position_errors key arg_value def_hv (Some defs) loc @
                gql_validation_validate_value call_sv compiled arg_value (hv_fetch def_hv ''type'') (Some defs) loc)
       | Some _ \<Rightarrow> []"
  let ?fits = "\<lambda>(key, v). case map_of ds key of
      Some (t, d) \<Rightarrow> position_ok V v t d \<and> coerces S call_sv V u v t | None \<Rightarrow> False"
  have arg: "?arg key = [] \<longleftrightarrow> ?fits (key, v)" if kv: "(key, v) \<in> set as" for key v
  proof (cases "map_of ds key")
    case None
    then show ?thesis using inputs_fetch(1) [OF assms(4), of key] by simp
  next
    case (Some td)
    obtain t d where td: "td = (t, d)" by (cases td)
    obtain q where "hv_fetch g key = Some q" "input_repr (t, d) q" using inputs_fetch(2) [OF assms(4)] Some td by blast
    then obtain field s where f: "hv_fetch g key = Some (HV field)" "hv_fetch field ''type'' = Some s" "type_repr t s"
        "has_default field = d" by (auto elim!: input_reprE simp: has_default_flag)
    have v: "value_wf False v" using assms(6) kv by (auto simp: args_wf_def entry_wf_def list_all_iff)
    have t: "input_type S t" using assms(5) map_of_SomeD [OF Some] td by (auto simp: list_all_iff)
    then have "type_wf t" by (simp add: input_type_def)
    from validate_value_iff [OF assms(1-3) v f(3) t] argument_position [OF assms(3) f(3) this f(2,4)] Some td f entry_fetch [OF dist kv]
    show ?thesis by simp
  qed
  have keys: "set (gql_parser_sorted_hash_keys ?h) = fst ` set as" using keys_entry_node by simp
  have "gql_validation_validate_arguments call_sv compiled ?h g (Some defs) loc = [] \<longleftrightarrow>
      (\<forall>key \<in> set (gql_parser_sorted_hash_keys ?h). ?arg key = []) \<and>
      (\<forall>k \<in> set (gql_parser_sorted_hash_keys g). k \<in> fst ` set ?h \<or>
        \<not> (case hv_fetch g k of Some d \<Rightarrow> required_input d | None \<Rightarrow> False))"
    unfolding gql_validation_validate_arguments_def append_is_Nil_conv concat_map_Nil list_all_iff hv_exists_iff if_report
    by blast
  also have "\<dots> \<longleftrightarrow> (\<forall>x \<in> set as. ?fits x) \<and> list_all (\<lambda>(k, t, d). nonnull t \<and> \<not> d \<longrightarrow> k \<in> fst ` set as) ds"
    unfolding keys required_all [OF assms(4)] keys_entry_node
    using ball_entries [of as "\<lambda>key. ?arg key = []" ?fits] arg by blast
  finally show ?thesis by (simp add: arguments_accepted_def list_all_iff)
qed


text \<open>A schema with a scalar, an enum and an input object, and the arguments \<^verbatim>\<open>(at: {n: $x, c: RED})\<close>.\<close>

definition named_ref :: "string \<Rightarrow> sv" where
  "named_ref n = HV [(''kind'', PV False ''NAMED''), (''name'', PV False n)]"

definition non_null_ref :: "sv \<Rightarrow> sv" where
  "non_null_ref s = HV [(''kind'', PV False ''NON_NULL''), (''of'', s)]"

definition sample_compiled :: sv where
  "sample_compiled = HV [(''types'', HV
     [(''Int'', HV [(''kind'', PV False ''SCALAR'')]),
      (''Color'', HV [(''kind'', PV False ''ENUM''), (''values'', HV [(''RED'', Undef)])]),
      (''In'', HV [(''kind'', PV False ''INPUT_OBJECT''), (''fields'', HV
         [(''n'', HV [(''type'', non_null_ref (named_ref ''Int''))]),
          (''c'', HV [(''type'', named_ref ''Color'')])])])])]"

definition sample_inputs :: "(string \<times> gkind) list" where
  "sample_inputs =
     [(''Int'', KScalar None), (''Color'', KEnum [''RED'']),
      (''In'', KInput False [(''n'', NonNull (Named ''Int''), False), (''c'', Named ''Color'', False)])]"

definition sample_arguments :: "(string \<times> gvalue) list" where
  "sample_arguments = [(''at'', VObj [(''n'', VVar ''x''), (''c'', VEnum ''RED'')])]"

lemmas repr_simps = named_ref_def non_null_ref_def node_kind_def fetch_ok_def SvOK_def SvPOK_def hv_fetch_Cons fetch_hv_def
  flag_of_def hv_exists_def

lemma sample_schema_repr: "schema_repr (map_of sample_inputs) sample_compiled"
  unfolding schema_repr_def
proof (intro allI)
  fix n u
  consider "n = ''Int''" | "n = ''Color''" | "n = ''In''" | "''In'' \<noteq> n" "''Color'' \<noteq> n" "''Int'' \<noteq> n" by blast
  then show "case (map_of sample_inputs n, gql_validation_compiled_type_hv sample_compiled (Some (PV u n))) of
      (None, None) \<Rightarrow> True | (Some k, Some h) \<Rightarrow> kind_repr k h | _ \<Rightarrow> False"
    by cases (simp_all add: sample_inputs_def sample_compiled_def gql_validation_compiled_type_hv_def
        gql_validation_compiled_hv_from_sv_def inputs_repr_def input_repr_def repr_simps insert_commute)
qed

lemma sample_schema_wf: "schema_wf (map_of sample_inputs)"
  by (auto simp: schema_wf_def sample_inputs_def builtin_scalar_def input_type_def valid_name_def name_start_def name_char_def
      isALNUM_def isALPHA_def byte_of_def)


end
