(* ===== verification/Schema_Compiler.thy ===== *)
theory Schema_Compiler
  imports Validation_Structure
begin

text \<open>
  \<^verbatim>\<open>src/schema_compiler.h\<close>: from the Perl objects of a schema to the hash the validator and the
  VM read. The objects are values of which the code only asks what the record \<open>perl_runtime\<close>
  answers: the class, \<^verbatim>\<open>sv_derived_from\<close>, the address, the hash behind the reference, and method
  calls, which give the values left on the stack or the exception thrown. Arrays have no holes
  here, so the null elements the loops skip do not occur. A type reference recurses over the
  method \<^verbatim>\<open>of\<close>: the first argument of the compilers counts these nested calls.
\<close>

section \<open>Perl objects\<close>

datatype schema_error =
    Perl_Died string
  | Schema_Croak string
  | Schema_Frames

record perl_runtime =
  pr_class :: "sv \<Rightarrow> string option"
  pr_derived_from :: "sv \<Rightarrow> string \<Rightarrow> bool"
  pr_addr :: "sv \<Rightarrow> int"
  pr_hash :: "sv \<Rightarrow> hv option"
  pr_call0 :: "sv \<Rightarrow> string \<Rightarrow> string + sv list"
  pr_call1 :: "sv \<Rightarrow> string \<Rightarrow> sv \<Rightarrow> string + sv list"

type_synonym 'a compiled = "schema_error + 'a"

definition gql_schema_class_name :: "perl_runtime \<Rightarrow> sv \<Rightarrow> string" where
  "gql_schema_class_name rt s =
     (if SvROK s then (case pr_class rt s of Some c \<Rightarrow> c | None \<Rightarrow> []) else [])"

definition gql_schema_refaddr :: "perl_runtime \<Rightarrow> sv \<Rightarrow> int" where
  "gql_schema_refaddr rt s = (if SvROK s then pr_addr rt s else 0)"

definition scalar_result :: "string \<Rightarrow> string + sv list \<Rightarrow> sv compiled" where
  "scalar_result method r =
     (case r of
        Inl message \<Rightarrow> Inl (Perl_Died message)
      | Inr [ret] \<Rightarrow> Inr ret
      | Inr _ \<Rightarrow> Inl (Schema_Croak (''Method '' @ method @ '' did not return a scalar'')))"

definition gql_schema_call_method0 :: "perl_runtime \<Rightarrow> sv \<Rightarrow> string \<Rightarrow> sv compiled" where
  "gql_schema_call_method0 rt invocant method = scalar_result method (pr_call0 rt invocant method)"

definition gql_schema_call_method1 :: "perl_runtime \<Rightarrow> sv \<Rightarrow> string \<Rightarrow> sv \<Rightarrow> sv compiled" where
  "gql_schema_call_method1 rt invocant method arg = scalar_result method (pr_call1 rt invocant method arg)"

definition gql_schema_does_role :: "perl_runtime \<Rightarrow> sv \<Rightarrow> string \<Rightarrow> bool compiled" where
  "gql_schema_does_role rt obj role =
     bnd (gql_schema_call_method1 rt obj ''DOES'' (PV False role)) (\<lambda>ret. Inr (SvTRUE ret))"

fun gql_schema_does_any_role :: "perl_runtime \<Rightarrow> sv \<Rightarrow> string list \<Rightarrow> bool compiled" where
  "gql_schema_does_any_role rt obj [] = Inr False"
| "gql_schema_does_any_role rt obj (role # roles) =
     bnd (gql_schema_does_role rt obj role) (\<lambda>b.
     if b then Inr True else gql_schema_does_any_role rt obj roles)"

section \<open>Copies\<close>

definition gql_schema_clone_hashref_shallow :: "sv \<Rightarrow> sv" where
  "gql_schema_clone_hashref_shallow s =
     (case s of
        HV src \<Rightarrow>
          HV (foldl (\<lambda>dst key. case hv_fetch src key of Some v \<Rightarrow> hv_store dst key v | None \<Rightarrow> dst) []
                (gql_parser_sorted_hash_keys src))
      | _ \<Rightarrow> HV [])"

definition gql_schema_clone_arrayref_shallow :: "sv \<Rightarrow> sv" where
  "gql_schema_clone_arrayref_shallow s = (case s of AV src \<Rightarrow> AV (map id src) | _ \<Rightarrow> AV [])"

text \<open>
  \<open>store_all\<close> is a run of \<^verbatim>\<open>gql_store_sv\<close>, \<open>store_opt\<close> one behind a null test. A value that is
  copied or set to undef, and a flag stored as 0 or 1.
\<close>

definition store_all :: "hv \<Rightarrow> (string \<times> sv) list \<Rightarrow> hv" where
  "store_all h kvs = foldl (\<lambda>h (k, v). gql_store_sv h k v) h kvs"

definition store_opt :: "hv \<Rightarrow> string \<Rightarrow> sv option \<Rightarrow> hv" where
  "store_opt h key v = (case v of Some x \<Rightarrow> gql_store_sv h key x | None \<Rightarrow> h)"

definition copy_or_undef :: "hv \<Rightarrow> string \<Rightarrow> sv" where
  "copy_or_undef h key = (case hv_fetch h key of Some v \<Rightarrow> v | None \<Rightarrow> Undef)"

definition flag_iv :: "bool \<Rightarrow> sv" where
  "flag_iv b = IV (if b then 1 else 0)"

definition true_at :: "hv \<Rightarrow> string \<Rightarrow> bool" where
  "true_at h key = (case hv_fetch h key of Some v \<Rightarrow> SvTRUE v | None \<Rightarrow> False)"

section \<open>Type references\<close>

definition isa_type :: "perl_runtime \<Rightarrow> sv \<Rightarrow> string \<Rightarrow> bool" where
  "isa_type rt t c \<longleftrightarrow>
     pr_derived_from rt t (''GraphQL::Type::'' @ c) \<or> pr_derived_from rt t (''GraphQL::Houtou::Type::'' @ c)"

definition gql_schema_named_type_kind :: "perl_runtime \<Rightarrow> sv \<Rightarrow> string compiled" where
  "gql_schema_named_type_kind rt t =
     (if isa_type rt t ''Scalar'' then Inr ''SCALAR''
      else if isa_type rt t ''Object'' then Inr ''OBJECT''
      else if isa_type rt t ''Interface'' then Inr ''INTERFACE''
      else if isa_type rt t ''Union'' then Inr ''UNION''
      else if isa_type rt t ''Enum'' then Inr ''ENUM''
      else if isa_type rt t ''InputObject'' then Inr ''INPUT_OBJECT''
      else Inl (Schema_Croak (''unknown GraphQL named type class '' @ gql_schema_class_name rt t)))"

fun gql_schema_compile_type_ref :: "nat \<Rightarrow> perl_runtime \<Rightarrow> sv \<Rightarrow> sv compiled" where
  "gql_schema_compile_type_ref 0 rt t = Inl Schema_Frames"
| "gql_schema_compile_type_ref (Suc n) rt t =
     (let wrapper = (\<lambda>kind.
            bnd (gql_schema_call_method0 rt t ''of'') (\<lambda>inner.
            bnd (gql_schema_call_method0 rt t ''to_string'') (\<lambda>type_string.
            bnd (gql_schema_compile_type_ref n rt inner) (\<lambda>inner_ref.
            Inr (HV (store_all []
              [(''kind'', PV False kind), (''of'', inner_ref), (''type_string'', type_string), (''source_type'', t),
               (''source_type_id'', IV (gql_schema_refaddr rt t))]))))))
      in if \<not> SvOK t then Inl (Schema_Croak ''cannot compile undefined GraphQL type reference'')
         else if isa_type rt t ''NonNull'' then wrapper ''NON_NULL''
         else if isa_type rt t ''List'' then wrapper ''LIST''
         else
           bnd (gql_schema_call_method0 rt t ''name'') (\<lambda>name.
           bnd (gql_schema_named_type_kind rt t) (\<lambda>kind.
           bnd (gql_schema_call_method0 rt t ''to_string'') (\<lambda>type_string.
           Inr (HV (store_all []
             [(''kind'', PV False ''NAMED''), (''name'', name), (''named_kind'', PV False kind),
              (''type_string'', type_string), (''source_type'', t),
              (''source_type_id'', IV (gql_schema_refaddr rt t))]))))))"

definition gql_schema_compile_type_name_array :: "perl_runtime \<Rightarrow> sv \<Rightarrow> sv compiled" where
  "gql_schema_compile_type_name_array rt s =
     (case s of
        AV items \<Rightarrow>
          bnd (each (\<lambda>item out.
                 bnd (gql_schema_call_method0 rt item ''name'') (\<lambda>name. Inr (out @ [name]))) items []) (\<lambda>names.
          Inr (AV names))
      | _ \<Rightarrow> Inr (AV []))"

section \<open>Directive instances, input fields, fields, enum values\<close>

definition gql_schema_compile_directive_instances :: "sv \<Rightarrow> sv" where
  "gql_schema_compile_directive_instances s =
     (case s of
        AV items \<Rightarrow>
          AV (map (\<lambda>dir. HV (store_all []
                [(''name'', copy_or_undef dir ''name''),
                 (''arguments'',
                    case hv_fetch dir ''arguments'' of
                      Some args \<Rightarrow> gql_schema_clone_hashref_shallow args | None \<Rightarrow> HV []),
                 (''source_directive'', HV dir)])) (hashes items))
      | _ \<Rightarrow> AV [])"

definition directives_at :: "hv \<Rightarrow> sv" where
  "directives_at field =
     (case hv_fetch field ''directives'' of
        Some ds \<Rightarrow> gql_schema_compile_directive_instances ds | None \<Rightarrow> AV [])"

text \<open>The loop over the hashes of a hash, in the order of the sorted keys.\<close>

definition compile_entries :: "(string \<Rightarrow> hv \<Rightarrow> sv compiled) \<Rightarrow> sv \<Rightarrow> sv compiled" where
  "compile_entries entry s =
     (case s of
        HV h \<Rightarrow>
          bnd (each (\<lambda>key out.
                 case hv_fetch h key of
                   Some (HV field) \<Rightarrow> bnd (entry key field) (\<lambda>c. Inr (hv_store out key c))
                 | _ \<Rightarrow> Inr out) (gql_parser_sorted_hash_keys h) []) (\<lambda>out.
          Inr (HV out))
      | _ \<Rightarrow> Inr (HV []))"

definition compile_input_field :: "nat \<Rightarrow> perl_runtime \<Rightarrow> string \<Rightarrow> hv \<Rightarrow> sv compiled" where
  "compile_input_field n rt key field =
     (case hv_fetch field ''type'' of
        None \<Rightarrow> Inl (Schema_Croak ''schema compiler expected input field type'')
      | Some t \<Rightarrow>
          bnd (gql_schema_compile_type_ref n rt t) (\<lambda>type.
          Inr (HV (store_all []
            [(''name'', PV False key), (''type'', type),
             (''description'', copy_or_undef field ''description''),
             (''default_value'', copy_or_undef field ''default_value''),
             (''has_default_value'', flag_iv (hv_exists field ''default_value'')),
             (''directives'', directives_at field),
             (''deprecation_reason'', copy_or_undef field ''deprecation_reason''),
             (''is_deprecated'', flag_iv (true_at field ''is_deprecated'')),
             (''source_field'', HV field)]))))"

definition gql_schema_compile_input_fields :: "nat \<Rightarrow> perl_runtime \<Rightarrow> sv \<Rightarrow> sv compiled" where
  "gql_schema_compile_input_fields n rt fields_sv = compile_entries (compile_input_field n rt) fields_sv"

text \<open>\<^verbatim>\<open>SvIV\<close> of an integer scalar: the 64 bits read as a signed number.\<close>

definition signed_iv :: "sv \<Rightarrow> int" where
  "signed_iv s = (case s of IV i \<Rightarrow> sint (word_of_int i :: 64 word) | _ \<Rightarrow> 0)"

definition checked_integer :: "hv \<Rightarrow> string \<Rightarrow> int \<Rightarrow> string \<Rightarrow> sv option compiled" where
  "checked_integer field key least message =
     (case hv_fetch field key of
        None \<Rightarrow> Inr None
      | Some v \<Rightarrow>
          if \<not> SvIOK v \<or> signed_iv v < least then Inl (Schema_Croak message)
          else Inr (Some v))"

definition compile_field :: "nat \<Rightarrow> perl_runtime \<Rightarrow> string \<Rightarrow> hv \<Rightarrow> sv compiled" where
  "compile_field n rt key field =
     (case hv_fetch field ''type'' of
        None \<Rightarrow> Inl (Schema_Croak ''schema compiler expected field type'')
      | Some t \<Rightarrow>
          bnd (gql_schema_compile_type_ref n rt t) (\<lambda>type.
          let c = store_all []
                [(''name'', PV False key), (''type'', type),
                 (''description'', copy_or_undef field ''description''),
                 (''deprecation_reason'', copy_or_undef field ''deprecation_reason''),
                 (''is_deprecated'', flag_iv (true_at field ''is_deprecated'')),
                 (''directives'', directives_at field)]
          in bnd (case hv_fetch field ''args'' of
                    Some args \<Rightarrow> gql_schema_compile_input_fields n rt args | None \<Rightarrow> Inr (HV [])) (\<lambda>args.
             let c = gql_store_sv c ''args'' args;
                 c = store_opt c ''resolve'' (hv_fetch field ''resolve'');
                 c = store_opt c ''subscribe'' (hv_fetch field ''subscribe'')
             in bnd (checked_integer field ''cost'' 0 ''field cost must be a non-negative integer'') (\<lambda>cost.
                let c = store_opt c ''cost'' cost
                in bnd (checked_integer field ''list_size'' 1 ''field list_size must be a positive integer'')
                     (\<lambda>list_size.
                   Inr (HV (gql_store_sv (store_opt c ''list_size'' list_size) ''source_field'' (HV field))))))))"

definition gql_schema_compile_fields :: "nat \<Rightarrow> perl_runtime \<Rightarrow> sv \<Rightarrow> sv compiled" where
  "gql_schema_compile_fields n rt fields_sv = compile_entries (compile_field n rt) fields_sv"

definition compile_enum_value :: "string \<Rightarrow> hv \<Rightarrow> sv compiled" where
  "compile_enum_value key value_hv =
     Inr (HV (store_all []
       [(''name'', PV False key),
        (''value'', case hv_fetch value_hv ''value'' of Some v \<Rightarrow> v | None \<Rightarrow> PV False key),
        (''description'', copy_or_undef value_hv ''description''),
        (''deprecation_reason'', copy_or_undef value_hv ''deprecation_reason''),
        (''is_deprecated'', flag_iv (true_at value_hv ''is_deprecated'')),
        (''source_value'', HV value_hv)]))"

definition gql_schema_compile_enum_values :: "sv \<Rightarrow> sv compiled" where
  "gql_schema_compile_enum_values values_sv = compile_entries compile_enum_value values_sv"

section \<open>Directives and named types\<close>

definition gql_schema_compile_directive :: "nat \<Rightarrow> perl_runtime \<Rightarrow> sv \<Rightarrow> sv compiled" where
  "gql_schema_compile_directive n rt d =
     bnd (gql_schema_call_method0 rt d ''name'') (\<lambda>name.
     bnd (gql_schema_call_method0 rt d ''description'') (\<lambda>description.
     bnd (gql_schema_call_method0 rt d ''repeatable'') (\<lambda>repeatable.
     bnd (gql_schema_call_method0 rt d ''locations'') (\<lambda>locations.
     bnd (gql_schema_call_method0 rt d ''args'') (\<lambda>args_sv.
     bnd (gql_schema_compile_input_fields n rt args_sv) (\<lambda>args.
     Inr (HV (store_all []
       [(''name'', name), (''class'', PV False (gql_schema_class_name rt d)), (''description'', description),
        (''repeatable'', repeatable), (''locations'', gql_schema_clone_arrayref_shallow locations),
        (''args'', args), (''source_directive'', d)]))))))))"

definition stored_ok :: "hv \<Rightarrow> string \<Rightarrow> sv \<Rightarrow> hv" where
  "stored_ok h key v = (if SvOK v then gql_store_sv h key v else h)"

definition compile_output_members ::
  "nat \<Rightarrow> perl_runtime \<Rightarrow> sv \<Rightarrow> string \<Rightarrow> hv \<Rightarrow> hv compiled" where
  "compile_output_members n rt t callback h =
     bnd (gql_schema_call_method0 rt t ''interfaces'') (\<lambda>interfaces_sv.
     bnd (gql_schema_call_method0 rt t ''fields'') (\<lambda>fields_sv.
     bnd (gql_schema_compile_type_name_array rt interfaces_sv) (\<lambda>interfaces.
     bnd (gql_schema_compile_fields n rt fields_sv) (\<lambda>fields.
     bnd (gql_schema_call_method0 rt t callback) (\<lambda>f.
     Inr (stored_ok (store_all h [(''interfaces'', interfaces), (''fields'', fields)]) callback f))))))"

definition compile_union_members :: "perl_runtime \<Rightarrow> sv \<Rightarrow> hv \<Rightarrow> hv compiled" where
  "compile_union_members rt t h =
     bnd (gql_schema_call_method0 rt t ''get_types'') (\<lambda>types_sv.
     bnd (gql_schema_compile_type_name_array rt types_sv) (\<lambda>types.
     bnd (gql_schema_call_method0 rt t ''resolve_type'') (\<lambda>f.
     Inr (stored_ok (gql_store_sv h ''types'' types) ''resolve_type'' f))))"

definition compile_input_members :: "nat \<Rightarrow> perl_runtime \<Rightarrow> sv \<Rightarrow> hv \<Rightarrow> hv compiled" where
  "compile_input_members n rt t h =
     bnd (gql_schema_call_method0 rt t ''fields'') (\<lambda>fields_sv.
     bnd (gql_schema_compile_input_fields n rt fields_sv) (\<lambda>fields.
     bnd (gql_schema_call_method0 rt t ''is_one_of'') (\<lambda>one_of.
     let h = gql_store_sv h ''fields'' fields
     in Inr (if SvTRUE one_of then gql_store_sv h ''is_one_of'' (IV 1) else h))))"

definition compile_enum_members :: "perl_runtime \<Rightarrow> sv \<Rightarrow> hv \<Rightarrow> hv compiled" where
  "compile_enum_members rt t h =
     bnd (gql_schema_call_method0 rt t ''values'') (\<lambda>values_sv.
     bnd (gql_schema_compile_enum_values values_sv) (\<lambda>vs.
     Inr (gql_store_sv h ''values'' vs)))"

definition compile_scalar_members :: "perl_runtime \<Rightarrow> sv \<Rightarrow> hv \<Rightarrow> hv compiled" where
  "compile_scalar_members rt t h =
     bnd (gql_schema_call_method0 rt t ''serialize'') (\<lambda>serialize.
     bnd (gql_schema_call_method0 rt t ''parse_value'') (\<lambda>parse_value.
     bnd (gql_schema_call_method0 rt t ''specified_by_url'') (\<lambda>url.
     Inr (stored_ok (stored_ok (stored_ok h ''serialize'' serialize) ''parse_value'' parse_value)
            ''specified_by_url'' url))))"

definition role_names :: "string \<Rightarrow> string list" where
  "role_names r = [''GraphQL::Houtou::Role::'' @ r, ''GraphQL::Role::'' @ r]"

definition is_introspection :: "perl_runtime \<Rightarrow> sv \<Rightarrow> bool" where
  "is_introspection rt t = (case pr_hash rt t of Some h \<Rightarrow> true_at h ''is_introspection'' | None \<Rightarrow> False)"

definition gql_schema_compile_named_type :: "nat \<Rightarrow> perl_runtime \<Rightarrow> sv \<Rightarrow> sv compiled" where
  "gql_schema_compile_named_type n rt t =
     bnd (gql_schema_named_type_kind rt t) (\<lambda>kind.
     bnd (gql_schema_call_method0 rt t ''name'') (\<lambda>name.
     bnd (gql_schema_call_method0 rt t ''description'') (\<lambda>description.
     bnd (gql_schema_call_method0 rt t ''to_string'') (\<lambda>type_string.
     bnd (gql_schema_does_any_role rt t (role_names ''Input'')) (\<lambda>is_input.
     bnd (gql_schema_does_any_role rt t (role_names ''Output'')) (\<lambda>is_output.
     bnd (gql_schema_does_any_role rt t (role_names ''Abstract'')) (\<lambda>is_abstract.
     let h = store_all []
           [(''kind'', PV False kind), (''name'', name), (''class'', PV False (gql_schema_class_name rt t)),
            (''description'', description), (''type_string'', type_string), (''source_type'', t),
            (''source_type_id'', IV (gql_schema_refaddr rt t)), (''is_input'', flag_iv is_input),
            (''is_output'', flag_iv is_output), (''is_abstract'', flag_iv is_abstract),
            (''is_introspection'', flag_iv (is_introspection rt t))]
     in bnd (if kind = ''OBJECT'' then compile_output_members n rt t ''is_type_of'' h
             else if kind = ''INTERFACE'' then compile_output_members n rt t ''resolve_type'' h
             else if kind = ''UNION'' then compile_union_members rt t h
             else if kind = ''INPUT_OBJECT'' then compile_input_members n rt t h
             else if kind = ''ENUM'' then compile_enum_members rt t h
             else compile_scalar_members rt t h) (\<lambda>h.
        Inr (HV h)))))))))"

section \<open>Schemas\<close>

definition compile_root :: "perl_runtime \<Rightarrow> sv \<Rightarrow> string \<Rightarrow> hv \<Rightarrow> hv compiled" where
  "compile_root rt schema root roots =
     bnd (gql_schema_call_method0 rt schema root) (\<lambda>t.
     if SvOK t \<and> SvROK t then
       bnd (gql_schema_call_method0 rt t ''name'') (\<lambda>name. Inr (gql_store_sv roots root name))
     else Inr (gql_store_sv roots root Undef))"

text \<open>The names of the object types that declare an interface, under its name.\<close>

definition push_implementation :: "perl_runtime \<Rightarrow> string \<Rightarrow> sv \<Rightarrow> hv \<Rightarrow> hv compiled" where
  "push_implementation rt key iface impls =
     bnd (gql_schema_call_method0 rt iface ''name'') (\<lambda>name.
     let existing = (case hv_fetch impls (SvPV name) of Some (AV xs) \<Rightarrow> xs | _ \<Rightarrow> [])
     in Inr (hv_store impls (SvPV name) (AV (existing @ [PV False key]))))"

definition push_interfaces :: "perl_runtime \<Rightarrow> string \<Rightarrow> sv \<Rightarrow> hv \<Rightarrow> hv compiled" where
  "push_interfaces rt key t impls =
     (if isa_type rt t ''Object'' then
        bnd (gql_schema_call_method0 rt t ''interfaces'') (\<lambda>interfaces_sv.
        case interfaces_sv of
          AV items \<Rightarrow> each (push_implementation rt key) items impls
        | _ \<Rightarrow> Inr impls)
      else Inr impls)"

definition push_possible_types :: "perl_runtime \<Rightarrow> sv \<Rightarrow> string \<Rightarrow> sv \<Rightarrow> hv \<Rightarrow> hv compiled" where
  "push_possible_types rt schema key t possible =
     (if isa_type rt t ''Interface'' \<or> isa_type rt t ''Union'' then
        bnd (gql_schema_call_method1 rt schema ''get_possible_types'' t) (\<lambda>possible_sv.
        bnd (gql_schema_compile_type_name_array rt possible_sv) (\<lambda>names.
        Inr (hv_store possible key names)))
      else Inr possible)"

definition compile_types :: "nat \<Rightarrow> perl_runtime \<Rightarrow> hv \<Rightarrow> hv compiled" where
  "compile_types n rt name2type =
     each (\<lambda>key types.
       case hv_fetch name2type key of
         None \<Rightarrow> Inr types
       | Some t \<Rightarrow> bnd (gql_schema_compile_named_type n rt t) (\<lambda>c. Inr (hv_store types key c)))
       (gql_parser_sorted_hash_keys name2type) []"

definition compile_abstractions :: "perl_runtime \<Rightarrow> sv \<Rightarrow> hv \<Rightarrow> (hv \<times> hv) compiled" where
  "compile_abstractions rt schema name2type =
     each (\<lambda>key (impls, possible).
       case hv_fetch name2type key of
         None \<Rightarrow> Inr (impls, possible)
       | Some t \<Rightarrow>
           bnd (push_interfaces rt key t impls) (\<lambda>impls.
           bnd (push_possible_types rt schema key t possible) (\<lambda>possible.
           Inr (impls, possible))))
       (gql_parser_sorted_hash_keys name2type) ([], [])"

definition compile_directives :: "nat \<Rightarrow> perl_runtime \<Rightarrow> sv list \<Rightarrow> hv compiled" where
  "compile_directives n rt items =
     each (\<lambda>d out.
       bnd (gql_schema_call_method0 rt d ''name'') (\<lambda>name.
       bnd (gql_schema_compile_directive n rt d) (\<lambda>c. Inr (hv_store out (SvPV name) c)))) items []"

definition gql_schema_compile_schema :: "nat \<Rightarrow> perl_runtime \<Rightarrow> sv \<Rightarrow> sv compiled" where
  "gql_schema_compile_schema n rt schema =
     (if \<not> pr_derived_from rt schema ''GraphQL::Schema'' \<and> \<not> pr_derived_from rt schema ''GraphQL::Houtou::Schema''
      then Inl (Schema_Croak ''compile_schema_xs expects a GraphQL::Houtou::Schema or GraphQL::Schema instance'')
      else
        bnd (each (compile_root rt schema) [''query'', ''mutation'', ''subscription''] []) (\<lambda>roots.
        bnd (gql_schema_call_method0 rt schema ''name2type'') (\<lambda>name2type_sv.
        case name2type_sv of
          HV name2type \<Rightarrow>
            bnd (compile_types n rt name2type) (\<lambda>types.
            bnd (compile_abstractions rt schema name2type) (\<lambda>(impls, possible).
            bnd (gql_schema_call_method0 rt schema ''directives'') (\<lambda>directives_sv.
            case directives_sv of
              AV items \<Rightarrow>
                bnd (compile_directives n rt items) (\<lambda>directives.
                Inr (HV (store_all []
                  [(''roots'', HV roots), (''types'', HV types), (''directives'', HV directives),
                   (''interface_implementations'', HV impls), (''possible_types'', HV possible),
                   (''source_schema'', schema)])))
            | _ \<Rightarrow> Inl (Schema_Croak ''GraphQL::Schema->directives did not return an array reference''))))
        | _ \<Rightarrow> Inl (Schema_Croak ''GraphQL::Schema->name2type did not return a hash reference''))))"

end
