(* ===== verification/Schema_Objects.thy ===== *)
theory Schema_Objects
  imports Coercion Schema_Compiler
begin

text \<open>
  What the schema compiler is given: a schema as it is declared, and the Perl objects that
  stand for it. \<open>houtou_runtime D\<close> answers the method calls of the compiler the way the classes
  under \<^verbatim>\<open>lib/GraphQL/Houtou/\<close> do (\<^verbatim>\<open>Type/*.pm\<close>, \<^verbatim>\<open>Directive.pm\<close>, \<^verbatim>\<open>Schema.pm\<close>): accessors of what a
  type was built from. An object is a reference whose target names it, so that types may
  refer to each other in a cycle.
\<close>

section \<open>Declarations\<close>

text \<open>
  \<open>in_more\<close> and \<open>f_more\<close> are the other entries of the hash of an input field and of a field
  (description, default value, cost, resolver and so on).
\<close>

record input_decl =
  in_type :: gtype
  in_more :: hv

record field_decl =
  f_type :: gtype
  f_args :: "(string \<times> input_decl) list"
  f_more :: hv

datatype type_decl =
    Scalar_Decl sv sv sv
  | Object_Decl "string list" "(string \<times> field_decl) list" sv
  | Interface_Decl "string list" "(string \<times> field_decl) list" sv
  | Union_Decl "string list" sv
  | Enum_Decl "(string \<times> hv) list"
  | Input_Decl bool "(string \<times> input_decl) list"

record directive_decl =
  dir_repeatable :: bool
  dir_locations :: "sv list"
  dir_args :: "(string \<times> input_decl) list"

text \<open>\<open>possible\<close> is what \<^verbatim>\<open>get_possible_types\<close> answers for an abstract type.\<close>

record schema_decl =
  decl_types :: "(string \<times> type_decl) list"
  decl_roots :: "string \<Rightarrow> string option"
  decl_directives :: "(string \<times> directive_decl) list"
  possible :: "string \<Rightarrow> string list"

section \<open>Objects\<close>

fun type_object :: "gtype \<Rightarrow> sv" where
  "type_object (Named n) = Ref (PV False n)"
| "type_object (ListOf t) = Ref (AV [PV False ''List'', type_object t])"
| "type_object (NonNull t) = Ref (AV [PV False ''NonNull'', type_object t])"

definition named_object :: "string \<Rightarrow> sv" where
  "named_object n = type_object (Named n)"

definition directive_object :: "string \<Rightarrow> sv" where
  "directive_object n = Ref (HV [(''directive'', PV False n)])"

definition schema_object :: sv where
  "schema_object = Ref (HV [])"

definition input_hash :: "input_decl \<Rightarrow> hv" where
  "input_hash d = (''type'', type_object (in_type d)) # in_more d"

definition entries_hash :: "('a \<Rightarrow> hv) \<Rightarrow> (string \<times> 'a) list \<Rightarrow> sv" where
  "entries_hash f ds = HV (map (\<lambda>(k, d). (k, HV (f d))) ds)"

definition field_hash :: "field_decl \<Rightarrow> hv" where
  "field_hash d = (''type'', type_object (f_type d)) # (''args'', entries_hash input_hash (f_args d)) # f_more d"

fun decl_class :: "type_decl \<Rightarrow> string" where
  "decl_class (Scalar_Decl _ _ _) = ''Scalar''"
| "decl_class (Object_Decl _ _ _) = ''Object''"
| "decl_class (Interface_Decl _ _ _) = ''Interface''"
| "decl_class (Union_Decl _ _) = ''Union''"
| "decl_class (Enum_Decl _) = ''Enum''"
| "decl_class (Input_Decl _ _) = ''InputObject''"

fun decl_kind :: "type_decl \<Rightarrow> string" where
  "decl_kind (Scalar_Decl _ _ _) = ''SCALAR''"
| "decl_kind (Object_Decl _ _ _) = ''OBJECT''"
| "decl_kind (Interface_Decl _ _ _) = ''INTERFACE''"
| "decl_kind (Union_Decl _ _) = ''UNION''"
| "decl_kind (Enum_Decl _) = ''ENUM''"
| "decl_kind (Input_Decl _ _) = ''INPUT_OBJECT''"

fun decl_roles :: "type_decl \<Rightarrow> string list" where
  "decl_roles (Scalar_Decl _ _ _) = [''Input'', ''Output'', ''Leaf'']"
| "decl_roles (Object_Decl _ _ _) = [''Output'', ''Composite'']"
| "decl_roles (Interface_Decl _ _ _) = [''Output'', ''Composite'', ''Abstract'']"
| "decl_roles (Union_Decl _ _) = [''Output'', ''Composite'', ''Abstract'']"
| "decl_roles (Enum_Decl _) = [''Input'', ''Output'', ''Leaf'']"
| "decl_roles (Input_Decl _ _) = [''Input'']"

definition type_at :: "schema_decl \<Rightarrow> string \<Rightarrow> type_decl option" where
  "type_at D n = map_of (decl_types D) n"

definition object_class :: "schema_decl \<Rightarrow> sv \<Rightarrow> string option" where
  "object_class D obj =
     (case obj of
        Ref (PV _ n) \<Rightarrow> map_option (\<lambda>d. ''GraphQL::Houtou::Type::'' @ decl_class d) (type_at D n)
      | Ref (AV [PV _ w, _]) \<Rightarrow> Some (''GraphQL::Houtou::Type::'' @ w)
      | Ref (HV []) \<Rightarrow> Some ''GraphQL::Houtou::Schema''
      | Ref (HV [_]) \<Rightarrow> Some ''GraphQL::Houtou::Directive''
      | _ \<Rightarrow> None)"

definition no_method :: "string + sv list" where
  "no_method = Inl ''Can't locate object method''"

definition names_array :: "string list \<Rightarrow> sv" where
  "names_array ns = AV (map named_object ns)"

fun members_method :: "type_decl \<Rightarrow> string \<Rightarrow> string + sv list" where
  "members_method (Scalar_Decl serialize parse_value url) m =
     (if m = ''serialize'' then Inr [serialize] else if m = ''parse_value'' then Inr [parse_value]
      else if m = ''specified_by_url'' then Inr [url] else no_method)"
| "members_method (Object_Decl is fs f) m =
     (if m = ''interfaces'' then Inr [names_array is] else if m = ''fields'' then Inr [entries_hash field_hash fs]
      else if m = ''is_type_of'' then Inr [f] else no_method)"
| "members_method (Interface_Decl is fs f) m =
     (if m = ''interfaces'' then Inr [names_array is] else if m = ''fields'' then Inr [entries_hash field_hash fs]
      else if m = ''resolve_type'' then Inr [f] else no_method)"
| "members_method (Union_Decl ts f) m =
     (if m = ''get_types'' then Inr [names_array ts] else if m = ''resolve_type'' then Inr [f] else no_method)"
| "members_method (Enum_Decl vs) m = (if m = ''values'' then Inr [entries_hash id vs] else no_method)"
| "members_method (Input_Decl one_of fs) m =
     (if m = ''fields'' then Inr [entries_hash input_hash fs] else if m = ''is_one_of'' then Inr [flag_iv one_of]
      else no_method)"

definition named_method :: "string \<Rightarrow> type_decl \<Rightarrow> string \<Rightarrow> string + sv list" where
  "named_method n d m =
     (if m = ''name'' \<or> m = ''to_string'' then Inr [PV False n]
      else if m = ''description'' then Inr [Undef]
      else members_method d m)"

definition directive_method :: "string \<Rightarrow> directive_decl \<Rightarrow> string \<Rightarrow> string + sv list" where
  "directive_method n d m =
     (if m = ''name'' then Inr [PV False n] else if m = ''description'' then Inr [Undef]
      else if m = ''repeatable'' then Inr [flag_iv (dir_repeatable d)]
      else if m = ''locations'' then Inr [AV (dir_locations d)]
      else if m = ''args'' then Inr [entries_hash input_hash (dir_args d)] else no_method)"

definition schema_method :: "schema_decl \<Rightarrow> string \<Rightarrow> string + sv list" where
  "schema_method D m =
     (if m \<in> set [''query'', ''mutation'', ''subscription''] then
        Inr [case decl_roots D m of Some n \<Rightarrow> named_object n | None \<Rightarrow> Undef]
      else if m = ''name2type'' then Inr [HV (map (\<lambda>(n, d). (n, named_object n)) (decl_types D))]
      else if m = ''directives'' then Inr [AV (map (\<lambda>(n, d). directive_object n) (decl_directives D))]
      else no_method)"

fun object_text :: "sv \<Rightarrow> string" where
  "object_text (Ref (AV [PV _ w, inner])) =
     (if w = ''List'' then CHR ''['' # object_text inner @ '']'' else object_text inner @ ''!'')"
| "object_text (Ref (PV _ n)) = n"
| "object_text _ = []"

definition houtou_call0 :: "schema_decl \<Rightarrow> sv \<Rightarrow> string \<Rightarrow> string + sv list" where
  "houtou_call0 D obj m =
     (case obj of
        Ref (PV _ n) \<Rightarrow> (case type_at D n of Some d \<Rightarrow> named_method n d m | None \<Rightarrow> no_method)
      | Ref (AV [PV _ w, inner]) \<Rightarrow>
          if m = ''of'' then Inr [inner]
          else if m = ''to_string'' then Inr [PV False (object_text obj)]
          else no_method
      | Ref (HV []) \<Rightarrow> schema_method D m
      | Ref (HV [(_, PV _ n)]) \<Rightarrow>
          (case map_of (decl_directives D) n of Some d \<Rightarrow> directive_method n d m | None \<Rightarrow> no_method)
      | _ \<Rightarrow> no_method)"

definition houtou_call1 :: "schema_decl \<Rightarrow> sv \<Rightarrow> string \<Rightarrow> sv \<Rightarrow> string + sv list" where
  "houtou_call1 D obj m arg =
     (case obj of
        Ref (PV _ n) \<Rightarrow>
          (case type_at D n of
             Some d \<Rightarrow>
               if m = ''DOES'' then
                 Inr [flag_iv (SvPV arg \<in> set (map (\<lambda>r. ''GraphQL::Houtou::Role::'' @ r) (decl_roles d)))]
               else no_method
           | None \<Rightarrow> no_method)
      | Ref (HV []) \<Rightarrow>
          (case arg of
             Ref (PV _ n) \<Rightarrow> if m = ''get_possible_types'' then Inr [names_array (possible D n)] else no_method
           | _ \<Rightarrow> no_method)
      | _ \<Rightarrow> no_method)"

text \<open>Addresses play no part in any result but the copies kept under \<^verbatim>\<open>source_type_id\<close>.\<close>

definition houtou_runtime :: "schema_decl \<Rightarrow> perl_runtime" where
  "houtou_runtime D =
     \<lparr>pr_class = object_class D,
      pr_derived_from = (\<lambda>obj c. object_class D obj = Some c),
      pr_addr = (\<lambda>obj. int (length (object_text obj))),
      pr_hash = (\<lambda>obj. None),
      pr_call0 = houtou_call0 D,
      pr_call1 = houtou_call1 D\<rparr>"

section \<open>What the compiler relies on\<close>

text \<open>
  \<open>kind_of\<close> gives the kind of every type the library knows. From these laws every type
  reference to a known type compiles, to a reference that stands for it.
\<close>

locale type_library =
  fixes rt :: perl_runtime and obj :: "gtype \<Rightarrow> sv" and kind_of :: "string \<Rightarrow> string option"
  assumes obj_ok: "SvOK (obj t)"
    and isa_non_null: "isa_type rt (obj t) ''NonNull'' \<longleftrightarrow> nonnull t"
    and isa_list: "isa_type rt (obj t) ''List'' \<longleftrightarrow> (\<exists>s. t = ListOf s)"
    and of_wrapper: "pr_call0 rt (obj (NonNull t)) ''of'' = Inr [obj t]" "pr_call0 rt (obj (ListOf t)) ''of'' = Inr [obj t]"
    and wrapper_text: "\<exists>x. pr_call0 rt (obj (NonNull t)) ''to_string'' = Inr [x]"
      "\<exists>x. pr_call0 rt (obj (ListOf t)) ''to_string'' = Inr [x]"
    and named: "kind_of n \<noteq> None \<Longrightarrow> pr_call0 rt (obj (Named n)) ''name'' = Inr [PV False n]"
      "kind_of n \<noteq> None \<Longrightarrow> \<exists>x. pr_call0 rt (obj (Named n)) ''to_string'' = Inr [x]"
    and kind: "kind_of n = Some k \<Longrightarrow> gql_schema_named_type_kind rt (obj (Named n)) = Inr k"
begin

lemma method_of [simp]:
  "gql_schema_call_method0 rt (obj (NonNull t)) ''of'' = Inr (obj t)"
  "gql_schema_call_method0 rt (obj (ListOf t)) ''of'' = Inr (obj t)"
  by (simp_all add: gql_schema_call_method0_def of_wrapper scalar_result_def)

lemma method_name [simp]: "kind_of n \<noteq> None \<Longrightarrow> gql_schema_call_method0 rt (obj (Named n)) ''name'' = Inr (PV False n)"
  by (simp add: gql_schema_call_method0_def named scalar_result_def)

lemma method_to_string: "kind_of (type_name t) \<noteq> None \<Longrightarrow> \<exists>x. gql_schema_call_method0 rt (obj t) ''to_string'' = Inr x"
  using wrapper_text [of "case t of ListOf s \<Rightarrow> s | NonNull s \<Rightarrow> s | _ \<Rightarrow> t"] named(2) [of "type_name t"]
  by (cases t) (auto simp: gql_schema_call_method0_def scalar_result_def)

lemma type_ref_compiles:
  "kind_of (type_name t) \<noteq> None \<Longrightarrow> size t < m \<Longrightarrow>
    \<exists>s. gql_schema_compile_type_ref m rt (obj t) = Inr s \<and> type_repr t s"
proof (induction t arbitrary: m)
  case (Named n)
  then obtain m' k where m: "m = Suc m'" "kind_of n = Some k" by (cases m) auto
  obtain x where "gql_schema_call_method0 rt (obj (Named n)) ''to_string'' = Inr x"
    using method_to_string [of "Named n"] Named by auto
  with m Named kind [OF m(2)] show ?case
    by (simp add: obj_ok [unfolded SvOK_def] isa_non_null isa_list nonnull_def store_all_def node_kind_def fetch_ok_def SvOK_def SvPOK_def)
next
  case (ListOf t)
  then obtain m' where m: "m = Suc m'" by (cases m) auto
  obtain x where "gql_schema_call_method0 rt (obj (ListOf t)) ''to_string'' = Inr x"
    using method_to_string [of "ListOf t"] ListOf by auto
  moreover obtain s where "gql_schema_compile_type_ref m' rt (obj t) = Inr s" "type_repr t s"
    using ListOf.IH [of m'] ListOf.prems m by auto
  ultimately show ?case unfolding m
    by (simp add: obj_ok [unfolded SvOK_def] isa_non_null isa_list nonnull_def store_all_def node_kind_def fetch_ok_def SvOK_def SvPOK_def)
next
  case (NonNull t)
  then obtain m' where m: "m = Suc m'" by (cases m) auto
  obtain x where "gql_schema_call_method0 rt (obj (NonNull t)) ''to_string'' = Inr x"
    using method_to_string [of "NonNull t"] NonNull by auto
  moreover obtain s where "gql_schema_compile_type_ref m' rt (obj t) = Inr s" "type_repr t s"
    using NonNull.IH [of m'] NonNull.prems m by auto
  ultimately show ?case unfolding m
    by (simp add: obj_ok [unfolded SvOK_def] isa_non_null isa_list nonnull_def store_all_def node_kind_def fetch_ok_def SvOK_def SvPOK_def)
qed

lemma type_names_compile:
  "\<forall>n \<in> set ns. kind_of n \<noteq> None \<Longrightarrow>
    gql_schema_compile_type_name_array rt (AV (map (\<lambda>n. obj (Named n)) ns)) = Inr (AV (map (PV False) ns))"
proof -
  have "each (\<lambda>item out. bnd (gql_schema_call_method0 rt item ''name'') (\<lambda>name. Inr (out @ [name])))
      (map (\<lambda>n. obj (Named n)) ns) xs = Inr (xs @ map (PV False) ns)" if "\<forall>n \<in> set ns. kind_of n \<noteq> None" for xs
    using that by (induction ns arbitrary: xs) simp_all
  then show "\<forall>n \<in> set ns. kind_of n \<noteq> None \<Longrightarrow> ?thesis" by (simp add: gql_schema_compile_type_name_array_def)
qed

end

lemma type_object_ok [simp]: "SvOK (type_object t)"
  by (cases t) (simp_all add: SvOK_def)

lemma class_object [simp]:
  "object_class D (Ref (AV [PV u w, inner])) = Some (''GraphQL::Houtou::Type::'' @ w)"
  "object_class D (Ref (PV u n)) = map_option (\<lambda>d. ''GraphQL::Houtou::Type::'' @ decl_class d) (type_at D n)"
  by (simp_all add: object_class_def)

lemma isa_houtou: "isa_type (houtou_runtime D) x c \<longleftrightarrow>
    object_class D x = Some (''GraphQL::Type::'' @ c) \<or> object_class D x = Some (''GraphQL::Houtou::Type::'' @ c)"
  by (simp add: isa_type_def houtou_runtime_def)

lemma decl_class_wrappers [simp]: "decl_class d \<noteq> ''NonNull''" "decl_class d \<noteq> ''List''"
  by (cases d; simp)+

interpretation houtou: type_library "houtou_runtime D" type_object "\<lambda>n. map_option decl_kind (type_at D n)"
proof unfold_locales
  fix t
  show "isa_type (houtou_runtime D) (type_object t) ''NonNull'' \<longleftrightarrow> nonnull t"
    by (cases t) (auto simp: isa_houtou nonnull_def)
  show "isa_type (houtou_runtime D) (type_object t) ''List'' \<longleftrightarrow> (\<exists>s. t = ListOf s)"
    by (cases t) (auto simp: isa_houtou)
next
  fix n k
  assume "map_option decl_kind (type_at D n) = Some k"
  then obtain d where "type_at D n = Some d" "k = decl_kind d" by auto
  then show "gql_schema_named_type_kind (houtou_runtime D) (type_object (Named n)) = Inr k"
    by (cases d) (simp_all add: gql_schema_named_type_kind_def isa_houtou)
qed (auto simp: houtou_runtime_def houtou_call0_def named_method_def)

end
