(* ===== verification/Schema_Refinement.thy ===== *)
theory Schema_Refinement
  imports Schema_Objects
begin

text \<open>
  The compiled hash represents the declared schema: \<open>decl_repr D compiled\<close> reads every part the
  validator uses back to the declaration. A well-formed declaration compiles to a hash that
  represents it, so what is proved of the validator over any hash that represents a schema
  holds of the two components together.
\<close>

section \<open>Well-formed declarations\<close>

definition known :: "schema_decl \<Rightarrow> string \<Rightarrow> bool" where
  "known D n \<longleftrightarrow> type_at D n \<noteq> None"

definition ref_ok :: "schema_decl \<Rightarrow> nat \<Rightarrow> gtype \<Rightarrow> bool" where
  "ref_ok D n t \<longleftrightarrow> known D (type_name t) \<and> size t < n"

definition inputs_ok :: "schema_decl \<Rightarrow> nat \<Rightarrow> (string \<times> input_decl) list \<Rightarrow> bool" where
  "inputs_ok D n ds \<longleftrightarrow> distinct (map fst ds) \<and> list_all (\<lambda>(k, d). ref_ok D n (in_type d)) ds"

definition integer_ok :: "hv \<Rightarrow> string \<Rightarrow> int \<Rightarrow> bool" where
  "integer_ok h key least \<longleftrightarrow> (case hv_fetch h key of Some v \<Rightarrow> SvIOK v \<and> least \<le> signed_iv v | None \<Rightarrow> True)"

definition field_ok :: "schema_decl \<Rightarrow> nat \<Rightarrow> field_decl \<Rightarrow> bool" where
  "field_ok D n f \<longleftrightarrow> ref_ok D n (f_type f) \<and> inputs_ok D n (f_args f) \<and>
     integer_ok (f_more f) ''cost'' 0 \<and> integer_ok (f_more f) ''list_size'' 1"

definition fields_ok :: "schema_decl \<Rightarrow> nat \<Rightarrow> (string \<times> field_decl) list \<Rightarrow> bool" where
  "fields_ok D n fs \<longleftrightarrow> distinct (map fst fs) \<and> list_all (\<lambda>(k, f). field_ok D n f) fs"

fun type_ok :: "schema_decl \<Rightarrow> nat \<Rightarrow> type_decl \<Rightarrow> bool" where
  "type_ok D n (Scalar_Decl _ _ _) = True"
| "type_ok D n (Object_Decl is fs _) = (list_all (known D) is \<and> fields_ok D n fs)"
| "type_ok D n (Interface_Decl is fs _) = (list_all (known D) is \<and> fields_ok D n fs)"
| "type_ok D n (Union_Decl ts _) = list_all (known D) ts"
| "type_ok D n (Enum_Decl vs) = distinct (map fst vs)"
| "type_ok D n (Input_Decl _ fs) = inputs_ok D n fs"

fun abstract_decl :: "type_decl \<Rightarrow> bool" where
  "abstract_decl (Interface_Decl _ _ _) = True"
| "abstract_decl (Union_Decl _ _) = True"
| "abstract_decl _ = False"

fun object_decl :: "type_decl \<Rightarrow> bool" where
  "object_decl (Object_Decl _ _ _) = True"
| "object_decl _ = False"

definition is_object :: "schema_decl \<Rightarrow> string \<Rightarrow> bool" where
  "is_object D n \<longleftrightarrow> (case type_at D n of Some d \<Rightarrow> object_decl d | None \<Rightarrow> False)"

definition schema_ok :: "schema_decl \<Rightarrow> nat \<Rightarrow> bool" where
  "schema_ok D n \<longleftrightarrow>
     distinct (map fst (decl_types D)) \<and>
     list_all (\<lambda>(m, d). type_ok D n d \<and> (abstract_decl d \<longrightarrow> list_all (is_object D) (possible D m))) (decl_types D) \<and>
     list_all (\<lambda>r. case decl_roots D r of Some m \<Rightarrow> known D m | None \<Rightarrow> True)
       [''query'', ''mutation'', ''subscription''] \<and>
     distinct (map fst (decl_directives D)) \<and>
     list_all (\<lambda>(m, d). inputs_ok D n (dir_args d)) (decl_directives D)"

section \<open>What the compiled hash stands for\<close>

definition abs_inputs :: "(string \<times> input_decl) list \<Rightarrow> (string \<times> gtype \<times> bool) list" where
  "abs_inputs ds = map (\<lambda>(k, d). (k, in_type d, hv_exists (in_more d) ''default_value'')) ds"

fun abs_kind :: "type_decl \<Rightarrow> gkind" where
  "abs_kind (Scalar_Decl _ parse_value _) = KScalar (if SvOK parse_value then Some parse_value else None)"
| "abs_kind (Enum_Decl vs) = KEnum (map fst vs)"
| "abs_kind (Input_Decl one_of fs) = KInput one_of (abs_inputs fs)"
| "abs_kind _ = KOutput"

definition abs_schema :: "schema_decl \<Rightarrow> gschema" where
  "abs_schema D n = map_option abs_kind (type_at D n)"

text \<open>A hash with exactly the given keys, each with a value that stands for the declaration.\<close>

definition entries_repr :: "('a \<Rightarrow> sv \<Rightarrow> bool) \<Rightarrow> (string \<times> 'a) list \<Rightarrow> hv \<Rightarrow> bool" where
  "entries_repr R ds h \<longleftrightarrow>
     (\<forall>k. case (map_of ds k, hv_fetch h k) of
        (None, None) \<Rightarrow> True | (Some d, Some v) \<Rightarrow> R d v | _ \<Rightarrow> False)"

definition field_repr :: "field_decl \<Rightarrow> sv \<Rightarrow> bool" where
  "field_repr f v =
     (case v of
        HV h \<Rightarrow>
          (case hv_fetch h ''type'' of Some r \<Rightarrow> type_repr (f_type f) r | None \<Rightarrow> False) \<and>
          (case fetch_hv h ''args'' of Some a \<Rightarrow> inputs_repr (abs_inputs (f_args f)) a | None \<Rightarrow> False) \<and>
          hv_fetch h ''cost'' = hv_fetch (f_more f) ''cost'' \<and>
          hv_fetch h ''list_size'' = hv_fetch (f_more f) ''list_size'' \<and>
          hv_fetch h ''resolve'' = hv_fetch (f_more f) ''resolve''
      | _ \<Rightarrow> False)"

definition fields_repr :: "(string \<times> field_decl) list \<Rightarrow> hv \<Rightarrow> bool" where
  "fields_repr fs h \<longleftrightarrow> (case fetch_hv h ''fields'' of Some g \<Rightarrow> entries_repr field_repr fs g | None \<Rightarrow> False)"

fun members_repr :: "type_decl \<Rightarrow> hv \<Rightarrow> bool" where
  "members_repr (Object_Decl is fs _) h \<longleftrightarrow>
     fetch_av h ''interfaces'' = Some (map (PV False) is) \<and> fields_repr fs h"
| "members_repr (Interface_Decl is fs _) h \<longleftrightarrow>
     fetch_av h ''interfaces'' = Some (map (PV False) is) \<and> fields_repr fs h"
| "members_repr (Union_Decl ts _) h \<longleftrightarrow> fetch_av h ''types'' = Some (map (PV False) ts)"
| "members_repr d h \<longleftrightarrow> kind_repr (abs_kind d) h"

definition decl_type_repr :: "string \<times> type_decl \<Rightarrow> sv \<Rightarrow> bool" where
  "decl_type_repr = (\<lambda>(n, d) v. case v of
     HV h \<Rightarrow> node_kind h = Some (decl_kind d) \<and> hv_fetch h ''name'' = Some (PV False n) \<and> members_repr d h
   | _ \<Rightarrow> False)"

definition directive_repr :: "directive_decl \<Rightarrow> sv \<Rightarrow> bool" where
  "directive_repr d v =
     (case v of
        HV h \<Rightarrow>
          fetch_av h ''locations'' = Some (dir_locations d) \<and> true_at h ''repeatable'' = dir_repeatable d \<and>
          (case fetch_hv h ''args'' of Some a \<Rightarrow> inputs_repr (abs_inputs (dir_args d)) a | None \<Rightarrow> False)
      | _ \<Rightarrow> False)"

text \<open>The objects that declare an interface, in the order of the sorted type names.\<close>

definition decl_interfaces :: "type_decl \<Rightarrow> string list" where
  "decl_interfaces d = (case d of Object_Decl is _ _ \<Rightarrow> is | _ \<Rightarrow> [])"

definition implementers :: "schema_decl \<Rightarrow> string \<Rightarrow> string list" where
  "implementers D i =
     concat (map (\<lambda>n. case type_at D n of
         Some d \<Rightarrow> map (\<lambda>_. n) (filter (\<lambda>j. j = i) (decl_interfaces d)) | None \<Rightarrow> [])
       (qsort_keys (map fst (decl_types D))))"

definition tagged :: "(string \<times> 'a) list \<Rightarrow> (string \<times> string \<times> 'a) list" where
  "tagged ds = map (\<lambda>(k, d). (k, k, d)) ds"

definition abstract_types :: "schema_decl \<Rightarrow> (string \<times> string list) list" where
  "abstract_types D = map (\<lambda>(n, d). (n, possible D n)) (filter (\<lambda>(n, d). abstract_decl d) (decl_types D))"

definition decl_repr :: "schema_decl \<Rightarrow> sv \<Rightarrow> bool" where
  "decl_repr D compiled =
     (case compiled of
        HV h \<Rightarrow>
          (case fetch_hv h ''types'' of
             Some g \<Rightarrow> entries_repr decl_type_repr (tagged (decl_types D)) g | None \<Rightarrow> False) \<and>
          (case fetch_hv h ''roots'' of
             Some g \<Rightarrow> \<forall>r \<in> set [''query'', ''mutation'', ''subscription''].
               fetch_ok g r = map_option (PV False) (decl_roots D r)
           | None \<Rightarrow> False) \<and>
          (case fetch_hv h ''possible_types'' of
             Some g \<Rightarrow> entries_repr (\<lambda>ns v. v = AV (map (PV False) ns)) (abstract_types D) g | None \<Rightarrow> False) \<and>
          (case fetch_hv h ''interface_implementations'' of
             Some g \<Rightarrow> \<forall>i. (case fetch_av g i of Some ns \<Rightarrow> ns | None \<Rightarrow> []) = map (PV False) (implementers D i)
           | None \<Rightarrow> False) \<and>
          (case fetch_hv h ''directives'' of
             Some g \<Rightarrow> entries_repr directive_repr (decl_directives D) g | None \<Rightarrow> False)
      | _ \<Rightarrow> False)"

section \<open>Entries\<close>

lemma map_of_tagged: "map_of (tagged ds) k = map_option (Pair k) (map_of ds k)"
  unfolding tagged_def by (induction ds) auto

lemma fetch_entries: "hv_fetch (map (\<lambda>(k, d). (k, HV (f d))) ds) k = map_option (\<lambda>d. HV (f d)) (map_of ds k)"
  by (simp add: hv_fetch_def map_of_map)

text \<open>
  A loop over the keys of a hash that stores one value under each key: its result has the
  keys it went through, and the body sees every value it stores.
\<close>

definition stored :: "string set \<Rightarrow> (string \<Rightarrow> sv \<Rightarrow> bool) \<Rightarrow> hv \<Rightarrow> bool" where
  "stored K P out \<longleftrightarrow>
     (\<forall>k. (k \<in> K \<longrightarrow> (\<exists>c. hv_fetch out k = Some c \<and> P k c)) \<and> (k \<notin> K \<longrightarrow> hv_fetch out k = None))"

lemma stored_Nil [simp]: "stored {} P []"
  by (simp add: stored_def)

lemma stored_store: "stored K P out \<Longrightarrow> P k c \<Longrightarrow> stored (insert k K) P (hv_store out k c)"
  by (auto simp: stored_def)

lemma each_stores:
  assumes "\<And>k out. k \<in> set ks \<Longrightarrow> \<exists>c. body k out = Inr (hv_store out k c) \<and> P k c"
  shows "\<exists>out. each body ks [] = Inr out \<and> stored (set ks) P out"
proof (rule ok_but_all)
  fix e
  show "ok_but e (each body ks []) (stored (set ks) P)"
  proof (rule each_progress [where J = "\<lambda>ys. stored (set ys) P"])
    fix x ys s
    assume x: "x \<in> set ks" and J: "stored (set ys) P s"
    then obtain c where "body x s = Inr (hv_store s x c)" "P x c" using assms by blast
    with J show "ok_but e (body x s) (stored (set (x # ys)) P)" by (simp add: stored_store)
  qed simp_all
qed

lemma stored_entries:
  "stored (fst ` set ds) (\<lambda>k c. \<exists>d. map_of ds k = Some d \<and> R d c) out \<Longrightarrow> entries_repr R ds out"
  unfolding entries_repr_def
proof (intro allI)
  fix k
  assume st: "stored (fst ` set ds) (\<lambda>k c. \<exists>d. map_of ds k = Some d \<and> R d c) out"
  show "case (map_of ds k, hv_fetch out k) of (None, None) \<Rightarrow> True | (Some d, Some v) \<Rightarrow> R d v | _ \<Rightarrow> False"
  proof (cases "map_of ds k")
    case None
    then have "k \<notin> fst ` set ds" by (simp add: map_of_eq_None_iff)
    with st None show ?thesis by (simp add: stored_def)
  next
    case (Some d)
    then have "k \<in> fst ` set ds" by (force dest: map_of_SomeD)
    with st Some show ?thesis by (auto simp: stored_def)
  qed
qed

lemma compile_entries_hash:
  assumes "distinct (map fst ds)" and "\<And>k d. (k, d) \<in> set ds \<Longrightarrow> \<exists>c. entry k (f d) = Inr c \<and> R d c"
  shows "\<exists>out. compile_entries entry (entries_hash f ds) = Inr (HV out) \<and> entries_repr R ds out"
proof -
  let ?h = "map (\<lambda>(k, d). (k, HV (f d))) ds"
  let ?body = "\<lambda>key out. case hv_fetch ?h key of
      Some (HV field) \<Rightarrow> bnd (entry key field) (\<lambda>c. Inr (hv_store out key c)) | _ \<Rightarrow> Inr out"
  have keys: "set (gql_parser_sorted_hash_keys ?h) = fst ` set ds" by force
  have "\<exists>c. ?body k out = Inr (hv_store out k c) \<and> (\<exists>d. map_of ds k = Some d \<and> R d c)"
    if k: "k \<in> set (gql_parser_sorted_hash_keys ?h)" for k out
  proof -
    obtain d where d: "(k, d) \<in> set ds" using k unfolding keys by auto
    moreover from d have "map_of ds k = Some d" using assms(1) by simp
    moreover obtain c where "entry k (f d) = Inr c" "R d c" using assms(2) [OF d] by blast
    ultimately show ?thesis by (auto simp: fetch_entries)
  qed
  from each_stores [of "gql_parser_sorted_hash_keys ?h" ?body "\<lambda>k c. \<exists>d. map_of ds k = Some d \<and> R d c", OF this]
  obtain out where out: "each ?body (gql_parser_sorted_hash_keys ?h) [] = Inr out"
      "stored (fst ` set ds) (\<lambda>k c. \<exists>d. map_of ds k = Some d \<and> R d c) out"
    unfolding keys by blast
  then show ?thesis using stored_entries by (auto simp: compile_entries_def entries_hash_def)
qed

lemma entries_fetch:
  "entries_repr R ds h \<Longrightarrow> map_of ds k = Some d \<Longrightarrow> \<exists>v. hv_fetch h k = Some v \<and> R d v"
  "entries_repr R ds h \<Longrightarrow> map_of ds k = None \<Longrightarrow> hv_fetch h k = None"
  "entries_repr R ds h \<Longrightarrow> hv_fetch h k = Some v \<Longrightarrow> \<exists>d. map_of ds k = Some d \<and> R d v"
  unfolding entries_repr_def by (drule spec [of _ k], auto split: option.splits)+

lemma entries_keys:
  assumes "entries_repr R ds h"
  shows "fst ` set h = fst ` set ds"
proof -
  have "k \<in> fst ` set h \<longleftrightarrow> k \<in> fst ` set ds" for k
    unfolding hv_exists_iff [symmetric] hv_exists_def
    using entries_fetch [OF assms, of k] map_of_eq_None_iff [of ds k] by (cases "map_of ds k") auto
  then show ?thesis by blast
qed

section \<open>Fields\<close>

lemma hv_fetch_store_opt [simp]:
  "hv_fetch (store_opt h k v) k' = (if k = k' \<and> v \<noteq> None then v else hv_fetch h k')"
  by (cases v) (simp_all add: store_opt_def)

lemma hv_fetch_stored_ok [simp]:
  "hv_fetch (stored_ok h k v) k' = (if k = k' \<and> SvOK v then Some v else hv_fetch h k')"
  by (simp add: stored_ok_def)

lemmas compiled_simps = store_all_def node_kind_def fetch_ok_def fetch_hv_def
  fetch_av_def flag_of_def flag_iv_def true_at_def SvOK_def SvPOK_def SvTRUE_def

lemma type_ref_houtou:
  "ref_ok D n t \<Longrightarrow> \<exists>s. gql_schema_compile_type_ref n (houtou_runtime D) (type_object t) = Inr s \<and> type_repr t s"
  by (rule houtou.type_ref_compiles) (auto simp: ref_ok_def known_def)

lemma input_field_compiles:
  assumes "ref_ok D n (in_type d)"
  shows "\<exists>c. compile_input_field n (houtou_runtime D) k (input_hash d) = Inr c \<and>
    input_repr (in_type d, hv_exists (in_more d) ''default_value'') c"
proof -
  obtain s where "gql_schema_compile_type_ref n (houtou_runtime D) (type_object (in_type d)) = Inr s" "type_repr (in_type d) s"
    using type_ref_houtou [OF assms] by blast
  then show ?thesis
    by (simp add: compile_input_field_def input_hash_def hv_fetch_Cons input_repr_def hv_exists_def compiled_simps)
qed

lemma inputs_from_entries:
  assumes "distinct (map fst ds)"
    and "entries_repr (\<lambda>d. input_repr (in_type d, hv_exists (in_more d) ''default_value'')) ds h"
  shows "inputs_repr (abs_inputs ds) h"
proof -
  have fst: "map fst (abs_inputs ds) = map fst ds" by (auto simp: abs_inputs_def)
  have "case hv_fetch h k of Some s \<Rightarrow> input_repr (in_type d, hv_exists (in_more d) ''default_value'') s | None \<Rightarrow> False"
    if "(k, d) \<in> set ds" for k d
    using entries_fetch(1) [OF assms(2), of k d] that assms(1) by auto
  then show ?thesis
    using assms(1) entries_keys [OF assms(2)] unfolding inputs_repr_def fst by (auto simp: list_all_iff abs_inputs_def)
qed

lemma input_fields_compile:
  assumes "inputs_ok D n ds"
  shows "\<exists>h. gql_schema_compile_input_fields n (houtou_runtime D) (entries_hash input_hash ds) = Inr (HV h) \<and>
    inputs_repr (abs_inputs ds) h"
proof -
  have "\<exists>h. gql_schema_compile_input_fields n (houtou_runtime D) (entries_hash input_hash ds) = Inr (HV h) \<and>
      entries_repr (\<lambda>d. input_repr (in_type d, hv_exists (in_more d) ''default_value'')) ds h"
    unfolding gql_schema_compile_input_fields_def
    using assms by (intro compile_entries_hash input_field_compiles) (auto simp: inputs_ok_def list_all_iff)
  then show ?thesis using assms inputs_from_entries by (auto simp: inputs_ok_def)
qed

lemma checked_integer_ok: "integer_ok h k l \<Longrightarrow> checked_integer h k l m = Inr (hv_fetch h k)"
  by (auto simp: integer_ok_def checked_integer_def split: option.splits)

lemma integer_ok_Cons: "k \<noteq> k' \<Longrightarrow> integer_ok ((k, v) # h) k' l = integer_ok h k' l"
  by (simp add: integer_ok_def hv_fetch_Cons)

lemma field_compiles:
  assumes "field_ok D n f"
  shows "\<exists>c. compile_field n (houtou_runtime D) k (field_hash f) = Inr c \<and> field_repr f c"
proof -
  let ?h = "field_hash f"
  obtain s where s: "gql_schema_compile_type_ref n (houtou_runtime D) (type_object (f_type f)) = Inr s" "type_repr (f_type f) s"
    using type_ref_houtou [of D n "f_type f"] assms by (auto simp: field_ok_def)
  obtain a where a: "gql_schema_compile_input_fields n (houtou_runtime D) (entries_hash input_hash (f_args f)) = Inr (HV a)"
      "inputs_repr (abs_inputs (f_args f)) a"
    using input_fields_compile [of D n "f_args f"] assms by (auto simp: field_ok_def)
  have ints: "checked_integer ?h ''cost'' 0 m = Inr (hv_fetch (f_more f) ''cost'')"
      "checked_integer ?h ''list_size'' 1 m = Inr (hv_fetch (f_more f) ''list_size'')" for m
    using assms by (simp_all add: checked_integer_ok field_ok_def field_hash_def integer_ok_Cons hv_fetch_Cons)
  show ?thesis
    using s a unfolding compile_field_def ints
    by (simp add: Let_def field_hash_def hv_fetch_Cons field_repr_def compiled_simps)
qed

lemma fields_compile:
  assumes "fields_ok D n fs"
  shows "\<exists>g. gql_schema_compile_fields n (houtou_runtime D) (entries_hash field_hash fs) = Inr (HV g) \<and>
    entries_repr field_repr fs g"
  unfolding gql_schema_compile_fields_def
  using assms by (intro compile_entries_hash field_compiles) (auto simp: fields_ok_def list_all_iff)

lemma enum_values_compile:
  assumes "distinct (map fst vs)"
  shows "\<exists>g. gql_schema_compile_enum_values (entries_hash id vs) = Inr (HV g) \<and> set (map fst g) = set (map fst vs)"
proof -
  have "\<exists>g. compile_entries compile_enum_value (entries_hash id vs) = Inr (HV g) \<and> entries_repr (\<lambda>_ _. True) vs g"
    using assms by (intro compile_entries_hash) (auto simp: compile_enum_value_def)
  then show ?thesis using entries_keys by (force simp: gql_schema_compile_enum_values_def)
qed

section \<open>Named types\<close>

lemma named_call:
  "type_at D m = Some d \<Longrightarrow>
    gql_schema_call_method0 (houtou_runtime D) (named_object m) x = scalar_result x (named_method m d x)"
  by (simp add: gql_schema_call_method0_def houtou_runtime_def houtou_call0_def named_object_def)

lemma named_kind: "type_at D m = Some d \<Longrightarrow> gql_schema_named_type_kind (houtou_runtime D) (named_object m) = Inr (decl_kind d)"
  using houtou.kind [of D m] by (simp add: named_object_def)

lemma named_roles: "type_at D m = Some d \<Longrightarrow> \<exists>b. gql_schema_does_any_role (houtou_runtime D) (named_object m) rs = Inr b"
  by (induction rs)
    (auto simp: gql_schema_does_role_def gql_schema_call_method1_def houtou_runtime_def houtou_call1_def
      named_object_def scalar_result_def)

lemma names_compile:
  assumes "list_all (known D) ns"
  shows "gql_schema_compile_type_name_array (houtou_runtime D) (names_array ns) = Inr (AV (map (PV False) ns))"
  using houtou.type_names_compile [of ns D] assms
  by (simp add: names_array_def named_object_def [abs_def] known_def list_all_iff del: type_object.simps)

definition keeps_header :: "hv \<Rightarrow> hv \<Rightarrow> bool" where
  "keeps_header h h' \<longleftrightarrow> (\<forall>k \<in> {''kind'', ''name''}. hv_fetch h' k = hv_fetch h k)"

lemma output_members:
  assumes "type_at D m = Some d" and "d = Object_Decl is fs f \<and> cb = ''is_type_of'' \<or> d = Interface_Decl is fs f \<and> cb = ''resolve_type''"
    and "type_ok D n d"
  shows "\<exists>h'. compile_output_members n (houtou_runtime D) (named_object m) cb h = Inr h' \<and>
    keeps_header h h' \<and> fetch_av h' ''interfaces'' = Some (map (PV False) is) \<and> fields_repr fs h'"
proof -
  have ok: "list_all (known D) is" "fields_ok D n fs" using assms(2,3) by auto
  obtain g where "gql_schema_compile_fields n (houtou_runtime D) (entries_hash field_hash fs) = Inr (HV g)" "entries_repr field_repr fs g"
    using fields_compile [OF ok(2)] by blast
  with names_compile [OF ok(1)] assms(2) show ?thesis
    by (elim disjE conjE)
      (simp_all add: compile_output_members_def named_call [OF assms(1)] named_method_def scalar_result_def keeps_header_def
        fields_repr_def fetch_av_def fetch_hv_def store_all_def)
qed

lemma union_members:
  assumes "type_at D m = Some (Union_Decl ts f)" and "list_all (known D) ts"
  shows "\<exists>h'. compile_union_members (houtou_runtime D) (named_object m) h = Inr h' \<and>
    keeps_header h h' \<and> fetch_av h' ''types'' = Some (map (PV False) ts)"
  by (simp add: compile_union_members_def named_call [OF assms(1)] named_method_def scalar_result_def names_compile [OF assms(2)]
      keeps_header_def fetch_av_def)

lemma input_members:
  assumes "type_at D m = Some (Input_Decl one_of fs)" and "inputs_ok D n fs"
  shows "\<exists>h'. compile_input_members n (houtou_runtime D) (named_object m) h = Inr h' \<and> keeps_header h h' \<and>
    (hv_fetch h ''is_one_of'' = None \<longrightarrow> flag_of h' ''is_one_of'' = one_of) \<and>
    (case fetch_hv h' ''fields'' of Some g \<Rightarrow> inputs_repr (abs_inputs fs) g | None \<Rightarrow> False)"
proof -
  obtain g where "gql_schema_compile_input_fields n (houtou_runtime D) (entries_hash input_hash fs) = Inr (HV g)"
      "inputs_repr (abs_inputs fs) g"
    using input_fields_compile [OF assms(2)] by blast
  then show ?thesis
    by (simp add: compile_input_members_def named_call [OF assms(1)] named_method_def scalar_result_def keeps_header_def Let_def
        compiled_simps)
qed

lemma enum_members:
  assumes "type_at D m = Some (Enum_Decl vs)" and "distinct (map fst vs)"
  shows "\<exists>h'. compile_enum_members (houtou_runtime D) (named_object m) h = Inr h' \<and> keeps_header h h' \<and>
    (case fetch_hv h' ''values'' of Some g \<Rightarrow> set (map fst g) = set (map fst vs) | None \<Rightarrow> False)"
proof -
  obtain g where "gql_schema_compile_enum_values (entries_hash id vs) = Inr (HV g)" "set (map fst g) = set (map fst vs)"
    using enum_values_compile [OF assms(2)] by blast
  then show ?thesis
    by (simp add: compile_enum_members_def named_call [OF assms(1)] named_method_def scalar_result_def keeps_header_def fetch_hv_def)
qed

lemma scalar_members:
  assumes "type_at D m = Some (Scalar_Decl serialize parse_value url)"
  shows "\<exists>h'. compile_scalar_members (houtou_runtime D) (named_object m) h = Inr h' \<and> keeps_header h h' \<and>
    (hv_fetch h ''parse_value'' = None \<longrightarrow> fetch_ok h' ''parse_value'' = (if SvOK parse_value then Some parse_value else None))"
  by (simp add: compile_scalar_members_def named_call [OF assms] named_method_def scalar_result_def keeps_header_def fetch_ok_def)

lemma named_type_compiles:
  assumes "type_at D m = Some d" and "type_ok D n d"
  shows "\<exists>c. gql_schema_compile_named_type n (houtou_runtime D) (named_object m) = Inr c \<and> decl_type_repr (m, d) c"
proof -
  let ?rt = "houtou_runtime D" and ?t = "named_object m"
  obtain i where i: "gql_schema_does_any_role ?rt ?t (role_names ''Input'') = Inr i" using named_roles [OF assms(1)] by blast
  obtain j where j: "gql_schema_does_any_role ?rt ?t (role_names ''Output'') = Inr j" using named_roles [OF assms(1)] by blast
  obtain k where k: "gql_schema_does_any_role ?rt ?t (role_names ''Abstract'') = Inr k" using named_roles [OF assms(1)] by blast
  define h where "h = store_all []
     [(''kind'', PV False (decl_kind d)), (''name'', PV False m), (''class'', PV False (gql_schema_class_name ?rt ?t)),
      (''description'', Undef), (''type_string'', PV False m), (''source_type'', ?t),
      (''source_type_id'', IV (gql_schema_refaddr ?rt ?t)), (''is_input'', flag_iv i), (''is_output'', flag_iv j),
      (''is_abstract'', flag_iv k), (''is_introspection'', flag_iv (is_introspection ?rt ?t))]"
  have run: "gql_schema_compile_named_type n ?rt ?t =
      bnd (if decl_kind d = ''OBJECT'' then compile_output_members n ?rt ?t ''is_type_of'' h
           else if decl_kind d = ''INTERFACE'' then compile_output_members n ?rt ?t ''resolve_type'' h
           else if decl_kind d = ''UNION'' then compile_union_members ?rt ?t h
           else if decl_kind d = ''INPUT_OBJECT'' then compile_input_members n ?rt ?t h
           else if decl_kind d = ''ENUM'' then compile_enum_members ?rt ?t h
           else compile_scalar_members ?rt ?t h) (\<lambda>h. Inr (HV h))"
    by (simp add: gql_schema_compile_named_type_def named_kind [OF assms(1)] named_call [OF assms(1)] named_method_def
        scalar_result_def i j k Let_def h_def)
  have h: "hv_fetch h ''kind'' = Some (PV False (decl_kind d))" "hv_fetch h ''name'' = Some (PV False m)"
      "hv_fetch h ''is_one_of'' = None" "hv_fetch h ''parse_value'' = None"
    by (simp_all add: h_def store_all_def)
  have header: "node_kind h' = Some (decl_kind d)" "hv_fetch h' ''name'' = Some (PV False m)" if "keeps_header h h'" for h'
    using that h by (simp_all add: keeps_header_def node_kind_def fetch_ok_def SvOK_def SvPOK_def)
  show ?thesis
  proof (cases d)
    case (Scalar_Decl serialize parse_value url)
    with scalar_members [of D m serialize parse_value url h] assms(1) h header show ?thesis
      unfolding run by (auto simp: decl_type_repr_def)
  next
    case (Object_Decl ifs fs f)
    with output_members [OF assms(1) _ assms(2), of ifs fs f "''is_type_of''" h] header show ?thesis
      unfolding run by (auto simp: decl_type_repr_def)
  next
    case (Interface_Decl ifs fs f)
    with output_members [OF assms(1) _ assms(2), of ifs fs f "''resolve_type''" h] header show ?thesis
      unfolding run by (auto simp: decl_type_repr_def)
  next
    case (Union_Decl ts f)
    with union_members [of D m ts f h] assms header show ?thesis
      unfolding run by (auto simp: decl_type_repr_def)
  next
    case (Enum_Decl vs)
    with enum_members [of D m vs h] assms header show ?thesis
      unfolding run by (auto simp: decl_type_repr_def)
  next
    case (Input_Decl one_of fs)
    with input_members [of D m one_of fs n h] assms h header show ?thesis
      unfolding run by (auto simp: decl_type_repr_def)
  qed
qed

section \<open>The schema\<close>

lemma schema_call:
  "gql_schema_call_method0 (houtou_runtime D) schema_object x = scalar_result x (schema_method D x)"
  by (simp add: gql_schema_call_method0_def houtou_runtime_def houtou_call0_def schema_object_def)

lemma possible_call:
  "gql_schema_call_method1 (houtou_runtime D) schema_object ''get_possible_types'' (named_object m) =
    Inr (names_array (possible D m))"
  by (simp add: gql_schema_call_method1_def houtou_runtime_def houtou_call1_def schema_object_def named_object_def
      scalar_result_def)

lemma directive_call:
  "map_of (decl_directives D) m = Some d \<Longrightarrow>
    gql_schema_call_method0 (houtou_runtime D) (directive_object m) x = scalar_result x (directive_method m d x)"
  by (simp add: gql_schema_call_method0_def houtou_runtime_def houtou_call0_def directive_object_def)

abbreviation name2type :: "schema_decl \<Rightarrow> hv" where
  "name2type D \<equiv> map (\<lambda>(n, d). (n, named_object n)) (decl_types D)"

lemma name2type_keys: "gql_parser_sorted_hash_keys (name2type D) = qsort_keys (map fst (decl_types D))"
  by (auto simp: gql_parser_sorted_hash_keys_def intro!: arg_cong [where f = qsort_keys])

lemma name2type_fetch: "hv_fetch (name2type D) n = (if known D n then Some (named_object n) else None)"
proof -
  have "map_of (map (\<lambda>(n, d). (n, named_object n)) ds) n = map_option (\<lambda>_. named_object n) (map_of ds n)"
    for ds :: "(string \<times> type_decl) list"
    by (induction ds) auto
  then show ?thesis by (auto simp: hv_fetch_def known_def type_at_def)
qed

lemma type_at_iff: "distinct (map fst (decl_types D)) \<Longrightarrow> type_at D n = Some d \<longleftrightarrow> (n, d) \<in> set (decl_types D)"
  by (simp add: type_at_def)

lemma types_compile:
  assumes "schema_ok D n"
  shows "\<exists>g. compile_types n (houtou_runtime D) (name2type D) = Inr g \<and>
    entries_repr decl_type_repr (tagged (decl_types D)) g"
proof -
  let ?body = "\<lambda>key types. case hv_fetch (name2type D) key of
      None \<Rightarrow> Inr types
    | Some t \<Rightarrow> bnd (gql_schema_compile_named_type n (houtou_runtime D) t) (\<lambda>c. Inr (hv_store types key c))"
  let ?P = "\<lambda>k c. \<exists>d. map_of (tagged (decl_types D)) k = Some d \<and> decl_type_repr d c"
  have "\<exists>c. ?body k out = Inr (hv_store out k c) \<and> ?P k c" if k: "k \<in> set (qsort_keys (map fst (decl_types D)))" for k out
  proof -
    obtain d where "(k, d) \<in> set (decl_types D)" using k by auto
    with assms have d: "type_at D k = Some d" "type_ok D n d"
      by (auto simp: schema_ok_def list_all_iff type_at_iff)
    then show ?thesis
      using named_type_compiles [OF d] by (auto simp: name2type_fetch known_def map_of_tagged type_at_def)
  qed
  from each_stores [of "qsort_keys (map fst (decl_types D))" ?body ?P, OF this]
  obtain out where "each ?body (qsort_keys (map fst (decl_types D))) [] = Inr out" "stored (fst ` set (decl_types D)) ?P out"
    by auto
  moreover have "fst ` set (decl_types D) = fst ` set (tagged (decl_types D))" by (force simp: tagged_def)
  ultimately show ?thesis
    using stored_entries [of "tagged (decl_types D)" decl_type_repr out] by (simp add: compile_types_def name2type_keys)
qed

lemma directives_compile:
  assumes "schema_ok D n"
  shows "\<exists>g. compile_directives n (houtou_runtime D) (map (\<lambda>(n, d). directive_object n) (decl_directives D)) = Inr g \<and>
    entries_repr directive_repr (decl_directives D) g"
proof -
  let ?ds = "decl_directives D"
  let ?body = "\<lambda>d out. bnd (gql_schema_call_method0 (houtou_runtime D) d ''name'') (\<lambda>name.
       bnd (gql_schema_compile_directive n (houtou_runtime D) d) (\<lambda>c. Inr (hv_store out (SvPV name) c)))"
  let ?P = "\<lambda>k c. \<exists>d. map_of ?ds k = Some d \<and> directive_repr d c"
  have dist: "distinct (map fst ?ds)" using assms by (simp add: schema_ok_def)
  have step: "\<exists>c. ?body (directive_object k) out = Inr (hv_store out k c) \<and> ?P k c" if k: "k \<in> set (map fst ?ds)" for k out
  proof -
    obtain d where "(k, d) \<in> set ?ds" using k by auto
    with assms dist have d: "map_of ?ds k = Some d" "inputs_ok D n (dir_args d)"
      by (auto simp: schema_ok_def list_all_iff)
    obtain a where "gql_schema_compile_input_fields n (houtou_runtime D) (entries_hash input_hash (dir_args d)) = Inr (HV a)"
        "inputs_repr (abs_inputs (dir_args d)) a"
      using input_fields_compile [OF d(2)] by blast
    then have "\<exists>c. gql_schema_compile_directive n (houtou_runtime D) (directive_object k) = Inr c \<and> directive_repr d c"
      by (simp add: directive_call [OF d(1)] directive_method_def scalar_result_def gql_schema_compile_directive_def
          directive_repr_def gql_schema_clone_arrayref_shallow_def store_all_def fetch_av_def fetch_hv_def true_at_def
          flag_iv_def SvTRUE_def)
    then show ?thesis
      using d(1) by (auto simp: directive_call [OF d(1)] directive_method_def scalar_result_def)
  qed
  have map: "map (\<lambda>(n, d). directive_object n) ?ds = map directive_object (map fst ?ds)" by auto
  have each: "each ?body (map directive_object ks) s = each (\<lambda>k. ?body (directive_object k)) ks s" for ks s
    by (induction ks arbitrary: s) (simp_all add: bnd_assoc)
  from each_stores [of "map fst ?ds" "\<lambda>k. ?body (directive_object k)" ?P, OF step]
  obtain out where "each ?body (map (\<lambda>(n, d). directive_object n) ?ds) [] = Inr out" "stored (fst ` set ?ds) ?P out"
    unfolding map each by auto
  then show ?thesis using stored_entries by (auto simp: compile_directives_def)
qed

lemma roots_compile:
  assumes "schema_ok D n"
  shows "\<exists>g. each (compile_root (houtou_runtime D) schema_object) [''query'', ''mutation'', ''subscription''] [] = Inr g \<and>
    (\<forall>r \<in> set [''query'', ''mutation'', ''subscription'']. fetch_ok g r = map_option (PV False) (decl_roots D r))"
proof -
  let ?v = "\<lambda>r. case decl_roots D r of Some m \<Rightarrow> PV False m | None \<Rightarrow> Undef"
  have step: "compile_root (houtou_runtime D) schema_object r h = Inr (hv_store h r (?v r))"
    if r: "r \<in> set [''query'', ''mutation'', ''subscription'']" for r h
  proof (cases "decl_roots D r")
    case None
    with r show ?thesis by (simp add: compile_root_def schema_call schema_method_def scalar_result_def SvOK_def gql_store_sv_def)
  next
    case (Some m)
    with assms r obtain d where "type_at D m = Some d" by (auto simp: schema_ok_def known_def)
    with r Some show ?thesis
      by (simp add: compile_root_def schema_call schema_method_def scalar_result_def named_call named_method_def gql_store_sv_def)
        (simp add: named_object_def SvOK_def SvROK_def)
  qed
  show ?thesis by (simp add: step fetch_ok_def SvOK_def split: option.split)
qed

definition names_at :: "hv \<Rightarrow> string \<Rightarrow> sv list" where
  "names_at h i = (case fetch_av h i of Some ns \<Rightarrow> ns | None \<Rightarrow> [])"

lemma names_at_store [simp]: "names_at (hv_store h k (AV ns)) i = (if i = k then ns else names_at h i)"
  by (simp add: names_at_def fetch_av_def)

lemma push_each:
  "list_all (known D) ifs \<Longrightarrow>
    \<exists>h'. each (push_implementation (houtou_runtime D) k) (map named_object ifs) h = Inr h' \<and>
      (\<forall>i. names_at h' i = names_at h i @ map (\<lambda>_. PV False k) (filter (\<lambda>j. j = i) ifs))"
proof (induction ifs arbitrary: h)
  case (Cons j ifs)
  then obtain d where "type_at D j = Some d" by (auto simp: known_def)
  then have "push_implementation (houtou_runtime D) k (named_object j) h = Inr (hv_store h j (AV (names_at h j @ [PV False k])))"
    by (simp add: push_implementation_def named_call named_method_def scalar_result_def names_at_def fetch_av_def split: option.splits sv.splits)
  with Cons.IH [of "hv_store h j (AV (names_at h j @ [PV False k]))"] Cons.prems show ?case by auto
qed simp

lemma object_isa:
  assumes "type_at D k = Some d"
  shows "isa_type (houtou_runtime D) (named_object k) ''Object'' = object_decl d"
    "isa_type (houtou_runtime D) (named_object k) ''Interface'' \<or> isa_type (houtou_runtime D) (named_object k) ''Union''
      \<longleftrightarrow> abstract_decl d"
  using assms by (cases d; simp add: named_object_def isa_houtou)+

definition implements :: "schema_decl \<Rightarrow> string \<Rightarrow> string \<Rightarrow> string list" where
  "implements D i n = (case type_at D n of
     Some d \<Rightarrow> map (\<lambda>_. n) (filter (\<lambda>j. j = i) (decl_interfaces d)) | None \<Rightarrow> [])"

lemma push_interfaces_ok:
  assumes "type_at D k = Some d" and "type_ok D n d"
  shows "\<exists>h'. push_interfaces (houtou_runtime D) k (named_object k) h = Inr h' \<and>
    (\<forall>i. names_at h' i = names_at h i @ map (PV False) (implements D i k))"
proof (cases "object_decl d")
  case True
  then obtain ifs fs f where d: "d = Object_Decl ifs fs f" by (cases d) auto
  with assms(2) have "list_all (known D) ifs" by simp
  from push_each [OF this, of k h] d assms(1) show ?thesis
    by (auto simp: push_interfaces_def object_isa [OF assms(1)] named_call named_method_def scalar_result_def names_array_def
        implements_def decl_interfaces_def o_def)
next
  case False
  then have "decl_interfaces d = []" by (cases d) (auto simp: decl_interfaces_def)
  with False show ?thesis by (simp add: push_interfaces_def object_isa [OF assms(1)] implements_def assms(1))
qed

lemma push_possible_ok:
  assumes "type_at D k = Some d" and "abstract_decl d \<Longrightarrow> list_all (known D) (possible D k)"
  shows "push_possible_types (houtou_runtime D) schema_object k (named_object k) h =
    Inr (if abstract_decl d then hv_store h k (AV (map (PV False) (possible D k))) else h)"
  using assms(2) by (simp add: push_possible_types_def object_isa [OF assms(1)] possible_call names_compile)

lemma map_of_abstract:
  "distinct (map fst (decl_types D)) \<Longrightarrow> map_of (abstract_types D) k =
    (case type_at D k of Some d \<Rightarrow> if abstract_decl d then Some (possible D k) else None | None \<Rightarrow> None)"
proof -
  have "distinct (map fst ds) \<Longrightarrow> map_of (map (\<lambda>(n, d). (n, possible D n)) (filter (\<lambda>(n, d). abstract_decl d) ds)) k =
      (case map_of ds k of Some d \<Rightarrow> if abstract_decl d then Some (possible D k) else None | None \<Rightarrow> None)"
    for ds :: "(string \<times> type_decl) list"
    by (induction ds) (auto simp: map_of_eq_None_iff image_iff)
  then show "distinct (map fst (decl_types D)) \<Longrightarrow> ?thesis" by (simp add: abstract_types_def type_at_def)
qed

lemma abstractions_compile:
  assumes "schema_ok D n"
  shows "\<exists>impls g. compile_abstractions (houtou_runtime D) schema_object (name2type D) = Inr (impls, g) \<and>
    (\<forall>i. names_at impls i = map (PV False) (implementers D i)) \<and>
    entries_repr (\<lambda>ns v. v = AV (map (PV False) ns)) (abstract_types D) g"
proof -
  let ?body = "\<lambda>key (impls, possible). case hv_fetch (name2type D) key of
      None \<Rightarrow> Inr (impls, possible)
    | Some t \<Rightarrow>
        bnd (push_interfaces (houtou_runtime D) key t impls) (\<lambda>impls.
        bnd (push_possible_types (houtou_runtime D) schema_object key t possible) (\<lambda>possible. Inr (impls, possible)))"
  let ?P = "\<lambda>k v. \<exists>ns. map_of (abstract_types D) k = Some ns \<and> v = AV (map (PV False) ns)"
  let ?A = "\<lambda>ks. {k \<in> set ks. map_of (abstract_types D) k \<noteq> None}"
  have dist: "distinct (map fst (decl_types D))" using assms by (simp add: schema_ok_def)
  have run: "\<exists>impls' g'. each ?body ks (impls, g) = Inr (impls', g') \<and>
      (\<forall>i. names_at impls' i = names_at impls i @ map (PV False) (concat (map (implements D i) ks))) \<and>
      stored (K \<union> ?A ks) ?P g'"
    if "set ks \<subseteq> set (map fst (decl_types D))" "stored K ?P g" for ks impls g K
    using that
  proof (induction ks arbitrary: impls g K)
    case (Cons k ks)
    then obtain d where kd: "(k, d) \<in> set (decl_types D)" by auto
    with assms dist have d: "type_at D k = Some d" "type_ok D n d" "abstract_decl d \<Longrightarrow> list_all (is_object D) (possible D k)"
      by (auto simp: schema_ok_def list_all_iff type_at_iff)
    have pos: "list_all (known D) (possible D k)" if "abstract_decl d"
      using d(3) [OF that] by (auto simp: list_all_iff is_object_def known_def split: option.splits)
    obtain impls1 where i1: "push_interfaces (houtou_runtime D) k (named_object k) impls = Inr impls1"
        "\<forall>i. names_at impls1 i = names_at impls i @ map (PV False) (implements D i k)"
      using push_interfaces_ok [OF d(1,2)] by blast
    let ?g = "if abstract_decl d then hv_store g k (AV (map (PV False) (possible D k))) else g"
    have st: "stored (K \<union> ?A [k]) ?P ?g"
    proof (cases "abstract_decl d")
      case True
      then have "map_of (abstract_types D) k = Some (possible D k)" using d(1) dist by (simp add: map_of_abstract)
      then have "?A [k] = {k}" and "?P k (AV (map (PV False) (possible D k)))" by auto
      with True stored_store [OF Cons.prems(2)] show ?thesis by simp
    next
      case False
      then have "?A [k] = {}" using d(1) dist by (auto simp: map_of_abstract)
      then have "K \<union> ?A [k] = K" by blast
      with False Cons.prems(2) show ?thesis by (simp only: if_False)
    qed
    have "each ?body (k # ks) (impls, g) = each ?body ks (impls1, ?g)"
      using i1(1) push_possible_ok [OF d(1) pos, of g] d(1) by (simp add: name2type_fetch known_def)
    moreover have "K \<union> ?A (k # ks) = (K \<union> ?A [k]) \<union> ?A ks" by auto
    ultimately show ?case using Cons.IH [OF _ st, of impls1] Cons.prems(1) i1(2) by auto
  qed simp
  have "set (qsort_keys (map fst (decl_types D))) \<subseteq> set (map fst (decl_types D))" by simp
  from run [OF this stored_Nil, of "[]"] obtain impls g where r:
      "each ?body (qsort_keys (map fst (decl_types D))) ([], []) = Inr (impls, g)"
      "\<forall>i. names_at impls i = names_at [] i @ map (PV False) (concat (map (implements D i) (qsort_keys (map fst (decl_types D)))))"
      "stored ({} \<union> ?A (qsort_keys (map fst (decl_types D)))) ?P g"
    by blast
  have eq: "{} \<union> ?A (qsort_keys (map fst (decl_types D))) = fst ` set (abstract_types D)"
    using dist by (auto simp: abstract_types_def map_of_eq_None_iff image_iff) force
  from r(3) have "stored (fst ` set (abstract_types D)) ?P g" unfolding eq .
  then have "entries_repr (\<lambda>ns v. v = AV (map (PV False) ns)) (abstract_types D) g" by (rule stored_entries)
  moreover have "names_at [] i = []" for i by (simp add: names_at_def fetch_av_def)
  ultimately show ?thesis
    using r(1,2) by (simp add: compile_abstractions_def name2type_keys implementers_def implements_def [abs_def])
qed

lemma schema_compiles:
  assumes "schema_ok D n"
  shows "\<exists>compiled. gql_schema_compile_schema n (houtou_runtime D) schema_object = Inr compiled \<and> decl_repr D compiled"
proof -
  obtain roots where roots: "each (compile_root (houtou_runtime D) schema_object) [''query'', ''mutation'', ''subscription''] [] = Inr roots"
      "\<forall>r \<in> set [''query'', ''mutation'', ''subscription'']. fetch_ok roots r = map_option (PV False) (decl_roots D r)"
    using roots_compile [OF assms] by blast
  obtain types where types: "compile_types n (houtou_runtime D) (name2type D) = Inr types"
      "entries_repr decl_type_repr (tagged (decl_types D)) types"
    using types_compile [OF assms] by blast
  obtain impls g where abstr: "compile_abstractions (houtou_runtime D) schema_object (name2type D) = Inr (impls, g)"
      "\<forall>i. names_at impls i = map (PV False) (implementers D i)"
      "entries_repr (\<lambda>ns v. v = AV (map (PV False) ns)) (abstract_types D) g"
    using abstractions_compile [OF assms] by blast
  obtain dirs where dirs: "compile_directives n (houtou_runtime D) (map (\<lambda>(n, d). directive_object n) (decl_directives D)) = Inr dirs"
      "entries_repr directive_repr (decl_directives D) dirs"
    using directives_compile [OF assms] by blast
  have cls: "pr_derived_from (houtou_runtime D) schema_object ''GraphQL::Houtou::Schema''"
    by (simp add: houtou_runtime_def object_class_def schema_object_def)
  show ?thesis
    unfolding gql_schema_compile_schema_def roots(1)
    using cls roots(2) types abstr dirs
    by (simp add: schema_call schema_method_def scalar_result_def decl_repr_def store_all_def fetch_hv_def names_at_def del: each.simps)
qed


end
