(* ===== verification/Schema_Clients.thy ===== *)
theory Schema_Clients
  imports Schema_Refinement Validation_Selections
begin

text \<open>
  The validator over a compiled schema. What the validator reads out of the hash is what the
  declaration says: the arguments a field takes, the objects two types have in common, the
  costs the compiler lets through.
\<close>

section \<open>Looking up the declaration\<close>

lemma decl_typesE:
  assumes "decl_repr D compiled"
  obtains h g where "compiled = HV h" "fetch_hv h ''types'' = Some g" "entries_repr decl_type_repr (tagged (decl_types D)) g"
  using assms by (auto simp: decl_repr_def split: sv.splits option.splits)

lemma decl_possibleE:
  assumes "decl_repr D compiled"
  obtains h g where "compiled = HV h" "fetch_hv h ''possible_types'' = Some g"
    "entries_repr (\<lambda>ns v. v = AV (map (PV False) ns)) (abstract_types D) g"
  using assms by (auto simp: decl_repr_def split: sv.splits option.splits)

lemma decl_compiled_type:
  assumes "decl_repr D compiled"
  shows "type_at D n = None \<Longrightarrow> gql_validation_compiled_type_hv compiled (Some (PV u n)) = None"
    and "type_at D n = Some d \<Longrightarrow>
      \<exists>h. gql_validation_compiled_type_hv compiled (Some (PV u n)) = Some h \<and> decl_type_repr (n, d) (HV h)"
proof -
  obtain h g where h: "compiled = HV h" "fetch_hv h ''types'' = Some g" "entries_repr decl_type_repr (tagged (decl_types D)) g"
    using decl_typesE [OF assms] by metis
  have look: "gql_validation_compiled_type_hv compiled (Some (PV u n)) = fetch_hv g n"
    by (simp add: gql_validation_compiled_type_hv_def gql_validation_compiled_hv_from_sv_def h(1,2) SvOK_def)
  { assume "type_at D n = None"
    with entries_fetch(2) [OF h(3)] show "gql_validation_compiled_type_hv compiled (Some (PV u n)) = None"
      by (simp add: look fetch_hv_def map_of_tagged type_at_def) }
  { assume "type_at D n = Some d"
    with entries_fetch(1) [OF h(3), of n "(n, d)"]
    obtain v where "hv_fetch g n = Some v" "decl_type_repr (n, d) v" by (auto simp: map_of_tagged type_at_def)
    then show "\<exists>h. gql_validation_compiled_type_hv compiled (Some (PV u n)) = Some h \<and> decl_type_repr (n, d) (HV h)"
      by (auto simp: look fetch_hv_def decl_type_repr_def split: sv.splits) }
qed

lemma members_kind: "decl_type_repr (n, d) (HV h) \<Longrightarrow> kind_repr (abs_kind d) h"
  by (cases d) (auto simp: decl_type_repr_def)

lemma decl_schema_repr:
  assumes "decl_repr D compiled"
  shows "schema_repr (abs_schema D) compiled"
  unfolding schema_repr_def
proof (intro allI)
  fix n u
  show "case (abs_schema D n, gql_validation_compiled_type_hv compiled (Some (PV u n))) of
      (None, None) \<Rightarrow> True | (Some k, Some h) \<Rightarrow> kind_repr k h | _ \<Rightarrow> False"
  proof (cases "type_at D n")
    case None
    then show ?thesis using decl_compiled_type(1) [OF assms, of n u] by (simp add: abs_schema_def)
  next
    case (Some d)
    with decl_compiled_type(2) [OF assms, of n d u] members_kind show ?thesis by (auto simp: abs_schema_def)
  qed
qed

text \<open>The fields of an object or interface.\<close>

definition decl_fields :: "type_decl \<Rightarrow> (string \<times> field_decl) list" where
  "decl_fields d = (case d of Object_Decl _ fs _ \<Rightarrow> fs | Interface_Decl _ fs _ \<Rightarrow> fs | _ \<Rightarrow> [])"

definition field_at :: "schema_decl \<Rightarrow> string \<Rightarrow> string \<Rightarrow> field_decl option" where
  "field_at D m k = (case type_at D m of Some d \<Rightarrow> map_of (decl_fields d) k | None \<Rightarrow> None)"

text \<open>\<open>compiled_field\<close> is the lookup of \<^verbatim>\<open>validate_field_selection\<close>.\<close>

definition compiled_field :: "sv \<Rightarrow> string \<Rightarrow> string \<Rightarrow> hv option" where
  "compiled_field compiled m k =
     Option.bind (gql_validation_compiled_type_hv compiled (Some (PV False m))) (\<lambda>parent.
     Option.bind (fetch_hv parent ''fields'') (\<lambda>fs. fetch_hv fs k))"

lemma compiled_field_repr:
  assumes "decl_repr D compiled" and "field_at D m k = Some f"
  shows "\<exists>h. compiled_field compiled m k = Some h \<and> field_repr f (HV h)"
proof -
  obtain d where d: "type_at D m = Some d" "map_of (decl_fields d) k = Some f"
    using assms(2) by (auto simp: field_at_def split: option.splits)
  obtain h where h: "gql_validation_compiled_type_hv compiled (Some (PV False m)) = Some h" "decl_type_repr (m, d) (HV h)"
    using decl_compiled_type(2) [OF assms(1) d(1)] by blast
  have "fields_repr (decl_fields d) h" using h(2) d(2) 
    by (cases d) (simp_all add: decl_type_repr_def decl_fields_def)
  then obtain g where g: "fetch_hv h ''fields'' = Some g" "entries_repr field_repr (decl_fields d) g"
    by (auto simp: fields_repr_def split: option.splits)
  then obtain v where v: "hv_fetch g k = Some v" "field_repr f v" using entries_fetch(1) [OF g(2) d(2)] by blast
  then obtain x where x: "v = HV x" by (cases v) (auto simp: field_repr_def)
  with v(1) have "fetch_hv g k = Some x" by (simp add: fetch_hv_def)
  then have "compiled_field compiled m k = Some x" unfolding compiled_field_def h(1) by (simp add: g(1))
  with v(2) x show ?thesis by simp
qed

section \<open>Arguments\<close>

text \<open>
  C4. Compiler and validator together check arguments exactly: for a schema compiled from a
  declaration, the arguments of a field are reported if and only if they are not what the
  declaration of the field accepts.
\<close>

theorem compiled_arguments_exact:
  assumes "schema_ok D n" and "gql_schema_compile_schema n (houtou_runtime D) schema_object = Inr (env_compiled env)"
    and "schema_wf (abs_schema D)" and "field_at D m k = Some f"
    and "list_all (\<lambda>(a, d). input_type (abs_schema D) (in_type d)) (f_args f)"
    and "variables_repr V defs" and "args_wf False as" and "hv_or_empty selection ''arguments'' = map (entry_node u) as"
  shows "\<exists>field. compiled_field (env_compiled env) m k = Some field \<and>
    (field_argument_errors env (Some defs) selection field = [] \<longleftrightarrow>
      arguments_accepted (abs_schema D) (env_call_sv env) V u (abs_inputs (f_args f)) as)"
proof -
  have repr: "decl_repr D (env_compiled env)" using schema_compiles [OF assms(1)] assms(2) by auto
  obtain h where h: "compiled_field (env_compiled env) m k = Some h" "field_repr f (HV h)"
    using compiled_field_repr [OF repr assms(4)] by blast
  then obtain a where a: "fetch_hv h ''args'' = Some a" "inputs_repr (abs_inputs (f_args f)) a"
    by (auto simp: field_repr_def split: option.splits)
  have "list_all (\<lambda>(k, t, d). input_type (abs_schema D) t) (abs_inputs (f_args f))"
    using assms(5) by (auto simp: abs_inputs_def list_all_iff)
  from validate_arguments_accepted [OF decl_schema_repr [OF repr] assms(3,6) a(2) this assms(7)] h(1) a(1) show ?thesis
    by (simp add: field_argument_errors_def hv_or_empty_def assms(8) [unfolded hv_or_empty_def])
qed

section \<open>Overlap of types\<close>

text \<open>The objects a value of a type may be.\<close>

definition objects_of :: "schema_decl \<Rightarrow> string \<Rightarrow> string set" where
  "objects_of D n =
     (case type_at D n of
        Some d \<Rightarrow> if object_decl d then {n} else if abstract_decl d then set (possible D n) else {}
      | None \<Rightarrow> {})"

lemma add_object:
  assumes "decl_repr D compiled" and "is_object D n"
  shows "gql_validation_add_possible_object_names (Suc m) compiled (PV u n) out = Inr (hv_store out n (IV 1))"
proof -
  obtain d where d: "type_at D n = Some d" "object_decl d" using assms(2) by (auto simp: is_object_def split: option.splits)
  obtain h where h: "gql_validation_compiled_type_hv compiled (Some (PV u n)) = Some h" "decl_type_repr (n, d) (HV h)"
    using decl_compiled_type(2) [OF assms(1) d(1)] by blast
  have "node_kind h = Some ''OBJECT''" using h(2) d(2) by (cases d) (auto simp: decl_type_repr_def)
  with h(1) show ?thesis by simp
qed

lemma add_objects:
  assumes "decl_repr D compiled"
  shows "list_all (is_object D) ns \<Longrightarrow>
    each (\<lambda>name out. if SvOK name then gql_validation_add_possible_object_names (Suc m) compiled name out else Inr out)
      (map (PV False) ns) out = Inr (foldl (\<lambda>out n. hv_store out n (IV 1)) out ns)"
  by (induction ns arbitrary: out)
    (auto simp: add_object [OF assms] SvOK_def simp del: gql_validation_add_possible_object_names.simps)

lemma add_possible:
  assumes "decl_repr D compiled" and "schema_ok D n"
  shows "\<exists>out. gql_validation_add_possible_object_names (Suc (Suc m)) compiled (PV u a) [] = Inr out \<and>
    (\<forall>k. hv_exists out k \<longleftrightarrow> k \<in> objects_of D a)"
proof (cases "type_at D a")
  case None
  with decl_compiled_type(1) [OF assms(1)] show ?thesis by (simp add: objects_of_def hv_exists_def)
next
  case (Some d)
  obtain h where h: "gql_validation_compiled_type_hv compiled (Some (PV u a)) = Some h" "decl_type_repr (a, d) (HV h)"
    using decl_compiled_type(2) [OF assms(1) Some] by blast
  have kind: "node_kind h = Some (decl_kind d)" using h(2) by (auto simp: decl_type_repr_def)
  show ?thesis
  proof (cases "abstract_decl d")
    case True
    have dist: "distinct (map fst (decl_types D))" using assms(2) by (simp add: schema_ok_def)
    have objs: "list_all (is_object D) (possible D a)"
      using assms(2) Some True dist by (auto simp: schema_ok_def list_all_iff type_at_iff)
    obtain hh g where g: "compiled = HV hh" "fetch_hv hh ''possible_types'' = Some g"
        "entries_repr (\<lambda>ns v. v = AV (map (PV False) ns)) (abstract_types D) g"
      using decl_possibleE [OF assms(1)] by metis
    have "map_of (abstract_types D) a = Some (possible D a)" using Some True dist by (simp add: map_of_abstract)
    then have av: "fetch_av g a = Some (map (PV False) (possible D a))" using entries_fetch(1) [OF g(3)] by (force simp: fetch_av_def)
    have "decl_kind d = ''INTERFACE'' \<or> decl_kind d = ''UNION''" using True by (cases d) auto
    then have "gql_validation_add_possible_object_names (Suc (Suc m)) compiled (PV u a) [] =
        Inr (foldl (\<lambda>out n. hv_store out n (IV 1)) [] (possible D a))"
      using h(1) kind add_objects [OF assms(1) objs, of m "[]"] g(1,2) av
      by (subst gql_validation_add_possible_object_names.simps)
        (auto simp: gql_validation_compiled_hv_from_sv_def simp del: gql_validation_add_possible_object_names.simps)
    moreover have "hv_exists (foldl (\<lambda>out n. hv_store out n (IV 1)) out ns) k \<longleftrightarrow> hv_exists out k \<or> k \<in> set ns" for out ns k
      by (induction ns arbitrary: out) auto
    moreover have "\<not> object_decl d" using True by (cases d) auto
    ultimately show ?thesis using Some True by (simp add: objects_of_def hv_exists_def [of "[]"])
  next
    case False
    show ?thesis
    proof (cases "object_decl d")
      case True
      with Some have "is_object D a" by (simp add: is_object_def)
      from add_object [OF assms(1) this, of "Suc m" u "[]"] show ?thesis
        using True Some by (auto simp: objects_of_def hv_exists_def simp del: gql_validation_add_possible_object_names.simps)
    next
      case not_object: False
      then have "decl_kind d \<notin> set [''OBJECT'', ''INTERFACE'', ''UNION'']" using False by (cases d) auto
      with h(1) kind False not_object Some show ?thesis by (simp add: objects_of_def hv_exists_def)
    qed
  qed
qed

text \<open>
  C13. The overlap test on a compiled schema is exact: two type names overlap if and only if they
  are the same or some object type is possible for both.
\<close>

theorem selection_types_overlap_exact:
  assumes "schema_ok D n" and "gql_schema_compile_schema n (houtou_runtime D) schema_object = Inr compiled"
    and "valid_name a" and "valid_name b"
  shows "gql_validation_selection_types_overlap compiled (Some (PV u a)) (Some (PV v b)) =
    Inr (a = b \<or> objects_of D a \<inter> objects_of D b \<noteq> {})"
proof -
  have repr: "decl_repr D compiled" using schema_compiles [OF assms(1)] assms(2) by auto
  have "\<exists>m. possible_frames compiled = Suc (Suc m)"
    by (auto simp: possible_frames_def numeral_2_eq_2 split: option.split)
  then obtain m where m: "possible_frames compiled = Suc (Suc m)" ..
  obtain l where l: "gql_validation_add_possible_object_names (Suc (Suc m)) compiled (PV u a) [] = Inr l"
      "\<forall>k. hv_exists l k \<longleftrightarrow> k \<in> objects_of D a"
    using add_possible [OF repr assms(1)] by blast
  obtain r where r: "gql_validation_add_possible_object_names (Suc (Suc m)) compiled (PV v b) [] = Inr r"
      "\<forall>k. hv_exists r k \<longleftrightarrow> k \<in> objects_of D b"
    using add_possible [OF repr assms(1)] by blast
  have "list_ex (\<lambda>(key, x). hv_exists l key) r \<longleftrightarrow> objects_of D a \<inter> objects_of D b \<noteq> {}"
    using l(2) r(2) by (force simp: list_ex_iff hv_exists_iff [of r])
  with l(1) r(1) show ?thesis
    using sv_eq_names [OF assms(3,4)]
    by (simp add: gql_validation_selection_types_overlap_def m SvOK_def del: gql_validation_add_possible_object_names.simps)
qed

section \<open>Costs\<close>

lemma each_kept:
  "each body ks s = Inr t \<Longrightarrow> P s \<Longrightarrow> (\<And>k s s'. body k s = Inr s' \<Longrightarrow> P s \<Longrightarrow> P s') \<Longrightarrow> P t"
proof (induction ks arbitrary: s)
  case (Cons k ks)
  then obtain s' where "body k s = Inr s'" "each body ks s' = Inr t" by (auto simp: bnd_eq_Inr)
  with Cons.IH [of s'] Cons.prems show ?case by blast
qed simp

definition costs_ok :: "sv \<Rightarrow> bool" where
  "costs_ok v = (case v of HV h \<Rightarrow> integer_ok h ''cost'' 0 \<and> integer_ok h ''list_size'' 1 | _ \<Rightarrow> False)"

lemma compile_field_costs: "compile_field n rt k field = Inr c \<Longrightarrow> costs_ok c"
  by (auto simp: compile_field_def bnd_eq_Inr Let_def costs_ok_def integer_ok_def checked_integer_def store_all_def
      split: option.splits if_splits)

text \<open>
  C14. Whatever the objects of a schema answer, a hash of fields that compiles holds only costs
  that are integers from 0 and list sizes that are integers from 1, within 63 bits.
\<close>

theorem compiled_costs_checked:
  assumes "gql_schema_compile_fields n rt fields_sv = Inr (HV g)" and "hv_fetch g key = Some v"
  shows "costs_ok v"
proof -
  let ?P = "\<lambda>out. \<forall>k v. hv_fetch out k = Some v \<longrightarrow> costs_ok v"
  have "?P g"
  proof (cases "\<exists>h. fields_sv = HV h")
    case True
    then obtain h where h: "fields_sv = HV h" by blast
    let ?body = "\<lambda>key out. case hv_fetch h key of
       Some (HV field) \<Rightarrow> bnd (compile_field n rt key field) (\<lambda>c. Inr (hv_store out key c)) | _ \<Rightarrow> Inr out"
    have "each ?body (gql_parser_sorted_hash_keys h) [] = Inr g"
      using assms(1) h by (simp add: gql_schema_compile_fields_def compile_entries_def bnd_eq_Inr)
    then show ?thesis
    proof (rule each_kept)
      show "?P s'" if "?body k s = Inr s'" "?P s" for k s s'
        using that by (auto simp: bnd_eq_Inr dest: compile_field_costs split: option.splits sv.splits if_splits)
    qed simp
  next
    case False
    with assms(1) show ?thesis by (auto simp: gql_schema_compile_fields_def compile_entries_def split: sv.splits)
  qed
  with assms(2) show ?thesis by blast
qed

section \<open>A sample schema\<close>

text \<open>An interface with two objects, a union with one of them, and a field with an input object as argument.\<close>

definition sample_in :: "(string \<times> input_decl) list" where
  "sample_in =
     [(''n'', \<lparr>in_type = NonNull (Named ''Int''), in_more = []\<rparr>), (''c'', \<lparr>in_type = Named ''Color'', in_more = []\<rparr>)]"

definition sample_field :: field_decl where
  "sample_field =
     \<lparr>f_type = Named ''Int'', f_args = [(''at'', \<lparr>in_type = NonNull (Named ''In''), in_more = []\<rparr>)], f_more = [(''cost'', IV 3)]\<rparr>"

definition plain_field :: "gtype \<Rightarrow> field_decl" where
  "plain_field t = \<lparr>f_type = t, f_args = [], f_more = []\<rparr>"

definition sample_decl :: schema_decl where
  "sample_decl =
     \<lparr>decl_types =
        [(''Int'', Scalar_Decl Undef Undef Undef), (''Color'', Enum_Decl [(''RED'', [])]), (''In'', Input_Decl False sample_in),
         (''Pet'', Interface_Decl [] [(''age'', plain_field (Named ''Int''))] Undef),
         (''Cat'', Object_Decl [''Pet''] [(''age'', plain_field (Named ''Int''))] Undef),
         (''Dog'', Object_Decl [''Pet''] [(''age'', plain_field (NonNull (Named ''Int'')))] Undef),
         (''Purring'', Union_Decl [''Cat''] Undef),
         (''Query'', Object_Decl [] [(''f'', sample_field), (''pets'', plain_field (ListOf (Named ''Pet'')))] Undef)],
      decl_roots = (\<lambda>r. if r = ''query'' then Some ''Query'' else None),
      decl_directives = [(''skip'', \<lparr>dir_repeatable = False, dir_locations = [PV False ''FIELD''], dir_args = []\<rparr>)],
      possible = (\<lambda>n. if n = ''Pet'' then [''Cat'', ''Dog''] else if n = ''Purring'' then [''Cat''] else [])\<rparr>"

lemmas sample_decl_simps = sample_decl_def sample_in_def sample_field_def plain_field_def

lemma sample_decl_ok: "schema_ok sample_decl 3"
  by (simp add: schema_ok_def sample_decl_simps inputs_ok_def fields_ok_def field_ok_def ref_ok_def known_def type_at_def
      is_object_def integer_ok_def hv_fetch_Cons SvIOK_def signed_iv_def)

lemma sample_decl_wf: "schema_wf (abs_schema sample_decl)"
proof -
  have "\<forall>(n, d) \<in> set (decl_types sample_decl).
      (builtin_scalar n \<longrightarrow> (\<exists>code. abs_kind d = KScalar code)) \<and>
      (case abs_kind d of KInput one_of defs \<Rightarrow> list_all (\<lambda>(f, t, d). input_type (abs_schema sample_decl) t) defs | _ \<Rightarrow> True)"
    by (simp add: sample_decl_simps builtin_scalar_def abs_inputs_def input_type_def abs_schema_def type_at_def valid_name_def
        name_start_def name_char_def isALNUM_def isALPHA_def byte_of_def)
  moreover have "(n, d) \<in> set (decl_types sample_decl)" if "type_at sample_decl n = Some d" for n d
    using that by (simp add: type_at_def map_of_SomeD)
  ultimately show ?thesis unfolding schema_wf_def abs_schema_def by fastforce
qed


theorem selection_types_overlap_exact_witness:
  "\<exists>compiled. gql_schema_compile_schema 3 (houtou_runtime sample_decl) schema_object = Inr compiled \<and>
     gql_validation_selection_types_overlap compiled (Some (PV False ''Pet'')) (Some (PV True ''Purring'')) = Inr True \<and>
     gql_validation_selection_types_overlap compiled (Some (PV False ''Dog'')) (Some (PV True ''Purring'')) = Inr False"
proof -
  obtain compiled where c: "gql_schema_compile_schema 3 (houtou_runtime sample_decl) schema_object = Inr compiled"
    using schema_compiles [OF sample_decl_ok] by blast
  have names: "valid_name ''Pet''" "valid_name ''Purring''" "valid_name ''Dog''"
    by (simp_all add: valid_name_def name_start_def name_char_def isALNUM_def isALPHA_def byte_of_def)
  have "objects_of sample_decl ''Pet'' = {''Cat'', ''Dog''}" "objects_of sample_decl ''Purring'' = {''Cat''}"
      "objects_of sample_decl ''Dog'' = {''Dog''}"
    by (simp_all add: objects_of_def sample_decl_simps type_at_def)
  with selection_types_overlap_exact [OF sample_decl_ok c names(1,2), of False True]
    selection_types_overlap_exact [OF sample_decl_ok c names(3,2), of False True] c
  show ?thesis by auto
qed

definition sample_env :: "sv \<Rightarrow> validation_env" where
  "sample_env compiled =
     \<lparr>env_nv_text = id, env_call_sv = (\<lambda>c v. None), env_compiled = compiled, env_fragments = [], env_lookup_type = (\<lambda>v. None),
      env_is_input = (\<lambda>v. False), env_to_string = (\<lambda>v. []), env_type_ref = id\<rparr>"

definition sample_variables :: hv where
  "sample_variables = [(''x'', HV [(''type'', PV False ''Int''), (''default_value'', IV 1)])]"

definition sample_selection :: hv where
  "sample_selection = [(''arguments'', HV (map (entry_node False) sample_arguments))]"

theorem compiled_arguments_exact_witness:
  "\<exists>compiled field. gql_schema_compile_schema 3 (houtou_runtime sample_decl) schema_object = Inr compiled \<and>
     compiled_field compiled ''Query'' ''f'' = Some field \<and>
     field_argument_errors (sample_env compiled) (Some sample_variables) sample_selection field = []"
proof -
  let ?V = "[''x'' \<mapsto> (Named ''Int'', True)] :: gvariables"
  obtain compiled where c: "gql_schema_compile_schema 3 (houtou_runtime sample_decl) schema_object = Inr (env_compiled (sample_env compiled))"
    using schema_compiles [OF sample_decl_ok] by (auto simp: sample_env_def)
  have field: "field_at sample_decl ''Query'' ''f'' = Some sample_field"
    by (simp add: field_at_def sample_decl_def type_at_def decl_fields_def)
  have vars: "variables_repr ?V sample_variables"
    by (simp add: sample_variables_def variables_repr_def variable_repr_def repr_simps valid_name_def name_start_def name_char_def
        isALNUM_def isALPHA_def byte_of_def)
  have types: "list_all (\<lambda>(a, d). input_type (abs_schema sample_decl) (in_type d)) (f_args sample_field)"
    by (simp add: sample_decl_simps input_type_def abs_schema_def type_at_def valid_name_def name_start_def name_char_def
        isALNUM_def isALPHA_def byte_of_def)
  have args: "args_wf False sample_arguments"
    by (simp add: args_wf_def entry_wf_def sample_arguments_def valid_name_def name_start_def name_char_def isALNUM_def isALPHA_def
        byte_of_def)
  have sel: "hv_or_empty sample_selection ''arguments'' = map (entry_node False) sample_arguments"
    by (simp add: sample_selection_def hv_or_empty_def fetch_hv_def hv_fetch_Cons)
  have "arguments_accepted (abs_schema sample_decl) (\<lambda>c v. None) ?V False (abs_inputs (f_args sample_field)) sample_arguments"
    by (simp add: arguments_accepted_def sample_arguments_def sample_decl_simps abs_inputs_def abs_schema_def type_at_def
        coerces.simps position_ok_def usage_allowed_def nonnull_def nullable_def scalar_accepts_def hv_exists_def)
  with compiled_arguments_exact [OF sample_decl_ok c sample_decl_wf field types vars args sel] c show ?thesis
    by (auto simp: sample_env_def)
qed

theorem compiled_costs_checked_witness:
  "\<exists>g v. gql_schema_compile_fields 3 (houtou_runtime sample_decl) (entries_hash field_hash [(''f'', sample_field)]) = Inr (HV g) \<and>
     hv_fetch g ''f'' = Some v \<and> costs_ok v"
proof -
  have "fields_ok sample_decl 3 [(''f'', sample_field)]"
    by (simp add: sample_decl_simps inputs_ok_def fields_ok_def field_ok_def ref_ok_def known_def type_at_def
        integer_ok_def hv_fetch_Cons SvIOK_def signed_iv_def)
  from fields_compile [OF this] obtain g where
    g: "gql_schema_compile_fields 3 (houtou_runtime sample_decl) (entries_hash field_hash [(''f'', sample_field)]) = Inr (HV g)"
      "entries_repr field_repr [(''f'', sample_field)] g"
    by blast
  obtain v where "hv_fetch g ''f'' = Some v" using entries_fetch(1) [OF g(2), of "''f''" sample_field] by auto
  with g(1) compiled_costs_checked [OF g(1)] show ?thesis by blast
qed

end
