(* ===== verification/VM_Values.thy ===== *)
theory VM_Values
  imports Schema_Compiler
begin

text \<open>
  Values of the VM (\<^verbatim>\<open>src/vm_runtime.h\<close>, lines 985 to 1900 and 2142 to 2263; the names drop the
  prefix \<^verbatim>\<open>gql_runtime_vm_\<close>). A native value is the tree of a response or of a default; a
  dynamic value is an argument or a directive condition of the compiled query, with references to
  variables in it. A payload is the argument list of an operation, a guard an \<^verbatim>\<open>@include\<close> or
  \<^verbatim>\<open>@skip\<close> condition. Pools, capacities and borrowed names are memory management and do not
  appear; a null pointer is \<open>None\<close> where the code can meet one. Names hold no NUL.
\<close>

section \<open>Native values\<close>

datatype native_scalar =
    S_UNDEF
  | S_IV int
  | S_NV string
  | S_PV string bool
  | S_FALLBACK_SV sv

datatype native_value =
    N_SCALAR native_scalar
  | N_OBJECT "(string \<times> native_value) list"
  | N_LIST "native_value list"

definition new_native_value_scalar :: "sv \<Rightarrow> native_value" where
  "new_native_value_scalar value =
     N_SCALAR
       (if \<not> SvOK value then S_UNDEF
        else if SvROK value then S_FALLBACK_SV value
        else if SvPOK value then S_PV (SvPV value) (SvUTF8 value)
        else if SvIOK value then S_IV (signed_iv value)
        else if SvNOK value then S_NV (SvPV value)
        else S_FALLBACK_SV value)"

definition new_native_value_object :: native_value where
  "new_native_value_object = N_OBJECT []"

definition new_native_value_list :: native_value where
  "new_native_value_list = N_LIST []"

definition native_object_store :: "native_value \<Rightarrow> string \<Rightarrow> native_value \<Rightarrow> native_value" where
  "native_object_store value name child =
     (case value of N_OBJECT entries \<Rightarrow> N_OBJECT (entries @ [(name, child)]) | _ \<Rightarrow> value)"

definition native_list_push :: "native_value \<Rightarrow> native_value \<Rightarrow> native_value" where
  "native_list_push value child =
     (case value of N_LIST items \<Rightarrow> N_LIST (items @ [child]) | _ \<Rightarrow> value)"

definition native_scalar_sv :: "native_scalar \<Rightarrow> sv" where
  "native_scalar_sv s =
     (case s of
        S_UNDEF \<Rightarrow> Undef
      | S_IV i \<Rightarrow> IV i
      | S_NV t \<Rightarrow> NV t
      | S_PV t utf8 \<Rightarrow> PV utf8 t
      | S_FALLBACK_SV v \<Rightarrow> v)"

text \<open>A new hash filled by one \<^verbatim>\<open>hv_store\<close> per entry.\<close>

definition hv_of :: "(string \<times> sv) list \<Rightarrow> hv" where
  "hv_of entries = foldl (\<lambda>h (k, v). hv_store h k v) [] entries"

lemma size_object_mem [termination_simp]:
  "(k, v) \<in> set (entries :: (string \<times> native_value) list) \<Longrightarrow>
    size v < Suc (size_list (size_prod (\<lambda>_. 0) size) entries)"
  by (induction entries) auto

fun native_value_materialize_sv :: "native_value \<Rightarrow> sv" where
  "native_value_materialize_sv (N_OBJECT entries) =
     HV (hv_of (map (\<lambda>(k, v). (k, native_value_materialize_sv v)) entries))"
| "native_value_materialize_sv (N_LIST items) = AV (map native_value_materialize_sv items)"
| "native_value_materialize_sv (N_SCALAR s) = native_scalar_sv s"

fun native_value_from_sv :: "sv \<Rightarrow> native_value" where
  "native_value_from_sv (HV h) =
     foldl (\<lambda>v (k, c). native_object_store v k c) new_native_value_object
       (map (\<lambda>(k, c). (k, native_value_from_sv c)) h)"
| "native_value_from_sv (AV xs) =
     foldl native_list_push new_native_value_list (map native_value_from_sv xs)"
| "native_value_from_sv v = new_native_value_scalar v"

definition native_scalar_clone :: "native_scalar \<Rightarrow> native_scalar" where
  "native_scalar_clone s =
     (case s of
        S_UNDEF \<Rightarrow> S_UNDEF
      | S_IV i \<Rightarrow> S_IV i
      | S_NV t \<Rightarrow> S_NV t
      | S_PV t utf8 \<Rightarrow> if t \<noteq> [] then S_PV t utf8 else S_PV [] False
      | S_FALLBACK_SV v \<Rightarrow> (case new_native_value_scalar v of N_SCALAR c \<Rightarrow> c | _ \<Rightarrow> S_UNDEF))"

fun native_value_clone :: "native_value \<Rightarrow> native_value" where
  "native_value_clone (N_OBJECT entries) =
     foldl (\<lambda>v (k, c). native_object_store v k c) new_native_value_object
       (map (\<lambda>(k, c). (k, native_value_clone c)) entries)"
| "native_value_clone (N_LIST items) =
     foldl native_list_push new_native_value_list (map native_value_clone items)"
| "native_value_clone (N_SCALAR s) = N_SCALAR (native_scalar_clone s)"

definition native_value_is_null :: "native_value option \<Rightarrow> bool" where
  "native_value_is_null value =
     (case value of None \<Rightarrow> True | Some v \<Rightarrow> v = N_SCALAR S_UNDEF)"

section \<open>Dynamic values\<close>

text \<open>\<open>D_VARIABLE name index\<close>: the index is \<open>- 1\<close> until \<open>bind_dynamic_value_variables\<close> finds the name.\<close>

datatype dynamic_value =
    D_UNDEF
  | D_SCALAR native_scalar
  | D_VARIABLE string int
  | D_LIST "dynamic_value list"
  | D_OBJECT "(string \<times> dynamic_value) list"

definition dynamic_scalar_from_sv :: "sv \<Rightarrow> dynamic_value" where
  "dynamic_scalar_from_sv v =
     D_SCALAR
       (if SvPOK v then S_PV (SvPV v) (SvUTF8 v)
        else if SvIOK v then S_IV (signed_iv v)
        else if SvNOK v then S_NV (SvPV v)
        else S_UNDEF)"

fun dynamic_value_from_sv :: "sv \<Rightarrow> dynamic_value" where
  "dynamic_value_from_sv Undef = D_UNDEF"
| "dynamic_value_from_sv (AV xs) = D_LIST (map dynamic_value_from_sv xs)"
| "dynamic_value_from_sv (HV h) = D_OBJECT (map (\<lambda>(k, v). (k, dynamic_value_from_sv v)) h)"
| "dynamic_value_from_sv (Ref (PV u name)) = D_VARIABLE name (- 1)"
| "dynamic_value_from_sv v = dynamic_scalar_from_sv v"

fun dynamic_value_from_native_value :: "native_value \<Rightarrow> dynamic_value" where
  "dynamic_value_from_native_value (N_OBJECT entries) =
     D_OBJECT (map (\<lambda>(k, v). (k, dynamic_value_from_native_value v)) entries)"
| "dynamic_value_from_native_value (N_LIST items) = D_LIST (map dynamic_value_from_native_value items)"
| "dynamic_value_from_native_value (N_SCALAR s) =
     (case s of S_FALLBACK_SV v \<Rightarrow> dynamic_value_from_sv v | _ \<Rightarrow> D_SCALAR s)"

lemma size_dynamic_mem [termination_simp]:
  "(k, v) \<in> set (entries :: (string \<times> dynamic_value) list) \<Longrightarrow>
    size v < Suc (size_list (size_prod (\<lambda>_. 0) size) entries)"
  by (induction entries) auto

fun dynamic_value_clone :: "dynamic_value \<Rightarrow> dynamic_value" where
  "dynamic_value_clone (D_OBJECT entries) = D_OBJECT (map (\<lambda>(k, v). (k, dynamic_value_clone v)) entries)"
| "dynamic_value_clone (D_LIST items) = D_LIST (map dynamic_value_clone items)"
| "dynamic_value_clone (D_VARIABLE name i) = D_VARIABLE name i"
| "dynamic_value_clone (D_SCALAR s) = D_SCALAR s"
| "dynamic_value_clone D_UNDEF = D_UNDEF"

text \<open>The loop over the variable definitions, of which only the names are read.\<close>

fun variable_def_index :: "string list \<Rightarrow> string \<Rightarrow> int \<Rightarrow> int" where
  "variable_def_index [] name i = - 1"
| "variable_def_index (d # ds) name i = (if d = name then i else variable_def_index ds name (i + 1))"

fun bind_dynamic_value_variables :: "string list \<Rightarrow> dynamic_value \<Rightarrow> dynamic_value" where
  "bind_dynamic_value_variables defs (D_VARIABLE name i) = D_VARIABLE name (variable_def_index defs name 0)"
| "bind_dynamic_value_variables defs (D_OBJECT entries) =
     D_OBJECT (map (\<lambda>(k, v). (k, bind_dynamic_value_variables defs v)) entries)"
| "bind_dynamic_value_variables defs (D_LIST items) = D_LIST (map (bind_dynamic_value_variables defs) items)"
| "bind_dynamic_value_variables defs v = v"

definition variable_by_name :: "hv option \<Rightarrow> string \<Rightarrow> sv option" where
  "variable_by_name variables name = (case variables of Some h \<Rightarrow> hv_fetch h name | None \<Rightarrow> None)"

definition ok_or_undef :: "sv option \<Rightarrow> sv" where
  "ok_or_undef v = (case v of Some x \<Rightarrow> x | None \<Rightarrow> Undef)"

fun dynamic_value_materialize_sv :: "dynamic_value \<Rightarrow> hv option \<Rightarrow> sv" where
  "dynamic_value_materialize_sv D_UNDEF variables = Undef"
| "dynamic_value_materialize_sv (D_VARIABLE name i) variables = ok_or_undef (variable_by_name variables name)"
| "dynamic_value_materialize_sv (D_LIST items) variables =
     AV (map (\<lambda>v. dynamic_value_materialize_sv v variables) items)"
| "dynamic_value_materialize_sv (D_OBJECT entries) variables =
     HV (hv_of
       (map (\<lambda>(k, v). (k, dynamic_value_materialize_sv v variables)) entries))"
| "dynamic_value_materialize_sv (D_SCALAR s) variables =
     (case s of S_FALLBACK_SV v \<Rightarrow> Undef | _ \<Rightarrow> native_scalar_sv s)"

text \<open>
  \<open>slots\<close> are the prepared variables in the order of the definitions, \<open>None\<close> where the request
  has none; the null array of a caller without slots is the empty list.
\<close>

definition slot_true :: "sv option \<Rightarrow> bool" where
  "slot_true v = (case v of Some x \<Rightarrow> SvOK x \<and> SvTRUE x | None \<Rightarrow> False)"

fun dynamic_value_truthy :: "dynamic_value \<Rightarrow> hv option \<Rightarrow> sv option list \<Rightarrow> bool" where
  "dynamic_value_truthy D_UNDEF variables slots = False"
| "dynamic_value_truthy (D_VARIABLE name i) variables slots =
     (if 0 \<le> i \<and> i < int (length slots) then slot_true (slots ! nat i)
      else slot_true (variable_by_name variables name))"
| "dynamic_value_truthy (D_LIST items) variables slots = True"
| "dynamic_value_truthy (D_OBJECT entries) variables slots = True"
| "dynamic_value_truthy (D_SCALAR s) variables slots =
     (case s of
        S_IV i \<Rightarrow> i \<noteq> 0
      | S_NV t \<Rightarrow> SvTRUE (NV t)
      | S_PV t utf8 \<Rightarrow> \<not> (length t = 0 \<or> (length t = 1 \<and> t ! 0 = CHR 0x30))
      | _ \<Rightarrow> False)"

section \<open>Argument payloads\<close>

text \<open>The two caches hold values shared by every request that runs the operation.\<close>

record args_payload =
  ap_entries :: "(string \<times> dynamic_value) list"
  ap_static_args :: "sv option"
  ap_static_one_arg :: "sv option"

definition args_payload_of :: "(string \<times> dynamic_value) list \<Rightarrow> args_payload" where
  "args_payload_of entries = \<lparr>ap_entries = entries, ap_static_args = None, ap_static_one_arg = None\<rparr>"

definition args_payload_lookup_value ::
  "args_payload option \<Rightarrow> string \<Rightarrow> int \<Rightarrow> dynamic_value option" where
  "args_payload_lookup_value payload arg_name hint =
     (case payload of
        None \<Rightarrow> None
      | Some p \<Rightarrow>
          let entries = ap_entries p
          in if 0 \<le> hint \<and> hint < int (length entries) \<and> fst (entries ! nat hint) = arg_name
             then Some (snd (entries ! nat hint))
             else map_option snd (find (\<lambda>(k, v). k = arg_name) entries))"

definition args_payload_from_hv :: "hv \<Rightarrow> args_payload" where
  "args_payload_from_hv h = args_payload_of (map (\<lambda>(k, v). (k, dynamic_value_from_sv v)) h)"

definition args_payload_clone :: "args_payload \<Rightarrow> args_payload" where
  "args_payload_clone p = args_payload_of (map (\<lambda>(k, v). (k, dynamic_value_clone v)) (ap_entries p))"

definition materialize_entries :: "(string \<times> dynamic_value) list \<Rightarrow> sv" where
  "materialize_entries entries =
     HV (hv_of (map (\<lambda>(k, v). (k, dynamic_value_materialize_sv v None)) entries))"

definition args_payload_materialize_sv :: "args_payload option \<Rightarrow> sv" where
  "args_payload_materialize_sv payload =
     (case payload of None \<Rightarrow> HV [] | Some p \<Rightarrow> materialize_entries (ap_entries p))"

definition args_payload_materialize_cached_sv :: "args_payload \<Rightarrow> sv \<times> args_payload" where
  "args_payload_materialize_cached_sv p =
     (case ap_static_args p of
        Some v \<Rightarrow> (v, p)
      | None \<Rightarrow> let v = materialize_entries (ap_entries p) in (v, p\<lparr>ap_static_args := Some v\<rparr>))"

definition args_payload_materialize_one_arg_cached_sv :: "args_payload \<Rightarrow> sv \<times> args_payload" where
  "args_payload_materialize_one_arg_cached_sv p =
     (case ap_entries p of
        [] \<Rightarrow> (Undef, p)
      | (k, v) # _ \<Rightarrow>
          (case ap_static_one_arg p of
             Some s \<Rightarrow> (s, p)
           | None \<Rightarrow> let s = dynamic_value_materialize_sv v None in (s, p\<lparr>ap_static_one_arg := Some s\<rparr>)))"

section \<open>Guards\<close>

definition GQL_VM_GUARD_INCLUDE :: int where
  "GQL_VM_GUARD_INCLUDE = 1"

definition GQL_VM_GUARD_SKIP :: int where
  "GQL_VM_GUARD_SKIP = 2"

record native_guard =
  guard_kind_code :: int
  guard_if_expr :: "dynamic_value option"

text \<open>
  The three tests both readers of a guard list share: the directive is a hash, it has a defined
  name and its arguments are a hash.
\<close>

definition guard_parts :: "sv \<Rightarrow> (string \<times> hv) option" where
  "guard_parts directive =
     (case directive of
        HV d \<Rightarrow>
          (case (hv_fetch d ''name'', hv_fetch d ''arguments'') of
             (Some name, Some (HV arguments)) \<Rightarrow> if SvOK name then Some (SvPV name, arguments) else None
           | _ \<Rightarrow> None)
      | _ \<Rightarrow> None)"

definition native_guard_from_sv :: "sv \<Rightarrow> native_guard" where
  "native_guard_from_sv directive =
     (case guard_parts directive of
        None \<Rightarrow> \<lparr>guard_kind_code = 0, guard_if_expr = None\<rparr>
      | Some (name, arguments) \<Rightarrow>
          (case hv_fetch arguments ''if'' of
             None \<Rightarrow> \<lparr>guard_kind_code = 0, guard_if_expr = None\<rparr>
           | Some cond \<Rightarrow>
               if \<not> SvOK cond then \<lparr>guard_kind_code = 0, guard_if_expr = None\<rparr>
               else \<lparr>guard_kind_code = (if name = ''skip'' then GQL_VM_GUARD_SKIP else GQL_VM_GUARD_INCLUDE),
                     guard_if_expr = Some (dynamic_value_from_sv cond)\<rparr>))"

definition directives_payload_from_sv :: "sv \<Rightarrow> native_guard list option" where
  "directives_payload_from_sv guards_sv =
     (case guards_sv of AV guards \<Rightarrow> Some (map native_guard_from_sv guards) | _ \<Rightarrow> None)"

definition native_guard_clone :: "native_guard \<Rightarrow> native_guard" where
  "native_guard_clone g =
     \<lparr>guard_kind_code = guard_kind_code g, guard_if_expr = map_option dynamic_value_clone (guard_if_expr g)\<rparr>"

definition directives_payload_clone :: "native_guard list \<Rightarrow> native_guard list" where
  "directives_payload_clone guards = map native_guard_clone guards"

definition bind_guard :: "string list \<Rightarrow> native_guard \<Rightarrow> native_guard" where
  "bind_guard defs g =
     g\<lparr>guard_if_expr := map_option (bind_dynamic_value_variables defs) (guard_if_expr g)\<rparr>"

definition guard_condition_sv :: "native_guard \<Rightarrow> sv" where
  "guard_condition_sv g =
     (case guard_if_expr g of None \<Rightarrow> Undef | Some e \<Rightarrow> dynamic_value_materialize_sv e None)"

definition native_guard_materialize_sv :: "native_guard \<Rightarrow> sv" where
  "native_guard_materialize_sv g =
     HV (hv_store
          (hv_store [] ''name''
            (PV False (if guard_kind_code g = GQL_VM_GUARD_SKIP then ''skip'' else ''include'')))
          ''arguments'' (HV (hv_store [] ''if'' (guard_condition_sv g))))"

definition directives_payload_materialize_sv :: "native_guard list option \<Rightarrow> sv" where
  "directives_payload_materialize_sv payload =
     (case payload of None \<Rightarrow> AV [] | Some guards \<Rightarrow> AV (map native_guard_materialize_sv guards))"

definition guard_true :: "native_guard \<Rightarrow> hv option \<Rightarrow> sv option list \<Rightarrow> bool" where
  "guard_true g variables slots =
     (case guard_if_expr g of None \<Rightarrow> False | Some e \<Rightarrow> dynamic_value_truthy e variables slots)"

fun guards_pass :: "native_guard list \<Rightarrow> hv option \<Rightarrow> sv option list \<Rightarrow> bool" where
  "guards_pass [] variables slots = True"
| "guards_pass (g # gs) variables slots =
     (let b = guard_true g variables slots
      in if guard_kind_code g = GQL_VM_GUARD_SKIP \<and> b then False
         else if guard_kind_code g = GQL_VM_GUARD_INCLUDE \<and> \<not> b then False
         else guards_pass gs variables slots)"

definition evaluate_runtime_guards_native ::
  "native_guard list option \<Rightarrow> hv option \<Rightarrow> sv option list \<Rightarrow> bool" where
  "evaluate_runtime_guards_native payload variables slots =
     (case payload of None \<Rightarrow> True | Some guards \<Rightarrow> guards_pass guards variables slots)"

section \<open>The same on Perl values\<close>

text \<open>
  \<^verbatim>\<open>src/vm_runtime.h\<close>, lines 3484 to 3610. The text of the referent of a JSON boolean is its
  number.
\<close>

definition referent_text :: "sv \<Rightarrow> string" where
  "referent_text v =
     (case v of PBool b \<Rightarrow> if b then ''1'' else ''0'' | Ref inner \<Rightarrow> SvPV inner | _ \<Rightarrow> SvPV v)"

definition materialize_reference :: "sv \<Rightarrow> hv option \<Rightarrow> sv" where
  "materialize_reference v variables = ok_or_undef (variable_by_name variables (referent_text v))"

fun materialize_dynamic_value_sv :: "sv \<Rightarrow> hv option \<Rightarrow> sv" where
  "materialize_dynamic_value_sv (AV xs) variables = AV (map (\<lambda>v. materialize_dynamic_value_sv v variables) xs)"
| "materialize_dynamic_value_sv (HV h) variables =
     HV (hv_of
       (map (\<lambda>(k, v). (k, materialize_dynamic_value_sv v variables)) h))"
| "materialize_dynamic_value_sv (Ref inner) variables =
     (case inner of
        Ref v \<Rightarrow> v
      | PBool b \<Rightarrow> IV (if b then 1 else 0)
      | AV _ \<Rightarrow> inner | HV _ \<Rightarrow> inner | CV _ \<Rightarrow> inner
      | _ \<Rightarrow> materialize_reference (Ref inner) variables)"
| "materialize_dynamic_value_sv (PBool b) variables = materialize_reference (PBool b) variables"
| "materialize_dynamic_value_sv (CV c) variables = materialize_reference (CV c) variables"
| "materialize_dynamic_value_sv v variables = v"

fun guards_pass_hv :: "sv list \<Rightarrow> hv option \<Rightarrow> bool" where
  "guards_pass_hv [] variables = True"
| "guards_pass_hv (directive # ds) variables =
     (case guard_parts directive of
        None \<Rightarrow> guards_pass_hv ds variables
      | Some (name, arguments) \<Rightarrow>
          (case hv_fetch arguments ''if'' of
             None \<Rightarrow> guards_pass_hv ds variables
           | Some cond \<Rightarrow>
               let b = SvTRUE (materialize_dynamic_value_sv cond variables)
               in if name = ''skip'' \<and> b then False
                  else if name = ''include'' \<and> \<not> b then False
                  else guards_pass_hv ds variables))"

definition evaluate_runtime_guards_hv :: "sv \<Rightarrow> hv option \<Rightarrow> bool" where
  "evaluate_runtime_guards_hv guards_sv variables =
     (case guards_sv of AV guards \<Rightarrow> guards_pass_hv guards variables | _ \<Rightarrow> True)"

end
