(* ===== verification/Perl_Numbers.thy ===== *)
theory Perl_Numbers
  imports Schema_Compiler
begin

text \<open>
  The number a Perl scalar stands for: \<^verbatim>\<open>SvIV\<close>, \<^verbatim>\<open>SvNV\<close> and \<^verbatim>\<open>looks_like_number\<close>. A float is the
  decimal its text says, not the double next to it; \<^verbatim>\<open>Decimal m e\<close> is \<open>m * 10 ^ e\<close>.
\<close>

datatype perl_number =
    Decimal int int
  | Infinite bool
  | Not_a_number

definition perl_digit :: "char \<Rightarrow> bool" where
  "perl_digit c \<longleftrightarrow> 48 \<le> byte_of c \<and> byte_of c \<le> 57"

definition isSPACE :: "char \<Rightarrow> bool" where
  "isSPACE c \<longleftrightarrow> byte_of c = 32 \<or> (9 \<le> byte_of c \<and> byte_of c \<le> 13)"

definition read_sign :: "string \<Rightarrow> bool \<times> string" where
  "read_sign t =
     (case t of
        c # cs \<Rightarrow> if c = CHR 0x2D then (True, cs) else if c = CHR 0x2B then (False, cs) else (False, t)
      | [] \<Rightarrow> (False, t))"

definition signed :: "bool \<Rightarrow> int \<Rightarrow> int" where
  "signed negative n = (if negative then - n else n)"

text \<open>An exponent counts only where a digit follows the sign.\<close>

definition read_exponent :: "string \<Rightarrow> int \<times> string" where
  "read_exponent t =
     (case t of
        c # cs \<Rightarrow>
          if c \<in> set ''eE'' then
            (let (negative, ds) = read_sign cs
             in if takeWhile perl_digit ds = [] then (0, t)
                else (signed negative (dec_value (takeWhile perl_digit ds) 0), dropWhile perl_digit ds))
          else (0, t)
      | [] \<Rightarrow> (0, t))"

definition read_fraction :: "string \<Rightarrow> string \<times> string" where
  "read_fraction t =
     (case t of
        c # cs \<Rightarrow> if c = CHR 0x2E then (takeWhile perl_digit cs, dropWhile perl_digit cs) else ([], t)
      | [] \<Rightarrow> ([], t))"

definition lower :: "char \<Rightarrow> char" where
  "lower c = (if 65 \<le> byte_of c \<and> byte_of c \<le> 90 then byte_char (byte_of c + 32) else c)"

definition special_number :: "string \<Rightarrow> bool \<Rightarrow> (perl_number \<times> string) option" where
  "special_number t negative =
     (if map lower (take 8 t) = ''infinity'' then Some (Infinite negative, drop 8 t)
      else if map lower (take 3 t) = ''inf'' then Some (Infinite negative, drop 3 t)
      else if map lower (take 3 t) = ''nan'' then Some (Not_a_number, drop 3 t)
      else None)"

text \<open>The longest numeral at the start of a text, and what follows it.\<close>

definition number_prefix :: "string \<Rightarrow> (perl_number \<times> string) option" where
  "number_prefix t =
     (let (negative, u) = read_sign (dropWhile isSPACE t);
          whole = takeWhile perl_digit u;
          (fraction, r) = read_fraction (dropWhile perl_digit u);
          (expo, rest) = read_exponent r
      in if whole = [] \<and> fraction = [] then special_number u negative
         else Some (Decimal (signed negative (dec_value (whole @ fraction) 0)) (expo - int (length fraction)), rest))"

definition text_number :: "string \<Rightarrow> perl_number" where
  "text_number t = (case number_prefix t of Some (n, rest) \<Rightarrow> n | None \<Rightarrow> Decimal 0 0)"

definition looks_like_number :: "sv \<Rightarrow> bool" where
  "looks_like_number s =
     (case s of
        PV u t \<Rightarrow>
          t = ''0 but true'' \<or>
          (case number_prefix t of Some (n, rest) \<Rightarrow> list_all isSPACE rest | None \<Rightarrow> False)
      | IV _ \<Rightarrow> True
      | NV _ \<Rightarrow> True
      | _ \<Rightarrow> False)"

text \<open>The cast of a number to a signed 64-bit integer: it truncates and saturates as \<^verbatim>\<open>I_V\<close> does.\<close>

definition iv_cast :: "int \<Rightarrow> int" where
  "iv_cast n =
     (if n < - (2 ^ 63) then - (2 ^ 63)
      else if n < 2 ^ 63 then n
      else if n < 2 ^ 64 then n - 2 ^ 64
      else - 1)"

definition truncated :: "int \<Rightarrow> int \<Rightarrow> int" where
  "truncated m e = (if 0 \<le> e then m * 10 ^ nat e else sgn m * (\<bar>m\<bar> div 10 ^ nat (- e)))"

definition number_iv :: "perl_number \<Rightarrow> int" where
  "number_iv n =
     (case n of
        Decimal m e \<Rightarrow> iv_cast (truncated m e)
      | Infinite negative \<Rightarrow> if negative then - (2 ^ 63) else - 1
      | Not_a_number \<Rightarrow> 0)"

text \<open>The number of a reference is its address, which no run of the program fixes: one constant here.\<close>

definition SvIV :: "sv \<Rightarrow> int" where
  "SvIV s =
     (case s of
        Undef \<Rightarrow> 0
      | IV i \<Rightarrow> signed_iv (IV i)
      | NV t \<Rightarrow> number_iv (text_number t)
      | PV u t \<Rightarrow> number_iv (text_number t)
      | PBool b \<Rightarrow> if b then 1 else 0
      | _ \<Rightarrow> 1)"

definition SvNV :: "sv \<Rightarrow> perl_number" where
  "SvNV s =
     (case s of
        Undef \<Rightarrow> Decimal 0 0
      | IV i \<Rightarrow> Decimal i 0
      | NV t \<Rightarrow> text_number t
      | PV u t \<Rightarrow> text_number t
      | PBool b \<Rightarrow> Decimal (if b then 1 else 0) 0
      | _ \<Rightarrow> Decimal 1 0)"

lemma iv_cast_range: "- (2 ^ 63) \<le> iv_cast n \<and> iv_cast n < 2 ^ 63"
  by (auto simp: iv_cast_def)

lemma SvIV_simps [simp]: "SvIV (IV i) = signed_iv (IV i)" "SvIV Undef = 0"
  by (simp_all add: SvIV_def)

end
