(* ===== verification/VM_Programs.thy ===== *)
theory VM_Programs
  imports VM_Values Perl_Numbers
begin

text \<open>
  Programs of the VM (\<^verbatim>\<open>src/vm_runtime.h\<close>): a compiled query is a list of blocks, a block a list of
  slots (fields of one type) and of operations on them. This theory has the structures, the copies,
  the compact Perl form a program is written to and read from, and the resolution of payload
  indexes and variable names. Left out are the caches of a block and of accessors, the handles that
  wrap a program, and lengths of strings. Arrays have no holes here, so an entry is missing only
  past the end.
\<close>

section \<open>Structures\<close>

datatype vm_error = VM_Croak string

type_synonym 'a vm = "vm_error + 'a"

definition GQL_VM_RESOLVE_DEFAULT :: int where "GQL_VM_RESOLVE_DEFAULT = 1"
definition GQL_VM_RESOLVE_EXPLICIT :: int where "GQL_VM_RESOLVE_EXPLICIT = 2"
definition GQL_VM_ARGS_NONE :: int where "GQL_VM_ARGS_NONE = 0"
definition GQL_VM_ARGS_STATIC :: int where "GQL_VM_ARGS_STATIC = 1"
definition GQL_VM_ARGS_DYNAMIC :: int where "GQL_VM_ARGS_DYNAMIC = 2"
definition GQL_VM_CALLBACK_ABI_DEFAULT :: int where "GQL_VM_CALLBACK_ABI_DEFAULT = 1"
definition GQL_VM_CALLBACK_ABI_EXPLICIT_GENERIC :: int where "GQL_VM_CALLBACK_ABI_EXPLICIT_GENERIC = 2"
definition GQL_VM_CALLBACK_ABI_EXPLICIT_NATIVE :: int where "GQL_VM_CALLBACK_ABI_EXPLICIT_NATIVE = 3"
definition GQL_VM_CALLBACK_ABI_EXPLICIT_NATIVE_NO_ARGS :: int where
  "GQL_VM_CALLBACK_ABI_EXPLICIT_NATIVE_NO_ARGS = 4"
definition GQL_VM_CALLBACK_ABI_EXPLICIT_NATIVE_ONE_ARG :: int where
  "GQL_VM_CALLBACK_ABI_EXPLICIT_NATIVE_ONE_ARG = 5"

lemmas vm_codes = GQL_VM_RESOLVE_DEFAULT_def GQL_VM_RESOLVE_EXPLICIT_def GQL_VM_ARGS_NONE_def
  GQL_VM_ARGS_STATIC_def GQL_VM_ARGS_DYNAMIC_def GQL_VM_CALLBACK_ABI_DEFAULT_def
  GQL_VM_CALLBACK_ABI_EXPLICIT_GENERIC_def GQL_VM_CALLBACK_ABI_EXPLICIT_NATIVE_def
  GQL_VM_CALLBACK_ABI_EXPLICIT_NATIVE_NO_ARGS_def GQL_VM_CALLBACK_ABI_EXPLICIT_NATIVE_ONE_ARG_def

text \<open>\<open>ad_nonnull_state\<close>: 0 unknown, 1 non-null, 2 nullable.\<close>

record native_arg_def =
  ad_name :: string
  ad_type_def :: "sv option"
  ad_input_type :: "sv option"
  ad_has_default :: bool
  ad_nonnull_state :: nat
  ad_default_sv :: "sv option"
  ad_default_native :: "native_value option"

record native_slot =
  so_field_name :: string
  so_result_name :: string
  so_return_type_name :: string
  so_accessor_name :: "string option"
  so_schema_slot_index :: int
  so_resolver_shape_code :: int
  so_resolver_mode_code :: int
  so_callback_abi_code :: int
  so_completion_family_code :: int
  so_dispatch_family_code :: int
  so_return_type_kind_code :: int
  so_arg_defs :: "native_arg_def list"
  so_has_args :: bool
  so_has_directives :: bool
  so_item_non_null :: bool

record native_op =
  op_abstract_children :: "(string \<times> int) list"
  op_opcode_code :: int
  op_resolve_code :: int
  op_complete_code :: int
  op_dispatch_family_code :: int
  op_slot_index :: int
  op_child_block_index :: int
  op_args_mode_code :: int
  op_directives_mode_code :: int
  op_args_payload_index :: int
  op_directives_payload_index :: int
  op_args_payload :: "args_payload option"
  op_directives_payload :: "native_guard list option"
  op_has_args :: bool
  op_has_directives :: bool
  op_runtime_directives_mode_code :: int
  op_runtime_directives :: "sv option"
  op_has_runtime_directives :: bool

record native_block =
  bl_family_code :: int
  bl_type_name :: string
  bl_slots :: "native_slot list"
  bl_ops :: "native_op list"

text \<open>\<open>pg_needs_specialization\<close>: 0 not computed, 1 no, 2 yes.\<close>

record native_program =
  pg_version :: int
  pg_operation_name :: "string option"
  pg_operation_type_code :: int
  pg_root_block_index :: int
  pg_variable_defs :: "native_arg_def list"
  pg_blocks :: "native_block list"
  pg_args_payloads :: "args_payload option list"
  pg_directives_payloads :: "native_guard list option list"
  pg_needs_specialization :: nat

definition infer_callback_abi_code :: "int \<Rightarrow> int \<Rightarrow> int" where
  "infer_callback_abi_code resolver_shape_code resolver_mode_code =
     (if resolver_mode_code = 4 then GQL_VM_CALLBACK_ABI_EXPLICIT_NATIVE_ONE_ARG
      else if resolver_mode_code = 3 then GQL_VM_CALLBACK_ABI_EXPLICIT_NATIVE_NO_ARGS
      else if resolver_mode_code = 2 then GQL_VM_CALLBACK_ABI_EXPLICIT_NATIVE
      else if resolver_shape_code = GQL_VM_RESOLVE_EXPLICIT then GQL_VM_CALLBACK_ABI_EXPLICIT_GENERIC
      else GQL_VM_CALLBACK_ABI_DEFAULT)"

text \<open>The bounds test of an index into an array of the program.\<close>

definition at_index :: "'a list \<Rightarrow> int \<Rightarrow> 'a option" where
  "at_index xs i = (if 0 \<le> i \<and> i < int (length xs) then Some (xs ! nat i) else None)"

definition effective_slot :: "native_slot list option \<Rightarrow> native_slot \<Rightarrow> native_slot" where
  "effective_slot runtime_slots slot =
     (case runtime_slots of
        None \<Rightarrow> slot
      | Some slots \<Rightarrow> (case at_index slots (so_schema_slot_index slot) of Some s \<Rightarrow> s | None \<Rightarrow> slot))"

text \<open>The answer is kept in the program, so the walk over the operations is done once.\<close>

definition program_needs_variable_specialization :: "native_program \<Rightarrow> bool \<times> native_program" where
  "program_needs_variable_specialization p =
     (if pg_needs_specialization p \<noteq> 0 then (pg_needs_specialization p = 2, p)
      else if list_ex (\<lambda>b. list_ex op_has_runtime_directives (bl_ops b)) (pg_blocks p)
      then (True, p\<lparr>pg_needs_specialization := 2\<rparr>)
      else (False, p\<lparr>pg_needs_specialization := 1\<rparr>))"

section \<open>Copies\<close>

definition clone_native_arg_def :: "native_arg_def \<Rightarrow> native_arg_def" where
  "clone_native_arg_def d =
     \<lparr>ad_name = ad_name d, ad_type_def = ad_type_def d, ad_input_type = ad_input_type d,
      ad_has_default = ad_has_default d, ad_nonnull_state = ad_nonnull_state d,
      ad_default_sv = ad_default_sv d,
      ad_default_native = map_option native_value_clone (ad_default_native d)\<rparr>"

definition clone_native_slot :: "native_slot \<Rightarrow> native_slot" where
  "clone_native_slot s = s\<lparr>so_arg_defs := map clone_native_arg_def (so_arg_defs s)\<rparr>"

definition clone_native_op :: "native_op \<Rightarrow> native_op" where
  "clone_native_op op =
     op\<lparr>op_args_payload := map_option args_payload_clone (op_args_payload op),
        op_directives_payload := map_option directives_payload_clone (op_directives_payload op)\<rparr>"

definition clone_native_block :: "native_block \<Rightarrow> native_block" where
  "clone_native_block b =
     b\<lparr>bl_slots := map clone_native_slot (bl_slots b), bl_ops := map clone_native_op (bl_ops b)\<rparr>"

definition clone_native_program :: "native_program \<Rightarrow> native_program" where
  "clone_native_program p =
     \<lparr>pg_version = pg_version p, pg_operation_name = pg_operation_name p,
      pg_operation_type_code = pg_operation_type_code p, pg_root_block_index = pg_root_block_index p,
      pg_variable_defs = map clone_native_arg_def (pg_variable_defs p),
      pg_blocks = map clone_native_block (pg_blocks p),
      pg_args_payloads = map (map_option args_payload_clone) (pg_args_payloads p),
      pg_directives_payloads = map (map_option directives_payload_clone) (pg_directives_payloads p),
      pg_needs_specialization = 0\<rparr>"

section \<open>Writing a program\<close>

definition flag_sv :: "bool \<Rightarrow> sv" where
  "flag_sv b = IV (if b then 1 else 0)"

definition copy_or_new :: "sv option \<Rightarrow> sv" where
  "copy_or_new v = (case v of Some x \<Rightarrow> x | None \<Rightarrow> Undef)"

definition arg_def_default_sv :: "native_arg_def \<Rightarrow> sv" where
  "arg_def_default_sv d =
     (case ad_default_native d of
        Some v \<Rightarrow> native_value_materialize_sv v
      | None \<Rightarrow> copy_or_new (ad_default_sv d))"

definition native_arg_def_to_compact_sv :: "native_arg_def \<Rightarrow> sv" where
  "native_arg_def_to_compact_sv d =
     AV [PV False (ad_name d), copy_or_new (ad_type_def d), flag_sv (ad_has_default d),
         if ad_has_default d then arg_def_default_sv d else Undef]"

definition native_slot_to_compact_sv :: "native_slot \<Rightarrow> sv" where
  "native_slot_to_compact_sv s =
     AV [PV False (so_field_name s), PV False (so_result_name s), PV False (so_return_type_name s),
         IV (so_schema_slot_index s), IV (so_resolver_shape_code s), IV (so_completion_family_code s),
         IV (so_dispatch_family_code s), IV (so_return_type_kind_code s), flag_sv (so_has_args s),
         flag_sv (so_has_directives s), IV (so_resolver_mode_code s),
         AV (map native_arg_def_to_compact_sv (so_arg_defs s)), IV (so_callback_abi_code s),
         flag_sv (so_item_non_null s),
         case so_accessor_name s of Some a \<Rightarrow> PV False a | None \<Rightarrow> Undef]"

definition native_op_to_compact_sv :: "native_block \<Rightarrow> native_op \<Rightarrow> sv" where
  "native_op_to_compact_sv b op =
     (let slot = at_index (bl_slots b) (op_slot_index op);
          name_of = (\<lambda>field. PV False (case slot of Some s \<Rightarrow> field s | None \<Rightarrow> []))
      in AV [IV (op_opcode_code op), IV (op_resolve_code op), IV (op_complete_code op),
             IV (op_dispatch_family_code op), IV (op_slot_index op), IV (op_child_block_index op),
             HV (hv_of (map (\<lambda>(name, i). (name, IV i)) (op_abstract_children op))),
             IV (op_args_mode_code op), IV (- 1),
             case op_args_payload op of Some p \<Rightarrow> args_payload_materialize_sv (Some p) | None \<Rightarrow> Undef,
             flag_sv (op_has_args op), IV (op_directives_mode_code op), IV (- 1),
             case op_directives_payload op of Some p \<Rightarrow> directives_payload_materialize_sv (Some p) | None \<Rightarrow> Undef,
             flag_sv (op_has_directives op), name_of so_field_name, name_of so_result_name,
             name_of so_return_type_name, IV (op_runtime_directives_mode_code op),
             copy_or_new (op_runtime_directives op), flag_sv (op_has_runtime_directives op)])"

definition native_block_to_compact_sv :: "native_block \<Rightarrow> sv" where
  "native_block_to_compact_sv b =
     AV [Undef, PV False (bl_type_name b), IV (bl_family_code b),
         AV (map native_slot_to_compact_sv (bl_slots b)), AV (map (native_op_to_compact_sv b) (bl_ops b))]"

definition native_arg_def_to_hash_sv :: "native_arg_def \<Rightarrow> sv" where
  "native_arg_def_to_hash_sv d =
     (let h = hv_store (hv_store [] ''type'' (copy_or_new (ad_type_def d)))
                ''has_default'' (flag_sv (ad_has_default d))
      in HV (if ad_has_default d then hv_store h ''default_value'' (arg_def_default_sv d) else h))"

definition native_arg_defs_to_hash_sv :: "native_arg_def list \<Rightarrow> sv" where
  "native_arg_defs_to_hash_sv defs =
     HV (hv_of (map (\<lambda>d. (ad_name d, native_arg_def_to_hash_sv d)) defs))"

definition native_program_to_compact_sv :: "native_program \<Rightarrow> sv" where
  "native_program_to_compact_sv p =
     HV (hv_of
       [(''version'', IV (if 0 < pg_version p then pg_version p else 1)),
        (''operation_type_code'', IV (pg_operation_type_code p)),
        (''operation_name'', case pg_operation_name p of Some n \<Rightarrow> PV False n | None \<Rightarrow> Undef),
        (''root_block_index'', IV (pg_root_block_index p)),
        (''variable_defs'', native_arg_defs_to_hash_sv (pg_variable_defs p)),
        (''args_payloads_compact'',
           AV (map (\<lambda>a. case a of Some q \<Rightarrow> args_payload_materialize_sv (Some q) | None \<Rightarrow> Undef)
                (pg_args_payloads p))),
        (''directives_payloads_compact'',
           AV (map (\<lambda>a. case a of Some q \<Rightarrow> directives_payload_materialize_sv (Some q) | None \<Rightarrow> Undef)
                (pg_directives_payloads p))),
        (''blocks_compact'', AV (map native_block_to_compact_sv (pg_blocks p)))])"

section \<open>Reading scalars of a descriptor\<close>

definition av_fetch :: "sv list \<Rightarrow> nat \<Rightarrow> sv option" where
  "av_fetch xs i = (if i < length xs then Some (xs ! i) else None)"

text \<open>\<^verbatim>\<open>svp && SvOK(*svp)\<close>: the defined value, if there is one.\<close>

definition defined_sv :: "sv option \<Rightarrow> sv option" where
  "defined_sv v = (case v of Some x \<Rightarrow> if SvOK x then Some x else None | None \<Rightarrow> None)"

definition iv_or :: "int \<Rightarrow> sv option \<Rightarrow> int" where
  "iv_or otherwise v = (case defined_sv v of Some x \<Rightarrow> SvIV x | None \<Rightarrow> otherwise)"

definition flag_field :: "sv option \<Rightarrow> bool" where
  "flag_field v = (case defined_sv v of Some x \<Rightarrow> SvTRUE x | None \<Rightarrow> False)"

definition sv_to_hv :: "sv option \<Rightarrow> hv option" where
  "sv_to_hv v = (case v of Some (HV h) \<Rightarrow> Some h | _ \<Rightarrow> None)"

definition sv_to_av :: "sv option \<Rightarrow> sv list option" where
  "sv_to_av v = (case v of Some (AV xs) \<Rightarrow> Some xs | _ \<Rightarrow> None)"

definition fetch_hv_string :: "hv \<Rightarrow> string \<Rightarrow> string option" where
  "fetch_hv_string h key = map_option SvPV (defined_sv (hv_fetch h key))"

definition fetch_hv_iv :: "hv \<Rightarrow> string \<Rightarrow> int option" where
  "fetch_hv_iv h key = map_option SvIV (defined_sv (hv_fetch h key))"

definition fetch_hv_bool :: "hv \<Rightarrow> string \<Rightarrow> bool option" where
  "fetch_hv_bool h key = map_option (\<lambda>i. i \<noteq> 0) (fetch_hv_iv h key)"

definition or_croak :: "string \<Rightarrow> 'a option \<Rightarrow> 'a vm" where
  "or_croak message v = (case v of Some x \<Rightarrow> Inr x | None \<Rightarrow> Inl (VM_Croak message))"

text \<open>A loop that fills an array, entry by entry.\<close>

fun fill :: "('a \<Rightarrow> 'e + 'b) \<Rightarrow> 'a list \<Rightarrow> 'e + 'b list" where
  "fill f [] = Inr []"
| "fill f (x # xs) = bnd (f x) (\<lambda>y. bnd (fill f xs) (\<lambda>ys. Inr (y # ys)))"

section \<open>Reading argument definitions and slots\<close>

definition parsed_arg_def :: "string \<Rightarrow> sv option \<Rightarrow> sv option \<Rightarrow> sv option \<Rightarrow> native_arg_def" where
  "parsed_arg_def name type_def has_default default_value =
     \<lparr>ad_name = name, ad_type_def = defined_sv type_def, ad_input_type = None,
      ad_has_default = flag_field has_default, ad_nonnull_state = 0,
      ad_default_sv = defined_sv default_value, ad_default_native = None\<rparr>"

definition parse_arg_def_hash_entry :: "string \<times> sv \<Rightarrow> native_arg_def vm" where
  "parse_arg_def_hash_entry entry =
     (case snd entry of
        HV d \<Rightarrow>
          Inr (parsed_arg_def (fst entry) (hv_fetch d ''type'') (hv_fetch d ''has_default'')
                 (hv_fetch d ''default_value''))
      | _ \<Rightarrow> Inl (VM_Croak ''native VM slot arg_defs hash entry must be a hash reference''))"

definition parse_arg_def_array_entry :: "sv \<Rightarrow> native_arg_def vm" where
  "parse_arg_def_array_entry entry =
     (case entry of
        AV xs \<Rightarrow>
          bnd (or_croak ''native VM slot arg_defs entry is missing name'' (defined_sv (av_fetch xs 0))) (\<lambda>name.
          Inr (parsed_arg_def (SvPV name) (av_fetch xs 1) (av_fetch xs 2) (av_fetch xs 3)))
      | _ \<Rightarrow> Inl (VM_Croak ''native VM slot arg_defs entry must be an array reference''))"

definition parse_native_arg_defs :: "sv option \<Rightarrow> native_arg_def list vm" where
  "parse_native_arg_defs s =
     (case defined_sv s of
        None \<Rightarrow> Inr []
      | Some (HV h) \<Rightarrow> fill parse_arg_def_hash_entry h
      | Some (AV xs) \<Rightarrow> fill parse_arg_def_array_entry xs
      | Some _ \<Rightarrow> Inl (VM_Croak ''native VM slot arg_defs must be an array reference or hash reference''))"

definition missing_slot :: "string \<Rightarrow> string" where
  "missing_slot key = ''native VM slot entry is missing '' @ key"

definition parse_slot_array :: "sv list \<Rightarrow> native_slot vm" where
  "parse_slot_array xs =
     (let text = (\<lambda>i key. or_croak (missing_slot key) (map_option SvPV (defined_sv (av_fetch xs i))))
      in bnd (text 0 ''field_name'') (\<lambda>field_name.
         bnd (text 1 ''result_name'') (\<lambda>result_name.
         bnd (text 2 ''return_type_name'') (\<lambda>return_type_name.
         bnd (parse_native_arg_defs (av_fetch xs 11)) (\<lambda>arg_defs.
         let shape = iv_or 0 (av_fetch xs 4); mode = iv_or 0 (av_fetch xs 10)
         in Inr
           \<lparr>so_field_name = field_name, so_result_name = result_name, so_return_type_name = return_type_name,
            so_accessor_name = map_option SvPV (defined_sv (av_fetch xs 14)),
            so_schema_slot_index = iv_or (- 1) (av_fetch xs 3),
            so_resolver_shape_code = shape, so_resolver_mode_code = mode,
            so_callback_abi_code = iv_or (infer_callback_abi_code shape mode) (av_fetch xs 12),
            so_completion_family_code = iv_or 0 (av_fetch xs 5),
            so_dispatch_family_code = iv_or 0 (av_fetch xs 6),
            so_return_type_kind_code = iv_or 0 (av_fetch xs 7),
            so_arg_defs = arg_defs, so_has_args = flag_field (av_fetch xs 8),
            so_has_directives = flag_field (av_fetch xs 9), so_item_non_null = flag_field (av_fetch xs 13)\<rparr>)))))"

definition parse_slot_hash :: "hv \<Rightarrow> native_slot vm" where
  "parse_slot_hash h =
     (let text = (\<lambda>key. or_croak (missing_slot key) (fetch_hv_string h key));
          iv = (\<lambda>key. or_croak (missing_slot key) (fetch_hv_iv h key));
          flag = (\<lambda>key. or_croak (missing_slot key) (fetch_hv_bool h key))
      in bnd (text ''field_name'') (\<lambda>field_name.
         bnd (text ''result_name'') (\<lambda>result_name.
         bnd (text ''return_type_name'') (\<lambda>return_type_name.
         bnd (iv ''schema_slot_index'') (\<lambda>schema_slot_index.
         bnd (iv ''resolver_shape_code'') (\<lambda>shape.
         bnd (iv ''resolver_mode_code'') (\<lambda>mode.
         bnd (iv ''completion_family_code'') (\<lambda>completion.
         bnd (iv ''dispatch_family_code'') (\<lambda>dispatch.
         bnd (iv ''return_type_kind_code'') (\<lambda>kind.
         bnd (flag ''has_args'') (\<lambda>has_args.
         bnd (flag ''has_directives'') (\<lambda>has_directives.
         bnd (parse_native_arg_defs (hv_fetch h ''arg_defs'')) (\<lambda>arg_defs.
         Inr
           \<lparr>so_field_name = field_name, so_result_name = result_name, so_return_type_name = return_type_name,
            so_accessor_name = fetch_hv_string h ''accessor'',
            so_schema_slot_index = schema_slot_index,
            so_resolver_shape_code = shape, so_resolver_mode_code = mode,
            so_callback_abi_code =
              (case fetch_hv_iv h ''callback_abi_code'' of
                 Some c \<Rightarrow> c | None \<Rightarrow> infer_callback_abi_code shape mode),
            so_completion_family_code = completion, so_dispatch_family_code = dispatch,
            so_return_type_kind_code = kind, so_arg_defs = arg_defs, so_has_args = has_args,
            so_has_directives = has_directives,
            so_item_non_null = flag_field (hv_fetch h ''item_non_null'')\<rparr>)))))))))))))"

definition parse_native_slot :: "sv \<Rightarrow> native_slot vm" where
  "parse_native_slot s =
     (case s of
        AV xs \<Rightarrow> parse_slot_array xs
      | HV h \<Rightarrow> parse_slot_hash h
      | _ \<Rightarrow> Inl (VM_Croak ''native VM slot entry must be a hash reference''))"

section \<open>Reading operations and blocks\<close>

definition parse_abstract_children :: "sv option \<Rightarrow> (string \<times> int) list" where
  "parse_abstract_children v =
     (case sv_to_hv v of
        Some h \<Rightarrow> map (\<lambda>(name, i). (name, iv_or (- 1) (Some i))) h
      | None \<Rightarrow> [])"

definition parse_args_payload :: "sv option \<Rightarrow> args_payload option" where
  "parse_args_payload v = map_option args_payload_from_hv (sv_to_hv v)"

definition parse_directives_payload :: "sv option \<Rightarrow> native_guard list option" where
  "parse_directives_payload v =
     (case defined_sv v of Some x \<Rightarrow> directives_payload_from_sv x | None \<Rightarrow> None)"

definition parse_op_array :: "sv list \<Rightarrow> native_op" where
  "parse_op_array xs =
     \<lparr>op_abstract_children = parse_abstract_children (av_fetch xs 6),
      op_opcode_code = iv_or 0 (av_fetch xs 0), op_resolve_code = iv_or 0 (av_fetch xs 1),
      op_complete_code = iv_or 0 (av_fetch xs 2), op_dispatch_family_code = iv_or 0 (av_fetch xs 3),
      op_slot_index = iv_or (- 1) (av_fetch xs 4), op_child_block_index = iv_or (- 1) (av_fetch xs 5),
      op_args_mode_code = iv_or GQL_VM_ARGS_NONE (av_fetch xs 7),
      op_directives_mode_code = iv_or GQL_VM_ARGS_NONE (av_fetch xs 11),
      op_args_payload_index = iv_or (- 1) (av_fetch xs 8),
      op_directives_payload_index = iv_or (- 1) (av_fetch xs 12),
      op_args_payload = parse_args_payload (av_fetch xs 9),
      op_directives_payload = parse_directives_payload (av_fetch xs 13),
      op_has_args = flag_field (av_fetch xs 10), op_has_directives = flag_field (av_fetch xs 14),
      op_runtime_directives_mode_code = iv_or GQL_VM_ARGS_NONE (av_fetch xs 18),
      op_runtime_directives = defined_sv (av_fetch xs 19),
      op_has_runtime_directives = flag_field (av_fetch xs 20)\<rparr>"

definition missing_op :: "string \<Rightarrow> string" where
  "missing_op key = ''native VM op entry is missing '' @ key"

definition parse_op_hash :: "hv \<Rightarrow> native_op vm" where
  "parse_op_hash h =
     (let iv = (\<lambda>key. or_croak (missing_op key) (fetch_hv_iv h key));
          flag = (\<lambda>key. or_croak (missing_op key) (fetch_hv_bool h key))
      in bnd (iv ''opcode_code'') (\<lambda>opcode.
         bnd (iv ''resolve_code'') (\<lambda>resolve.
         bnd (iv ''complete_code'') (\<lambda>complete.
         bnd (iv ''dispatch_family_code'') (\<lambda>dispatch.
         bnd (flag ''has_args'') (\<lambda>has_args.
         bnd (flag ''has_directives'') (\<lambda>has_directives.
         Inr
           \<lparr>op_abstract_children = parse_abstract_children (hv_fetch h ''abstract_child_block_indexes''),
            op_opcode_code = opcode, op_resolve_code = resolve, op_complete_code = complete,
            op_dispatch_family_code = dispatch,
            op_slot_index = iv_or (- 1) (hv_fetch h ''slot_index''),
            op_child_block_index = iv_or (- 1) (hv_fetch h ''child_block_index''),
            op_args_mode_code = iv_or GQL_VM_ARGS_NONE (hv_fetch h ''args_mode_code''),
            op_directives_mode_code = iv_or GQL_VM_ARGS_NONE (hv_fetch h ''directives_mode_code''),
            op_args_payload_index = iv_or (- 1) (hv_fetch h ''args_payload_index''),
            op_directives_payload_index = iv_or (- 1) (hv_fetch h ''directives_payload_index''),
            op_args_payload = parse_args_payload (hv_fetch h ''args_payload''),
            op_directives_payload = parse_directives_payload (hv_fetch h ''directives_payload''),
            op_has_args = has_args, op_has_directives = has_directives,
            op_runtime_directives_mode_code = iv_or GQL_VM_ARGS_NONE (hv_fetch h ''runtime_directives_mode_code''),
            op_runtime_directives = defined_sv (hv_fetch h ''runtime_directives_payload''),
            op_has_runtime_directives = flag_field (hv_fetch h ''has_runtime_directives'')\<rparr>)))))))"

definition parse_native_op :: "sv \<Rightarrow> native_op vm" where
  "parse_native_op s =
     (case s of
        AV xs \<Rightarrow> Inr (parse_op_array xs)
      | HV h \<Rightarrow> parse_op_hash h
      | _ \<Rightarrow> Inl (VM_Croak ''native VM op entry must be a hash reference''))"

text \<open>\<^verbatim>\<open>return 0\<close> is \<open>Inr None\<close>: the caller adds the index of the block to the message.\<close>

definition parse_block_parts :: "string \<Rightarrow> int \<Rightarrow> sv option \<Rightarrow> sv option \<Rightarrow> native_block option vm" where
  "parse_block_parts type_name family slots ops =
     (case (sv_to_av slots, sv_to_av ops) of
        (Some ss, Some os) \<Rightarrow>
          bnd (fill parse_native_slot ss) (\<lambda>slots.
          bnd (fill parse_native_op os) (\<lambda>ops.
          Inr (Some \<lparr>bl_family_code = family, bl_type_name = type_name, bl_slots = slots, bl_ops = ops\<rparr>)))
      | _ \<Rightarrow> Inr None)"

definition parse_native_block :: "sv \<Rightarrow> native_block option vm" where
  "parse_native_block s =
     (case s of
        AV xs \<Rightarrow>
          (case defined_sv (av_fetch xs 2) of
             None \<Rightarrow> Inr None
           | Some family \<Rightarrow>
               bnd (or_croak ''native VM block entry is missing type_name'' (defined_sv (av_fetch xs 1))) (\<lambda>name.
               parse_block_parts (SvPV name) (SvIV family) (av_fetch xs 3) (av_fetch xs 4)))
      | HV h \<Rightarrow>
          (case fetch_hv_iv h ''family_code'' of
             None \<Rightarrow> Inr None
           | Some family \<Rightarrow>
               bnd (or_croak ''native VM block entry is missing type_name'' (fetch_hv_string h ''type_name'')) (\<lambda>name.
               parse_block_parts name family (hv_fetch h ''slots'') (hv_fetch h ''ops'')))
      | _ \<Rightarrow> Inr None)"

section \<open>Reading a program\<close>

text \<open>The compact key first, the plain key where the first is no array.\<close>

definition fetch_either_av :: "hv \<Rightarrow> string \<Rightarrow> string \<Rightarrow> sv list option" where
  "fetch_either_av h key fallback =
     (case sv_to_av (hv_fetch h key) of Some xs \<Rightarrow> Some xs | None \<Rightarrow> sv_to_av (hv_fetch h fallback))"

definition parse_args_payloads :: "hv \<Rightarrow> args_payload option list" where
  "parse_args_payloads h =
     (case fetch_either_av h ''args_payloads_compact'' ''args_payloads'' of
        Some xs \<Rightarrow> map (\<lambda>x. parse_args_payload (Some x)) xs
      | None \<Rightarrow> [])"

definition parse_directives_payloads :: "hv \<Rightarrow> native_guard list option list" where
  "parse_directives_payloads h =
     (case fetch_either_av h ''directives_payloads_compact'' ''directives_payloads'' of
        Some xs \<Rightarrow> map (\<lambda>x. parse_directives_payload (Some x)) xs
      | None \<Rightarrow> [])"

definition catalog_entry :: "string \<Rightarrow> 'a option list \<Rightarrow> int \<Rightarrow> 'a vm" where
  "catalog_entry message catalog i =
     (case at_index catalog i of Some (Some p) \<Rightarrow> Inr p | _ \<Rightarrow> Inl (VM_Croak message))"

definition invalid_index :: "string \<Rightarrow> int \<Rightarrow> string" where
  "invalid_index what i = ''native VM '' @ what @ '' payload index '' @ dec_int i @ '' is invalid''"

definition resolve_payloads ::
  "args_payload option list \<Rightarrow> native_guard list option list \<Rightarrow> native_op \<Rightarrow> native_op vm" where
  "resolve_payloads args guards op =
     bnd (if op_args_payload op = None \<and> 0 \<le> op_args_payload_index op then
            bnd (catalog_entry (invalid_index ''args'' (op_args_payload_index op)) args (op_args_payload_index op)) (\<lambda>p.
            Inr (op\<lparr>op_args_payload := Some (args_payload_clone p)\<rparr>))
          else Inr op) (\<lambda>op.
     if op_directives_payload op = None \<and> 0 \<le> op_directives_payload_index op then
       bnd (catalog_entry (invalid_index ''directives'' (op_directives_payload_index op)) guards
              (op_directives_payload_index op)) (\<lambda>p.
       Inr (op\<lparr>op_directives_payload := Some (directives_payload_clone p)\<rparr>))
     else Inr op)"

fun parse_blocks ::
  "args_payload option list \<Rightarrow> native_guard list option list \<Rightarrow> nat \<Rightarrow> sv list \<Rightarrow> native_block list vm"
where
  "parse_blocks args guards i [] = Inr []"
| "parse_blocks args guards i (s # ss) =
     bnd (parse_native_block s) (\<lambda>b.
     bnd (or_croak (''native VM block entry '' @ dec_int (int i) @ '' is invalid'') b) (\<lambda>b.
     bnd (fill (resolve_payloads args guards) (bl_ops b)) (\<lambda>ops.
     bnd (parse_blocks args guards (Suc i) ss) (\<lambda>bs.
     Inr (b\<lparr>bl_ops := ops\<rparr> # bs)))))"

definition bind_args_payload :: "string list \<Rightarrow> args_payload \<Rightarrow> args_payload" where
  "bind_args_payload defs p =
     p\<lparr>ap_entries := map (\<lambda>(k, v). (k, bind_dynamic_value_variables defs v)) (ap_entries p)\<rparr>"

definition bind_op :: "string list \<Rightarrow> native_op \<Rightarrow> native_op" where
  "bind_op defs op =
     op\<lparr>op_args_payload := map_option (bind_args_payload defs) (op_args_payload op),
        op_directives_payload := map_option (map (bind_guard defs)) (op_directives_payload op)\<rparr>"

definition bind_block :: "string list \<Rightarrow> native_block \<Rightarrow> native_block" where
  "bind_block defs b = b\<lparr>bl_ops := map (bind_op defs) (bl_ops b)\<rparr>"

definition native_program_from_sv :: "sv \<Rightarrow> native_program vm" where
  "native_program_from_sv s =
     (case s of
        HV h \<Rightarrow>
          bnd (or_croak ''native VM program descriptor is missing operation_type_code''
                 (fetch_hv_iv h ''operation_type_code'')) (\<lambda>optype.
          bnd (or_croak ''native VM program descriptor is missing root_block_index''
                 (fetch_hv_iv h ''root_block_index'')) (\<lambda>root.
          bnd (parse_native_arg_defs (hv_fetch h ''variable_defs'')) (\<lambda>defs.
          let args = parse_args_payloads h; guards = parse_directives_payloads h
          in bnd (or_croak ''native VM program descriptor is missing blocks''
                    (fetch_either_av h ''blocks_compact'' ''blocks'')) (\<lambda>blocks_av.
             bnd (parse_blocks args guards 0 blocks_av) (\<lambda>blocks.
             Inr
               \<lparr>pg_version = iv_or 1 (hv_fetch h ''version''),
                pg_operation_name = map_option SvPV (defined_sv (hv_fetch h ''operation_name'')),
                pg_operation_type_code = optype, pg_root_block_index = root,
                pg_variable_defs = defs, pg_blocks = map (bind_block (map ad_name defs)) blocks,
                pg_args_payloads = args, pg_directives_payloads = guards,
                pg_needs_specialization = 0\<rparr>)))))
      | _ \<Rightarrow> Inl (VM_Croak ''native VM program descriptor must be a hash reference''))"

end
