(* ===== verification/VM_Values_Lemmas.thy ===== *)
theory VM_Values_Lemmas
  imports VM_Values
begin

text \<open>
  What the conversions keep. A native tree gives back the Perl value it was built from; the native
  form of an argument or a guard means what the Perl form means.
\<close>

section \<open>Stores\<close>

lemma store_fresh_list:
  "distinct (map fst ys) \<Longrightarrow> fst ` set h \<inter> fst ` set ys = {} \<Longrightarrow>
    foldl (\<lambda>h (k, v). hv_store h k v) h ys = h @ ys"
proof (induction ys arbitrary: h)
  case Nil
  then show ?case by simp
next
  case (Cons y ys)
  obtain k v where y: "y = (k, v)" by (cases y)
  have "k \<notin> fst ` set h" using Cons.prems(2) y by auto
  then have "hv_store h k v = h @ [(k, v)]"
    unfolding hv_store_def by (induction h) auto
  moreover have "foldl (\<lambda>h (k, v). hv_store h k v) (h @ [(k, v)]) ys = (h @ [(k, v)]) @ ys"
    using Cons.prems y by (intro Cons.IH) auto
  ultimately show ?case by (simp add: y)
qed

lemma hv_of_distinct: "distinct (map fst ys) \<Longrightarrow> hv_of ys = ys"
  by (simp add: hv_of_def store_fresh_list)

lemma pairs_cong:
  "(\<And>k v. (k, v) \<in> set h \<Longrightarrow> f v = g v) \<Longrightarrow> map (\<lambda>(k, v). (k, f v)) h = map (\<lambda>(k, v). (k, g v)) h"
  by auto

lemma pairs_comp [simp]:
  "(\<lambda>(k, v). (k, f v)) \<circ> (\<lambda>(k, v). (k, g v)) = (\<lambda>(k, v). (k, f (g v)))"
  by auto

lemma pairs_id: "(\<And>k v. (k, v) \<in> set h \<Longrightarrow> f v = v) \<Longrightarrow> map (\<lambda>(k, v). (k, f v)) h = h"
  by (rule map_idI) auto

lemma fst_pairs [simp]: "fst \<circ> (\<lambda>(k, v). (k, f v)) = fst"
  by auto

lemma native_stores [simp]:
  "foldl (\<lambda>v (k, c). native_object_store v k c) (N_OBJECT es) ys = N_OBJECT (es @ ys)"
  by (induction ys arbitrary: es) (auto simp: native_object_store_def)

lemma native_pushes [simp]: "foldl native_list_push (N_LIST xs) ys = N_LIST (xs @ ys)"
  by (induction ys arbitrary: xs) (auto simp: native_list_push_def)

lemma native_from_simps [simp]:
  "native_value_from_sv (HV h) = N_OBJECT (map (\<lambda>(k, c). (k, native_value_from_sv c)) h)"
  "native_value_from_sv (AV xs) = N_LIST (map native_value_from_sv xs)"
  "native_value_clone (N_OBJECT es) = N_OBJECT (map (\<lambda>(k, c). (k, native_value_clone c)) es)"
  "native_value_clone (N_LIST vs) = N_LIST (map native_value_clone vs)"
  by (simp_all add: new_native_value_object_def new_native_value_list_def)

declare native_value_from_sv.simps(1,2) [simp del] native_value_clone.simps(1,2) [simp del]

section \<open>A tree gives back its value\<close>

text \<open>
  The values of a response: integers of 64 bits, hashes with distinct keys. A clone loses the
  UTF-8 flag of an empty string and nothing else.
\<close>

definition iv_range :: "int \<Rightarrow> bool" where
  "iv_range i \<longleftrightarrow> - (2 ^ 63) \<le> i \<and> i < 2 ^ 63"

fun plain_sv :: "sv \<Rightarrow> bool" where
  "plain_sv (IV i) = iv_range i"
| "plain_sv (AV xs) = (\<forall>x \<in> set xs. plain_sv x)"
| "plain_sv (HV h) = (distinct (map fst h) \<and> (\<forall>(k, v) \<in> set h. plain_sv v))"
| "plain_sv v = True"

fun unflag_empty :: "sv \<Rightarrow> sv" where
  "unflag_empty (PV u t) = (if t = [] then PV False t else PV u t)"
| "unflag_empty (AV xs) = AV (map unflag_empty xs)"
| "unflag_empty (HV h) = HV (map (\<lambda>(k, v). (k, unflag_empty v)) h)"
| "unflag_empty v = v"

lemma signed_iv_range [simp]: "iv_range i \<Longrightarrow> signed_iv (IV i) = i"
  using signed_take_bit_int_eq_self [of 63 i] by (simp add: iv_range_def signed_iv_def sint_sbintrunc')

lemma signed_iv_in_range [simp]: "iv_range (signed_iv v)"
  using sint_range_size [of "word_of_int i :: 64 word" for i]
  by (cases v) (auto simp: signed_iv_def iv_range_def word_size)

lemma scalar_sv_simps [simp]:
  "SvOK Undef = False" "SvOK (IV i)" "SvOK (NV t)" "SvOK (PV u t)" "SvOK (PBool b)" "SvOK (Ref r)"
  "SvOK (AV xs)" "SvOK (HV h)" "SvOK (CV c)"
  "SvROK (IV i) = False" "SvROK (NV t) = False" "SvROK (PV u t) = False" "SvROK (PBool b)" "SvROK (Ref r)"
  "SvROK (AV xs)" "SvROK (HV h)" "SvROK (CV c)" "SvROK Undef = False"
  "SvPOK (PV u t)" "SvPOK (IV i) = False" "SvPOK (NV t) = False" "SvPOK (PBool b) = False"
  "SvPOK (Ref r) = False" "SvPOK (CV c) = False"
  "SvIOK (IV i)" "SvIOK (NV t) = False" "SvIOK (PBool b) = False" "SvIOK (Ref r) = False"
  "SvIOK (CV c) = False" "SvIOK (PV u t) = False"
  "SvNOK (NV t)" "SvNOK (PBool b) = False" "SvNOK (Ref r) = False" "SvNOK (CV c) = False"
  "SvNOK (PV u t) = False" "SvNOK (IV i) = False"
  "SvUTF8 (PV u t) = u"
  by (simp_all add: SvOK_def SvROK_def SvPOK_def SvIOK_def SvNOK_def SvUTF8_def)

lemmas native_scalar_simps = new_native_value_scalar_def native_scalar_sv_def native_scalar_clone_def

lemma native_tree_value:
  "plain_sv v \<Longrightarrow> native_value_materialize_sv (native_value_from_sv v) = v"
proof (induction v rule: plain_sv.induct)
  case (2 xs)
  then show ?case by (auto intro: map_idI)
next
  case (3 h)
  then have "map (\<lambda>(k, v). (k, native_value_materialize_sv (native_value_from_sv v))) h = h"
    by (intro pairs_id) auto
  with 3 show ?case by (simp add: hv_of_distinct del: map_eq_conv)
qed (simp_all add: native_scalar_simps)

lemma native_clone_value:
  "plain_sv v \<Longrightarrow> native_value_materialize_sv (native_value_clone (native_value_from_sv v)) = unflag_empty v"
proof (induction v rule: plain_sv.induct)
  case (2 xs)
  then show ?case by auto
next
  case (3 h)
  then have "map (\<lambda>(k, v). (k, native_value_materialize_sv (native_value_clone (native_value_from_sv v)))) h =
      map (\<lambda>(k, v). (k, unflag_empty v)) h"
    by (intro pairs_cong) auto
  with 3 show ?case by (simp add: hv_of_distinct del: map_eq_conv)
qed (simp_all add: native_scalar_simps)



section \<open>Native and Perl form of an argument\<close>

text \<open>
  The literals and variable references the conversion understands. A JSON boolean and an enum
  literal (a reference to a reference) are not among them: both become undefined.
\<close>

fun argument_sv :: "sv \<Rightarrow> bool" where
  "argument_sv Undef = True"
| "argument_sv (IV i) = iv_range i"
| "argument_sv (NV t) = True"
| "argument_sv (PV u t) = True"
| "argument_sv (Ref (PV u name)) = True"
| "argument_sv (AV xs) = (\<forall>x \<in> set xs. argument_sv x)"
| "argument_sv (HV h) = (\<forall>(k, v) \<in> set h. argument_sv v)"
| "argument_sv v = False"

lemma clone_dynamic [simp]: "dynamic_value_clone v = v"
  by (induction v rule: dynamic_value_clone.induct) (auto intro: map_idI)

lemma native_guard_clone_id [simp]: "native_guard_clone g = g"
  by (cases g) (auto simp: native_guard_clone_def map_option_case split: option.split)

lemma args_payload_clone_entries [simp]: "ap_entries (args_payload_clone p) = ap_entries p"
  by (auto simp: args_payload_clone_def args_payload_of_def intro: map_idI)

lemma directives_payload_clone_id [simp]: "directives_payload_clone gs = gs"
  unfolding directives_payload_clone_def by (rule map_idI) simp

lemma ok_or_undef_if: "(case v of Some x \<Rightarrow> if SvOK x then x else Undef | None \<Rightarrow> Undef) = ok_or_undef v"
  by (auto simp: ok_or_undef_def SvOK_def split: option.split)

lemma bind_materialize [simp]:
  "dynamic_value_materialize_sv (bind_dynamic_value_variables defs v) variables =
    dynamic_value_materialize_sv v variables"
proof (induction defs v rule: bind_dynamic_value_variables.induct)
  case (2 defs entries)
  then have "map (\<lambda>(k, v). (k, dynamic_value_materialize_sv (bind_dynamic_value_variables defs v) variables)) entries =
      map (\<lambda>(k, v). (k, dynamic_value_materialize_sv v variables)) entries"
    by (intro pairs_cong) auto
  then show ?case by (simp del: map_eq_conv)
qed auto

lemma materialize_agrees:
  "argument_sv v \<Longrightarrow>
    dynamic_value_materialize_sv (dynamic_value_from_sv v) variables = materialize_dynamic_value_sv v variables"
proof (induction v rule: argument_sv.induct)
  case (7 h)
  then have "map (\<lambda>(k, v). (k, dynamic_value_materialize_sv (dynamic_value_from_sv v) variables)) h =
      map (\<lambda>(k, v). (k, materialize_dynamic_value_sv v variables)) h"
    by (intro pairs_cong) auto
  then show ?case by (simp del: map_eq_conv)
qed (auto simp: dynamic_scalar_from_sv_def native_scalar_sv_def materialize_reference_def referent_text_def)



section \<open>Guards\<close>

text \<open>
  The slots of a request hold the prepared variables in the order of the definitions. A slot is
  \<open>None\<close> exactly where the hash has no entry.
\<close>

definition slots_of :: "string list \<Rightarrow> hv option \<Rightarrow> sv option list" where
  "slots_of defs variables = map (variable_by_name variables) defs"

lemma variable_def_index_found:
  "variable_def_index defs name i = - 1 \<and> name \<notin> set defs
    \<or> (\<exists>j < length defs. variable_def_index defs name i = i + int j \<and> defs ! j = name)"
proof (induction defs arbitrary: i)
  case Nil
  then show ?case by simp
next
  case (Cons d ds)
  show ?case
  proof (cases "d = name")
    case True
    then have "variable_def_index (d # ds) name i = i + int 0 \<and> (d # ds) ! 0 = name" by simp
    then show ?thesis by blast
  next
    case False
    have "variable_def_index (d # ds) name i = variable_def_index ds name (i + 1)" using False by simp
    moreover have "i + 1 + int j = i + int (Suc j)" "ds ! j = (d # ds) ! Suc j" for j by simp_all
    ultimately show ?thesis
      using Cons [of "i + 1"] False by (metis Suc_less_eq length_Cons list.set_cases set_ConsD)
  qed
qed

lemma slot_by_index:
  "dynamic_value_truthy (D_VARIABLE name (variable_def_index defs name 0)) variables (slots_of defs variables) =
    slot_true (variable_by_name variables name)"
  using variable_def_index_found [of defs name 0] by (auto simp: slots_of_def)

lemma slot_true_iff: "slot_true v \<longleftrightarrow> SvTRUE (ok_or_undef v)"
  by (auto simp: slot_true_def ok_or_undef_def SvOK_def SvTRUE_def split: option.split)

lemma condition_agrees:
  "argument_sv v \<Longrightarrow>
    dynamic_value_truthy (bind_dynamic_value_variables defs (dynamic_value_from_sv v)) variables
      (slots_of defs variables) \<longleftrightarrow> SvTRUE (materialize_dynamic_value_sv v variables)"
proof (induction v rule: argument_sv.induct)
  case (5 u name)
  then show ?case
    using slot_by_index [of name defs variables]
    by (simp add: slot_true_iff materialize_reference_def referent_text_def)
next
  case (4 u t)
  then show ?case by (cases t) (auto simp: dynamic_scalar_from_sv_def SvTRUE_def)
qed (auto simp: dynamic_scalar_from_sv_def SvTRUE_def)

definition guard_sv :: "sv \<Rightarrow> bool" where
  "guard_sv directive \<longleftrightarrow>
     (\<exists>name arguments cond. guard_parts directive = Some (name, arguments)
       \<and> hv_fetch arguments ''if'' = Some cond \<and> SvOK cond \<and> argument_sv cond
       \<and> (name = ''skip'' \<or> name = ''include''))"

lemma guards_agree:
  "\<forall>d \<in> set ds. guard_sv d \<Longrightarrow>
    guards_pass (map (bind_guard defs) (map native_guard_from_sv ds)) variables (slots_of defs variables) \<longleftrightarrow>
      guards_pass_hv ds variables"
proof (induction ds)
  case Nil
  then show ?case by simp
next
  case (Cons d ds)
  then obtain name arguments cond where d: "guard_parts d = Some (name, arguments)"
      "hv_fetch arguments ''if'' = Some cond" "SvOK cond" "argument_sv cond" "name = ''skip'' \<or> name = ''include''"
    by (auto simp: guard_sv_def)
  then show ?case
    using Cons condition_agrees [of cond defs variables]
    by (auto simp: native_guard_from_sv_def bind_guard_def guard_true_def Let_def GQL_VM_GUARD_SKIP_def
        GQL_VM_GUARD_INCLUDE_def)
qed

text \<open>
  C28. Compiled guards decide as the interpreter of the directive list does: with the variables of
  a request in slots, a list of \<^verbatim>\<open>@skip\<close> and \<^verbatim>\<open>@include\<close> directives passes in native form exactly when
  it passes in Perl form.
\<close>

theorem compiled_guards_agree:
  assumes "\<forall>d \<in> set ds. guard_sv d"
  shows "evaluate_runtime_guards_native
      (map_option (map (bind_guard defs)) (directives_payload_from_sv (AV ds))) variables (slots_of defs variables) \<longleftrightarrow>
    evaluate_runtime_guards_hv (AV ds) variables"
  using guards_agree [OF assms, of defs variables]
  by (simp add: evaluate_runtime_guards_native_def evaluate_runtime_guards_hv_def directives_payload_from_sv_def)

theorem compiled_guards_agree_witness:
  "\<not> evaluate_runtime_guards_native
      (map_option (map (bind_guard [''x''])) (directives_payload_from_sv
        (AV [HV [(''name'', PV False ''skip''), (''arguments'', HV [(''if'', Ref (PV False ''x''))])]])))
      (Some [(''x'', IV 1)]) (slots_of [''x''] (Some [(''x'', IV 1)]))"
  using compiled_guards_agree [of
      "[HV [(''name'', PV False ''skip''), (''arguments'', HV [(''if'', Ref (PV False ''x''))])]]"
      "[''x'']" "Some [(''x'', IV 1)]"]
  by (simp add: guard_sv_def guard_parts_def hv_fetch_def evaluate_runtime_guards_hv_def materialize_reference_def
      referent_text_def variable_by_name_def ok_or_undef_def SvTRUE_def)

end
