(* ===== verification/VM_Programs_Lemmas.thy ===== *)
theory VM_Programs_Lemmas
  imports VM_Programs VM_Values_Lemmas
begin

text \<open>
  Writing a program and reading it back. The compact form keeps everything the executor needs
  except references to variables, which it writes as undefined values.
\<close>

section \<open>What the compact form keeps\<close>

fun stored_value :: "dynamic_value \<Rightarrow> dynamic_value" where
  "stored_value D_UNDEF = D_UNDEF"
| "stored_value (D_VARIABLE name i) = D_UNDEF"
| "stored_value (D_LIST items) = D_LIST (map stored_value items)"
| "stored_value (D_OBJECT entries) = D_OBJECT (map (\<lambda>(k, v). (k, stored_value v)) entries)"
| "stored_value (D_SCALAR s) =
     (case s of S_UNDEF \<Rightarrow> D_UNDEF | S_FALLBACK_SV _ \<Rightarrow> D_UNDEF | _ \<Rightarrow> D_SCALAR s)"

definition stored_payload :: "args_payload \<Rightarrow> args_payload" where
  "stored_payload p = args_payload_of (map (\<lambda>(k, v). (k, stored_value v)) (ap_entries p))"

text \<open>A guard whose condition is undefined is read back as no guard.\<close>

definition stored_guard :: "native_guard \<Rightarrow> native_guard" where
  "stored_guard g =
     (case map_option stored_value (guard_if_expr g) of
        None \<Rightarrow> \<lparr>guard_kind_code = 0, guard_if_expr = None\<rparr>
      | Some e \<Rightarrow>
          if e = D_UNDEF then \<lparr>guard_kind_code = 0, guard_if_expr = None\<rparr>
          else \<lparr>guard_kind_code =
                  (if guard_kind_code g = GQL_VM_GUARD_SKIP then GQL_VM_GUARD_SKIP else GQL_VM_GUARD_INCLUDE),
                guard_if_expr = Some e\<rparr>)"

definition stored_arg_def :: "native_arg_def \<Rightarrow> native_arg_def" where
  "stored_arg_def d =
     \<lparr>ad_name = ad_name d, ad_type_def = defined_sv (ad_type_def d), ad_input_type = None,
      ad_has_default = ad_has_default d, ad_nonnull_state = 0,
      ad_default_sv = (if ad_has_default d then defined_sv (Some (arg_def_default_sv d)) else None),
      ad_default_native = None\<rparr>"

definition stored_slot :: "native_slot \<Rightarrow> native_slot" where
  "stored_slot s = s\<lparr>so_arg_defs := map stored_arg_def (so_arg_defs s)\<rparr>"

definition stored_op :: "native_op \<Rightarrow> native_op" where
  "stored_op op =
     op\<lparr>op_args_payload_index := - 1, op_directives_payload_index := - 1,
        op_args_payload := map_option stored_payload (op_args_payload op),
        op_directives_payload := map_option (map stored_guard) (op_directives_payload op),
        op_runtime_directives := defined_sv (op_runtime_directives op)\<rparr>"

definition stored_block :: "native_block \<Rightarrow> native_block" where
  "stored_block b = b\<lparr>bl_slots := map stored_slot (bl_slots b), bl_ops := map stored_op (bl_ops b)\<rparr>"

definition stored_program :: "native_program \<Rightarrow> native_program" where
  "stored_program p =
     p\<lparr>pg_version := (if 0 < pg_version p then pg_version p else 1),
       pg_variable_defs := map stored_arg_def (pg_variable_defs p),
       pg_blocks := map stored_block (pg_blocks p),
       pg_args_payloads := map (map_option stored_payload) (pg_args_payloads p),
       pg_directives_payloads := map (map_option (map stored_guard)) (pg_directives_payloads p),
       pg_needs_specialization := 0\<rparr>"

section \<open>Well-formed programs\<close>

text \<open>Codes are 64-bit integers and the names of a hash are distinct.\<close>

fun dynamic_wf :: "dynamic_value \<Rightarrow> bool" where
  "dynamic_wf (D_SCALAR (S_IV i)) = iv_range i"
| "dynamic_wf (D_LIST items) = (\<forall>v \<in> set items. dynamic_wf v)"
| "dynamic_wf (D_OBJECT entries) = (distinct (map fst entries) \<and> (\<forall>(k, v) \<in> set entries. dynamic_wf v))"
| "dynamic_wf v = True"

definition payload_wf :: "args_payload \<Rightarrow> bool" where
  "payload_wf p \<longleftrightarrow> dynamic_wf (D_OBJECT (ap_entries p))"

definition guard_wf :: "native_guard \<Rightarrow> bool" where
  "guard_wf g \<longleftrightarrow> (case guard_if_expr g of None \<Rightarrow> True | Some e \<Rightarrow> dynamic_wf e)"

definition slot_wf :: "native_slot \<Rightarrow> bool" where
  "slot_wf s \<longleftrightarrow>
     iv_range (so_schema_slot_index s) \<and> iv_range (so_resolver_shape_code s) \<and>
     iv_range (so_resolver_mode_code s) \<and> iv_range (so_callback_abi_code s) \<and>
     iv_range (so_completion_family_code s) \<and> iv_range (so_dispatch_family_code s) \<and>
     iv_range (so_return_type_kind_code s)"

definition op_wf :: "native_op \<Rightarrow> bool" where
  "op_wf op \<longleftrightarrow>
     distinct (map fst (op_abstract_children op)) \<and> (\<forall>(k, i) \<in> set (op_abstract_children op). iv_range i) \<and>
     iv_range (op_opcode_code op) \<and> iv_range (op_resolve_code op) \<and> iv_range (op_complete_code op) \<and>
     iv_range (op_dispatch_family_code op) \<and> iv_range (op_slot_index op) \<and>
     iv_range (op_child_block_index op) \<and> iv_range (op_args_mode_code op) \<and>
     iv_range (op_directives_mode_code op) \<and> iv_range (op_runtime_directives_mode_code op) \<and>
     pred_option payload_wf (op_args_payload op) \<and>
     pred_option (list_all guard_wf) (op_directives_payload op)"

definition block_wf :: "native_block \<Rightarrow> bool" where
  "block_wf b \<longleftrightarrow> iv_range (bl_family_code b) \<and> list_all slot_wf (bl_slots b) \<and> list_all op_wf (bl_ops b)"

definition program_wf :: "native_program \<Rightarrow> bool" where
  "program_wf p \<longleftrightarrow>
     iv_range (pg_version p) \<and> iv_range (pg_operation_type_code p) \<and> iv_range (pg_root_block_index p) \<and>
     distinct (map ad_name (pg_variable_defs p)) \<and> list_all block_wf (pg_blocks p) \<and>
     list_all (pred_option payload_wf) (pg_args_payloads p) \<and>
     list_all (pred_option (list_all guard_wf)) (pg_directives_payloads p)"

section \<open>Values, payloads, guards\<close>

lemma stored_value_read:
  "dynamic_wf v \<Longrightarrow> dynamic_value_from_sv (dynamic_value_materialize_sv v None) = stored_value v"
proof (induction v rule: dynamic_wf.induct)
  case (3 entries)
  then have "map (\<lambda>(k, v). (k, dynamic_value_from_sv (dynamic_value_materialize_sv v None))) entries =
      map (\<lambda>(k, v). (k, stored_value v)) entries"
    by (intro pairs_cong) auto
  with 3 show ?case by (simp add: hv_of_distinct del: map_eq_conv)
qed (auto simp: native_scalar_sv_def dynamic_scalar_from_sv_def variable_by_name_def ok_or_undef_def)

lemma stored_undef_iff: "SvOK (dynamic_value_materialize_sv v None) \<longleftrightarrow> stored_value v \<noteq> D_UNDEF"
  by (cases v) (auto simp: native_scalar_sv_def SvOK_def variable_by_name_def ok_or_undef_def
      split: native_scalar.split)

lemma stored_entries_read:
  "distinct (map fst es) \<Longrightarrow> \<forall>(k, v) \<in> set es. dynamic_wf v \<Longrightarrow>
    map (\<lambda>(k, v). (k, dynamic_value_from_sv v))
        (hv_of (map (\<lambda>(k, v). (k, dynamic_value_materialize_sv v None)) es)) =
      map (\<lambda>(k, v). (k, stored_value v)) es"
  using stored_value_read [of "D_OBJECT es"] by (simp add: hv_of_distinct del: map_eq_conv)

lemma stored_payload_read:
  "payload_wf p \<Longrightarrow> parse_args_payload (Some (args_payload_materialize_sv (Some p))) = Some (stored_payload p)"
  using stored_entries_read [of "ap_entries p"]
  by (simp add: parse_args_payload_def args_payload_materialize_sv_def materialize_entries_def sv_to_hv_def
      args_payload_from_hv_def stored_payload_def payload_wf_def del: map_eq_conv)

lemma stored_guard_read:
  "guard_wf g \<Longrightarrow> native_guard_from_sv (native_guard_materialize_sv g) = stored_guard g"
  using stored_undef_iff stored_value_read
  by (auto simp: native_guard_from_sv_def native_guard_materialize_sv_def guard_parts_def guard_condition_sv_def
      stored_guard_def guard_wf_def GQL_VM_GUARD_SKIP_def GQL_VM_GUARD_INCLUDE_def split: option.split)

lemma stored_guards_read:
  "list_all guard_wf gs \<Longrightarrow>
    parse_directives_payload (Some (directives_payload_materialize_sv (Some gs))) = Some (map stored_guard gs)"
  by (simp add: parse_directives_payload_def directives_payload_materialize_sv_def directives_payload_from_sv_def
      defined_sv_def stored_guard_read list_all_iff)

lemma bind_stored_value [simp]: "bind_dynamic_value_variables defs (stored_value v) = stored_value v"
proof (induction v rule: stored_value.induct)
  case (5 s)
  then show ?case by (cases s) auto
qed auto

section \<open>Definitions, slots, operations, blocks\<close>

lemma fill_map: "(\<And>x. x \<in> set xs \<Longrightarrow> f (g x) = Inr (h x)) \<Longrightarrow> fill f (map g xs) = Inr (map h xs)"
  by (induction xs) auto

lemma defined_simps [simp]:
  "defined_sv None = None" "defined_sv (Some Undef) = None" "defined_sv (Some (IV i)) = Some (IV i)"
  "defined_sv (Some (PV u t)) = Some (PV u t)" "defined_sv (Some (AV xs)) = Some (AV xs)"
  "defined_sv (Some (HV h)) = Some (HV h)" "defined_sv (Some (copy_or_new v)) = defined_sv v"
  by (auto simp: defined_sv_def copy_or_new_def split: option.split)

lemma flag_sv_read [simp]: "flag_field (Some (flag_sv b)) = b" "iv_range i \<Longrightarrow> iv_or d (Some (IV i)) = i"
  by (simp_all add: flag_field_def flag_sv_def iv_or_def SvTRUE_def)

lemma av_fetch_simps [simp]:
  "av_fetch (x # xs) 0 = Some x" "av_fetch (x # xs) (Suc i) = av_fetch xs i"
  "av_fetch (x # xs) (numeral n) = av_fetch xs (pred_numeral n)"
  by (simp_all add: av_fetch_def numeral_eq_Suc)

lemma arg_def_array_read: "parse_arg_def_array_entry (native_arg_def_to_compact_sv d) = Inr (stored_arg_def d)"
  by (simp add: parse_arg_def_array_entry_def native_arg_def_to_compact_sv_def or_croak_def parsed_arg_def_def
      stored_arg_def_def)

lemma arg_def_hash_read:
  "parse_arg_def_hash_entry (ad_name d, native_arg_def_to_hash_sv d) = Inr (stored_arg_def d)"
  by (simp add: parse_arg_def_hash_entry_def native_arg_def_to_hash_sv_def parsed_arg_def_def
      stored_arg_def_def Let_def)

lemma slot_read:
  "slot_wf s \<Longrightarrow> parse_native_slot (native_slot_to_compact_sv s) = Inr (stored_slot s)"
  by (cases "so_accessor_name s")
    (simp_all add: parse_native_slot_def native_slot_to_compact_sv_def parse_slot_array_def or_croak_def Let_def
      parse_native_arg_defs_def fill_map [where h = stored_arg_def] arg_def_array_read slot_wf_def stored_slot_def)

lemma children_read:
  "distinct (map fst cs) \<Longrightarrow> \<forall>(k, i) \<in> set cs. iv_range i \<Longrightarrow>
    parse_abstract_children (Some (HV (hv_of (map (\<lambda>(name, i). (name, IV i)) cs)))) = cs"
  by (auto simp: parse_abstract_children_def sv_to_hv_def hv_of_distinct intro!: map_idI)

lemma opt_payload_read:
  "pred_option payload_wf a \<Longrightarrow>
    parse_args_payload (Some (case a of Some p \<Rightarrow> args_payload_materialize_sv (Some p) | None \<Rightarrow> Undef)) =
      map_option stored_payload a"
  by (cases a) (simp_all add: stored_payload_read, simp add: parse_args_payload_def sv_to_hv_def)

lemma opt_guards_read:
  "pred_option (list_all guard_wf) a \<Longrightarrow>
    parse_directives_payload (Some (case a of Some p \<Rightarrow> directives_payload_materialize_sv (Some p) | None \<Rightarrow> Undef)) =
      map_option (map stored_guard) a"
  by (cases a) (simp_all add: stored_guards_read, simp add: parse_directives_payload_def)

lemma op_read: "op_wf op \<Longrightarrow> parse_native_op (native_op_to_compact_sv b op) = Inr (stored_op op)"
  by (simp add: parse_native_op_def native_op_to_compact_sv_def Let_def parse_op_array_def op_wf_def
      children_read opt_payload_read opt_guards_read stored_op_def iv_range_def)

lemma block_read:
  "block_wf b \<Longrightarrow> parse_native_block (native_block_to_compact_sv b) = Inr (Some (stored_block b))"
  by (simp add: parse_native_block_def native_block_to_compact_sv_def or_croak_def parse_block_parts_def
      sv_to_av_def block_wf_def list_all_iff stored_block_def
      fill_map [where f = parse_native_slot and h = stored_slot] slot_read
      fill_map [where f = parse_native_op and h = stored_op] op_read)

section \<open>Programs\<close>

lemma resolve_stored: "resolve_payloads args guards (stored_op op) = Inr (stored_op op)"
  by (simp add: resolve_payloads_def stored_op_def)

lemma fill_id: "(\<And>x. x \<in> set xs \<Longrightarrow> f x = Inr x) \<Longrightarrow> fill f xs = Inr xs"
  by (induction xs) auto

lemma blocks_read:
  "list_all block_wf bs \<Longrightarrow>
    parse_blocks args guards i (map native_block_to_compact_sv bs) = Inr (map stored_block bs)"
proof (induction bs arbitrary: i)
  case Nil
  then show ?case by simp
next
  case (Cons b bs)
  have "fill (resolve_payloads args guards) (bl_ops (stored_block b)) = Inr (bl_ops (stored_block b))"
    by (rule fill_id) (auto simp: stored_block_def resolve_stored)
  with Cons show ?case by (simp add: block_read or_croak_def stored_block_def)
qed

lemma bind_stored_guard [simp]: "bind_guard defs (stored_guard g) = stored_guard g"
  by (simp add: bind_guard_def stored_guard_def split: option.split)

lemma bind_stored_op [simp]: "bind_op defs (stored_op op) = stored_op op"
  by (cases "op_args_payload op"; cases "op_directives_payload op")
    (auto simp: bind_op_def stored_op_def bind_args_payload_def stored_payload_def args_payload_of_def
      comp_def case_prod_unfold)

lemma bind_stored_block [simp]: "bind_block defs (stored_block b) = stored_block b"
  by (simp add: bind_block_def stored_block_def)

lemma program_fields:
  "hv_fetch (hv_of [(''version'', a), (''operation_type_code'', b), (''operation_name'', c),
      (''root_block_index'', d), (''variable_defs'', e), (''args_payloads_compact'', f),
      (''directives_payloads_compact'', g), (''blocks_compact'', h)]) key =
    map_of [(''version'', a), (''operation_type_code'', b), (''operation_name'', c),
      (''root_block_index'', d), (''variable_defs'', e), (''args_payloads_compact'', f),
      (''directives_payloads_compact'', g), (''blocks_compact'', h)] key"
  by (subst hv_of_distinct) (simp_all add: hv_fetch_def)

lemma variable_defs_read:
  "distinct (map ad_name defs) \<Longrightarrow>
    parse_native_arg_defs (Some (native_arg_defs_to_hash_sv defs)) = Inr (map stored_arg_def defs)"
  using fill_map [of defs parse_arg_def_hash_entry "\<lambda>d. (ad_name d, native_arg_def_to_hash_sv d)" stored_arg_def]
  by (simp add: parse_native_arg_defs_def native_arg_defs_to_hash_sv_def hv_of_distinct comp_def arg_def_hash_read)

lemma program_read:
  assumes "program_wf p"
  shows "native_program_from_sv (native_program_to_compact_sv p) = Inr (stored_program p)"
proof -
  have one: "iv_range 1" by (simp add: iv_range_def)
  have args: "map (\<lambda>x. parse_args_payload (Some x))
      (map (\<lambda>a. case a of Some q \<Rightarrow> args_payload_materialize_sv (Some q) | None \<Rightarrow> Undef) (pg_args_payloads p)) =
      map (map_option stored_payload) (pg_args_payloads p)"
    using assms by (auto simp: program_wf_def list_all_iff opt_payload_read)
  have guards: "map (\<lambda>x. parse_directives_payload (Some x))
      (map (\<lambda>a. case a of Some q \<Rightarrow> directives_payload_materialize_sv (Some q) | None \<Rightarrow> Undef)
        (pg_directives_payloads p)) = map (map_option (map stored_guard)) (pg_directives_payloads p)"
    using assms by (auto simp: program_wf_def list_all_iff opt_guards_read)
  have names: "map ad_name (map stored_arg_def ds) = map ad_name ds" for ds
    by (simp add: stored_arg_def_def)
  have bound: "map (bind_block defs) (map stored_block bs) = map stored_block bs" for defs bs
    by simp
  show ?thesis
    using assms one
    by (cases "pg_operation_name p")
      (simp_all add: native_program_from_sv_def native_program_to_compact_sv_def program_fields fetch_hv_iv_def
        or_croak_def program_wf_def variable_defs_read parse_args_payloads_def parse_directives_payloads_def
        fetch_either_av_def sv_to_av_def args [simplified] guards [simplified] blocks_read stored_program_def Let_def)
qed


lemma stored_variable_guards_pass:
  "\<forall>g \<in> set gs. \<exists>name i. guard_if_expr g = Some (D_VARIABLE name i) \<Longrightarrow>
    guards_pass (map stored_guard gs) variables slots"
  by (induction gs)
    (auto simp: stored_guard_def Let_def GQL_VM_GUARD_SKIP_def GQL_VM_GUARD_INCLUDE_def)

text \<open>
  C35. The compact form loses guards. An operation whose guards all test variables has, after the
  program is written and read back, guards that pass for every request: \<^verbatim>\<open>@include(if: $v)\<close> with a
  false \<^verbatim>\<open>$v\<close> and \<^verbatim>\<open>@skip(if: $v)\<close> with a true one no longer remove the field.
\<close>

theorem variable_guards_lost:
  assumes "program_wf p"
    and "b \<in> set (pg_blocks p)" "op \<in> set (bl_ops b)" "op_directives_payload op = Some gs"
    and "\<forall>g \<in> set gs. \<exists>name i. guard_if_expr g = Some (D_VARIABLE name i)"
  shows "\<exists>q c op'. native_program_from_sv (native_program_to_compact_sv p) = Inr q
    \<and> c \<in> set (pg_blocks q) \<and> op' \<in> set (bl_ops c)
    \<and> op_opcode_code op' = op_opcode_code op \<and> op_slot_index op' = op_slot_index op
    \<and> (\<forall>variables slots. evaluate_runtime_guards_native (op_directives_payload op') variables slots)"
proof (intro exI conjI)
  show "native_program_from_sv (native_program_to_compact_sv p) = Inr (stored_program p)"
    using assms(1) by (rule program_read)
  show "stored_block b \<in> set (pg_blocks (stored_program p))" using assms(2) by (simp add: stored_program_def)
  show "stored_op op \<in> set (bl_ops (stored_block b))" using assms(3) by (simp add: stored_block_def)
  show "\<forall>variables slots. evaluate_runtime_guards_native (op_directives_payload (stored_op op)) variables slots"
    using assms(4) stored_variable_guards_pass [OF assms(5)]
    by (simp add: stored_op_def evaluate_runtime_guards_native_def)
qed (simp_all add: stored_op_def)

section \<open>A sample program\<close>

text \<open>\<^verbatim>\<open>query ($v: Boolean) { name @include(if: $v) }\<close>\<close>

definition sample_slot :: native_slot where
  "sample_slot =
     \<lparr>so_field_name = ''name'', so_result_name = ''name'', so_return_type_name = ''String'',
      so_accessor_name = None, so_schema_slot_index = 0, so_resolver_shape_code = 1,
      so_resolver_mode_code = 0, so_callback_abi_code = 1, so_completion_family_code = 1,
      so_dispatch_family_code = 1, so_return_type_kind_code = 1, so_arg_defs = [],
      so_has_args = False, so_has_directives = True, so_item_non_null = False\<rparr>"

definition sample_op :: native_op where
  "sample_op =
     \<lparr>op_abstract_children = [], op_opcode_code = 17, op_resolve_code = 1, op_complete_code = 1,
      op_dispatch_family_code = 1, op_slot_index = 0, op_child_block_index = - 1,
      op_args_mode_code = 0, op_directives_mode_code = 2, op_args_payload_index = - 1,
      op_directives_payload_index = - 1, op_args_payload = None,
      op_directives_payload =
        Some [\<lparr>guard_kind_code = GQL_VM_GUARD_INCLUDE, guard_if_expr = Some (D_VARIABLE ''v'' 0)\<rparr>],
      op_has_args = False, op_has_directives = True, op_runtime_directives_mode_code = 0,
      op_runtime_directives = None, op_has_runtime_directives = False\<rparr>"

definition sample_block :: native_block where
  "sample_block =
     \<lparr>bl_family_code = 2, bl_type_name = ''Query'', bl_slots = [sample_slot], bl_ops = [sample_op]\<rparr>"

definition sample_program :: native_program where
  "sample_program =
     \<lparr>pg_version = 1, pg_operation_name = None, pg_operation_type_code = 1, pg_root_block_index = 0,
      pg_variable_defs =
        [\<lparr>ad_name = ''v'', ad_type_def = None, ad_input_type = None, ad_has_default = False,
          ad_nonnull_state = 0, ad_default_sv = None, ad_default_native = None\<rparr>],
      pg_blocks = [sample_block], pg_args_payloads = [], pg_directives_payloads = [],
      pg_needs_specialization = 0\<rparr>"

lemmas sample_program_defs = sample_program_def sample_block_def sample_op_def sample_slot_def

lemma sample_program_wf: "program_wf sample_program"
  by (simp add: sample_program_defs program_wf_def block_wf_def slot_wf_def op_wf_def guard_wf_def iv_range_def)


theorem variable_guards_lost_witness:
  "\<not> evaluate_runtime_guards_native (op_directives_payload sample_op) (Some [(''v'', IV 0)]) [Some (IV 0)] \<and>
   (\<exists>q c op'. native_program_from_sv (native_program_to_compact_sv sample_program) = Inr q
     \<and> c \<in> set (pg_blocks q) \<and> op' \<in> set (bl_ops c)
     \<and> op_opcode_code op' = op_opcode_code sample_op \<and> op_slot_index op' = op_slot_index sample_op
     \<and> (\<forall>variables slots. evaluate_runtime_guards_native (op_directives_payload op') variables slots))"
proof
  show "\<not> evaluate_runtime_guards_native (op_directives_payload sample_op) (Some [(''v'', IV 0)]) [Some (IV 0)]"
    by (simp add: sample_op_def evaluate_runtime_guards_native_def guard_true_def slot_true_def SvTRUE_def
        GQL_VM_GUARD_SKIP_def GQL_VM_GUARD_INCLUDE_def)
  show "\<exists>q c op'. native_program_from_sv (native_program_to_compact_sv sample_program) = Inr q
     \<and> c \<in> set (pg_blocks q) \<and> op' \<in> set (bl_ops c)
     \<and> op_opcode_code op' = op_opcode_code sample_op \<and> op_slot_index op' = op_slot_index sample_op
     \<and> (\<forall>variables slots. evaluate_runtime_guards_native (op_directives_payload op') variables slots)"
    by (rule variable_guards_lost [OF sample_program_wf, of sample_block sample_op
          "[\<lparr>guard_kind_code = GQL_VM_GUARD_INCLUDE, guard_if_expr = Some (D_VARIABLE ''v'' 0)\<rparr>]"])
      (simp_all add: sample_program_def sample_block_def sample_op_def)
qed

end
