(* ===== verification/VM_Bundles.thy ===== *)
theory VM_Bundles
  imports VM_Programs_Lemmas
begin

text \<open>
  Bundles: the slots of a runtime with the blocks of a program, read from descriptors or copied from
  loaded handles, and the test whether a descriptor may run natively.
\<close>

section \<open>Eligibility\<close>

text \<open>
  \<^verbatim>\<open>gql_runtime_vm_program_is_native_eligible_sv\<close> of a descriptor. The test for directives reads
  entry 12 of an operation, which holds the index of its directives payload.
\<close>

definition slot_eligible :: "sv \<Rightarrow> bool" where
  "slot_eligible s =
     (case s of
        AV xs \<Rightarrow>
          (let shape = iv_or 0 (av_fetch xs 4);
               mode = iv_or 0 (av_fetch xs 10);
               abi = iv_or (infer_callback_abi_code shape mode) (av_fetch xs 12)
           in shape = GQL_VM_RESOLVE_DEFAULT
              \<or> (shape = GQL_VM_RESOLVE_EXPLICIT
                 \<and> (abi = GQL_VM_CALLBACK_ABI_EXPLICIT_GENERIC \<or> abi = GQL_VM_CALLBACK_ABI_EXPLICIT_NATIVE
                     \<or> abi = GQL_VM_CALLBACK_ABI_EXPLICIT_NATIVE_NO_ARGS
                     \<or> abi = GQL_VM_CALLBACK_ABI_EXPLICIT_NATIVE_ONE_ARG)))
      | _ \<Rightarrow> False)"

definition op_eligible :: "sv \<Rightarrow> bool" where
  "op_eligible s =
     (case s of
        AV xs \<Rightarrow>
          (let args_mode = iv_or GQL_VM_ARGS_NONE (av_fetch xs 7)
           in (args_mode = GQL_VM_ARGS_NONE \<or> args_mode = GQL_VM_ARGS_STATIC) \<and> \<not> flag_field (av_fetch xs 12))
      | _ \<Rightarrow> False)"

definition block_eligible :: "sv \<Rightarrow> bool" where
  "block_eligible s =
     (case s of
        AV xs \<Rightarrow>
          (case sv_to_av (av_fetch xs 3) of
             None \<Rightarrow> False
           | Some slots \<Rightarrow>
               list_all slot_eligible slots \<and>
               (case sv_to_av (av_fetch xs 4) of None \<Rightarrow> False | Some ops \<Rightarrow> list_all op_eligible ops))
      | _ \<Rightarrow> False)"

definition program_is_native_eligible_sv :: "sv \<Rightarrow> bool \<Rightarrow> bool" where
  "program_is_native_eligible_sv s has_promise =
     (if has_promise then False
      else case s of
        HV h \<Rightarrow>
          (case sv_to_hv (hv_fetch h ''variable_defs'') of
             Some (_ # _) \<Rightarrow> False
           | _ \<Rightarrow>
               (case fetch_either_av h ''blocks_compact'' ''blocks'' of
                  None \<Rightarrow> False
                | Some blocks \<Rightarrow> list_all block_eligible blocks))
      | _ \<Rightarrow> False)"

section \<open>Building a bundle\<close>

record native_bundle =
  bn_operation_type_code :: int
  bn_root_block_index :: int
  bn_runtime_slots :: "native_slot list"
  bn_blocks :: "native_block list"

definition fetch_slot_catalog :: "hv \<Rightarrow> sv list option" where
  "fetch_slot_catalog h =
     (case sv_to_av (hv_fetch h ''slot_catalog_exec'') of
        Some xs \<Rightarrow> Some xs
      | None \<Rightarrow> fetch_either_av h ''slot_catalog_compact'' ''slot_catalog'')"

definition native_bundle_from_runtime_and_program_sv :: "sv \<Rightarrow> sv \<Rightarrow> native_bundle vm" where
  "native_bundle_from_runtime_and_program_sv runtime_sv program_sv =
     bnd (or_croak ''native VM runtime descriptor must be a hash reference'' (sv_to_hv (Some runtime_sv))) (\<lambda>rh.
     bnd (or_croak ''native VM program descriptor must be a hash reference'' (sv_to_hv (Some program_sv))) (\<lambda>ph.
     bnd (or_croak ''native VM program descriptor is missing operation_type_code''
            (fetch_hv_iv ph ''operation_type_code'')) (\<lambda>optype.
     bnd (or_croak ''native VM program descriptor is missing root_block_index''
            (fetch_hv_iv ph ''root_block_index'')) (\<lambda>root.
     let args = parse_args_payloads ph; guards = parse_directives_payloads ph
     in bnd (or_croak ''native VM runtime descriptor is missing slot_catalog'' (fetch_slot_catalog rh)) (\<lambda>catalog.
        bnd (fill parse_native_slot catalog) (\<lambda>slots.
        bnd (or_croak ''native VM program descriptor is missing blocks''
               (fetch_either_av ph ''blocks_compact'' ''blocks'')) (\<lambda>blocks_av.
        bnd (parse_blocks args guards 0 blocks_av) (\<lambda>blocks.
        Inr \<lparr>bn_operation_type_code = optype, bn_root_block_index = root, bn_runtime_slots = slots,
             bn_blocks = blocks\<rparr>))))))))"

definition native_bundle_from_runtime_and_program_handles ::
  "native_slot list \<Rightarrow> native_program \<Rightarrow> native_bundle" where
  "native_bundle_from_runtime_and_program_handles runtime_slots p =
     \<lparr>bn_operation_type_code = pg_operation_type_code p, bn_root_block_index = pg_root_block_index p,
      bn_runtime_slots = map clone_native_slot runtime_slots,
      bn_blocks = map clone_native_block (pg_blocks p)\<rparr>"

definition native_bundle_from_sv :: "sv \<Rightarrow> native_bundle vm" where
  "native_bundle_from_sv s =
     bnd (or_croak ''native VM bundle descriptor must be a hash reference'' (sv_to_hv (Some s))) (\<lambda>h.
     bnd (or_croak ''native VM bundle descriptor is missing runtime'' (hv_fetch h ''runtime'')) (\<lambda>runtime_sv.
     bnd (or_croak ''native VM bundle descriptor is missing program'' (hv_fetch h ''program'')) (\<lambda>program_sv.
     native_bundle_from_runtime_and_program_sv runtime_sv program_sv)))"

section \<open>What eligibility guarantees\<close>

lemma fill_mem: "fill f xs = Inr ys \<Longrightarrow> y \<in> set ys \<Longrightarrow> \<exists>x \<in> set xs. f x = Inr y"
  by (induction xs arbitrary: ys) (auto simp: bnd_eq_Inr)

text \<open>The operations an operation array gives, and what resolving and binding leave alone.\<close>

definition op_static :: "native_op \<Rightarrow> bool" where
  "op_static op \<longleftrightarrow> op_args_mode_code op = GQL_VM_ARGS_NONE \<or> op_args_mode_code op = GQL_VM_ARGS_STATIC"

definition slot_native :: "native_slot \<Rightarrow> bool" where
  "slot_native s \<longleftrightarrow>
     so_resolver_shape_code s = GQL_VM_RESOLVE_DEFAULT
     \<or> (so_resolver_shape_code s = GQL_VM_RESOLVE_EXPLICIT
        \<and> so_callback_abi_code s \<in> {GQL_VM_CALLBACK_ABI_EXPLICIT_GENERIC, GQL_VM_CALLBACK_ABI_EXPLICIT_NATIVE,
            GQL_VM_CALLBACK_ABI_EXPLICIT_NATIVE_NO_ARGS, GQL_VM_CALLBACK_ABI_EXPLICIT_NATIVE_ONE_ARG})"

lemma op_eligible_static: "op_eligible s \<Longrightarrow> parse_native_op s = Inr op \<Longrightarrow> op_static op"
  by (cases s) (auto simp: op_eligible_def parse_native_op_def parse_op_array_def op_static_def Let_def)

lemma parse_slot_array_codes:
  assumes "parse_slot_array xs = Inr slot"
  shows "so_resolver_shape_code slot = iv_or 0 (av_fetch xs 4) \<and>
    so_callback_abi_code slot =
      iv_or (infer_callback_abi_code (iv_or 0 (av_fetch xs 4)) (iv_or 0 (av_fetch xs 10))) (av_fetch xs 12)"
  using assms unfolding parse_slot_array_def Let_def bnd_eq_Inr by (elim exE conjE) (drule Inr_inject, drule sym, simp)

lemma slot_eligible_native:
  assumes "slot_eligible s" "parse_native_slot s = Inr slot"
  shows "slot_native slot"
proof (cases s)
  case (AV xs)
  with assms(2) have "parse_slot_array xs = Inr slot" by (simp add: parse_native_slot_def)
  from parse_slot_array_codes [OF this] show ?thesis
    using assms(1) AV by (simp add: slot_eligible_def slot_native_def Let_def)
qed (use assms(1) in \<open>simp_all add: slot_eligible_def\<close>)

lemma resolve_static:
  assumes "resolve_payloads args guards op = Inr op'" "op_static op"
  shows "op_static op'"
proof -
  have "op_args_mode_code op' = op_args_mode_code op"
    using assms(1) unfolding resolve_payloads_def bnd_eq_Inr by (elim exE conjE) (simp add: bnd_eq_Inr split: if_splits, auto)
  with assms(2) show ?thesis by (simp add: op_static_def)
qed

definition block_native :: "native_block \<Rightarrow> bool" where
  "block_native b \<longleftrightarrow> list_all slot_native (bl_slots b) \<and> list_all op_static (bl_ops b)"

lemma block_eligible_native:
  assumes "block_eligible s" "parse_native_block s = Inr (Some b)"
  shows "block_native b"
proof -
  obtain xs slots ops where xs: "s = AV xs" "sv_to_av (av_fetch xs 3) = Some slots"
      "sv_to_av (av_fetch xs 4) = Some ops" "list_all slot_eligible slots" "list_all op_eligible ops"
    using assms(1) by (cases s) (auto simp: block_eligible_def split: option.splits)
  then have "fill parse_native_slot slots = Inr (bl_slots b)" "fill parse_native_op ops = Inr (bl_ops b)"
    using assms(2) by (auto simp: parse_native_block_def parse_block_parts_def bnd_eq_Inr split: option.splits)
  with xs show ?thesis
    unfolding block_native_def list_all_iff
    by (metis fill_mem op_eligible_static slot_eligible_native)
qed

lemma parse_blocks_native:
  "list_all block_eligible ss \<Longrightarrow> parse_blocks args guards i ss = Inr bs \<Longrightarrow> list_all block_native bs"
proof (induction ss arbitrary: i bs)
  case Nil
  then show ?case by simp
next
  case (Cons s ss)
  then obtain b ops rest where b: "parse_native_block s = Inr (Some b)"
      "fill (resolve_payloads args guards) (bl_ops b) = Inr ops"
      "parse_blocks args guards (Suc i) ss = Inr rest" "bs = b\<lparr>bl_ops := ops\<rparr> # rest"
    by (auto simp: bnd_eq_Inr or_croak_def split: option.splits)
  moreover have "block_native b" using block_eligible_native [OF _ b(1)] Cons.prems by simp
  then have "list_all op_static ops"
    unfolding block_native_def list_all_iff using fill_mem [OF b(2)] resolve_static by metis
  ultimately show ?case using Cons \<open>block_native b\<close> by (simp add: block_native_def)
qed

lemma bind_block_native [simp]: "block_native (bind_block defs b) \<longleftrightarrow> block_native b"
  by (simp add: block_native_def bind_block_def list_all_iff bind_op_def op_static_def)

text \<open>What a successful load read.\<close>

lemma or_croak_Inr [simp]: "or_croak m v = Inr x \<longleftrightarrow> v = Some x"
  by (simp add: or_croak_def split: option.split)

lemma program_from_svD:
  assumes "native_program_from_sv s = Inr p"
  obtains h blocks_av blocks where "s = HV h"
    and "fetch_hv_iv h ''operation_type_code'' = Some (pg_operation_type_code p)"
    and "fetch_hv_iv h ''root_block_index'' = Some (pg_root_block_index p)"
    and "fetch_either_av h ''blocks_compact'' ''blocks'' = Some blocks_av"
    and "parse_blocks (parse_args_payloads h) (parse_directives_payloads h) 0 blocks_av = Inr blocks"
    and "pg_blocks p = map (bind_block (map ad_name (pg_variable_defs p))) blocks"
proof (cases s)
  case (HV h)
  with assms show thesis
    unfolding native_program_from_sv_def Let_def by (simp add: bnd_eq_Inr) (metis native_program.select_convs that)
qed (use assms in \<open>simp_all add: native_program_from_sv_def\<close>)


lemma compact_op_ineligible: "\<not> op_eligible (native_op_to_compact_sv b op)"
  by (simp add: op_eligible_def native_op_to_compact_sv_def Let_def flag_field_def SvTRUE_def)

text \<open>
  C36. The test never accepts a written program: the compact form of a program with an operation
  anywhere is not eligible, because entry 12 of the operation holds the index \<open>- 1\<close>, which counts as
  true.
\<close>

theorem compact_never_eligible:
  assumes "b \<in> set (pg_blocks p)" "bl_ops b \<noteq> []"
  shows "\<not> program_is_native_eligible_sv (native_program_to_compact_sv p) has_promise"
proof -
  have "\<not> block_eligible (native_block_to_compact_sv b)"
    using assms(2) compact_op_ineligible
    by (cases "bl_ops b") (simp_all add: block_eligible_def native_block_to_compact_sv_def sv_to_av_def)
  with assms(1) show ?thesis
    by (auto simp: program_is_native_eligible_sv_def native_program_to_compact_sv_def program_fields fetch_either_av_def
        sv_to_av_def list_all_iff split: option.splits list.splits)
qed

theorem compact_never_eligible_witness:
  "\<not> program_is_native_eligible_sv (native_program_to_compact_sv sample_program) False"
  by (rule compact_never_eligible [of sample_block]) (simp_all add: sample_program_defs)


section \<open>Descriptors and handles\<close>

lemma bundle_loads:
  assumes "native_program_from_sv s = Inr p" "s = HV h"
    and "fetch_slot_catalog rh = Some xs" "fill parse_native_slot xs = Inr slots"
  shows "\<exists>b. native_bundle_from_runtime_and_program_sv (HV rh) s = Inr b"
  by (rule program_from_svD [OF assms(1)])
    (use assms(2-4) in \<open>simp add: native_bundle_from_runtime_and_program_sv_def sv_to_hv_def or_croak_def Let_def\<close>)

text \<open>
  C32. A bundle loaded from descriptors and one built from loaded handles run the same blocks: the
  second has the blocks of the first with their variables bound to the indexes of the program.
\<close>

theorem bundle_paths_agree:
  assumes "native_program_from_sv program_sv = Inr p"
    and "native_bundle_from_runtime_and_program_sv runtime_sv program_sv = Inr b"
  shows "native_bundle_from_runtime_and_program_handles (bn_runtime_slots b) p =
    b\<lparr>bn_runtime_slots := map clone_native_slot (bn_runtime_slots b),
      bn_blocks := map (\<lambda>c. clone_native_block (bind_block (map ad_name (pg_variable_defs p)) c)) (bn_blocks b)\<rparr>"
proof -
  from assms(1) obtain h blocks_av blocks where h: "program_sv = HV h"
    "fetch_hv_iv h ''operation_type_code'' = Some (pg_operation_type_code p)"
    "fetch_hv_iv h ''root_block_index'' = Some (pg_root_block_index p)"
    "fetch_either_av h ''blocks_compact'' ''blocks'' = Some blocks_av"
    "parse_blocks (parse_args_payloads h) (parse_directives_payloads h) 0 blocks_av = Inr blocks"
    "pg_blocks p = map (bind_block (map ad_name (pg_variable_defs p))) blocks"
    by (rule program_from_svD)
  then have "bn_blocks b = blocks" "bn_operation_type_code b = pg_operation_type_code p"
    "bn_root_block_index b = pg_root_block_index p"
    using assms(2)
    unfolding native_bundle_from_runtime_and_program_sv_def Let_def sv_to_hv_def h(1)
    by (auto simp: bnd_eq_Inr)
  then show ?thesis
    by (cases b) (simp add: native_bundle_from_runtime_and_program_handles_def h(6))
qed

theorem bundle_paths_agree_witness:
  "\<exists>p b. native_program_from_sv (native_program_to_compact_sv sample_program) = Inr p \<and>
    native_bundle_from_runtime_and_program_sv (HV [(''slot_catalog'', AV [])])
      (native_program_to_compact_sv sample_program) = Inr b \<and>
    native_bundle_from_runtime_and_program_handles (bn_runtime_slots b) p =
      b\<lparr>bn_runtime_slots := map clone_native_slot (bn_runtime_slots b),
        bn_blocks := map (\<lambda>c. clone_native_block (bind_block (map ad_name (pg_variable_defs p)) c)) (bn_blocks b)\<rparr>"
proof -
  let ?s = "native_program_to_compact_sv sample_program"
  have p: "native_program_from_sv ?s = Inr (stored_program sample_program)"
    by (rule program_read [OF sample_program_wf])
  have "?s = HV h \<Longrightarrow> \<exists>b. native_bundle_from_runtime_and_program_sv (HV [(''slot_catalog'', AV [])]) ?s = Inr b" for h
    using p by (intro bundle_loads [where xs = "[]"])
      (auto simp: fetch_slot_catalog_def fetch_either_av_def sv_to_av_def hv_fetch_def)
  then obtain b where b: "native_bundle_from_runtime_and_program_sv (HV [(''slot_catalog'', AV [])]) ?s = Inr b"
    unfolding native_program_to_compact_sv_def by blast
  show ?thesis using p b bundle_paths_agree [OF p b] by blast
qed

end
