(* ===== verification/VM_Arguments.thy ===== *)
theory VM_Arguments
  imports VM_Bundles
begin

text \<open>
  Variables and arguments (\<^verbatim>\<open>src/vm_runtime.h\<close>, lines 5029 to 5109, 5344 to 5395 and 5596 to 6444):
  coercion of input values, preparation of the variables of a request, and the arguments of an
  operation, for one resolver argument, for the hash of a resolver, and in the native form a
  specialized program keeps. Types are Perl objects; \<open>coercer\<close> is what the code asks of them. A
  croak is \<open>Inl\<close>; what the caches of a program held at that moment is not described.
\<close>

section \<open>Types as the code sees them\<close>

text \<open>
  \<open>Houtou_Error\<close> is an exception object of class \<^verbatim>\<open>GraphQL::Houtou::Error\<close> with its hash,
  \<open>Object_Exception\<close> one of another class, \<open>Plain_Exception\<close> a string. An exception is true in
  \<^verbatim>\<open>SvTRUE\<close>.
\<close>

datatype perl_exception =
    Plain_Exception bool string
  | Houtou_Error hv
  | Object_Exception sv

type_synonym 'a coerced = "perl_exception + 'a"

text \<open>
  \<open>ct_hash\<close> is the hash behind an object, \<open>ct_graphql_to_perl\<close> and \<open>ct_to_string\<close> are method calls
  (the values left on the stack), \<open>ct_is_nonnull\<close> is \<^verbatim>\<open>isa(NonNull)\<close> and \<open>ct_lookup_type\<close> the call
  of \<^verbatim>\<open>Schema::lookup_type\<close>.
\<close>

record coercer =
  ct_hash :: "sv \<Rightarrow> hv option"
  ct_graphql_to_perl :: "sv \<Rightarrow> sv \<Rightarrow> sv list coerced"
  ct_is_nonnull :: "sv \<Rightarrow> bool"
  ct_to_string :: "sv \<Rightarrow> sv list coerced"
  ct_lookup_type :: "sv \<Rightarrow> sv \<Rightarrow> sv list coerced"

definition fetch_hash_entry_sv :: "hv \<Rightarrow> string \<Rightarrow> sv option" where
  "fetch_hash_entry_sv h key = defined_sv (hv_fetch h key)"

definition lookup_input_type_by_typedef_sv :: "coercer \<Rightarrow> sv \<Rightarrow> sv \<Rightarrow> sv option coerced" where
  "lookup_input_type_by_typedef_sv ct runtime_schema typedef =
     (case ct_hash ct runtime_schema of
        None \<Rightarrow> Inr None
      | Some h \<Rightarrow>
          if \<not> SvOK typedef then Inr None
          else (case fetch_hash_entry_sv h ''runtime_cache'' of
            Some (HV cache) \<Rightarrow>
              (case fetch_hash_entry_sv cache ''name2type'' of
                 Some (HV name2type) \<Rightarrow>
                   bnd (ct_lookup_type ct typedef (HV name2type)) (\<lambda>ret.
                   Inr (if ret = [] then None else Some (last ret)))
               | _ \<Rightarrow> Inr None)
          | _ \<Rightarrow> Inr None))"

section \<open>Coercion of one value\<close>

definition in_int32 :: "int \<Rightarrow> bool" where
  "in_int32 v \<longleftrightarrow> - 2147483648 \<le> v \<and> v \<le> 2147483647"

text \<open>The fast path for the five builtin scalars; \<open>None\<close> leaves the value to the Perl path.\<close>

definition builtin_fast_path :: "string \<Rightarrow> sv \<Rightarrow> sv option" where
  "builtin_fast_path kind value =
     (if SvROK value then None
      else if \<not> SvOK value then Some Undef
      else if kind = ''String'' \<or> kind = ''ID'' then Some value
      else if kind = ''Int'' \<and> SvIOK value \<and> \<not> SvPOK value \<and> \<not> SvNOK value then
        (if in_int32 (SvIV value) then Some (IV (SvIV value)) else None)
      else if kind = ''Float'' \<and> \<not> SvPOK value then
        (if SvIOK value then Some (IV (SvIV value))
         else if SvNOK value then Some (NV (SvPV value)) else None)
      else if kind = ''Boolean'' \<and> SvIOK value \<and> \<not> SvPOK value \<and> \<not> SvNOK value then
        (if SvIV value = 0 \<or> SvIV value = 1 then Some (IV (SvIV value)) else None)
      else None)"

definition builtin_kind :: "coercer \<Rightarrow> sv \<Rightarrow> string option" where
  "builtin_kind ct type =
     (case ct_hash ct type of
        None \<Rightarrow> None
      | Some h \<Rightarrow> (case hv_fetch h ''_builtin_kind'' of Some (PV u k) \<Rightarrow> Some k | _ \<Rightarrow> None))"

fun strip_newlines :: "string \<Rightarrow> string" where
  "strip_newlines [] = []"
| "strip_newlines (c # cs) =
     (let r = strip_newlines cs in if c = CHR 0x0A \<and> r = [] then [] else c # r)"

definition request_error :: "perl_exception \<Rightarrow> perl_exception" where
  "request_error e =
     (case e of
        Plain_Exception utf8 text \<Rightarrow> Houtou_Error [(''message'', PV utf8 (strip_newlines text))]
      | _ \<Rightarrow> e)"

definition coerce_by_perl :: "coercer \<Rightarrow> sv \<Rightarrow> sv \<Rightarrow> sv coerced" where
  "coerce_by_perl ct type value =
     (case ct_graphql_to_perl ct type value of
        Inl e \<Rightarrow> Inl (request_error e)
      | Inr ret \<Rightarrow> Inr (if ret = [] then Undef else last ret))"

definition coerce_input_value_sv :: "coercer \<Rightarrow> sv option \<Rightarrow> sv option \<Rightarrow> sv coerced" where
  "coerce_input_value_sv ct type_sv value_sv =
     (case value_sv of
        None \<Rightarrow> Inr Undef
      | Some value \<Rightarrow>
          (case defined_sv type_sv of
             None \<Rightarrow> Inr value
           | Some type \<Rightarrow>
               (case builtin_kind ct type of
                  None \<Rightarrow> coerce_by_perl ct type value
                | Some kind \<Rightarrow>
                    (case builtin_fast_path kind value of
                       Some v \<Rightarrow> Inr v
                     | None \<Rightarrow> coerce_by_perl ct type value))))"

definition finalize_input_type :: "coercer \<Rightarrow> sv \<Rightarrow> native_arg_def \<Rightarrow> native_arg_def coerced" where
  "finalize_input_type ct runtime_schema d =
     (case (ad_type_def d, ad_input_type d) of
        (Some typedef, None) \<Rightarrow>
          bnd (lookup_input_type_by_typedef_sv ct runtime_schema typedef) (\<lambda>t. Inr (d\<lparr>ad_input_type := t\<rparr>))
      | _ \<Rightarrow> Inr d)"

definition finalize_default :: "coercer \<Rightarrow> native_arg_def \<Rightarrow> native_arg_def coerced" where
  "finalize_default ct d =
     (case (ad_default_sv d, ad_input_type d, ad_default_native d) of
       (Some raw, Some type, None) \<Rightarrow>
         if ad_has_default d then
           bnd (coerce_input_value_sv ct (Some type) (Some raw)) (\<lambda>v.
           Inr (d\<lparr>ad_default_native := Some (native_value_from_sv v)\<rparr>))
         else Inr d
     | _ \<Rightarrow> Inr d)"

definition finalize_native_arg_def :: "coercer \<Rightarrow> sv \<Rightarrow> native_arg_def \<Rightarrow> native_arg_def coerced" where
  "finalize_native_arg_def ct runtime_schema d =
     bnd (finalize_input_type ct runtime_schema d) (finalize_default ct)"

section \<open>Error messages\<close>

definition GQL_RUNTIME_VM_VARIABLE_DESC_MAX_BYTES :: nat where
  "GQL_RUNTIME_VM_VARIABLE_DESC_MAX_BYTES = 64"

text \<open>Backing off from \<open>len\<close> while the byte there continues a UTF-8 sequence.\<close>

fun back_off :: "string \<Rightarrow> nat \<Rightarrow> nat" where
  "back_off pv 0 = 0"
| "back_off pv (Suc n) =
     (if 128 \<le> byte_of (pv ! Suc n) \<and> byte_of (pv ! Suc n) < 192 then back_off pv n else Suc n)"

definition desc_char :: "char \<Rightarrow> string" where
  "desc_char c =
     (if c = CHR 0x22 \<or> c = CHR 0x5C then [CHR 0x5C, c]
      else if byte_of c < 32 then [CHR 0x20]
      else [c])"

definition variable_value_desc_sv :: "sv \<Rightarrow> sv" where
  "variable_value_desc_sv value =
     (case value of
        Undef \<Rightarrow> PV False ''null''
      | PBool b \<Rightarrow> PV False (if b then ''true'' else ''false'')
      | PV utf8 pv \<Rightarrow>
          (let truncated = GQL_RUNTIME_VM_VARIABLE_DESC_MAX_BYTES < length pv;
               len = (if truncated then
                        (if utf8 then back_off pv GQL_RUNTIME_VM_VARIABLE_DESC_MAX_BYTES
                         else GQL_RUNTIME_VM_VARIABLE_DESC_MAX_BYTES)
                      else length pv)
           in PV utf8 (CHR 0x22 # concat (map desc_char (take len pv)) @
                (if truncated then ''...'' else []) @ [CHR 0x22]))
      | IV i \<Rightarrow> IV i
      | NV t \<Rightarrow> NV t
      | _ \<Rightarrow> PV False ''(reference)'')"

text \<open>\<^verbatim>\<open>newSVpvf\<close> with \<^verbatim>\<open>SVf\<close> upgrades all to UTF-8 as soon as one part is.\<close>

definition joined_sv :: "sv list \<Rightarrow> sv" where
  "joined_sv parts =
     (if list_ex SvUTF8 parts then PV True (concat (map sv_upgraded parts))
      else PV False (concat (map SvPV parts)))"

definition quoted_variable :: "string \<Rightarrow> string" where
  "quoted_variable name = ''Variable '' @ [CHR 0x22, CHR 0x24] @ name @ [CHR 0x22]"

definition variable_error_prepend_context :: "perl_exception \<Rightarrow> string \<Rightarrow> sv \<Rightarrow> perl_exception" where
  "variable_error_prepend_context e name raw =
     (case e of
        Houtou_Error h \<Rightarrow>
          (case defined_sv (hv_fetch h ''message'') of
             None \<Rightarrow> e
           | Some message \<Rightarrow>
               Houtou_Error (hv_store h ''message''
                 (joined_sv [PV False (quoted_variable name @ '' got invalid value ''),
                    variable_value_desc_sv raw, PV False ''; '', message])))
      | _ \<Rightarrow> e)"

definition missing_variable_error_sv :: "coercer \<Rightarrow> sv \<Rightarrow> string \<Rightarrow> perl_exception" where
  "missing_variable_error_sv ct type name =
     Houtou_Error [(''message'',
       case ct_to_string ct type of
         Inr (t # ts) \<Rightarrow>
           (if SvOK (last (t # ts)) then
              joined_sv [PV False (quoted_variable name @ '' of required type '' @ [CHR 0x22]), last (t # ts),
                PV False ([CHR 0x22] @ '' was not provided.'')]
            else PV False (quoted_variable name @ '' of required type was not provided.''))
       | _ \<Rightarrow> PV False (quoted_variable name @ '' of required type was not provided.''))]"

section \<open>The variables of a request\<close>

text \<open>
  One round of the loop: the definition with its caches filled, and the coerced value unless the
  variable stays absent.
\<close>

definition nonnull_state :: "coercer \<Rightarrow> native_arg_def \<Rightarrow> nat" where
  "nonnull_state ct d =
     (case (ad_nonnull_state d, defined_sv (ad_input_type d)) of
        (0, Some type) \<Rightarrow> if ct_is_nonnull ct type then 1 else 2
      | (n, _) \<Rightarrow> n)"

definition absent_variable :: "coercer \<Rightarrow> native_arg_def \<Rightarrow> (native_arg_def \<times> sv option) coerced" where
  "absent_variable ct d =
     (let state = nonnull_state ct d
      in if state = 1 then
           Inl (missing_variable_error_sv ct (copy_or_new (ad_input_type d)) (ad_name d))
         else Inr (d\<lparr>ad_nonnull_state := state\<rparr>, None))"

definition default_variable :: "coercer \<Rightarrow> native_arg_def \<Rightarrow> (native_arg_def \<times> sv option) coerced" where
  "default_variable ct d =
     (case (ad_has_default d, ad_default_native d, ad_default_sv d) of
        (True, Some v, _) \<Rightarrow> Inr (d, Some (native_value_materialize_sv v))
      | (True, None, Some raw) \<Rightarrow>
          bnd (coerce_input_value_sv ct (ad_input_type d) (Some raw)) (\<lambda>v. Inr (d, Some v))
      | _ \<Rightarrow> absent_variable ct d)"

definition prepare_variable ::
  "coercer \<Rightarrow> sv \<Rightarrow> hv option \<Rightarrow> native_arg_def \<Rightarrow> (native_arg_def \<times> sv option) coerced" where
  "prepare_variable ct runtime_schema provided def =
     bnd (finalize_native_arg_def ct runtime_schema def) (\<lambda>d.
     case variable_by_name provided (ad_name d) of
       Some raw \<Rightarrow>
         (case coerce_input_value_sv ct (ad_input_type d) (Some raw) of
            Inl e \<Rightarrow> Inl (variable_error_prepend_context e (ad_name d) raw)
          | Inr v \<Rightarrow> Inr (d, Some v))
     | None \<Rightarrow> default_variable ct d)"

fun write_slots :: "nat \<Rightarrow> sv option list \<Rightarrow> sv option list \<Rightarrow> sv option list" where
  "write_slots i [] slots = slots"
| "write_slots i (v # vs) slots =
     write_slots (Suc i) vs (case v of Some x \<Rightarrow> slots[i := Some x] | None \<Rightarrow> slots)"

text \<open>
  The request keeps the values in a hash, with the provided variables the operation does not
  define behind them, or only in an array (\<^verbatim>\<open>slots_only\<close>), where an absent variable is a hole.
\<close>

datatype prepared_variables =
    Prepared_Hash hv
  | Prepared_Slots "sv option list"

definition coerced_hash :: "native_arg_def list \<Rightarrow> sv option list \<Rightarrow> hv" where
  "coerced_hash defs values =
     foldl (\<lambda>h (d, v). case v of Some x \<Rightarrow> hv_store h (ad_name d) x | None \<Rightarrow> h) [] (zip defs values)"

definition extra_variables :: "hv option \<Rightarrow> hv \<Rightarrow> hv" where
  "extra_variables provided h =
     (case provided of
        None \<Rightarrow> h
      | Some p \<Rightarrow> foldl (\<lambda>h (k, v). if hv_exists h k then h else hv_store h k v) h p)"

definition prepare_program_variables_into_slots_sv ::
  "coercer \<Rightarrow> sv \<Rightarrow> native_program \<Rightarrow> hv option \<Rightarrow> sv option list \<Rightarrow> bool \<Rightarrow>
    (prepared_variables \<times> sv option list \<times> native_program) coerced"
where
  "prepare_program_variables_into_slots_sv ct runtime_schema p provided slots slots_only =
     bnd (fill (prepare_variable ct runtime_schema provided) (pg_variable_defs p)) (\<lambda>ds.
     let defs = map fst ds; values = map snd ds
     in Inr (if slots_only then Prepared_Slots values
             else Prepared_Hash (extra_variables provided (coerced_hash defs values)),
             write_slots 0 values slots, p\<lparr>pg_variable_defs := defs\<rparr>))"

definition prepare_program_variables_sv ::
  "coercer \<Rightarrow> sv \<Rightarrow> native_program \<Rightarrow> hv option \<Rightarrow>
    (prepared_variables \<times> sv option list \<times> native_program) coerced"
where
  "prepare_program_variables_sv ct runtime_schema p provided =
     prepare_program_variables_into_slots_sv ct runtime_schema p provided [] False"

section \<open>The arguments of an operation\<close>

definition is_dynamic :: "native_op \<Rightarrow> bool" where
  "is_dynamic op \<longleftrightarrow> op_args_mode_code op = GQL_VM_ARGS_DYNAMIC"

text \<open>The prepared value of a variable: its slot where it has an index, else the hash.\<close>

definition prepared_value :: "int \<Rightarrow> string \<Rightarrow> hv option \<Rightarrow> sv option list \<Rightarrow> sv option" where
  "prepared_value i name variables slots =
     (if 0 \<le> i \<and> i < int (length slots) then slots ! nat i else variable_by_name variables name)"

definition materialize_argument :: "native_op \<Rightarrow> dynamic_value \<Rightarrow> hv option \<Rightarrow> sv" where
  "materialize_argument op v variables =
     dynamic_value_materialize_sv v (if is_dynamic op then variables else None)"

definition specialize_one_arg_sv ::
  "coercer \<Rightarrow> native_slot list option \<Rightarrow> native_slot \<Rightarrow> native_op \<Rightarrow> hv option \<Rightarrow> sv option list \<Rightarrow> sv coerced"
where
  "specialize_one_arg_sv ct runtime slot op variables slots =
     (case so_arg_defs (effective_slot runtime slot) of
        [d] \<Rightarrow>
          (let coerce = (\<lambda>raw. coerce_input_value_sv ct (ad_input_type d) (Some raw));
               default_value =
                 (case (ad_has_default d, ad_default_native d, ad_default_sv d) of
                    (True, Some v, _) \<Rightarrow> Inr (native_value_materialize_sv v)
                  | (True, None, Some raw) \<Rightarrow> coerce raw
                  | _ \<Rightarrow> Inr Undef)
           in case args_payload_lookup_value (op_args_payload op) (ad_name d) 0 of
                None \<Rightarrow> default_value
              | Some (D_VARIABLE name i) \<Rightarrow>
                  if is_dynamic op then
                    (case prepared_value i name variables slots of
                       Some v \<Rightarrow> if SvOK v then Inr v else coerce v
                     | None \<Rightarrow> default_value)
                  else coerce (materialize_argument op (D_VARIABLE name i) variables)
              | Some v \<Rightarrow> coerce (materialize_argument op v variables))
      | _ \<Rightarrow> Inr Undef)"

definition specialize_arg ::
  "coercer \<Rightarrow> native_op \<Rightarrow> hv option \<Rightarrow> sv option list \<Rightarrow> nat \<times> native_arg_def \<Rightarrow> hv \<Rightarrow> hv coerced"
where
  "specialize_arg ct op variables slots arg h =
     (let (i, d) = arg;
          stored = (\<lambda>v. Inr (hv_store h (ad_name d) v));
          coerced = (\<lambda>raw. bnd (coerce_input_value_sv ct (ad_input_type d) (Some raw)) stored);
          default_value =
            (case (ad_has_default d, ad_default_native d, ad_default_sv d) of
               (True, Some v, _) \<Rightarrow> stored (native_value_materialize_sv v)
             | (True, None, Some raw) \<Rightarrow> coerced raw
             | _ \<Rightarrow> Inr h)
      in case args_payload_lookup_value (op_args_payload op) (ad_name d) (int i) of
           None \<Rightarrow> default_value
         | Some v \<Rightarrow>
             (case (is_dynamic op, v) of
                (True, D_VARIABLE name j) \<Rightarrow>
                  (case prepared_value j name variables slots of
                     Some x \<Rightarrow> if SvOK x then stored x else coerced x
                   | None \<Rightarrow> default_value)
              | _ \<Rightarrow> coerced (materialize_argument op v variables)))"

definition specialize_arg_payload_sv ::
  "coercer \<Rightarrow> native_slot list option \<Rightarrow> native_slot \<Rightarrow> native_op \<Rightarrow> hv option \<Rightarrow> sv option list \<Rightarrow>
    sv option coerced"
where
  "specialize_arg_payload_sv ct runtime slot op variables slots =
     bnd (each (specialize_arg ct op variables slots) (enumerate 0 (so_arg_defs (effective_slot runtime slot))) []) (\<lambda>h.
     Inr (if h = [] then None else Some (HV h)))"

text \<open>The native form. An omitted variable is materialized here, to the undefined value.\<close>

definition specialize_arg_native ::
  "coercer \<Rightarrow> native_op \<Rightarrow> hv option \<Rightarrow> nat \<times> native_arg_def \<Rightarrow>
    (string \<times> dynamic_value) list \<Rightarrow> (string \<times> dynamic_value) list coerced"
where
  "specialize_arg_native ct op variables arg entries =
     (let (i, d) = arg;
          pushed = (\<lambda>v. Inr (entries @ [(ad_name d, v)]));
          coerced = (\<lambda>raw. bnd (coerce_input_value_sv ct (ad_input_type d) (Some raw))
                             (\<lambda>v. pushed (dynamic_value_from_sv v)))
      in case args_payload_lookup_value (op_args_payload op) (ad_name d) (int i) of
           Some v \<Rightarrow>
             (case (is_dynamic op, v) of
                (True, D_VARIABLE name j) \<Rightarrow>
                  (case defined_sv (variable_by_name variables name) of
                     Some x \<Rightarrow> pushed (dynamic_value_from_sv x)
                   | None \<Rightarrow> coerced (materialize_argument op v variables))
              | _ \<Rightarrow> coerced (materialize_argument op v variables))
         | None \<Rightarrow>
             (case (ad_has_default d, ad_default_native d, ad_default_sv d) of
                (True, Some v, _) \<Rightarrow> pushed (dynamic_value_from_native_value v)
              | (True, None, Some raw) \<Rightarrow> coerced raw
              | _ \<Rightarrow> Inr entries))"

definition specialize_arg_payload_native ::
  "coercer \<Rightarrow> native_slot list option \<Rightarrow> native_slot \<Rightarrow> native_op \<Rightarrow> hv option \<Rightarrow> args_payload option coerced"
where
  "specialize_arg_payload_native ct runtime slot op variables =
     bnd (each (specialize_arg_native ct op variables) (enumerate 0 (so_arg_defs (effective_slot runtime slot))) [])
       (\<lambda>entries. Inr (if entries = [] then None else Some (args_payload_of entries)))"

section \<open>Specializing blocks\<close>

text \<open>
  Both passes keep the operations whose guards hold, drop the guards they decided, and replace the
  arguments by coerced ones. The pass over a program decides guards on variables, the pass over a
  cached bundle those without.
\<close>

definition without_guards :: "native_op \<Rightarrow> native_op" where
  "without_guards op =
     op\<lparr>op_has_directives := False, op_directives_mode_code := GQL_VM_ARGS_NONE, op_directives_payload := None\<rparr>"

definition with_args :: "args_payload option \<Rightarrow> native_op \<Rightarrow> native_op" where
  "with_args payload op =
     (case payload of
        Some p \<Rightarrow> op\<lparr>op_args_payload := Some p, op_args_mode_code := GQL_VM_ARGS_STATIC, op_has_args := True\<rparr>
      | None \<Rightarrow> op\<lparr>op_args_payload := None, op_args_mode_code := GQL_VM_ARGS_NONE, op_has_args := False\<rparr>)"

definition specialize_op ::
  "coercer \<Rightarrow> native_slot list option \<Rightarrow> hv option \<Rightarrow> native_slot list \<Rightarrow> native_op \<Rightarrow>
    native_op list \<Rightarrow> native_op list coerced"
where
  "specialize_op ct runtime variables slots op kept =
     (let guarded = op_has_directives op \<and> op_directives_mode_code op = GQL_VM_ARGS_DYNAMIC
      in if guarded \<and> \<not> evaluate_runtime_guards_native (op_directives_payload op) variables [] then Inr kept
         else
           (let op = (if guarded then without_guards op else op)
            in case at_index slots (op_slot_index op) of
                 Some slot \<Rightarrow>
                   if so_arg_defs slot \<noteq> [] \<or> op_has_args op then
                     bnd (specialize_arg_payload_native ct runtime slot op variables) (\<lambda>payload.
                     Inr (kept @ [with_args payload op]))
                   else Inr (kept @ [op])
               | None \<Rightarrow> Inr (kept @ [op])))"

definition specialize_block ::
  "coercer \<Rightarrow> native_slot list option \<Rightarrow> hv option \<Rightarrow> native_block \<Rightarrow> native_block coerced"
where
  "specialize_block ct runtime variables b =
     bnd (each (specialize_op ct runtime variables (bl_slots b)) (bl_ops b) []) (\<lambda>ops.
     Inr (b\<lparr>bl_ops := ops\<rparr>))"

definition specialize_native_program_in_place ::
  "coercer \<Rightarrow> native_slot list option \<Rightarrow> native_program \<Rightarrow> hv option \<Rightarrow> native_program coerced"
where
  "specialize_native_program_in_place ct runtime p variables =
     bnd (fill (specialize_block ct runtime variables) (pg_blocks p)) (\<lambda>blocks.
     Inr (p\<lparr>pg_blocks := blocks\<rparr>))"

definition prepare_cached_op ::
  "coercer \<Rightarrow> native_slot list option \<Rightarrow> native_slot list \<Rightarrow> native_op \<Rightarrow> native_op list \<Rightarrow> native_op list coerced"
where
  "prepare_cached_op ct runtime slots op kept =
     (let guarded = op_has_directives op \<and> op_directives_mode_code op = GQL_VM_ARGS_STATIC
      in if guarded \<and> \<not> evaluate_runtime_guards_native (op_directives_payload op) None [] then Inr kept
         else
           (let op = (if guarded then without_guards op else op)
            in case at_index slots (op_slot_index op) of
                 Some slot \<Rightarrow>
                   if op_args_mode_code op = GQL_VM_ARGS_STATIC \<and> (so_arg_defs slot \<noteq> [] \<or> op_has_args op) then
                     bnd (specialize_arg_payload_native ct runtime slot op None) (\<lambda>payload.
                     Inr (kept @ [with_args payload op]))
                   else Inr (kept @ [op])
               | None \<Rightarrow> Inr (kept @ [op])))"

definition prepare_cached_block ::
  "coercer \<Rightarrow> native_slot list option \<Rightarrow> native_block \<Rightarrow> native_block coerced"
where
  "prepare_cached_block ct runtime b =
     bnd (each (prepare_cached_op ct runtime (bl_slots b)) (bl_ops b) []) (\<lambda>ops. Inr (b\<lparr>bl_ops := ops\<rparr>))"

definition prepare_cached_bundle_in_place ::
  "coercer \<Rightarrow> native_slot list option \<Rightarrow> native_bundle \<Rightarrow> native_bundle coerced"
where
  "prepare_cached_bundle_in_place ct runtime bundle =
     bnd (fill (prepare_cached_block ct runtime) (bn_blocks bundle)) (\<lambda>blocks.
     Inr (bundle\<lparr>bn_blocks := blocks\<rparr>))"

end
