(* ===== verification/VM_Arguments_Lemmas.thy ===== *)
theory VM_Arguments_Lemmas
  imports VM_Arguments
begin

text \<open>
  Preparation of variables and of arguments against the rules of the GraphQL specification
  (CoerceVariableValues and CoerceArgumentValues), and the agreement of the ways the code has to
  compute the same arguments.
\<close>

section \<open>Variables\<close>

lemma bnd_right [simp]: "bnd m Inr = m"
  by (cases m) simp_all

lemma fill_Inr_nth:
  "fill f xs = Inr ys \<longleftrightarrow> length ys = length xs \<and> (\<forall>i < length xs. f (xs ! i) = Inr (ys ! i))"
proof (induction xs arbitrary: ys)
  case Nil
  then show ?case by auto
next
  case (Cons x xs)
  show ?case
  proof (cases ys)
    case Nil
    then show ?thesis by (auto simp: bnd_eq_Inr)
  next
    case (Cons y zs)
    then show ?thesis using Cons.IH by (auto simp: bnd_eq_Inr All_less_Suc2)
  qed
qed

lemma fill_Inr_list_all2: "fill f xs = Inr ys \<longleftrightarrow> list_all2 (\<lambda>x y. f x = Inr y) xs ys"
  by (auto simp: fill_Inr_nth list_all2_conv_all_nth)

lemma write_slots_all: "length slots = length vs \<Longrightarrow> slots = replicate (length vs) None \<Longrightarrow> write_slots 0 vs slots = vs"
proof -
  have "write_slots (length pre) vs (pre @ replicate (length vs) None) = pre @ vs" for pre vs :: "sv option list"
  proof (induction vs arbitrary: pre)
    case Nil
    then show ?case by simp
  next
    case (Cons v vs)
    from Cons.IH [of "pre @ [v]"] show ?case by (cases v) (simp_all add: list_update_append)
  qed
  from this [of "[]" vs] show "slots = replicate (length vs) None \<Longrightarrow> write_slots 0 vs slots = vs" by simp
qed

text \<open>The finished definition keeps the name.\<close>

lemma finalize_input_type_name: "finalize_input_type ct schema d = Inr d' \<Longrightarrow> ad_name d' = ad_name d"
  by (auto simp: finalize_input_type_def bnd_eq_Inr split: option.splits)

lemma finalize_default_name: "finalize_default ct d = Inr d' \<Longrightarrow> ad_name d' = ad_name d"
  by (auto simp: finalize_default_def bnd_eq_Inr split: option.splits if_splits)

lemma finalize_name: "finalize_native_arg_def ct schema d = Inr d' \<Longrightarrow> ad_name d' = ad_name d"
  by (auto simp: finalize_native_arg_def_def bnd_eq_Inr dest!: finalize_input_type_name finalize_default_name)

lemma absent_variable_name: "absent_variable ct d = Inr (d', v) \<Longrightarrow> ad_name d' = ad_name d"
  by (auto simp: absent_variable_def Let_def split: if_splits)

lemma default_variable_name: "default_variable ct d = Inr (d', v) \<Longrightarrow> ad_name d' = ad_name d"
  by (auto simp: default_variable_def bnd_eq_Inr absent_variable_name split: bool.splits option.splits)

lemma prepare_variable_name:
  assumes "prepare_variable ct schema provided d = Inr (d', v)"
  shows "ad_name d' = ad_name d"
proof -
  obtain f where f: "finalize_native_arg_def ct schema d = Inr f"
    using assms by (auto simp: prepare_variable_def bnd_eq_Inr)
  have "ad_name d' = ad_name f"
    using assms f by (auto simp: prepare_variable_def default_variable_name split: option.splits sum.splits)
  with finalize_name [OF f] show ?thesis by simp
qed

lemma prepare_variable_absent:
  assumes "prepare_variable ct schema provided d = Inr (d', None)"
  shows "variable_by_name provided (ad_name d) = None"
proof -
  obtain f where f: "finalize_native_arg_def ct schema d = Inr f"
    using assms by (auto simp: prepare_variable_def bnd_eq_Inr)
  show ?thesis
  proof (rule ccontr)
    assume "variable_by_name provided (ad_name d) \<noteq> None"
    then obtain raw where "variable_by_name provided (ad_name d) = Some raw" by blast
    with assms f show False by (auto simp: prepare_variable_def finalize_name [OF f] split: sum.splits)
  qed
qed

lemma coerced_hash_fetch:
  assumes "distinct (map ad_name ds)" "length vs = length ds" "i < length ds"
  shows "hv_fetch (coerced_hash ds vs) (ad_name (ds ! i)) = vs ! i"
proof -
  define put where "put = (\<lambda>h (d :: native_arg_def, v :: sv option).
    case v of Some x \<Rightarrow> hv_store h (ad_name d) x | None \<Rightarrow> h)"
  have other: "name \<notin> set (map ad_name ds) \<Longrightarrow> hv_fetch (foldl put h (zip ds vs)) name = hv_fetch h name"
    for h name ds vs
  proof (induction ds arbitrary: h vs)
    case Nil
    then show ?case by simp
  next
    case (Cons d ds)
    then show ?case by (cases vs) (auto simp: put_def split: option.split)
  qed
  have "hv_fetch (foldl put h (zip ds vs)) (ad_name (ds ! i)) =
      (case vs ! i of Some x \<Rightarrow> Some x | None \<Rightarrow> hv_fetch h (ad_name (ds ! i)))" for h
    using assms
  proof (induction ds arbitrary: h vs i)
    case Nil
    then show ?case by simp
  next
    case (Cons d ds)
    then obtain v us where vs: "vs = v # us" by (cases vs) auto
    show ?case
    proof (cases i)
      case 0
      with Cons.prems(1) show ?thesis
        by (simp add: vs other) (auto simp: put_def split: option.split)
    next
      case (Suc j)
      with Cons.prems have j: "j < length ds" "length us = length ds" by (auto simp: vs)
      then have "ad_name (ds ! j) \<noteq> ad_name d" using Cons.prems(1) by (metis distinct.simps(2) list.simps(9) nth_map nth_mem length_map)
      with Suc Cons.IH [of us j "put h (d, v)"] Cons.prems(1) j show ?thesis
        by (auto simp: vs put_def split: option.split)
    qed
  qed
  from this [of "[]"] show ?thesis
    by (simp add: coerced_hash_def put_def [symmetric] split: option.split)
qed

lemma extra_fetch:
  "hv_fetch (extra_variables provided h) name =
    (case hv_fetch h name of Some v \<Rightarrow> Some v | None \<Rightarrow> variable_by_name provided name)"
proof (cases provided)
  case None
  then show ?thesis by (simp add: extra_variables_def variable_by_name_def split: option.split)
next
  case (Some p)
  have "hv_fetch (foldl (\<lambda>h (k, v). if hv_exists h k then h else hv_store h k v) h p) name =
      (case hv_fetch h name of Some v \<Rightarrow> Some v | None \<Rightarrow> map_of p name)"
  proof (induction p arbitrary: h)
    case Nil
    then show ?case by (simp split: option.split)
  next
    case (Cons e p)
    then show ?case by (cases e) (auto simp: hv_exists_def split: option.split)
  qed
  then show ?thesis unfolding Some
    by (simp add: extra_variables_def variable_by_name_def hv_fetch_def split: option.split)
qed

text \<open>What the loop over the definitions computed.\<close>

lemma prepare_parts:
  assumes "prepare_program_variables_into_slots_sv ct schema p provided slots slots_only = Inr (r, slots', p')"
  obtains ds where "fill (prepare_variable ct schema provided) (pg_variable_defs p) = Inr ds"
    and "r = (if slots_only then Prepared_Slots (map snd ds)
           else Prepared_Hash (extra_variables provided (coerced_hash (map fst ds) (map snd ds))))"
    and "slots' = write_slots 0 (map snd ds) slots" and "p' = p\<lparr>pg_variable_defs := map fst ds\<rparr>"
  using assms
  by (auto simp: prepare_program_variables_into_slots_sv_def bnd_eq_Inr Let_def)

lemma prepared_names:
  assumes "fill (prepare_variable ct schema provided) defs = Inr ds"
  shows "map (ad_name \<circ> fst) ds = map ad_name defs"
proof (rule nth_equalityI)
  show "length (map (ad_name \<circ> fst) ds) = length (map ad_name defs)" using assms by (simp add: fill_Inr_nth)
  fix i
  assume "i < length (map (ad_name \<circ> fst) ds)"
  with assms have "prepare_variable ct schema provided (defs ! i) = Inr (fst (ds ! i), snd (ds ! i))"
    "i < length defs" "length ds = length defs"
    by (auto simp: fill_Inr_nth)
  then show "map (ad_name \<circ> fst) ds ! i = map ad_name defs ! i" using prepare_variable_name by fastforce
qed

lemma prepared_hash_slots:
  assumes "fill (prepare_variable ct schema provided) defs = Inr ds" "distinct (map ad_name defs)"
  shows "slots_of (map ad_name defs)
      (Some (extra_variables provided (coerced_hash (map fst ds) (map snd ds)))) = map snd ds"
proof (rule nth_equalityI)
  have len: "length ds = length defs" using assms(1) by (simp add: fill_Inr_nth)
  then show "length (slots_of (map ad_name defs)
      (Some (extra_variables provided (coerced_hash (map fst ds) (map snd ds))))) = length (map snd ds)"
    by (simp add: slots_of_def)
  fix i
  assume "i < length (slots_of (map ad_name defs)
      (Some (extra_variables provided (coerced_hash (map fst ds) (map snd ds)))))"
  then have i: "i < length defs" by (simp add: slots_of_def)
  have names: "map ad_name (map fst ds) = map ad_name defs" using prepared_names [OF assms(1)] by simp
  then have name: "ad_name (fst (ds ! i)) = ad_name (defs ! i)"
    using i len by (metis length_map nth_map)
  have "hv_fetch (coerced_hash (map fst ds) (map snd ds)) (ad_name (defs ! i)) = map snd ds ! i"
    using coerced_hash_fetch [of "map fst ds" "map snd ds" i] names assms(2) i len by (simp add: name [symmetric] del: map_map)
  moreover have "variable_by_name provided (ad_name (defs ! i)) = None" if "snd (ds ! i) = None"
    using assms(1) i that prepare_variable_absent
    by (auto simp: fill_Inr_nth) (metis prod.collapse)
  ultimately show "slots_of (map ad_name defs)
      (Some (extra_variables provided (coerced_hash (map fst ds) (map snd ds)))) ! i = map snd ds ! i"
    using i len by (auto simp: slots_of_def variable_by_name_def extra_fetch split: option.split)
qed

text \<open>
  C23. The two stores of the variables of a request agree: when preparation succeeds, the slot of
  every definition holds what the hash holds under its name, so an expression may be evaluated
  by index or by name.
\<close>

theorem prepared_slots_agree:
  assumes "prepare_program_variables_into_slots_sv ct schema p provided
      (replicate (length (pg_variable_defs p)) None) False = Inr (Prepared_Hash h, slots, p')"
    and "distinct (map ad_name (pg_variable_defs p))"
  shows "slots = slots_of (map ad_name (pg_variable_defs p)) (Some h)
    \<and> map ad_name (pg_variable_defs p') = map ad_name (pg_variable_defs p)"
proof -
  from assms(1) obtain ds where ds: "fill (prepare_variable ct schema provided) (pg_variable_defs p) = Inr ds"
    "h = extra_variables provided (coerced_hash (map fst ds) (map snd ds))"
    "slots = write_slots 0 (map snd ds) (replicate (length (pg_variable_defs p)) None)"
    "p' = p\<lparr>pg_variable_defs := map fst ds\<rparr>"
    by (rule prepare_parts) auto
  then have "length ds = length (pg_variable_defs p)" by (simp add: fill_Inr_nth)
  with ds prepared_hash_slots [OF ds(1) assms(2)] prepared_names [OF ds(1)] show ?thesis
    by (simp add: write_slots_all)
qed

section \<open>Arguments by the specification\<close>

text \<open>
  CoerceArgumentValues of the GraphQL specification, over the arguments as given and the variables
  of the request: an argument that is not given, or is a variable without a value, takes its
  default; the value of a variable is used as it is unless it is null; everything else is coerced.
  \<open>None\<close> is an absent argument.
\<close>

definition default_argument :: "coercer \<Rightarrow> native_arg_def \<Rightarrow> sv option coerced" where
  "default_argument ct d =
     (case (ad_has_default d, ad_default_native d, ad_default_sv d) of
        (True, Some v, _) \<Rightarrow> Inr (Some (native_value_materialize_sv v))
      | (True, None, Some raw) \<Rightarrow>
          bnd (coerce_input_value_sv ct (ad_input_type d) (Some raw)) (\<lambda>v. Inr (Some v))
      | _ \<Rightarrow> Inr None)"

definition spec_argument ::
  "coercer \<Rightarrow> (string \<times> dynamic_value) list \<Rightarrow> hv \<Rightarrow> native_arg_def \<Rightarrow> sv option coerced" where
  "spec_argument ct given env d =
     (let coerce = (\<lambda>raw. bnd (coerce_input_value_sv ct (ad_input_type d) (Some raw)) (\<lambda>v. Inr (Some v)))
      in case map_of given (ad_name d) of
           None \<Rightarrow> default_argument ct d
         | Some (D_VARIABLE name i) \<Rightarrow>
             (case hv_fetch env name of
                Some x \<Rightarrow> if SvOK x then Inr (Some x) else coerce x
              | None \<Rightarrow> default_argument ct d)
         | Some v \<Rightarrow> coerce (dynamic_value_materialize_sv v (Some env)))"

definition args_hash :: "native_arg_def list \<Rightarrow> sv option list \<Rightarrow> sv option" where
  "args_hash defs values = (let h = coerced_hash defs values in if h = [] then None else Some (HV h))"

text \<open>The value the code computes, with the lookup and the prepared value as the code finds them.\<close>

definition code_argument ::
  "coercer \<Rightarrow> native_op \<Rightarrow> hv option \<Rightarrow> sv option list \<Rightarrow> int \<Rightarrow> native_arg_def \<Rightarrow> sv option coerced" where
  "code_argument ct op variables slots i d =
     (let coerce = (\<lambda>raw. bnd (coerce_input_value_sv ct (ad_input_type d) (Some raw)) (\<lambda>v. Inr (Some v)))
      in case args_payload_lookup_value (op_args_payload op) (ad_name d) i of
           None \<Rightarrow> default_argument ct d
         | Some v \<Rightarrow>
             (case (is_dynamic op, v) of
                (True, D_VARIABLE name j) \<Rightarrow>
                  (case prepared_value j name variables slots of
                     Some x \<Rightarrow> if SvOK x then Inr (Some x) else coerce x
                   | None \<Rightarrow> default_argument ct d)
              | _ \<Rightarrow> coerce (materialize_argument op v variables)))"

definition store_argument :: "string \<Rightarrow> sv option \<Rightarrow> hv \<Rightarrow> hv" where
  "store_argument name v h = (case v of Some x \<Rightarrow> hv_store h name x | None \<Rightarrow> h)"

lemma default_argument_bnd:
  "(case (ad_has_default d, ad_default_native d, ad_default_sv d) of
      (True, Some v, _) \<Rightarrow> k (native_value_materialize_sv v)
    | (True, None, Some raw) \<Rightarrow> bnd (coerce_input_value_sv ct (ad_input_type d) (Some raw)) k
    | _ \<Rightarrow> e) = bnd (default_argument ct d) (\<lambda>v. case v of Some x \<Rightarrow> k x | None \<Rightarrow> e)"
  by (cases "ad_has_default d"; cases "ad_default_native d"; cases "ad_default_sv d")
    (simp_all add: default_argument_def bnd_assoc)

lemma specialize_arg_code:
  "specialize_arg ct op variables slots (i, d) h =
    bnd (code_argument ct op variables slots (int i) d) (\<lambda>v. Inr (store_argument (ad_name d) v h))"
proof -
  have store: "(\<lambda>v. Inr (store_argument (ad_name d) v h)) =
      (\<lambda>v. case v of Some x \<Rightarrow> Inr (hv_store h (ad_name d) x) | None \<Rightarrow> Inr h)"
    by (auto simp: store_argument_def split: option.split)
  have default_case: "bnd (default_argument ct d) (\<lambda>v. Inr (store_argument (ad_name d) v h)) =
      (case (ad_has_default d, ad_default_native d, ad_default_sv d) of
        (True, Some v, _) \<Rightarrow> Inr (hv_store h (ad_name d) (native_value_materialize_sv v))
      | (True, None, Some raw) \<Rightarrow>
          bnd (coerce_input_value_sv ct (ad_input_type d) (Some raw)) (\<lambda>v. Inr (hv_store h (ad_name d) v))
      | _ \<Rightarrow> Inr h)"
    unfolding store default_argument_bnd [symmetric] ..
  show ?thesis
  proof (cases "args_payload_lookup_value (op_args_payload op) (ad_name d) (int i)")
    case None
    then show ?thesis by (simp add: specialize_arg_def code_argument_def default_case Let_def)
  next
    case (Some v)
    show ?thesis
    proof (cases "is_dynamic op \<and> (\<exists>name j. v = D_VARIABLE name j)")
      case True
      then obtain name j where v: "v = D_VARIABLE name j" by blast
      with Some True show ?thesis
        by (cases "prepared_value j name variables slots")
          (simp add: specialize_arg_def code_argument_def default_case Let_def,
            simp add: specialize_arg_def code_argument_def Let_def bnd_assoc store_argument_def)
    next
      case False
      with Some show ?thesis
        by (cases v; cases "is_dynamic op")
          (simp_all add: specialize_arg_def code_argument_def Let_def bnd_assoc store_argument_def)
    qed
  qed
qed

lemma specialize_one_code:
  assumes "so_arg_defs (effective_slot runtime slot) = [d]"
  shows "specialize_one_arg_sv ct runtime slot op variables slots =
    bnd (code_argument ct op variables slots 0 d) (\<lambda>v. Inr (ok_or_undef v))"
proof -
  have ok: "(\<lambda>v. Inr (ok_or_undef v)) = (\<lambda>v. case v of Some x \<Rightarrow> Inr x | None \<Rightarrow> Inr Undef)"
    by (auto simp: ok_or_undef_def split: option.split)
  have default_case: "bnd (default_argument ct d) (\<lambda>v. Inr (ok_or_undef v)) =
      (case (ad_has_default d, ad_default_native d, ad_default_sv d) of
        (True, Some v, _) \<Rightarrow> Inr (native_value_materialize_sv v)
      | (True, None, Some raw) \<Rightarrow> coerce_input_value_sv ct (ad_input_type d) (Some raw)
      | _ \<Rightarrow> Inr Undef)"
    unfolding ok default_argument_bnd [symmetric] bnd_right ..
  show ?thesis
  proof (cases "args_payload_lookup_value (op_args_payload op) (ad_name d) 0")
    case None
    then show ?thesis by (simp add: specialize_one_arg_sv_def assms code_argument_def default_case Let_def)
  next
    case (Some v)
    show ?thesis
    proof (cases "is_dynamic op \<and> (\<exists>name j. v = D_VARIABLE name j)")
      case True
      then obtain name j where v: "v = D_VARIABLE name j" by blast
      with Some True show ?thesis
        by (cases "prepared_value j name variables slots")
          (simp add: specialize_one_arg_sv_def assms code_argument_def default_case Let_def,
            simp add: specialize_one_arg_sv_def assms code_argument_def Let_def bnd_assoc ok_or_undef_def)
    next
      case False
      with Some show ?thesis
        by (cases v; cases "is_dynamic op")
          (simp_all add: specialize_one_arg_sv_def assms code_argument_def Let_def bnd_assoc ok_or_undef_def)
    qed
  qed
qed

text \<open>The position in the definitions is only a hint: names of a payload are distinct.\<close>

lemma find_map_of: "map_option snd (find (\<lambda>(k, v). k = name) es) = map_of es name"
  by (induction es) auto

lemma lookup_map_of:
  assumes "distinct (map fst (ap_entries p))"
  shows "args_payload_lookup_value (Some p) name i = map_of (ap_entries p) name"
proof -
  have "map_of es (fst (es ! n)) = Some (snd (es ! n))"
    if "distinct (map fst es)" "n < length es" for es :: "(string \<times> dynamic_value) list" and n
    using that by (metis map_of_eq_Some_iff nth_mem prod.collapse)
  from this [OF assms, of "nat i"] show ?thesis
    by (auto simp: args_payload_lookup_value_def Let_def find_map_of)
qed

lemma map_of_bind:
  "map_of (map (\<lambda>(k, v). (k, bind_dynamic_value_variables names v)) es) k =
    map_option (bind_dynamic_value_variables names) (map_of es k)"
  by (induction es) auto

lemma prepared_bound:
  "prepared_value (variable_def_index names name 0) name variables (slots_of names variables) =
    variable_by_name variables name"
  using variable_def_index_found [of names name 0] by (auto simp: prepared_value_def slots_of_def)

lemma materialize_bound [simp]:
  "(\<lambda>v. dynamic_value_materialize_sv v e) \<circ> bind_dynamic_value_variables names = (\<lambda>v. dynamic_value_materialize_sv v e)"
  by (simp add: fun_eq_iff)

lemma code_argument_spec:
  assumes "op_args_payload op = Some p" "distinct (map fst (ap_entries p))" "is_dynamic op"
  shows "code_argument ct (bind_op names op) (Some env) (slots_of names (Some env)) i d =
    spec_argument ct (ap_entries p) env d"
proof -
  have "op_args_payload (bind_op names op) = Some (bind_args_payload names p)" "is_dynamic (bind_op names op)"
    using assms by (simp_all add: bind_op_def is_dynamic_def)
  moreover have "args_payload_lookup_value (Some (bind_args_payload names p)) (ad_name d) i =
      map_option (bind_dynamic_value_variables names) (map_of (ap_entries p) (ad_name d))"
    using assms(2) by (simp add: lookup_map_of bind_args_payload_def map_of_bind)
  ultimately show ?thesis
    using prepared_bound [of names _ "Some env"]
    by (cases "map_of (ap_entries p) (ad_name d)"; cases "the (map_of (ap_entries p) (ad_name d))")
      (simp_all add: code_argument_def spec_argument_def materialize_argument_def variable_by_name_def Let_def)
qed

lemma each_arguments:
  "each (\<lambda>(i, d) h. bnd (g d) (\<lambda>v. Inr (store_argument (ad_name d) v h))) (enumerate n ds) h =
    bnd (fill g ds) (\<lambda>vs. Inr (foldl (\<lambda>h (d, v). store_argument (ad_name d) v h) h (zip ds vs)))"
proof (induction ds arbitrary: n h)
  case Nil
  then show ?case by simp
next
  case (Cons d ds)
  then show ?case by (cases "g d") (simp_all add: bnd_assoc)
qed

lemma coerced_hash_stores: "coerced_hash ds vs = foldl (\<lambda>h (d, v). store_argument (ad_name d) v h) [] (zip ds vs)"
  by (simp add: coerced_hash_def store_argument_def)


text \<open>
  The lane for resolvers of one argument agrees with the general one: its value is the entry of
  the hash the general lane builds, or undefined where the hash has none.
\<close>

theorem one_argument_agrees:
  assumes "so_arg_defs (effective_slot runtime slot) = [d]"
  shows "specialize_one_arg_sv ct runtime slot op variables slots =
    bnd (specialize_arg_payload_sv ct runtime slot op variables slots) (\<lambda>r.
    Inr (case r of Some (HV h) \<Rightarrow> ok_or_undef (hv_fetch h (ad_name d)) | _ \<Rightarrow> Undef))"
proof -
  have "specialize_arg_payload_sv ct runtime slot op variables slots =
      bnd (code_argument ct op variables slots 0 d) (\<lambda>v. Inr (map_option (\<lambda>x. HV [(ad_name d, x)]) v))"
    by (cases "code_argument ct op variables slots 0 d"; cases "projr (code_argument ct op variables slots 0 d)")
      (simp_all add: specialize_arg_payload_sv_def assms specialize_arg_code store_argument_def hv_store_def)
  then show ?thesis
    by (cases "code_argument ct op variables slots 0 d"; cases "projr (code_argument ct op variables slots 0 d)")
      (simp_all add: specialize_one_code [OF assms] ok_or_undef_def hv_fetch_def)
qed

section \<open>A sample request\<close>

text \<open>\<^verbatim>\<open>query ($v: Boolean) { name(flag: $v) }\<close>, the argument \<open>flag\<close> with the default true.\<close>

definition sample_coercer :: coercer where
  "sample_coercer =
     \<lparr>ct_hash = (\<lambda>type. None),
      ct_graphql_to_perl = (\<lambda>type value. if SvOK value then Inr [IV (of_bool (SvTRUE value))]
        else Inl (Plain_Exception False ''No value.'')),
      ct_is_nonnull = (\<lambda>type. False), ct_to_string = (\<lambda>type. Inr []), ct_lookup_type = (\<lambda>typedef types. Inr [])\<rparr>"

definition flag_argument :: native_arg_def where
  "flag_argument =
     \<lparr>ad_name = ''flag'', ad_type_def = None, ad_input_type = Some (PV False ''Boolean!''), ad_has_default = True,
      ad_nonnull_state = 0, ad_default_sv = Some (IV 1), ad_default_native = Some (N_SCALAR (S_IV 1))\<rparr>"

definition flag_slot :: native_slot where
  "flag_slot = sample_slot\<lparr>so_arg_defs := [flag_argument], so_has_args := True\<rparr>"

definition flag_op :: native_op where
  "flag_op = sample_op\<lparr>op_args_mode_code := GQL_VM_ARGS_DYNAMIC, op_has_args := True,
     op_args_payload := Some (args_payload_of [(''flag'', D_VARIABLE ''v'' (- 1))])\<rparr>"

lemmas sample_request_defs = sample_coercer_def flag_argument_def flag_slot_def flag_op_def

lemma flag_op_args:
  "op_args_payload flag_op = Some (args_payload_of [(''flag'', D_VARIABLE ''v'' (- 1))])"
  "is_dynamic flag_op"
  "so_arg_defs (effective_slot None flag_slot) = [flag_argument]"
  by (simp_all add: sample_request_defs is_dynamic_def effective_slot_def)

lemma sample_prepared:
  "prepare_program_variables_into_slots_sv sample_coercer Undef sample_program (Some [(''v'', IV 0)])
      (replicate (length (pg_variable_defs sample_program)) None) False =
    Inr (Prepared_Hash [(''v'', IV 0)], [Some (IV 0)], sample_program)"
  by (simp add: prepare_program_variables_into_slots_sv_def sample_program_def sample_coercer_def
      prepare_variable_def finalize_native_arg_def_def finalize_input_type_def finalize_default_def
      variable_by_name_def hv_fetch_def coerce_input_value_sv_def defined_sv_def coerced_hash_def
      extra_variables_def hv_store_def hv_exists_def)

theorem prepared_slots_agree_witness:
  "[Some (IV 0)] = slots_of (map ad_name (pg_variable_defs sample_program)) (Some [(''v'', IV 0)])"
  using prepared_slots_agree [OF sample_prepared] by (simp add: sample_program_def)


theorem one_argument_agrees_witness:
  "specialize_one_arg_sv sample_coercer None flag_slot flag_op (Some [(''v'', IV 0)]) [] =
    bnd (specialize_arg_payload_sv sample_coercer None flag_slot flag_op (Some [(''v'', IV 0)]) []) (\<lambda>r.
    Inr (case r of Some (HV h) \<Rightarrow> ok_or_undef (hv_fetch h ''flag'') | _ \<Rightarrow> Undef))"
proof -
  have name: "ad_name flag_argument = ''flag''" by (simp add: flag_argument_def)
  from one_argument_agrees [OF flag_op_args(3), of sample_coercer flag_op "Some [(''v'', IV 0)]" "[]"]
  show ?thesis unfolding name .
qed

end
