(* ===== verification/VM_Specialization.thy ===== *)
theory VM_Specialization
  imports VM_Arguments_Lemmas
begin

text \<open>
  Specialized programs: what the native arguments stand for, where they differ from the arguments
  of the general lane, and which operations are left.
\<close>

section \<open>Plain data\<close>

text \<open>Values without references or booleans survive the native form.\<close>

fun constant_sv :: "sv \<Rightarrow> bool" where
  "constant_sv Undef = True"
| "constant_sv (IV i) = iv_range i"
| "constant_sv (NV t) = True"
| "constant_sv (PV u t) = True"
| "constant_sv (AV xs) = (\<forall>x \<in> set xs. constant_sv x)"
| "constant_sv (HV h) = (distinct (map fst h) \<and> (\<forall>(k, v) \<in> set h. constant_sv v))"
| "constant_sv v = False"

lemma constant_dynamic:
  "constant_sv v \<Longrightarrow> dynamic_value_materialize_sv (dynamic_value_from_sv v) e = v"
proof (induction v rule: constant_sv.induct)
  case (5 xs)
  then show ?case by (auto intro: map_idI)
next
  case (6 h)
  then have "map (\<lambda>(k, v). (k, dynamic_value_materialize_sv (dynamic_value_from_sv v) e)) h = h"
    by (intro pairs_id) auto
  with 6 show ?case by (simp add: hv_of_distinct del: map_eq_conv)
qed (auto simp: dynamic_scalar_from_sv_def native_scalar_sv_def)

text \<open>A default is kept as a native tree, which may hold a fallback scalar.\<close>

fun constant_native :: "native_value \<Rightarrow> bool" where
  "constant_native (N_SCALAR (S_FALLBACK_SV v)) = constant_sv v"
| "constant_native (N_SCALAR s) = True"
| "constant_native (N_LIST items) = (\<forall>v \<in> set items. constant_native v)"
| "constant_native (N_OBJECT entries) = (\<forall>(k, v) \<in> set entries. constant_native v)"

lemma constant_default:
  "constant_native n \<Longrightarrow>
    dynamic_value_materialize_sv (dynamic_value_from_native_value n) e = native_value_materialize_sv n"
proof (induction n rule: dynamic_value_from_native_value.induct)
  case (1 entries)
  then have "map (\<lambda>(k, v). (k, dynamic_value_materialize_sv (dynamic_value_from_native_value v) e)) entries =
      map (\<lambda>(k, v). (k, native_value_materialize_sv v)) entries"
    by (intro pairs_cong) auto
  then show ?case by (simp del: map_eq_conv)
next
  case (3 s)
  then show ?case by (cases s) (auto simp: native_scalar_sv_def constant_dynamic)
qed auto

section \<open>Native arguments\<close>

text \<open>
  \<open>plain_arguments\<close>: coercing an argument gives plain data, defaults and the variables of the
  request are plain data. \<open>variables_given\<close>: an argument that is a variable has a value.
\<close>

definition plain_arguments :: "coercer \<Rightarrow> hv \<Rightarrow> native_arg_def list \<Rightarrow> bool" where
  "plain_arguments ct env defs \<longleftrightarrow>
     (\<forall>d \<in> set defs.
        (\<forall>raw v. coerce_input_value_sv ct (ad_input_type d) (Some raw) = Inr v \<longrightarrow> constant_sv v) \<and>
        pred_option constant_native (ad_default_native d)) \<and>
     (\<forall>(k, v) \<in> set env. constant_sv v)"

definition variables_given :: "native_op \<Rightarrow> hv \<Rightarrow> native_arg_def list \<Rightarrow> bool" where
  "variables_given op env defs \<longleftrightarrow>
     (\<forall>d \<in> set defs. \<forall>i name j.
        args_payload_lookup_value (op_args_payload op) (ad_name d) i = Some (D_VARIABLE name j) \<longrightarrow>
          defined_sv (hv_fetch env name) \<noteq> None)"

definition entries_stand_for :: "(string \<times> dynamic_value) list \<Rightarrow> hv \<Rightarrow> bool" where
  "entries_stand_for entries h \<longleftrightarrow>
     hv_of (map (\<lambda>(k, v). (k, dynamic_value_materialize_sv v None)) entries) = h \<and> (entries = [] \<longleftrightarrow> h = [])"

lemma hv_of_snoc: "hv_of (xs @ [(k, v)]) = hv_store (hv_of xs) k v"
  by (simp add: hv_of_def)

lemma hv_store_not_Nil [simp]: "hv_store h k v \<noteq> []"
  by (cases h) (auto simp: hv_store_def)

lemma entries_push:
  "entries_stand_for entries h \<Longrightarrow> dynamic_value_materialize_sv e None = v \<Longrightarrow>
    entries_stand_for (entries @ [(k, e)]) (hv_store h k v)"
  by (simp add: entries_stand_for_def hv_of_snoc)

lemma rel_sum_bnd:
  "rel_sum (=) R m m' \<Longrightarrow> (\<And>x y. R x y \<Longrightarrow> rel_sum (=) S (f x) (g y)) \<Longrightarrow> rel_sum (=) S (bnd m f) (bnd m' g)"
  by (cases m; cases m') auto

lemma each_rel:
  assumes "R s t" "\<And>x s t. x \<in> set xs \<Longrightarrow> R s t \<Longrightarrow> rel_sum (=) R (f x s) (g x t)"
  shows "rel_sum (=) R (each f xs s) (each g xs t)"
  using assms
proof (induction xs arbitrary: s t)
  case Nil
  then show ?case by simp
next
  case (Cons x xs)
  then show ?case by (auto intro!: rel_sum_bnd [where R = R])
qed

lemma prepared_by_name: "prepared_value j name (Some env) [] = hv_fetch env name"
  by (auto simp: prepared_value_def variable_by_name_def)

lemma native_arg_step:
  assumes "plain_arguments ct env defs" "variables_given op env defs" "d \<in> set defs"
    and "entries_stand_for entries h"
  shows "rel_sum (=) entries_stand_for (specialize_arg_native ct op (Some env) (i, d) entries)
    (specialize_arg ct op (Some env) [] (i, d) h)"
proof -
  let ?look = "args_payload_lookup_value (op_args_payload op) (ad_name d) (int i)"
  have coerced: "rel_sum (=) entries_stand_for
      (bnd (coerce_input_value_sv ct (ad_input_type d) (Some raw))
        (\<lambda>v. Inr (entries @ [(ad_name d, dynamic_value_from_sv v)])))
      (bnd (coerce_input_value_sv ct (ad_input_type d) (Some raw)) (\<lambda>v. Inr (hv_store h (ad_name d) v)))" for raw
    using assms(1,3,4)
    by (cases "coerce_input_value_sv ct (ad_input_type d) (Some raw)")
      (auto simp: plain_arguments_def constant_dynamic intro!: entries_push)
  show ?thesis
  proof (cases ?look)
    case None
    show ?thesis
    proof (cases "ad_has_default d \<and> ad_default_native d \<noteq> None")
      case True
      then obtain n where "ad_has_default d" "ad_default_native d = Some n" by blast
      moreover from this assms(1,3) have "constant_native n" by (auto simp: plain_arguments_def)
      ultimately show ?thesis
        using None assms(4) by (simp add: specialize_arg_native_def specialize_arg_def entries_push constant_default)
    next
      case False
      with None coerced assms(4) show ?thesis
        by (cases "ad_has_default d"; cases "ad_default_sv d"; cases "ad_default_native d")
          (simp_all add: specialize_arg_native_def specialize_arg_def)
    qed
  next
    case (Some v)
    show ?thesis
    proof (cases "is_dynamic op \<and> (\<exists>name j. v = D_VARIABLE name j)")
      case True
      then obtain name j where v: "v = D_VARIABLE name j" by blast
      have "defined_sv (hv_fetch env name) \<noteq> None"
        using assms(2,3) Some v unfolding variables_given_def by blast
      then obtain x where x: "hv_fetch env name = Some x" "SvOK x" by (auto simp: defined_sv_def split: option.splits if_splits)
      then have "constant_sv x" using assms(1) by (auto simp: plain_arguments_def dest: hv_fetch_in_set)
      with Some v True x assms(4) show ?thesis
        by (simp add: specialize_arg_native_def specialize_arg_def prepared_by_name variable_by_name_def defined_sv_def
            entries_push constant_dynamic)
    next
      case False
      with Some coerced show ?thesis
        by (cases v; cases "is_dynamic op") (simp_all add: specialize_arg_native_def specialize_arg_def)
    qed
  qed
qed


text \<open>
  C34. Where a variable is left out, the two lanes differ: the general lane gives the resolver the
  default of the argument, the specialized program coerces an undefined value in its place, so the
  argument is null, or an error for a type that is not nullable.
\<close>

theorem omitted_variable_default_lost:
  assumes "so_arg_defs (effective_slot runtime slot) = [d]"
    and "op_args_payload op = Some (args_payload_of [(ad_name d, D_VARIABLE name j)])" "is_dynamic op"
    and "hv_fetch env name = None" "ad_has_default d" "ad_default_native d = Some n"
  shows "specialize_arg_payload_sv ct runtime slot op (Some env) [] =
      Inr (Some (HV [(ad_name d, native_value_materialize_sv n)]))
    \<and> specialize_arg_payload_native ct runtime slot op (Some env) =
      bnd (coerce_input_value_sv ct (ad_input_type d) (Some Undef)) (\<lambda>v.
      Inr (Some (args_payload_of [(ad_name d, dynamic_value_from_sv v)])))"
proof -
  have look: "args_payload_lookup_value (op_args_payload op) (ad_name d) (int 0) = Some (D_VARIABLE name j)"
    by (simp add: assms(2) args_payload_lookup_value_def args_payload_of_def)
  show ?thesis
    using assms(1,3-6) look
    by (simp add: specialize_arg_payload_sv_def specialize_arg_payload_native_def specialize_arg_def
        specialize_arg_native_def prepared_by_name variable_by_name_def materialize_argument_def ok_or_undef_def
        hv_store_def bnd_assoc)
qed

section \<open>Specialized operations\<close>

text \<open>
  The operations that stay: those with no guard on variables, or whose guards pass. What is left
  has no such guard and no argument that depends on a variable.
\<close>

definition op_kept :: "hv option \<Rightarrow> native_op \<Rightarrow> bool" where
  "op_kept variables op \<longleftrightarrow>
     (op_has_directives op \<and> op_directives_mode_code op = GQL_VM_ARGS_DYNAMIC \<longrightarrow>
       evaluate_runtime_guards_native (op_directives_payload op) variables [])"

definition op_settled :: "native_slot list \<Rightarrow> native_op \<Rightarrow> bool" where
  "op_settled slots op \<longleftrightarrow>
     \<not> (op_has_directives op \<and> op_directives_mode_code op = GQL_VM_ARGS_DYNAMIC) \<and>
     (case at_index slots (op_slot_index op) of
        Some slot \<Rightarrow> so_arg_defs slot \<noteq> [] \<or> op_has_args op \<longrightarrow> op_static op
      | None \<Rightarrow> True)"

definition op_identity :: "native_op \<Rightarrow> int \<times> int \<times> int \<times> (string \<times> int) list" where
  "op_identity op = (op_opcode_code op, op_slot_index op, op_child_block_index op, op_abstract_children op)"

lemma with_args_static: "op_static (with_args payload op)"
  by (cases payload) (simp_all add: with_args_def op_static_def)

lemma with_args_fields [simp]:
  "op_identity (with_args payload op) = op_identity op"
  "op_slot_index (with_args payload op) = op_slot_index op"
  "op_has_directives (with_args payload op) = op_has_directives op"
  "op_directives_mode_code (with_args payload op) = op_directives_mode_code op"
  by (cases payload; simp add: with_args_def op_identity_def)+

lemma without_guards_fields [simp]:
  "op_identity (without_guards op) = op_identity op" "op_slot_index (without_guards op) = op_slot_index op"
  "\<not> op_has_directives (without_guards op)" "op_has_args (without_guards op) = op_has_args op"
  by (simp_all add: without_guards_def op_identity_def)

lemma specialize_op_result:
  assumes "specialize_op ct runtime variables slots op kept = Inr kept'"
  shows "if op_kept variables op
    then \<exists>op'. kept' = kept @ [op'] \<and> op_identity op' = op_identity op \<and> op_settled slots op'
    else kept' = kept"
proof -
  let ?guarded = "op_has_directives op \<and> op_directives_mode_code op = GQL_VM_ARGS_DYNAMIC"
  let ?op = "if ?guarded then without_guards op else op"
  have op: "op_identity ?op = op_identity op" "op_slot_index ?op = op_slot_index op" "op_has_args ?op = op_has_args op"
    "\<not> (op_has_directives ?op \<and> op_directives_mode_code ?op = GQL_VM_ARGS_DYNAMIC)"
    by auto
  show ?thesis
  proof (cases "op_kept variables op")
    case True
    then have step: "(case at_index slots (op_slot_index ?op) of
        Some slot \<Rightarrow>
          if so_arg_defs slot \<noteq> [] \<or> op_has_args ?op then
            bnd (specialize_arg_payload_native ct runtime slot ?op variables) (\<lambda>payload. Inr (kept @ [with_args payload ?op]))
          else Inr (kept @ [?op])
      | None \<Rightarrow> Inr (kept @ [?op])) = Inr kept'"
      using assms by (auto simp: specialize_op_def op_kept_def Let_def)
    show ?thesis
    proof (cases "at_index slots (op_slot_index ?op)")
      case None
      with step op True show ?thesis by (auto simp: op_settled_def)
    next
      case (Some slot)
      show ?thesis
      proof (cases "so_arg_defs slot \<noteq> [] \<or> op_has_args ?op")
        case args: True
        with step Some obtain payload where "kept' = kept @ [with_args payload ?op]" by (auto simp: bnd_eq_Inr)
        with op True show ?thesis
          by (auto simp: op_settled_def with_args_static simp del: without_guards_fields split: option.split)
      next
        case False
        with step Some op True show ?thesis by (auto simp: op_settled_def)
      qed
    qed
  next
    case False
    with assms show ?thesis by (auto simp: specialize_op_def op_kept_def Let_def)
  qed
qed

lemma specialize_ops_result:
  "each (specialize_op ct runtime variables slots) ops kept = Inr kept' \<Longrightarrow>
    \<exists>new. kept' = kept @ new \<and> map op_identity new = map op_identity (filter (op_kept variables) ops)
      \<and> list_all (op_settled slots) new"
proof (induction ops arbitrary: kept)
  case Nil
  then show ?case by simp
next
  case (Cons op ops)
  then obtain mid where mid: "specialize_op ct runtime variables slots op kept = Inr mid"
      "each (specialize_op ct runtime variables slots) ops mid = Inr kept'"
    by (auto simp: bnd_eq_Inr)
  from specialize_op_result [OF mid(1)] Cons.IH [OF mid(2)] show ?case
    by (cases "op_kept variables op") auto
qed

text \<open>
  C26. Specializing a program for a request keeps, in every block and in order, exactly the operations
  whose guards on variables pass; none of them is left with such a guard or with arguments that
  depend on variables.
\<close>

theorem specialize_keeps_passing:
  assumes "specialize_native_program_in_place ct runtime p variables = Inr q"
  shows "list_all2 (\<lambda>b c. bl_slots c = bl_slots b \<and> bl_type_name c = bl_type_name b
      \<and> map op_identity (bl_ops c) = map op_identity (filter (op_kept variables) (bl_ops b))
      \<and> list_all (op_settled (bl_slots c)) (bl_ops c)) (pg_blocks p) (pg_blocks q)"
proof -
  from assms obtain blocks where "fill (specialize_block ct runtime variables) (pg_blocks p) = Inr blocks"
      "q = p\<lparr>pg_blocks := blocks\<rparr>"
    by (auto simp: specialize_native_program_in_place_def bnd_eq_Inr)
  then have "list_all2 (\<lambda>b c. specialize_block ct runtime variables b = Inr c) (pg_blocks p) (pg_blocks q)"
    by (simp add: fill_Inr_list_all2)
  then show ?thesis
  proof (rule list_all2_mono)
    fix b c
    assume "specialize_block ct runtime variables b = Inr c"
    then obtain ops where "each (specialize_op ct runtime variables (bl_slots b)) (bl_ops b) [] = Inr ops"
        "c = b\<lparr>bl_ops := ops\<rparr>"
      by (auto simp: specialize_block_def bnd_eq_Inr)
    with specialize_ops_result [OF this(1)] show "bl_slots c = bl_slots b \<and> bl_type_name c = bl_type_name b
      \<and> map op_identity (bl_ops c) = map op_identity (filter (op_kept variables) (bl_ops b))
      \<and> list_all (op_settled (bl_slots c)) (bl_ops c)"
      by auto
  qed
qed

section \<open>The sample request\<close>

lemma flag_lookup:
  "args_payload_lookup_value (op_args_payload flag_op) ''flag'' i = Some (D_VARIABLE ''v'' (- 1))"
  by (simp add: flag_op_args args_payload_lookup_value_def args_payload_of_def Let_def)


theorem omitted_variable_default_lost_witness:
  "specialize_arg_payload_sv sample_coercer None flag_slot flag_op (Some []) [] = Inr (Some (HV [(''flag'', IV 1)])) \<and>
   specialize_arg_payload_native sample_coercer None flag_slot flag_op (Some []) =
     Inl (Houtou_Error [(''message'', PV False ''No value.'')])"
proof -
  have "coerce_input_value_sv sample_coercer (Some (PV False ''Boolean!'')) (Some Undef) =
      Inl (Houtou_Error [(''message'', PV False ''No value.'')])"
    by (simp add: coerce_input_value_sv_def defined_sv_def builtin_kind_def sample_coercer_def coerce_by_perl_def
        request_error_def)
  then show ?thesis
    using omitted_variable_default_lost [OF flag_op_args(3) _ flag_op_args(2), of "''v''" "- 1" "[]" "N_SCALAR (S_IV 1)"
        sample_coercer]
    by (simp add: flag_op_args flag_argument_def hv_fetch_def native_scalar_sv_def)
qed

theorem specialize_keeps_passing_witness:
  "list_all2 (\<lambda>b c. map op_identity (bl_ops c) = map op_identity (filter (op_kept (Some [(''v'', IV 0)])) (bl_ops b)))
    (pg_blocks sample_program) [sample_block\<lparr>bl_ops := []\<rparr>]"
proof -
  have "specialize_native_program_in_place sample_coercer None sample_program (Some [(''v'', IV 0)]) =
      Inr (sample_program\<lparr>pg_blocks := [sample_block\<lparr>bl_ops := []\<rparr>]\<rparr>)"
    by (simp add: specialize_native_program_in_place_def specialize_block_def specialize_op_def sample_program_def
        sample_block_def sample_op_def evaluate_runtime_guards_native_def guard_true_def variable_by_name_def
        hv_fetch_def slot_true_def SvTRUE_def GQL_VM_GUARD_SKIP_def GQL_VM_GUARD_INCLUDE_def GQL_VM_ARGS_DYNAMIC_def Let_def)
  from specialize_keeps_passing [OF this] show ?thesis by (auto elim: list_all2_mono)
qed

end
