(* ===== verification/VM_Messages.thy ===== *)
theory VM_Messages
  imports VM_Arguments Numbers
begin

text \<open>
  The description of a rejected variable in an error message: it is short whatever the client sent,
  and cutting it never splits a UTF-8 sequence.
\<close>

section \<open>UTF-8 text\<close>

definition code_point :: "int \<Rightarrow> bool" where
  "code_point c \<longleftrightarrow> 0 \<le> c \<and> c < 0x110000"

definition utf8_text :: "int list \<Rightarrow> string" where
  "utf8_text cs = concat (map utf8_bytes cs)"

definition continues :: "char \<Rightarrow> bool" where
  "continues c \<longleftrightarrow> 128 \<le> byte_of c \<and> byte_of c < 192"

lemma utf8_text_simps [simp]: "utf8_text [] = []" "utf8_text (c # cs) = utf8_bytes c @ utf8_text cs"
  "utf8_text (cs @ ds) = utf8_text cs @ utf8_text ds"
  by (simp_all add: utf8_text_def)

lemma code_point_digits:
  assumes "code_point c"
  shows "0 \<le> c mod 64" "c mod 64 < 64" "0 \<le> c div 64 mod 64" "c div 64 mod 64 < 64"
    "0 \<le> c div 4096 mod 64" "c div 4096 mod 64 < 64"
    "0 \<le> c div 64" "0 \<le> c div 4096" "0 \<le> c div 262144"
    "c < 2048 \<Longrightarrow> c div 64 < 32" "c < 65536 \<Longrightarrow> c div 4096 < 16" "c div 262144 < 5"
  using assms by (auto simp: code_point_def pos_imp_zdiv_nonneg_iff)

lemma utf8_shape:
  assumes "code_point c"
  shows "\<exists>b bs. utf8_bytes c = b # bs \<and> \<not> continues b \<and> list_all continues bs"
  using assms code_point_digits [OF assms]
  by (simp add: utf8_bytes_def continues_def byte_of_byte_char code_point_def)

lemma utf8_bytes_nth:
  "code_point c \<Longrightarrow> n < length (utf8_bytes c) \<Longrightarrow> continues (utf8_bytes c ! n) \<longleftrightarrow> n \<noteq> 0"
  using utf8_shape [of c] by (cases n) (auto simp: list_all_length)

text \<open>A byte continues a sequence exactly where no code point starts.\<close>

lemma continues_iff:
  "list_all code_point cs \<Longrightarrow> n < length (utf8_text cs) \<Longrightarrow>
    continues (utf8_text cs ! n) \<longleftrightarrow> \<not> (\<exists>k \<le> length cs. n = length (utf8_text (take k cs)))"
proof (induction cs arbitrary: n)
  case Nil
  then show ?case by simp
next
  case (Cons c cs)
  have pos: "0 < length (utf8_bytes c)" using Cons.prems(1) utf8_shape [of c] by auto
  show ?case
  proof (cases "n < length (utf8_bytes c)")
    case True
    have "(\<exists>k \<le> length (c # cs). n = length (utf8_text (take k (c # cs)))) \<longleftrightarrow> n = 0"
    proof
      assume "\<exists>k \<le> length (c # cs). n = length (utf8_text (take k (c # cs)))"
      then obtain k where "n = length (utf8_text (take k (c # cs)))" by blast
      with True show "n = 0" by (cases k) auto
    qed (auto intro: exI [of _ 0])
    with True Cons.prems(1) show ?thesis by (simp add: nth_append utf8_bytes_nth)
  next
    case False
    define m where "m = n - length (utf8_bytes c)"
    with False have n: "n = length (utf8_bytes c) + m" by simp
    have "(\<exists>k \<le> length (c # cs). n = length (utf8_text (take k (c # cs)))) \<longleftrightarrow>
        (\<exists>k \<le> length cs. m = length (utf8_text (take k cs)))"
    proof
      assume "\<exists>k \<le> length (c # cs). n = length (utf8_text (take k (c # cs)))"
      then obtain k where "k \<le> length (c # cs)" "n = length (utf8_text (take k (c # cs)))" by blast
      with n pos show "\<exists>k \<le> length cs. m = length (utf8_text (take k cs))" by (cases k) auto
    next
      assume "\<exists>k \<le> length cs. m = length (utf8_text (take k cs))"
      then obtain k where "k \<le> length cs" "m = length (utf8_text (take k cs))" by blast
      with n show "\<exists>k \<le> length (c # cs). n = length (utf8_text (take k (c # cs)))"
        by (intro exI [of _ "Suc k"]) simp
    qed
    moreover have "m < length (utf8_text cs)" using Cons.prems(2) n by simp
    ultimately show ?thesis using Cons.IH [of m] Cons.prems(1) by (simp add: n nth_append)
  qed
qed

lemma back_off_boundary:
  "list_all code_point cs \<Longrightarrow> n < length (utf8_text cs) \<Longrightarrow>
    \<exists>k \<le> length cs. back_off (utf8_text cs) n = length (utf8_text (take k cs))"
proof (induction n)
  case 0
  then show ?case by (auto intro: exI [of _ 0])
next
  case (Suc n)
  then show ?case using continues_iff [OF Suc.prems] by (simp add: continues_def)
qed

lemma back_off_le: "back_off pv n \<le> n"
  by (induction n) (auto intro: le_SucI)

section \<open>The description\<close>

lemma desc_char_length: "length (desc_char c) \<le> 2"
  by (simp add: desc_char_def)

lemma desc_chars_length: "length (concat (map desc_char s)) \<le> 2 * length s"
proof (induction s)
  case Nil
  then show ?case by simp
next
  case (Cons c s)
  then show ?case using desc_char_length [of c] by simp
qed

definition desc_code_point :: "int \<Rightarrow> int list" where
  "desc_code_point c =
     (if c = 0x22 \<or> c = 0x5C then [0x5C, c] else if c < 32 then [0x20] else [c])"

lemma desc_high: "128 \<le> byte_of b \<Longrightarrow> desc_char b = [b]"
  by (auto simp: desc_char_def byte_of_def)

lemma byte_char_const:
  "byte_char 32 = CHR '' ''" "byte_char 34 = CHR 0x22" "byte_char 46 = CHR ''.''" "byte_char 92 = CHR 0x5C"
  by (simp_all add: byte_char_def char_of_def)

lemma byte_char_eq:
  assumes "0 \<le> c" "c < 128"
  shows "byte_char c = b \<longleftrightarrow> c = byte_of b"
proof
  assume "byte_char c = b"
  with byte_of_byte_char [of c] assms show "c = byte_of b" by simp
qed (simp add: byte_char_def byte_of_def)

lemma desc_utf8:
  assumes "code_point c"
  shows "concat (map desc_char (utf8_bytes c)) = utf8_text (desc_code_point c)"
proof (cases "c < 128")
  case True
  then have "0 \<le> c" "c < 256" using assms by (auto simp: code_point_def)
  moreover have "byte_of (CHR 0x22) = 34" "byte_of (CHR 0x5C) = 92" by (simp_all add: byte_of_def)
  ultimately show ?thesis using True
    by (auto simp: utf8_bytes_def desc_char_def desc_code_point_def byte_of_byte_char byte_char_eq
        byte_char_const)
next
  case False
  have "\<forall>b \<in> set (utf8_bytes c). 128 \<le> byte_of b"
    using assms False code_point_digits [OF assms]
    by (auto simp: utf8_bytes_def code_point_def byte_of_byte_char)
  then have "concat (map desc_char (utf8_bytes c)) = concat (map (\<lambda>b. [b]) (utf8_bytes c))"
    by (simp add: desc_high cong: map_cong)
  with False show ?thesis by (simp add: desc_code_point_def)
qed

lemma desc_text:
  "list_all code_point cs \<Longrightarrow>
    concat (map desc_char (utf8_text cs)) = utf8_text (concat (map desc_code_point cs))"
  by (induction cs) (simp_all add: desc_utf8)

lemma take_text: "take (length (utf8_text (take k cs))) (utf8_text cs) = utf8_text (take k cs)"
  by (metis append_eq_conv_conj append_take_drop_id utf8_text_simps(3))

lemma variable_description_length:
  "length (SvPV (variable_value_desc_sv (PV utf8 pv))) \<le> 133"
proof -
  have "length (concat (map desc_char (take n pv))) \<le> 2 * n" for n
    using desc_chars_length [of "take n pv"] by simp
  note this [of 64] this [of "back_off pv 64"] this [of "length pv"]
  with back_off_le [of pv 64] show ?thesis
    by (auto simp: variable_value_desc_sv_def GQL_RUNTIME_VM_VARIABLE_DESC_MAX_BYTES_def Let_def)
qed

lemma text_length_less:
  "list_all code_point cs \<Longrightarrow> length (utf8_text (take k cs)) < length (utf8_text cs) \<Longrightarrow> k < length cs"
  by (metis not_less order_less_irrefl take_all)

lemma variable_description_text:
  assumes "list_all code_point cs"
  shows "\<exists>k \<le> length cs. variable_value_desc_sv (PV True (utf8_text cs)) =
    PV True (utf8_text ([0x22] @ concat (map desc_code_point (take k cs)) @
      (if k < length cs then [0x2E, 0x2E, 0x2E] else []) @ [0x22]))"
proof (cases "64 < length (utf8_text cs)")
  case True
  then obtain k where k: "k \<le> length cs" "back_off (utf8_text cs) 64 = length (utf8_text (take k cs))"
    using back_off_boundary [OF assms True] by blast
  with back_off_le [of "utf8_text cs" 64] True have "k < length cs"
    by (intro text_length_less [OF assms]) simp
  moreover have "list_all code_point (take k cs)"
    using assms by (metis append_take_drop_id list_all_append)
  ultimately show ?thesis using k True
    by (intro exI [of _ k])
      (simp add: variable_value_desc_sv_def GQL_RUNTIME_VM_VARIABLE_DESC_MAX_BYTES_def take_text
        desc_text utf8_bytes_def byte_char_const)
next
  case False
  then show ?thesis using desc_text [OF assms]
    by (intro exI [of _ "length cs"])
      (simp add: variable_value_desc_sv_def GQL_RUNTIME_VM_VARIABLE_DESC_MAX_BYTES_def utf8_bytes_def
        byte_char_const)
qed

text \<open>
  C33. The description of a rejected string variable has at most 133 bytes, and for UTF-8 text it is
  UTF-8 text again: the quoted, escaped code points of a prefix, with dots when it was cut.
\<close>

theorem variable_description_bounded:
  assumes "list_all code_point cs"
  shows "length (SvPV (variable_value_desc_sv (PV utf8 pv))) \<le> 133 \<and>
    (\<exists>k \<le> length cs. variable_value_desc_sv (PV True (utf8_text cs)) =
      PV True (utf8_text ([0x22] @ concat (map desc_code_point (take k cs)) @
        (if k < length cs then [0x2E, 0x2E, 0x2E] else []) @ [0x22])))"
  using variable_description_length variable_description_text [OF assms] by blast

theorem variable_description_bounded_witness:
  "length (SvPV (variable_value_desc_sv (PV False ''abc''))) \<le> 133 \<and>
    (\<exists>k \<le> 40. variable_value_desc_sv (PV True (utf8_text (replicate 40 0xE9))) =
      PV True (utf8_text ([0x22] @ concat (map desc_code_point (take k (replicate 40 0xE9))) @
        (if k < 40 then [0x2E, 0x2E, 0x2E] else []) @ [0x22])))"
proof -
  have "list_all code_point (replicate 40 0xE9)" by (simp add: code_point_def list_all_length)
  from variable_description_bounded [OF this, of False "''abc''"] show ?thesis
    by (simp only: length_replicate)
qed

end
