(* ===== verification/VM_Frames.thy ===== *)
theory VM_Frames
  imports VM_Programs "HOL-Library.Monad_Syntax"
begin

text \<open>
  Path frames, error records, outcomes and the writer (\<^verbatim>\<open>src/vm_runtime.h\<close>, lines 884 to 957 and
  2304 to 3132, and the constructors of path frames in \<^verbatim>\<open>lib/GraphQL/Houtou.xs\<close>, lines 1502 to
  1555). These are shared structures with reference counts: frames point to their parents and are
  recycled through a free list, records point to frames, the writer and outcomes point to records.
  The model has an explicit store of the allocated blocks. Reading a block that is not allocated
  is \<open>None\<close>; a null pointer is \<open>None\<close> as an address. Counts are naturals: they stay below the number
  of references in memory.
\<close>

section \<open>Path frames\<close>

type_synonym addr = nat

text \<open>\<open>pf_parent\<close> of a frame on the free list is the next frame of that list.\<close>

record path_frame =
  pf_refcount :: nat
  pf_parent :: "addr option"
  pf_key_kind :: int
  pf_key_iv :: int
  pf_key_pv :: "string option"
  pf_key_pv_borrowed :: bool

record frame_store =
  fs_cells :: "addr \<Rightarrow> path_frame option"
  fs_next :: addr
  fs_pool_head :: "addr option"
  fs_pool_count :: int
  fs_live_count :: int

definition GQL_RUNTIME_VM_PATH_FRAME_POOL_MAX :: int where
  "GQL_RUNTIME_VM_PATH_FRAME_POOL_MAX = 1024"

definition empty_frames :: frame_store where
  "empty_frames =
     \<lparr>fs_cells = (\<lambda>a. None), fs_next = 0, fs_pool_head = None, fs_pool_count = 0, fs_live_count = 0\<rparr>"

definition zero_path_frame :: path_frame where
  "zero_path_frame =
     \<lparr>pf_refcount = 0, pf_parent = None, pf_key_kind = 0, pf_key_iv = 0, pf_key_pv = None,
      pf_key_pv_borrowed = False\<rparr>"

definition frame_write :: "addr \<Rightarrow> path_frame \<Rightarrow> frame_store \<Rightarrow> frame_store" where
  "frame_write a f s = s\<lparr>fs_cells := (fs_cells s)(a \<mapsto> f)\<rparr>"

definition path_frame_pool_get :: "frame_store \<Rightarrow> (addr \<times> frame_store) option" where
  "path_frame_pool_get s =
     (let s = s\<lparr>fs_live_count := fs_live_count s + 1\<rparr>
      in case fs_pool_head s of
           Some a \<Rightarrow> do {
             f \<leftarrow> fs_cells s a;
             Some (a, frame_write a zero_path_frame
               (s\<lparr>fs_pool_head := pf_parent f, fs_pool_count := fs_pool_count s - 1\<rparr>))
           }
         | None \<Rightarrow>
             Some (fs_next s, frame_write (fs_next s) zero_path_frame (s\<lparr>fs_next := fs_next s + 1\<rparr>)))"

definition path_frame_incref :: "addr \<Rightarrow> frame_store \<Rightarrow> frame_store option" where
  "path_frame_incref a s = do {
     f \<leftarrow> fs_cells s a;
     Some (frame_write a (f\<lparr>pf_refcount := pf_refcount f + 1\<rparr>) s)
   }"

definition key_fields :: "sv option \<Rightarrow> path_frame \<Rightarrow> path_frame" where
  "key_fields key f =
     (case key of
        None \<Rightarrow> f
      | Some k \<Rightarrow>
          if \<not> SvOK k then f
          else if SvIOK k \<and> \<not> SvROK k then f\<lparr>pf_key_kind := 1, pf_key_iv := signed_iv k\<rparr>
          else f\<lparr>pf_key_kind := 2, pf_key_pv := Some (SvPV k)\<rparr>)"

definition borrowed_key :: "string option \<Rightarrow> path_frame \<Rightarrow> path_frame" where
  "borrowed_key key f =
     (case key of
        None \<Rightarrow> f
      | Some pv \<Rightarrow>
          if pv = [] then f
          else f\<lparr>pf_key_kind := 2, pf_key_pv := Some pv, pf_key_pv_borrowed := True\<rparr>)"

text \<open>Both constructors: a frame of the pool, one reference, the parent with one more reference.\<close>

definition link_path_frame ::
  "addr option \<Rightarrow> (path_frame \<Rightarrow> path_frame) \<Rightarrow> frame_store \<Rightarrow> (addr \<times> frame_store) option"
where
  "link_path_frame parent set_key s = do {
     (a, s) \<leftarrow> path_frame_pool_get s;
     f \<leftarrow> fs_cells s a;
     let s = frame_write a (f\<lparr>pf_refcount := 1, pf_parent := parent\<rparr>) s;
     s \<leftarrow> (case parent of None \<Rightarrow> Some s | Some q \<Rightarrow> path_frame_incref q s);
     f \<leftarrow> fs_cells s a;
     Some (a, frame_write a (set_key f) s)
   }"

definition new_path_frame_struct :: "addr option \<Rightarrow> sv option \<Rightarrow> frame_store \<Rightarrow> (addr \<times> frame_store) option" where
  "new_path_frame_struct parent key s = link_path_frame parent (key_fields key) s"

definition new_path_frame_struct_pvn_borrowed ::
  "addr option \<Rightarrow> string option \<Rightarrow> frame_store \<Rightarrow> (addr \<times> frame_store) option"
where
  "new_path_frame_struct_pvn_borrowed parent key s = link_path_frame parent (borrowed_key key) s"

text \<open>A frame without references goes to the free list, or back to the allocator when that is full.\<close>

definition path_frame_release :: "addr \<Rightarrow> path_frame \<Rightarrow> frame_store \<Rightarrow> frame_store" where
  "path_frame_release a f s =
     (let s = s\<lparr>fs_live_count := fs_live_count s - 1\<rparr>
      in if fs_pool_count s < GQL_RUNTIME_VM_PATH_FRAME_POOL_MAX then
           frame_write a (f\<lparr>pf_parent := fs_pool_head s\<rparr>)
             (s\<lparr>fs_pool_head := Some a, fs_pool_count := fs_pool_count s + 1\<rparr>)
         else s\<lparr>fs_cells := (fs_cells s)(a := None)\<rparr>)"

partial_function (option) path_frame_decref :: "addr option \<Rightarrow> frame_store \<Rightarrow> frame_store option" where
  "path_frame_decref frame s =
     (case frame of
        None \<Rightarrow> Some s
      | Some a \<Rightarrow> do {
          f \<leftarrow> fs_cells s a;
          let f = f\<lparr>pf_refcount := (if 0 < pf_refcount f then pf_refcount f - 1 else pf_refcount f)\<rparr>;
          if pf_refcount f \<noteq> 0 then Some (frame_write a f s)
          else path_frame_decref (pf_parent f) (path_frame_release a f s)
        })"

definition path_frame_key_sv :: "path_frame \<Rightarrow> sv" where
  "path_frame_key_sv f =
     (if pf_key_kind f = 1 then IV (pf_key_iv f)
      else case pf_key_pv f of Some pv \<Rightarrow> PV False pv | None \<Rightarrow> Undef)"

partial_function (option) path_segments :: "frame_store \<Rightarrow> addr option \<Rightarrow> sv list option" where
  "path_segments s cursor =
     (case cursor of
        None \<Rightarrow> Some []
      | Some a \<Rightarrow> do {
          f \<leftarrow> fs_cells s a;
          segments \<leftarrow> path_segments s (pf_parent f);
          Some (path_frame_key_sv f # segments)
        })"

definition path_frame_to_path_sv :: "frame_store \<Rightarrow> addr option \<Rightarrow> sv option" where
  "path_frame_to_path_sv s path_frame = map_option (\<lambda>segments. AV (rev segments)) (path_segments s path_frame)"

section \<open>Error records\<close>

text \<open>\<open>er_message\<close>: the bytes of the message and its UTF-8 flag.\<close>

record error_record =
  er_refcount :: nat
  er_message :: "(string \<times> bool) option"
  er_path_frame :: "addr option"

record error_store =
  es_frames :: frame_store
  es_records :: "addr \<Rightarrow> error_record option"
  es_next :: addr

definition empty_errors :: error_store where
  "empty_errors = \<lparr>es_frames = empty_frames, es_records = (\<lambda>r. None), es_next = 0\<rparr>"

definition record_write :: "addr \<Rightarrow> error_record \<Rightarrow> error_store \<Rightarrow> error_store" where
  "record_write r e s = s\<lparr>es_records := (es_records s)(r \<mapsto> e)\<rparr>"

definition new_error_record_struct_for_path ::
  "sv option \<Rightarrow> addr option \<Rightarrow> error_store \<Rightarrow> (addr \<times> error_store) option"
where
  "new_error_record_struct_for_path message path_frame s = do {
     frames \<leftarrow> (case path_frame of None \<Rightarrow> Some (es_frames s) | Some a \<Rightarrow> path_frame_incref a (es_frames s));
     Some (es_next s,
       record_write (es_next s)
         \<lparr>er_refcount = 1,
          er_message = (case defined_sv message of Some m \<Rightarrow> Some (SvPV m, SvUTF8 m) | None \<Rightarrow> None),
          er_path_frame = path_frame\<rparr>
         (s\<lparr>es_next := es_next s + 1, es_frames := frames\<rparr>))
   }"

definition error_record_incref :: "addr \<Rightarrow> error_store \<Rightarrow> error_store option" where
  "error_record_incref r s = do {
     e \<leftarrow> es_records s r;
     Some (record_write r (e\<lparr>er_refcount := er_refcount e + 1\<rparr>) s)
   }"

definition error_record_decref :: "addr \<Rightarrow> error_store \<Rightarrow> error_store option" where
  "error_record_decref r s = do {
     e \<leftarrow> es_records s r;
     if 1 < er_refcount e then Some (record_write r (e\<lparr>er_refcount := er_refcount e - 1\<rparr>) s)
     else do {
       frames \<leftarrow> path_frame_decref (er_path_frame e) (es_frames s);
       Some (s\<lparr>es_frames := frames, es_records := (es_records s)(r := None)\<rparr>)
     }
   }"

text \<open>The message goes through \<^verbatim>\<open>newSVpv\<close> with length 0: it ends at the first NUL.\<close>

definition error_message_sv :: "(string \<times> bool) option \<Rightarrow> sv" where
  "error_message_sv message = (case message of Some (pv, utf8) \<Rightarrow> PV utf8 (c_string pv) | None \<Rightarrow> Undef)"

definition store_path :: "sv \<Rightarrow> hv \<Rightarrow> hv" where
  "store_path path h = (case path of AV segments \<Rightarrow> if segments \<noteq> [] then hv_store h ''path'' path else h | _ \<Rightarrow> h)"

definition error_record_to_error_sv :: "error_store \<Rightarrow> addr option \<Rightarrow> sv option" where
  "error_record_to_error_sv s record =
     (case record of
        None \<Rightarrow> Some (HV [])
      | Some r \<Rightarrow> do {
          e \<leftarrow> es_records s r;
          let h = hv_store [] ''message'' (error_message_sv (er_message e));
          case er_path_frame e of
            None \<Rightarrow> Some (HV h)
          | Some a \<Rightarrow> do {
              path \<leftarrow> path_frame_to_path_sv (es_frames s) (Some a);
              Some (HV (store_path path h))
            }
        })"

section \<open>The writer\<close>

text \<open>The array of records has room for \<open>wr_capacity\<close> of them.\<close>

record writer =
  wr_refcount :: nat
  wr_records :: "addr list"
  wr_capacity :: nat

definition new_writer_struct :: writer where
  "new_writer_struct = \<lparr>wr_refcount = 1, wr_records = [], wr_capacity = 0\<rparr>"

definition init_writer_struct :: "writer \<Rightarrow> writer" where
  "init_writer_struct w = \<lparr>wr_refcount = 1, wr_records = [], wr_capacity = 0\<rparr>"

definition writer_push_error_record ::
  "writer \<Rightarrow> addr option \<Rightarrow> error_store \<Rightarrow> (writer \<times> error_store) option"
where
  "writer_push_error_record w record s =
     (case record of
        None \<Rightarrow> Some (w, s)
      | Some r \<Rightarrow> do {
          let w = (if length (wr_records w) = wr_capacity w
                   then w\<lparr>wr_capacity := (if wr_capacity w \<noteq> 0 then wr_capacity w * 2 else 4)\<rparr> else w);
          s \<leftarrow> error_record_incref r s;
          Some (w\<lparr>wr_records := wr_records w @ [r]\<rparr>, s)
        })"

fun push_records :: "writer \<Rightarrow> addr option list \<Rightarrow> error_store \<Rightarrow> (writer \<times> error_store) option" where
  "push_records w [] s = Some (w, s)"
| "push_records w (r # rs) s = do {
     (w, s) \<leftarrow> writer_push_error_record w r s;
     push_records w rs s
   }"

fun release_records :: "addr list \<Rightarrow> error_store \<Rightarrow> error_store option" where
  "release_records [] s = Some s"
| "release_records (r # rs) s = do {
     s \<leftarrow> error_record_decref r s;
     release_records rs s
   }"

definition clear_writer_struct :: "writer \<Rightarrow> error_store \<Rightarrow> (writer \<times> error_store) option" where
  "clear_writer_struct w s = do {
     s \<leftarrow> release_records (rev (wr_records w)) s;
     Some (\<lparr>wr_refcount = 0, wr_records = [], wr_capacity = 0\<rparr>, s)
   }"

fun error_svs :: "error_store \<Rightarrow> addr list \<Rightarrow> sv list option" where
  "error_svs s [] = Some []"
| "error_svs s (r # rs) = do {
     e \<leftarrow> error_record_to_error_sv s (Some r);
     es \<leftarrow> error_svs s rs;
     Some (e # es)
   }"

text \<open>The outer \<open>None\<close> is a read of a freed block, the inner one the null pointer for no errors.\<close>

definition writer_materialize_errors_sv :: "writer \<Rightarrow> error_store \<Rightarrow> sv option option" where
  "writer_materialize_errors_sv w s =
     (if wr_records w = [] then Some None
      else do {
        es \<leftarrow> error_svs s (wr_records w);
        Some (Some (AV es))
      })"

section \<open>Outcomes\<close>

definition GQL_VM_KIND_SCALAR :: int where "GQL_VM_KIND_SCALAR = 1"
definition GQL_VM_KIND_OBJECT :: int where "GQL_VM_KIND_OBJECT = 2"
definition GQL_VM_KIND_LIST :: int where "GQL_VM_KIND_LIST = 3"

record outcome =
  oc_refcount :: nat
  oc_kind_code :: int
  oc_value :: "native_value option"
  oc_error_records :: "addr option list"
  oc_null_carries_error :: bool

text \<open>A blessed value is \<open>PBool\<close> or \<open>CV\<close> here, a plain hash or array \<open>HV\<close> or \<open>AV\<close>.\<close>

definition native_value_from_completed_sv :: "sv \<Rightarrow> native_value" where
  "native_value_from_completed_sv v =
     (case v of
        HV h \<Rightarrow> native_value_from_sv v
      | AV xs \<Rightarrow> native_value_from_sv v
      | _ \<Rightarrow> new_native_value_scalar v)"

definition outcome_value :: "int \<Rightarrow> sv option \<Rightarrow> native_value" where
  "outcome_value kind_code value =
     (let v = ok_or_undef value
      in if kind_code = GQL_VM_KIND_OBJECT then
           (case v of
              HV h \<Rightarrow>
                foldl (\<lambda>o' (k, x). native_object_store o' k (native_value_from_completed_sv x)) new_native_value_object h
            | _ \<Rightarrow> new_native_value_scalar v)
         else if kind_code = GQL_VM_KIND_LIST then
           (case v of
              AV xs \<Rightarrow> foldl (\<lambda>l x. native_list_push l (native_value_from_completed_sv x)) new_native_value_list xs
            | _ \<Rightarrow> new_native_value_scalar v)
         else new_native_value_scalar v)"

fun incref_records :: "addr option list \<Rightarrow> error_store \<Rightarrow> error_store option" where
  "incref_records [] s = Some s"
| "incref_records (None # rs) s = incref_records rs s"
| "incref_records (Some r # rs) s = do {
     s \<leftarrow> error_record_incref r s;
     incref_records rs s
   }"

text \<open>The handles in the array of records are addresses; an undefined entry is \<open>None\<close>.\<close>

definition new_outcome_struct ::
  "int \<Rightarrow> sv option \<Rightarrow> addr option list option \<Rightarrow> error_store \<Rightarrow> (outcome \<times> error_store) option"
where
  "new_outcome_struct kind_code value error_records s = do {
     let records = (case error_records of Some rs \<Rightarrow> rs | None \<Rightarrow> []);
     s \<leftarrow> incref_records records s;
     Some (\<lparr>oc_refcount = 1, oc_kind_code = kind_code, oc_value = Some (outcome_value kind_code value),
            oc_error_records = records, oc_null_carries_error = False\<rparr>, s)
   }"

definition outcome_incref :: "outcome \<Rightarrow> outcome" where
  "outcome_incref o' = o'\<lparr>oc_refcount := oc_refcount o' + 1\<rparr>"

text \<open>\<open>None\<close> as an outcome: it is gone.\<close>

definition outcome_decref :: "outcome \<Rightarrow> error_store \<Rightarrow> (outcome option \<times> error_store) option" where
  "outcome_decref o' s =
     (if 1 < oc_refcount o' then Some (Some (o'\<lparr>oc_refcount := oc_refcount o' - 1\<rparr>), s)
      else do {
        s \<leftarrow> release_records (List.map_filter id (oc_error_records o')) s;
        Some (None, s)
      })"

definition outcome_kind_sv :: "outcome option \<Rightarrow> sv" where
  "outcome_kind_sv o' =
     PV False
       (case o' of
          None \<Rightarrow> []
        | Some x \<Rightarrow>
            if oc_kind_code x = GQL_VM_KIND_SCALAR then ''SCALAR''
            else if oc_kind_code x = GQL_VM_KIND_OBJECT then ''OBJECT''
            else if oc_kind_code x = GQL_VM_KIND_LIST then ''LIST''
            else [])"

text \<open>An outcome without errors touches the writer in no way; a missing writer loses them.\<close>

definition consume_errors ::
  "outcome \<Rightarrow> writer option \<Rightarrow> error_store \<Rightarrow> (writer option \<times> error_store) option"
where
  "consume_errors o' w s =
     (case w of
        None \<Rightarrow> Some (None, s)
      | Some w \<Rightarrow> do {
          (w, s) \<leftarrow> push_records w (oc_error_records o') s;
          Some (Some w, s)
        })"

definition consume_outcome_struct ::
  "hv \<Rightarrow> string \<Rightarrow> outcome \<Rightarrow> writer option \<Rightarrow> error_store \<Rightarrow> (hv \<times> writer option \<times> error_store) option"
where
  "consume_outcome_struct data result_name o' w s = do {
     let data = hv_store data result_name
       (case oc_value o' of Some v \<Rightarrow> native_value_materialize_sv v | None \<Rightarrow> Undef);
     (w, s) \<leftarrow> consume_errors o' w s;
     Some (data, w, s)
   }"

definition consume_outcome_native_object ::
  "native_value \<Rightarrow> string \<Rightarrow> outcome \<Rightarrow> writer option \<Rightarrow> error_store \<Rightarrow>
    (native_value \<times> outcome \<times> writer option \<times> error_store) option"
where
  "consume_outcome_native_object data result_name o' w s =
     (case data of
        N_OBJECT entries \<Rightarrow> do {
          let (data, o') =
            (case (oc_refcount o' = 1, oc_value o') of
               (True, Some v) \<Rightarrow> (native_object_store data result_name v, o'\<lparr>oc_value := None\<rparr>)
             | (_, Some v) \<Rightarrow> (native_object_store data result_name (native_value_clone v), o')
             | (_, None) \<Rightarrow> (native_object_store data result_name (new_native_value_scalar Undef), o'));
          (w, s) \<leftarrow> consume_errors o' w s;
          Some (data, o', w, s)
        }
      | _ \<Rightarrow> Some (data, o', w, s))"

definition consume_value_native_object :: "native_value \<Rightarrow> string \<Rightarrow> sv option \<Rightarrow> native_value" where
  "consume_value_native_object data result_name value =
     (case data of
        N_OBJECT entries \<Rightarrow> native_object_store data result_name (native_value_from_sv (ok_or_undef value))
      | _ \<Rightarrow> data)"

end
