(* ===== verification/VM_Frames_Lemmas.thy ===== *)
theory VM_Frames_Lemmas
  imports VM_Frames "HOL-Library.Multiset"
begin

text \<open>
  The store of path frames: a frame is kept exactly as long as something refers to it, its path does
  not change while a reference is held, and nothing is left when the last reference is given up.
\<close>

section \<open>Chains of frames\<close>

primrec chain :: "(addr \<Rightarrow> path_frame option) \<Rightarrow> addr option \<Rightarrow> addr list \<Rightarrow> bool" where
  "chain c p [] \<longleftrightarrow> p = None"
| "chain c p (a # as) \<longleftrightarrow> p = Some a \<and> (\<exists>f. c a = Some f \<and> chain c (pf_parent f) as)"

lemma chain_None [simp]: "chain c None as \<longleftrightarrow> as = []"
  by (cases as) simp_all

lemma chain_Some: "chain c (Some a) as \<longleftrightarrow> (\<exists>f bs. as = a # bs \<and> c a = Some f \<and> chain c (pf_parent f) bs)"
  by (cases as) auto

lemma chain_unique: "chain c p as \<Longrightarrow> chain c p bs \<Longrightarrow> as = bs"
proof (induction as arbitrary: p bs)
  case Nil
  then show ?case by (cases bs) auto
next
  case (Cons a as)
  then show ?case by (cases bs) auto
qed

lemma chain_suffix: "chain c p (as @ b # bs) \<Longrightarrow> chain c (Some b) (b # bs)"
  by (induction as arbitrary: p) auto

lemma chain_distinct: "chain c p as \<Longrightarrow> distinct as"
proof (induction as arbitrary: p)
  case Nil
  then show ?case by simp
next
  case (Cons a as)
  have "a \<notin> set as"
  proof
    assume "a \<in> set as"
    then obtain xs ys where as: "as = xs @ a # ys" by (auto simp: in_set_conv_decomp)
    from Cons.prems obtain f where f: "c a = Some f" "chain c (pf_parent f) as" by auto
    with as have "chain c (Some a) (a # ys)" using chain_suffix [of c "pf_parent f" xs a ys] by simp
    moreover from f have "chain c (Some a) (a # as)" by simp
    ultimately have "ys = as" using chain_unique by blast
    with as show False by simp
  qed
  with Cons show ?case by auto
qed

lemma chain_cong:
  "\<forall>a \<in> set as. map_option pf_parent (c a) = map_option pf_parent (c' a) \<Longrightarrow> chain c p as \<longleftrightarrow> chain c' p as"
proof (induction as arbitrary: p)
  case Nil
  then show ?case by simp
next
  case (Cons a as)
  then show ?case by (cases "c a"; cases "c' a") auto
qed

lemma chain_update: "a \<notin> set as \<Longrightarrow> chain (c(a := v)) p as \<longleftrightarrow> chain c p as"
  by (rule chain_cong) auto

section \<open>Counts\<close>

text \<open>\<open>R\<close> is the bag of references held outside the frames, \<open>L\<close> the set of live frames.\<close>

definition children :: "(addr \<Rightarrow> path_frame option) \<Rightarrow> addr set \<Rightarrow> addr \<Rightarrow> nat" where
  "children c L a = card {b \<in> L. map_option pf_parent (c b) = Some (Some a)}"

definition cells_ok :: "(addr \<Rightarrow> path_frame option) \<Rightarrow> addr set \<Rightarrow> addr multiset \<Rightarrow> bool" where
  "cells_ok c L R \<longleftrightarrow> finite L \<and> set_mset R \<subseteq> L \<and>
     (\<forall>a \<in> L. \<exists>as. chain c (Some a) as \<and> set as \<subseteq> L) \<and>
     (\<forall>a \<in> L. \<exists>f. c a = Some f \<and> pf_refcount f = count R a + children c L a \<and> 0 < pf_refcount f)"

lemma children_cong:
  "\<forall>b \<in> L. map_option pf_parent (c b) = map_option pf_parent (c' b) \<Longrightarrow> children c L a = children c' L a"
  unfolding children_def by (rule arg_cong [of _ _ card], rule Collect_cong, rule conj_cong) simp_all

lemma cells_ok_cong: "\<forall>a \<in> L. c a = c' a \<Longrightarrow> cells_ok c L R \<Longrightarrow> cells_ok c' L R"
  unfolding cells_ok_def using children_cong [of L c c'] chain_cong [of _ c c'] by (metis subsetD)

lemma cells_okE:
  assumes "cells_ok c L R" "a \<in> L"
  obtains f as where "c a = Some f" "pf_refcount f = count R a + children c L a" "0 < pf_refcount f"
    "chain c (pf_parent f) as" "set as \<subseteq> L" "a \<notin> set as"
proof -
  from assms obtain f bs where f: "c a = Some f" "pf_refcount f = count R a + children c L a" "0 < pf_refcount f"
      and bs: "chain c (Some a) bs" "set bs \<subseteq> L"
    unfolding cells_ok_def by blast
  from bs f obtain as where "bs = a # as" "chain c (pf_parent f) as" by (auto simp: chain_Some)
  with f bs chain_distinct [OF bs(1)] that show thesis by auto
qed

text \<open>Writing a count, when the bag of references changes with it.\<close>

lemma cells_ok_recount:
  assumes "cells_ok c L R" "a \<in> L" "c a = Some f" "n = count R' a + children c L a" "0 < n"
    and "\<forall>b \<in> L - {a}. count R' b = count R b" "set_mset R' \<subseteq> L"
  shows "cells_ok (c(a \<mapsto> f\<lparr>pf_refcount := n\<rparr>)) L R'"
proof -
  let ?c = "c(a \<mapsto> f\<lparr>pf_refcount := n\<rparr>)"
  have parents: "map_option pf_parent (?c b) = map_option pf_parent (c b)" for b using assms(3) by simp
  then have "children ?c L b = children c L b" "chain ?c p as \<longleftrightarrow> chain c p as" for b p as
    by (auto intro!: children_cong chain_cong)
  with assms show ?thesis unfolding cells_ok_def by auto
qed

lemma cells_ok_up:
  assumes "cells_ok c L R" "a \<in> L" "c a = Some f"
  shows "cells_ok (c(a \<mapsto> f\<lparr>pf_refcount := pf_refcount f + 1\<rparr>)) L (add_mset a R)"
proof -
  have "pf_refcount f = count R a + children c L a" using cells_okE [OF assms(1,2)] assms(3) by (metis option.inject)
  then show ?thesis using assms by (intro cells_ok_recount [OF assms]) (auto simp: cells_ok_def)
qed

lemma cells_ok_down:
  assumes "cells_ok c L (add_mset a R)" "c a = Some f" "1 < pf_refcount f"
  shows "cells_ok (c(a \<mapsto> f\<lparr>pf_refcount := pf_refcount f - 1\<rparr>)) L R"
proof -
  have L: "a \<in> L" using assms(1) by (auto simp: cells_ok_def)
  have "pf_refcount f = count (add_mset a R) a + children c L a"
    using cells_okE [OF assms(1) L] assms(2) by (metis option.inject)
  then show ?thesis using assms L by (intro cells_ok_recount [OF assms(1) L assms(2)]) (auto simp: cells_ok_def)
qed

text \<open>The references a frame holds itself.\<close>

definition held_by :: "path_frame \<Rightarrow> addr multiset" where
  "held_by f = (case pf_parent f of None \<Rightarrow> {#} | Some q \<Rightarrow> {#q#})"

lemma count_held_by: "count (held_by f) a = (if pf_parent f = Some a then 1 else 0)"
  by (auto simp: held_by_def split: option.split)

lemma children_insert:
  assumes "finite L" "a \<notin> L" "c a = Some f"
  shows "children c (insert a L) b = count (held_by f) b + children c L b"
proof -
  have "{x \<in> insert a L. map_option pf_parent (c x) = Some (Some b)} =
      (if pf_parent f = Some b then {a} else {}) \<union> {x \<in> L. map_option pf_parent (c x) = Some (Some b)}"
    using assms(3) by auto
  with assms(1,2) show ?thesis by (simp add: children_def count_held_by)
qed

lemma cells_ok_drop:
  assumes "cells_ok c L (add_mset a R)" "c a = Some f" "pf_refcount f = 1"
  shows "cells_ok c (L - {a}) (R + held_by f)"
proof -
  have fin: "finite L" and R: "set_mset R \<subseteq> L" and aL: "a \<in> L" using assms(1) by (auto simp: cells_ok_def)
  have "1 = count (add_mset a R) a + children c L a" using cells_okE [OF assms(1) aL] assms(2,3) by (metis option.inject)
  then have zero: "count R a = 0" "children c L a = 0" by simp_all
  then have noref: "a \<notin># R" "\<forall>b \<in> L. map_option pf_parent (c b) \<noteq> Some (Some a)"
    using fin by (auto simp: children_def count_eq_zero_iff)
  have split: "children c L b = count (held_by f) b + children c (L - {a}) b" for b
    using children_insert [of "L - {a}" a c f b] fin aL assms(2) by (simp add: insert_absorb)
  have avoid: "a \<notin> set as" if "b \<in> L - {a}" "chain c (Some b) as" "set as \<subseteq> L" for b as
  proof
    assume "a \<in> set as"
    then obtain xs ys where as: "as = xs @ a # ys" by (auto simp: in_set_conv_decomp)
    with that have "xs \<noteq> []" by (cases xs) auto
    then obtain x zs where "xs = zs @ [x]" by (cases xs rule: rev_cases) auto
    with as that(2) have "chain c (Some x) (x # a # ys)"
      using chain_suffix [of c "Some b" zs x "a # ys"] by simp
    then have "map_option pf_parent (c x) = Some (Some a)" by auto
    moreover have "x \<in> L" using that(3) as \<open>xs = zs @ [x]\<close> by auto
    ultimately show False using noref by blast
  qed
  have parent: "q \<in> L - {a}" if "pf_parent f = Some q" for q
    using cells_okE [OF assms(1) aL] assms(2) that by (metis chain_Some list.set_intros(1) option.inject subsetD Diff_iff singletonD)
  show ?thesis unfolding cells_ok_def
  proof (intro conjI ballI)
    show "finite (L - {a})" using fin by simp
    show "set_mset (R + held_by f) \<subseteq> L - {a}"
      using R noref(1) parent by (auto simp: held_by_def split: option.splits)
    fix b
    assume b: "b \<in> L - {a}"
    then obtain as where "chain c (Some b) as" "set as \<subseteq> L" using assms(1) unfolding cells_ok_def by blast
    with avoid [OF b this] show "\<exists>as. chain c (Some b) as \<and> set as \<subseteq> L - {a}" by blast
    obtain g where "c b = Some g" "pf_refcount g = count (add_mset a R) b + children c L b" "0 < pf_refcount g"
      using assms(1) b unfolding cells_ok_def by blast
    with b show "\<exists>f'. c b = Some f' \<and> pf_refcount f' = count (R + held_by f) b + children c (L - {a}) b \<and> 0 < pf_refcount f'"
      by (simp add: split)
  qed
qed

lemma cells_ok_add:
  assumes "cells_ok c L (R + held_by f)" "a \<notin> L" "pf_refcount f = 1"
  shows "cells_ok (c(a \<mapsto> f)) (insert a L) (add_mset a R)"
proof -
  let ?c = "c(a \<mapsto> f)"
  have old: "cells_ok ?c L (R + held_by f)" using assms(2) by (intro cells_ok_cong [OF _ assms(1)]) auto
  then have fin: "finite L" and R: "set_mset R \<subseteq> L" by (auto simp: cells_ok_def)
  have split: "children ?c (insert a L) b = count (held_by f) b + children ?c L b" for b
    using children_insert [OF fin assms(2), of ?c f b] by simp
  have own: "children ?c (insert a L) a = 0"
  proof -
    have "map_option pf_parent (?c b) \<noteq> Some (Some a)" if "b \<in> insert a L" for b
    proof (cases "b = a")
      case True
      have "pf_parent f = Some a \<Longrightarrow> a \<in># R + held_by f" by (simp add: held_by_def)
      with True old assms(2) show ?thesis by (auto simp: cells_ok_def)
    next
      case False
      with that have "b \<in> L" by simp
      from cells_okE [OF old this] obtain g as where g: "?c b = Some g" "chain ?c (pf_parent g) as" "set as \<subseteq> L"
        by metis
      have "pf_parent g \<noteq> Some a"
      proof
        assume "pf_parent g = Some a"
        with g(2) have "a \<in> set as" by (cases as) simp_all
        with g(3) assms(2) show False by blast
      qed
      with g(1) show ?thesis by simp
    qed
    then have "{b \<in> insert a L. map_option pf_parent (?c b) = Some (Some a)} = {}" by blast
    then show ?thesis unfolding children_def by (simp only: card.empty)
  qed
  show ?thesis unfolding cells_ok_def
  proof (intro conjI ballI)
    show "finite (insert a L)" "set_mset (add_mset a R) \<subseteq> insert a L" using fin R by auto
    fix b
    assume b: "b \<in> insert a L"
    show "\<exists>as. chain ?c (Some b) as \<and> set as \<subseteq> insert a L"
    proof (cases "b = a")
      case True
      show ?thesis
      proof (cases "pf_parent f")
        case None
        with True show ?thesis by (intro exI [of _ "[a]"]) simp
      next
        case (Some q)
        then have "q \<in> L" using old by (auto simp: cells_ok_def held_by_def)
        with old obtain as where "chain ?c (Some q) as" "set as \<subseteq> L" unfolding cells_ok_def by blast
        with True Some show ?thesis by (intro exI [of _ "a # as"]) auto
      qed
    next
      case False
      with b old show ?thesis unfolding cells_ok_def by (meson insertE subset_insertI2)
    qed
    show "\<exists>g. ?c b = Some g \<and> pf_refcount g = count (add_mset a R) b + children ?c (insert a L) b \<and> 0 < pf_refcount g"
    proof (cases "b = a")
      case True
      have "a \<notin># R" using R assms(2) by auto
      with True own assms(3) show ?thesis by (simp add: not_in_iff)
    next
      case False
      with b obtain g where "?c b = Some g" "pf_refcount g = count (R + held_by f) b + children ?c L b" "0 < pf_refcount g"
        using old unfolding cells_ok_def by blast
      with False show ?thesis by (simp add: split)
    qed
  qed
qed

section \<open>The store\<close>

definition pool_ok :: "frame_store \<Rightarrow> addr set \<Rightarrow> bool" where
  "pool_ok s L \<longleftrightarrow>
     (\<exists>P. chain (fs_cells s) (fs_pool_head s) P \<and> set P \<inter> L = {} \<and> dom (fs_cells s) = L \<union> set P \<and>
        fs_pool_count s = int (length P) \<and> fs_pool_count s \<le> GQL_RUNTIME_VM_PATH_FRAME_POOL_MAX) \<and>
     (\<forall>a \<in> dom (fs_cells s). a < fs_next s) \<and> fs_live_count s = int (card L)"

definition frames_ok :: "frame_store \<Rightarrow> addr set \<Rightarrow> addr multiset \<Rightarrow> bool" where
  "frames_ok s L R \<longleftrightarrow> cells_ok (fs_cells s) L R \<and> pool_ok s L"

text \<open>What a path depends on.\<close>

definition links :: "path_frame \<Rightarrow> addr option \<times> sv" where
  "links f = (pf_parent f, path_frame_key_sv f)"

definition same_links :: "addr set \<Rightarrow> frame_store \<Rightarrow> frame_store \<Rightarrow> bool" where
  "same_links L s s' \<longleftrightarrow> (\<forall>a \<in> L. map_option links (fs_cells s a) = map_option links (fs_cells s' a))"

lemma links_refcount [simp]: "links (f\<lparr>pf_refcount := n\<rparr>) = links f"
  by (simp add: links_def path_frame_key_sv_def)

lemma same_links_trans: "same_links L s s' \<Longrightarrow> same_links L' s' s'' \<Longrightarrow> L' \<subseteq> L \<Longrightarrow> same_links L' s s''"
  unfolding same_links_def by (metis subsetD)

lemma frames_ok_empty: "frames_ok empty_frames {} {#}"
  by (simp add: frames_ok_def cells_ok_def pool_ok_def empty_frames_def GQL_RUNTIME_VM_PATH_FRAME_POOL_MAX_def)

lemma pool_ok_write:
  assumes "pool_ok s L" "a \<in> L"
  shows "pool_ok (frame_write a f s) L"
proof -
  from assms(1) obtain P where P: "chain (fs_cells s) (fs_pool_head s) P" "set P \<inter> L = {}"
      "dom (fs_cells s) = L \<union> set P" "fs_pool_count s = int (length P)"
      "fs_pool_count s \<le> GQL_RUNTIME_VM_PATH_FRAME_POOL_MAX"
    unfolding pool_ok_def by blast
  with assms(2) have "a \<notin> set P" "insert a (dom (fs_cells s)) = L \<union> set P" by auto
  with P assms show ?thesis
    unfolding pool_ok_def by (intro conjI exI [of _ P]) (auto simp: frame_write_def chain_update)
qed

lemma incref_ok:
  assumes "frames_ok s L R" "a \<in> L"
  shows "\<exists>s'. path_frame_incref a s = Some s' \<and> frames_ok s' L (add_mset a R) \<and> same_links L s s'"
proof -
  from assms obtain f where f: "fs_cells s a = Some f" unfolding frames_ok_def by (metis cells_okE)
  let ?s = "frame_write a (f\<lparr>pf_refcount := pf_refcount f + 1\<rparr>) s"
  have "cells_ok (fs_cells ?s) L (add_mset a R)"
    using assms f cells_ok_up [of "fs_cells s" L R a f] by (simp add: frames_ok_def frame_write_def)
  moreover have "pool_ok ?s L" using assms by (simp add: frames_ok_def pool_ok_write)
  moreover have "same_links L s ?s" using f by (simp add: same_links_def frame_write_def)
  ultimately show ?thesis using f by (simp add: path_frame_incref_def frames_ok_def)
qed

lemma release_ok:
  assumes "frames_ok s L (add_mset a R)" "fs_cells s a = Some f" "pf_refcount f = 1"
  shows "frames_ok (path_frame_release a (f\<lparr>pf_refcount := 0\<rparr>) s) (L - {a}) (R + held_by f)"
    and "\<forall>b \<in> - {a}. fs_cells (path_frame_release a (f\<lparr>pf_refcount := 0\<rparr>) s) b = fs_cells s b"
proof -
  let ?s = "path_frame_release a (f\<lparr>pf_refcount := 0\<rparr>) s"
  show others: "\<forall>b \<in> - {a}. fs_cells ?s b = fs_cells s b"
    by (simp add: path_frame_release_def frame_write_def Let_def)
  have aL: "a \<in> L" and fin: "finite L" using assms(1) by (auto simp: frames_ok_def cells_ok_def)
  have "cells_ok (fs_cells s) (L - {a}) (R + held_by f)"
    using assms by (auto simp: frames_ok_def intro: cells_ok_drop)
  then have cells: "cells_ok (fs_cells ?s) (L - {a}) (R + held_by f)"
    by (rule cells_ok_cong [rotated]) (use others in auto)
  from assms(1) obtain P where P: "chain (fs_cells s) (fs_pool_head s) P" "set P \<inter> L = {}"
      "dom (fs_cells s) = L \<union> set P" "fs_pool_count s = int (length P)"
      "fs_pool_count s \<le> GQL_RUNTIME_VM_PATH_FRAME_POOL_MAX" and next_bound: "\<forall>b \<in> dom (fs_cells s). b < fs_next s"
      and live: "fs_live_count s = int (card L)"
    unfolding frames_ok_def pool_ok_def by blast
  have aP: "a \<notin> set P" using P(2) aL by blast
  have card: "int (card L) - 1 = int (card (L - {a}))" using aL fin card_Suc_Diff1 [OF fin aL] by simp
  have "pool_ok ?s (L - {a})"
  proof (cases "fs_pool_count s < GQL_RUNTIME_VM_PATH_FRAME_POOL_MAX")
    case True
    define f' where "f' = f\<lparr>pf_refcount := 0, pf_parent := fs_pool_head s\<rparr>"
    have fields: "fs_cells ?s = (fs_cells s)(a \<mapsto> f')" "fs_pool_head ?s = Some a" "fs_pool_count ?s = fs_pool_count s + 1"
      "fs_next ?s = fs_next s" "fs_live_count ?s = fs_live_count s - 1"
      using True by (simp_all add: path_frame_release_def frame_write_def Let_def f'_def)
    have "chain (fs_cells ?s) (fs_pool_head ?s) (a # P)"
      using P(1) aP by (simp add: fields chain_update) (simp add: f'_def)
    moreover have "set (a # P) \<inter> (L - {a}) = {}" using P(2) by auto
    moreover have "dom (fs_cells ?s) = (L - {a}) \<union> set (a # P)" using P(3) aL by (auto simp: fields)
    moreover have "\<forall>b \<in> dom (fs_cells ?s). b < fs_next ?s" using next_bound assms(2) by (auto simp: fields)
    ultimately show ?thesis
      using True P(4) live card unfolding pool_ok_def
      by (intro conjI exI [of _ "a # P"]) (simp_all add: fields)
  next
    case False
    have "dom (fs_cells s) - {a} = (L - {a}) \<union> set P" using P(3) aL aP by auto
    moreover have "chain (fs_cells ?s) (fs_pool_head ?s) P"
      using False P(1) aP by (simp add: path_frame_release_def chain_update)
    ultimately show ?thesis using False P(2,4,5) next_bound live card
      unfolding pool_ok_def
      by (intro conjI exI [of _ P]) (auto simp: path_frame_release_def dom_def)
  qed
  with cells show "frames_ok ?s (L - {a}) (R + held_by f)" by (simp add: frames_ok_def)
qed

lemma decref_chain:
  "frames_ok s L (add_mset a R) \<Longrightarrow> chain (fs_cells s) (Some a) as \<Longrightarrow>
    \<exists>s' L'. path_frame_decref (Some a) s = Some s' \<and> frames_ok s' L' R \<and> L' \<subseteq> L \<and> same_links L' s s'"
proof (induction as arbitrary: a s L R)
  case Nil
  then show ?case by simp
next
  case (Cons b as)
  then obtain f where f: "fs_cells s a = Some f" "chain (fs_cells s) (pf_parent f) as" by (auto simp: chain_Some)
  have aL: "a \<in> L" using Cons.prems(1) by (auto simp: frames_ok_def cells_ok_def)
  have pos: "0 < pf_refcount f" "a \<notin> set as"
    using Cons.prems f aL chain_distinct [OF Cons.prems(2)]
    by (auto simp: frames_ok_def chain_Some elim!: cells_okE [of _ _ _ a])
  let ?f = "f\<lparr>pf_refcount := pf_refcount f - 1\<rparr>"
  have step: "path_frame_decref (Some a) s =
      (if pf_refcount f \<noteq> 1 then Some (frame_write a ?f s)
       else path_frame_decref (pf_parent f) (path_frame_release a (f\<lparr>pf_refcount := 0\<rparr>) s))"
    using f pos by (subst path_frame_decref.simps) (auto simp: Let_def)
  show ?case
  proof (cases "pf_refcount f = 1")
    case False
    with pos have "cells_ok (fs_cells (frame_write a ?f s)) L R"
      using Cons.prems(1) f cells_ok_down [of "fs_cells s" L a R f] by (simp add: frames_ok_def frame_write_def)
    moreover have "pool_ok (frame_write a ?f s) L" using Cons.prems(1) aL by (simp add: frames_ok_def pool_ok_write)
    moreover have "same_links L s (frame_write a ?f s)" using f by (simp add: same_links_def frame_write_def)
    ultimately show ?thesis using False step by (auto simp: frames_ok_def)
  next
    case True
    let ?s = "path_frame_release a (f\<lparr>pf_refcount := 0\<rparr>) s"
    note ok = release_ok [OF Cons.prems(1) f(1) True]
    have same: "same_links (L - {a}) s ?s" using ok(2) by (simp add: same_links_def)
    show ?thesis
    proof (cases "pf_parent f")
      case None
      then have "path_frame_decref (Some a) s = Some ?s" using step True by (simp add: path_frame_decref.simps)
      moreover from ok(1) None have "frames_ok ?s (L - {a}) R" by (simp add: held_by_def)
      ultimately show ?thesis using same by blast
    next
      case (Some q)
      with ok(1) have "frames_ok ?s (L - {a}) (add_mset q R)" by (simp add: held_by_def)
      moreover have "\<forall>b \<in> set as. fs_cells ?s b = fs_cells s b" using ok(2) pos(2) by (metis ComplI singletonD)
      with f(2) Some have "chain (fs_cells ?s) (Some q) as" by (subst chain_cong [of as _ "fs_cells s"]) simp_all
      ultimately obtain s' L' where "path_frame_decref (Some q) ?s = Some s'" "frames_ok s' L' R" "L' \<subseteq> L - {a}"
          "same_links L' ?s s'"
        using Cons.IH by blast
      with step True Some same show ?thesis by (metis Diff_subset order_trans same_links_trans)
    qed
  qed
qed

lemma decref_ok:
  assumes "frames_ok s L (add_mset a R)"
  shows "\<exists>s' L'. path_frame_decref (Some a) s = Some s' \<and> frames_ok s' L' R \<and> L' \<subseteq> L \<and> same_links L' s s'"
proof -
  have "a \<in> L" using assms by (auto simp: frames_ok_def cells_ok_def)
  with assms obtain as where "chain (fs_cells s) (Some a) as" unfolding frames_ok_def cells_ok_def by blast
  with decref_chain [OF assms] show ?thesis by blast
qed

section \<open>Paths\<close>

definition keys_along :: "frame_store \<Rightarrow> addr list \<Rightarrow> sv list" where
  "keys_along s as = map (\<lambda>a. path_frame_key_sv (the (fs_cells s a))) as"

lemma segments_chain: "chain (fs_cells s) p as \<Longrightarrow> path_segments s p = Some (keys_along s as)"
proof (induction as arbitrary: p)
  case Nil
  then show ?case by (simp add: path_segments.simps keys_along_def)
next
  case (Cons a as)
  then show ?case by (subst path_segments.simps) (auto simp: keys_along_def)
qed

lemma path_chain:
  "chain (fs_cells s) p as \<Longrightarrow> path_frame_to_path_sv s p = Some (AV (rev (keys_along s as)))"
  by (simp add: path_frame_to_path_sv_def segments_chain)

lemma frames_okE:
  assumes "frames_ok s L R" "a \<in> L"
  obtains as where "chain (fs_cells s) (Some a) as" "set as \<subseteq> L"
  using assms unfolding frames_ok_def cells_ok_def by blast

lemma path_same:
  assumes "same_links X s s'" "chain (fs_cells s) p as" "set as \<subseteq> X"
  shows "path_frame_to_path_sv s' p = path_frame_to_path_sv s p"
proof -
  have same: "\<forall>a \<in> set as. map_option links (fs_cells s a) = map_option links (fs_cells s' a)"
    using assms(1,3) by (auto simp: same_links_def)
  then have "\<forall>a \<in> set as. map_option pf_parent (fs_cells s a) = map_option pf_parent (fs_cells s' a)"
    by (force simp: links_def map_option_case split: option.splits)
  then have chain: "chain (fs_cells s') p as" using assms(2) chain_cong by blast
  have alive: "fs_cells t b \<noteq> None" if "b \<in> set bs" "chain (fs_cells t) q bs" for t b bs q
    using that by (induction bs arbitrary: q) auto
  have "keys_along s' as = keys_along s as" unfolding keys_along_def
  proof (rule map_cong [OF refl])
    fix b
    assume b: "b \<in> set as"
    then obtain f g where "fs_cells s b = Some f" "fs_cells s' b = Some g" "links f = links g"
      using same alive [OF b assms(2)] alive [OF b chain] by fastforce
    then show "path_frame_key_sv (the (fs_cells s' b)) = path_frame_key_sv (the (fs_cells s b))"
      by (simp add: links_def)
  qed
  then show ?thesis using path_chain [OF chain] path_chain [OF assms(2)] by simp
qed

lemma same_links_sym: "same_links L s s' \<Longrightarrow> same_links L s' s"
  by (simp add: same_links_def)

section \<open>New frames\<close>

lemma pool_get_ok:
  assumes "frames_ok s L R"
  shows "\<exists>a s'. path_frame_pool_get s = Some (a, s') \<and> a \<notin> L \<and> fs_cells s' a = Some zero_path_frame
    \<and> (\<forall>b \<in> L. fs_cells s' b = fs_cells s b) \<and> pool_ok s' (insert a L)"
proof -
  from assms obtain P where P: "chain (fs_cells s) (fs_pool_head s) P" "set P \<inter> L = {}"
      "dom (fs_cells s) = L \<union> set P" "fs_pool_count s = int (length P)"
      "fs_pool_count s \<le> GQL_RUNTIME_VM_PATH_FRAME_POOL_MAX" and next_bound: "\<forall>b \<in> dom (fs_cells s). b < fs_next s"
      and live: "fs_live_count s = int (card L)" and fin: "finite L"
    unfolding frames_ok_def pool_ok_def cells_ok_def by blast
  show ?thesis
  proof (cases P)
    case Nil
    let ?a = "fs_next s"
    let ?s = "frame_write ?a zero_path_frame (s\<lparr>fs_live_count := fs_live_count s + 1, fs_next := ?a + 1\<rparr>)"
    have get: "path_frame_pool_get s = Some (?a, ?s)" using P(1) Nil by (simp add: path_frame_pool_get_def Let_def)
    have new: "?a \<notin> L" using next_bound P(3) by blast
    have "pool_ok ?s (insert ?a L)" unfolding pool_ok_def
    proof (intro conjI exI [of _ P] ballI)
      show "chain (fs_cells ?s) (fs_pool_head ?s) P" "set P \<inter> insert ?a L = {}"
        "dom (fs_cells ?s) = insert ?a L \<union> set P" "fs_pool_count ?s = int (length P)"
        "fs_pool_count ?s \<le> GQL_RUNTIME_VM_PATH_FRAME_POOL_MAX" "fs_live_count ?s = int (card (insert ?a L))"
        using P Nil new fin live by (simp_all add: frame_write_def)
      fix b
      assume "b \<in> dom (fs_cells ?s)"
      with next_bound show "b < fs_next ?s" by (auto simp: frame_write_def dest: less_SucI)
    qed
    with get new show ?thesis by (auto simp: frame_write_def)
  next
    case (Cons a Q)
    then obtain f where f: "fs_cells s a = Some f" "chain (fs_cells s) (pf_parent f) Q" "fs_pool_head s = Some a"
      using P(1) by auto
    let ?s = "frame_write a zero_path_frame (s\<lparr>fs_live_count := fs_live_count s + 1, fs_pool_head := pf_parent f,
      fs_pool_count := fs_pool_count s - 1\<rparr>)"
    have get: "path_frame_pool_get s = Some (a, ?s)" using f by (simp add: path_frame_pool_get_def Let_def)
    have new: "a \<notin> L" "a \<notin> set Q" using P(1,2) Cons chain_distinct by fastforce+
    have "pool_ok ?s (insert a L)" unfolding pool_ok_def
    proof (intro conjI exI [of _ Q] ballI)
      show "chain (fs_cells ?s) (fs_pool_head ?s) Q" using f(2) new(2) by (simp add: frame_write_def chain_update)
      show "set Q \<inter> insert a L = {}" using P(2) Cons new(2) by auto
      show "dom (fs_cells ?s) = insert a L \<union> set Q" using P(3) Cons by (auto simp: frame_write_def)
      show "fs_pool_count ?s = int (length Q)" "fs_pool_count ?s \<le> GQL_RUNTIME_VM_PATH_FRAME_POOL_MAX"
        using P(4,5) Cons by (simp_all add: frame_write_def)
      show "fs_live_count ?s = int (card (insert a L))" using new(1) fin live by (simp add: frame_write_def)
      fix b
      assume "b \<in> dom (fs_cells ?s)"
      with next_bound f(1) show "b < fs_next ?s" by (auto simp: frame_write_def split: if_splits)
    qed
    with get new(1) show ?thesis by (auto simp: frame_write_def)
  qed
qed

text \<open>\<open>set_key\<close> stands for the part of the two constructors that differs.\<close>

definition sets_key :: "(path_frame \<Rightarrow> path_frame) \<Rightarrow> sv \<Rightarrow> bool" where
  "sets_key set_key key \<longleftrightarrow>
     (\<forall>f. pf_refcount (set_key f) = pf_refcount f \<and> pf_parent (set_key f) = pf_parent f \<and>
        (pf_key_kind f = 0 \<and> pf_key_pv f = None \<longrightarrow> path_frame_key_sv (set_key f) = key))"

lemma link_ok:
  assumes "frames_ok s L R" "set_option parent \<subseteq> L" "sets_key set_key key"
  shows "\<exists>a s'. link_path_frame parent set_key s = Some (a, s') \<and> a \<notin> L \<and> frames_ok s' (insert a L) (add_mset a R)
    \<and> same_links L s s' \<and> map_option links (fs_cells s' a) = Some (parent, key)"
proof -
  from pool_get_ok [OF assms(1)] obtain a t where get: "path_frame_pool_get s = Some (a, t)" "a \<notin> L"
      "fs_cells t a = Some zero_path_frame" "\<forall>b \<in> L. fs_cells t b = fs_cells s b" "pool_ok t (insert a L)"
    by blast
  define f where "f = set_key (zero_path_frame\<lparr>pf_refcount := 1, pf_parent := parent\<rparr>)"
  have f: "pf_refcount f = 1" "pf_parent f = parent" "links f = (parent, key)"
    using assms(3) by (simp_all add: f_def sets_key_def links_def zero_path_frame_def)
  have t: "cells_ok (fs_cells t) L R"
    by (rule cells_ok_cong [of L "fs_cells s"]) (use get(4) assms(1) in \<open>auto simp: frames_ok_def\<close>)
  show ?thesis
  proof (cases parent)
    case None
    let ?s = "frame_write a f t"
    have "link_path_frame parent set_key s = Some (a, ?s)"
      using get None by (simp add: link_path_frame_def frame_write_def f_def Let_def)
    moreover have "cells_ok (fs_cells ?s) (insert a L) (add_mset a R)"
      using cells_ok_add [of "fs_cells t" L R f a] t f get(2) None by (simp add: frame_write_def held_by_def)
    moreover have "pool_ok ?s (insert a L)" using get(5) by (simp add: pool_ok_write)
    moreover have "same_links L s ?s" using get(2,4) by (auto simp: same_links_def frame_write_def)
    ultimately show ?thesis using get(2) f(3) by (auto simp: frames_ok_def frame_write_def)
  next
    case (Some q)
    with assms(2) have q: "q \<in> L" "q \<noteq> a" using get(2) by auto
    with t obtain g where g: "fs_cells t q = Some g" by (metis cells_okE)
    let ?g = "g\<lparr>pf_refcount := pf_refcount g + 1\<rparr>"
    let ?s = "frame_write a f (frame_write q ?g t)"
    have "link_path_frame parent set_key s = Some (a, ?s)"
      using get Some q g
      by (simp add: link_path_frame_def path_frame_incref_def frame_write_def f_def Let_def fun_upd_twist [of q a])
    moreover have "cells_ok ((fs_cells t)(q \<mapsto> ?g)) L (R + held_by f)"
      using cells_ok_up [OF t q(1) g] f(2) Some by (simp add: held_by_def)
    then have "cells_ok (fs_cells ?s) (insert a L) (add_mset a R)"
      using cells_ok_add [of _ L R f a] f(1) get(2) by (simp add: frame_write_def)
    moreover have "pool_ok ?s (insert a L)" using get(5) q by (simp add: pool_ok_write)
    moreover have "same_links L s ?s" using get(2,4) g q by (auto simp: same_links_def frame_write_def)
    ultimately show ?thesis using get(2) f(3) by (auto simp: frames_ok_def frame_write_def)
  qed
qed

end
