(* ===== verification/VM_Errors_Lemmas.thy ===== *)
theory VM_Errors_Lemmas
  imports VM_Frames_Lemmas VM_Values_Lemmas
begin

text \<open>
  Error records over path frames: the interface of counted references with its two providers, and the
  life of a request as a sequence of steps on frames, records and the writer.
\<close>

section \<open>Counted references\<close>

fun release_all :: "('a \<Rightarrow> 's \<Rightarrow> 's option) \<Rightarrow> 'a list \<Rightarrow> 's \<Rightarrow> 's option" where
  "release_all release [] s = Some s"
| "release_all release (x # xs) s = Option.bind (release x s) (release_all release xs)"

lemma release_all_append:
  "release_all release (xs @ ys) s = Option.bind (release_all release xs s) (release_all release ys)"
  by (induction xs arbitrary: s) (simp_all add: bind_eq_Some_conv split: Option.bind_splits)

text \<open>
  What a client of a counted store relies on: a reference it holds can be given up, the other ones
  stay valid and show the same.
\<close>

locale counted_references =
  fixes inv :: "'s \<Rightarrow> 'a multiset \<Rightarrow> bool"
    and release :: "'a \<Rightarrow> 's \<Rightarrow> 's option"
    and view :: "'s \<Rightarrow> 'a \<Rightarrow> 'v"
  assumes release: "inv s (add_mset a R) \<Longrightarrow>
    \<exists>s'. release a s = Some s' \<and> inv s' R \<and> (\<forall>b \<in># R. view s' b = view s b)"
begin

lemma release_list:
  "inv s (mset xs + R) \<Longrightarrow>
    \<exists>s'. release_all release xs s = Some s' \<and> inv s' R \<and> (\<forall>b \<in># R. view s' b = view s b)"
proof (induction xs arbitrary: s)
  case Nil
  then show ?case by simp
next
  case (Cons x xs)
  then obtain t where t: "release x s = Some t" "inv t (mset xs + R)" "\<forall>b \<in># mset xs + R. view t b = view s b"
    using release [of s x "mset xs + R"] by auto
  with Cons.IH [OF t(2)] show ?case by auto
qed

end

definition frames_inv :: "frame_store \<Rightarrow> addr multiset \<Rightarrow> bool" where
  "frames_inv s R \<longleftrightarrow> (\<exists>L. frames_ok s L R)"

definition frame_view :: "frame_store \<Rightarrow> addr \<Rightarrow> sv option" where
  "frame_view s a = path_frame_to_path_sv s (Some a)"

lemma frames_inv_held: "frames_ok s L R \<Longrightarrow> a \<in># R \<Longrightarrow> a \<in> L"
  by (auto simp: frames_ok_def cells_ok_def)

lemma views_later:
  assumes "frames_ok s' L' R'" "same_links L' s s'" "b \<in># R'"
  shows "frame_view s' b = frame_view s b"
proof -
  from assms obtain as where "chain (fs_cells s') (Some b) as" "set as \<subseteq> L'"
    using frames_okE [OF assms(1)] frames_inv_held by metis
  with path_same [OF same_links_sym [OF assms(2)]] show ?thesis by (simp add: frame_view_def)
qed

lemma views_earlier:
  assumes "frames_ok s L R" "same_links L s s'" "b \<in># R"
  shows "frame_view s' b = frame_view s b"
proof -
  from assms obtain as where "chain (fs_cells s) (Some b) as" "set as \<subseteq> L"
    using frames_okE [OF assms(1)] frames_inv_held by metis
  with path_same [OF assms(2)] show ?thesis by (simp add: frame_view_def)
qed

interpretation frames: counted_references frames_inv "\<lambda>a. path_frame_decref (Some a)" frame_view
proof
  fix s a R
  assume "frames_inv s (add_mset a R)"
  then obtain L where "frames_ok s L (add_mset a R)" by (auto simp: frames_inv_def)
  then obtain s' L' where "path_frame_decref (Some a) s = Some s'" "frames_ok s' L' R" "same_links L' s s'"
    using decref_ok by blast
  then show "\<exists>s'. path_frame_decref (Some a) s = Some s' \<and> frames_inv s' R \<and> (\<forall>b \<in># R. frame_view s' b = frame_view s b)"
    using views_later by (auto simp: frames_inv_def)
qed

lemma frames_incref:
  assumes "frames_inv s R" "a \<in># R"
  shows "\<exists>s'. path_frame_incref a s = Some s' \<and> frames_inv s' (add_mset a R) \<and> (\<forall>b \<in># R. frame_view s' b = frame_view s b)"
proof -
  from assms obtain L where L: "frames_ok s L R" by (auto simp: frames_inv_def)
  with incref_ok [OF L frames_inv_held [OF L assms(2)]] views_earlier [OF L] show ?thesis by (auto simp: frames_inv_def)
qed

lemma frames_new:
  assumes "frames_inv s R" "set_option parent \<subseteq> set_mset R" "sets_key set_key key"
    and "path_frame_to_path_sv s parent = Some (AV segments)"
  shows "\<exists>a s'. link_path_frame parent set_key s = Some (a, s') \<and> frames_inv s' (add_mset a R)
    \<and> (\<forall>b \<in># R. frame_view s' b = frame_view s b) \<and> frame_view s' a = Some (AV (segments @ [key]))"
proof -
  from assms(1) obtain L where L: "frames_ok s L R" by (auto simp: frames_inv_def)
  have "set_option parent \<subseteq> L" using assms(2) frames_inv_held [OF L] by auto
  from link_ok [OF L this assms(3)] obtain a s' where new: "link_path_frame parent set_key s = Some (a, s')"
      "frames_ok s' (insert a L) (add_mset a R)" "same_links L s s'"
      "map_option links (fs_cells s' a) = Some (parent, key)"
    by blast
  then obtain f where f: "fs_cells s' a = Some f" "pf_parent f = parent" "path_frame_key_sv f = key"
    by (auto simp: links_def)
  have "path_frame_to_path_sv s' parent = Some (AV segments)"
  proof (cases parent)
    case None
    then show ?thesis using assms(4) by (simp add: path_frame_to_path_sv_def path_segments.simps)
  next
    case (Some q)
    with assms(2,4) views_earlier [OF L new(3), of q] show ?thesis by (simp add: frame_view_def)
  qed
  then obtain xs where "path_segments s' parent = Some xs" "segments = rev xs" by (auto simp: path_frame_to_path_sv_def)
  then have "path_segments s' (Some a) = Some (key # xs)" using f by (subst path_segments.simps) simp
  then have "frame_view s' a = Some (AV (segments @ [key]))"
    using \<open>segments = rev xs\<close> by (simp add: frame_view_def path_frame_to_path_sv_def)
  with new views_earlier [OF L new(3)] show ?thesis by (auto simp: frames_inv_def)
qed

section \<open>Error records\<close>

datatype reference = Frame addr | Error addr

definition frame_part :: "reference \<Rightarrow> addr multiset" where
  "frame_part x = (case x of Frame a \<Rightarrow> {#a#} | Error r \<Rightarrow> {#})"

definition frame_refs :: "reference multiset \<Rightarrow> addr multiset" where
  "frame_refs R = sum_mset (image_mset frame_part R)"

lemma frame_refs_simps [simp]:
  "frame_refs {#} = {#}" "frame_refs (add_mset (Frame a) R) = add_mset a (frame_refs R)"
  "frame_refs (add_mset (Error r) R) = frame_refs R" "frame_refs (R + S) = frame_refs R + frame_refs S"
  by (simp_all add: frame_refs_def frame_part_def)

lemma frame_refs_mem: "Frame a \<in># R \<Longrightarrow> a \<in># frame_refs R"
  by (metis frame_refs_simps(2) insert_DiffM union_single_eq_member)

definition path_part :: "error_record \<Rightarrow> addr multiset" where
  "path_part e = (case er_path_frame e of None \<Rightarrow> {#} | Some a \<Rightarrow> {#a#})"

definition record_paths :: "(addr \<Rightarrow> error_record option) \<Rightarrow> addr multiset" where
  "record_paths c = (\<Sum>r \<in> dom c. path_part (the (c r)))"

definition errors_inv :: "error_store \<Rightarrow> reference multiset \<Rightarrow> bool" where
  "errors_inv s R \<longleftrightarrow> finite (dom (es_records s)) \<and> (\<forall>r \<in> dom (es_records s). r < es_next s) \<and>
     frames_inv (es_frames s) (frame_refs R + record_paths (es_records s)) \<and>
     (\<forall>r. Error r \<in># R \<longleftrightarrow> r \<in> dom (es_records s)) \<and>
     (\<forall>r e. es_records s r = Some e \<longrightarrow> er_refcount e = count R (Error r))"

definition release_reference :: "reference \<Rightarrow> error_store \<Rightarrow> error_store option" where
  "release_reference x s =
     (case x of
        Frame a \<Rightarrow> map_option (\<lambda>fs. s\<lparr>es_frames := fs\<rparr>) (path_frame_decref (Some a) (es_frames s))
      | Error r \<Rightarrow> error_record_decref r s)"

definition reference_view :: "error_store \<Rightarrow> reference \<Rightarrow> sv option" where
  "reference_view s x =
     (case x of
        Frame a \<Rightarrow> path_frame_to_path_sv (es_frames s) (Some a)
      | Error r \<Rightarrow> error_record_to_error_sv s (Some r))"

lemma record_paths_insert:
  assumes "finite (dom c)" "c r = None"
  shows "record_paths (c(r \<mapsto> e)) = path_part e + record_paths c"
proof -
  have "record_paths (c(r \<mapsto> e)) = path_part e + (\<Sum>x \<in> dom c. path_part (the ((c(r \<mapsto> e)) x)))"
    using assms by (simp add: record_paths_def domIff)
  also have "(\<Sum>x \<in> dom c. path_part (the ((c(r \<mapsto> e)) x))) = record_paths c"
    unfolding record_paths_def using assms(2) by (intro sum.cong) auto
  finally show ?thesis .
qed

lemma record_paths_update:
  assumes "finite (dom c)" "c r = Some e" "path_part e' = path_part e"
  shows "record_paths (c(r \<mapsto> e')) = record_paths c"
  unfolding record_paths_def using assms by (intro sum.cong) auto

lemma record_paths_remove:
  assumes "finite (dom c)" "c r = Some e"
  shows "record_paths c = path_part e + record_paths (c(r := None))"
  using record_paths_insert [of "c(r := None)" r e] assms by (simp add: fun_upd_idem)

text \<open>The path of a record is among the references held inside the store.\<close>

lemma record_path_held:
  assumes "finite (dom c)" "c r = Some e" "er_path_frame e = Some a"
  shows "a \<in># record_paths c"
  using record_paths_remove [OF assms(1,2)] assms(3) by (simp add: path_part_def)

lemma error_view_cong:
  assumes "es_records s r = Some e" "es_records s' r = Some e'" "er_message e' = er_message e"
    and "er_path_frame e' = er_path_frame e"
    and "\<forall>a. er_path_frame e = Some a \<longrightarrow> frame_view (es_frames s') a = frame_view (es_frames s) a"
  shows "reference_view s' (Error r) = reference_view s (Error r)"
  using assms
  by (cases "er_path_frame e") (simp_all add: reference_view_def error_record_to_error_sv_def frame_view_def Let_def)

lemma views_stable:
  assumes "finite (dom (es_records s))"
    and "\<forall>b \<in># frame_refs R + record_paths (es_records s). frame_view (es_frames s') b = frame_view (es_frames s) b"
    and "\<forall>r. Error r \<in># R \<longrightarrow> (\<exists>e e'. es_records s r = Some e \<and> es_records s' r = Some e' \<and>
      er_message e' = er_message e \<and> er_path_frame e' = er_path_frame e)"
  shows "\<forall>x \<in># R. reference_view s' x = reference_view s x"
proof
  fix x
  assume x: "x \<in># R"
  show "reference_view s' x = reference_view s x"
  proof (cases x)
    case (Frame a)
    with x assms(2) have "frame_view (es_frames s') a = frame_view (es_frames s) a" by (simp add: frame_refs_mem)
    with Frame show ?thesis by (simp add: reference_view_def frame_view_def)
  next
    case (Error r)
    with x assms(3) obtain e e' where e: "es_records s r = Some e" "es_records s' r = Some e'"
        "er_message e' = er_message e" "er_path_frame e' = er_path_frame e"
      by blast
    have "frame_view (es_frames s') a = frame_view (es_frames s) a" if "er_path_frame e = Some a" for a
      using record_path_held [OF assms(1) e(1) that] assms(2) by simp
    with error_view_cong [of s r e s' e'] e Error show ?thesis by blast
  qed
qed

lemma errors_inv_empty: "errors_inv empty_errors {#}"
  using frames_ok_empty by (auto simp: errors_inv_def empty_errors_def record_paths_def frames_inv_def)

lemma errors_incref_frame:
  assumes "errors_inv s R" "Frame a \<in># R"
  shows "\<exists>fs. path_frame_incref a (es_frames s) = Some fs \<and> errors_inv (s\<lparr>es_frames := fs\<rparr>) (add_mset (Frame a) R)
    \<and> (\<forall>x \<in># R. reference_view (s\<lparr>es_frames := fs\<rparr>) x = reference_view s x)"
proof -
  let ?F = "frame_refs R + record_paths (es_records s)"
  have "frames_inv (es_frames s) ?F" "a \<in># ?F" using assms by (simp_all add: errors_inv_def frame_refs_mem)
  from frames_incref [OF this] obtain fs where fs: "path_frame_incref a (es_frames s) = Some fs"
      "frames_inv fs (add_mset a ?F)" "\<forall>b \<in># ?F. frame_view fs b = frame_view (es_frames s) b"
    by blast
  have "errors_inv (s\<lparr>es_frames := fs\<rparr>) (add_mset (Frame a) R)" using assms(1) fs(2) by (simp add: errors_inv_def)
  moreover have "\<forall>x \<in># R. reference_view (s\<lparr>es_frames := fs\<rparr>) x = reference_view s x"
    using assms(1) fs(3) by (intro views_stable) (auto simp: errors_inv_def)
  ultimately show ?thesis using fs(1) by blast
qed

lemma errors_new_frame:
  assumes "errors_inv s R" "Frame ` set_option parent \<subseteq> set_mset R" "sets_key set_key key"
    and "path_frame_to_path_sv (es_frames s) parent = Some (AV segments)"
  shows "\<exists>a fs. link_path_frame parent set_key (es_frames s) = Some (a, fs)
    \<and> errors_inv (s\<lparr>es_frames := fs\<rparr>) (add_mset (Frame a) R)
    \<and> (\<forall>x \<in># R. reference_view (s\<lparr>es_frames := fs\<rparr>) x = reference_view s x)
    \<and> reference_view (s\<lparr>es_frames := fs\<rparr>) (Frame a) = Some (AV (segments @ [key]))"
proof -
  let ?F = "frame_refs R + record_paths (es_records s)"
  have "frames_inv (es_frames s) ?F" "set_option parent \<subseteq> set_mset ?F"
    using assms(1,2) frame_refs_mem by (auto simp: errors_inv_def)
  from frames_new [OF this assms(3,4)] obtain a fs where fs: "link_path_frame parent set_key (es_frames s) = Some (a, fs)"
      "frames_inv fs (add_mset a ?F)" "\<forall>b \<in># ?F. frame_view fs b = frame_view (es_frames s) b"
      "frame_view fs a = Some (AV (segments @ [key]))"
    by blast
  have "errors_inv (s\<lparr>es_frames := fs\<rparr>) (add_mset (Frame a) R)" using assms(1) fs(2) by (simp add: errors_inv_def)
  moreover have "\<forall>x \<in># R. reference_view (s\<lparr>es_frames := fs\<rparr>) x = reference_view s x"
    using assms(1) fs(3) by (intro views_stable) (auto simp: errors_inv_def)
  ultimately show ?thesis using fs(1,4) by (simp add: reference_view_def frame_view_def)
qed

lemma record_ref_count:
  assumes "errors_inv s R" "Error r \<in># R"
  obtains e where "es_records s r = Some e" "er_refcount e = count R (Error r)"
  using assms by (auto simp: errors_inv_def)

lemma errors_incref_record:
  assumes "errors_inv s R" "Error r \<in># R"
  shows "\<exists>s'. error_record_incref r s = Some s' \<and> errors_inv s' (add_mset (Error r) R)
    \<and> (\<forall>x \<in># R. reference_view s' x = reference_view s x)"
proof -
  from record_ref_count [OF assms] obtain e where e: "es_records s r = Some e" "er_refcount e = count R (Error r)" .
  let ?s = "record_write r (e\<lparr>er_refcount := er_refcount e + 1\<rparr>) s"
  have fin: "finite (dom (es_records s))" using assms(1) by (simp add: errors_inv_def)
  have "record_paths (es_records ?s) = record_paths (es_records s)"
    using record_paths_update [OF fin e(1)] by (simp add: record_write_def path_part_def)
  then have "errors_inv ?s (add_mset (Error r) R)"
    using assms(1) e by (auto simp: errors_inv_def record_write_def)
  moreover have "\<forall>x \<in># R. reference_view ?s x = reference_view s x"
    using assms(1) e(1) by (intro views_stable) (auto simp: errors_inv_def record_write_def)
  ultimately show ?thesis using e(1) by (auto simp: error_record_incref_def)
qed

lemma errors_new_record:
  assumes "errors_inv s R" "Frame ` set_option path \<subseteq> set_mset R"
    and "path_frame_to_path_sv (es_frames s) path = Some (AV segments)"
  shows "\<exists>r s'. new_error_record_struct_for_path message path s = Some (r, s') \<and> errors_inv s' (add_mset (Error r) R)
    \<and> (\<forall>x \<in># R. reference_view s' x = reference_view s x)
    \<and> reference_view s' (Error r) = Some (HV (store_path (AV segments) (hv_store [] ''message''
        (error_message_sv (case defined_sv message of Some m \<Rightarrow> Some (SvPV m, SvUTF8 m) | None \<Rightarrow> None)))))"
proof -
  let ?r = "es_next s"
  let ?m = "case defined_sv message of Some m \<Rightarrow> Some (SvPV m, SvUTF8 m) | None \<Rightarrow> None"
  let ?e = "\<lparr>er_refcount = 1, er_message = ?m, er_path_frame = path\<rparr>"
  have fin: "finite (dom (es_records s))" and fresh: "es_records s ?r = None" "Error ?r \<notin># R"
    using assms(1) by (auto simp: errors_inv_def domIff)
  have counts: "count R (Error ?r) = 0" using fresh(2) by (simp add: not_in_iff)
  obtain fs where fs: "(case path of None \<Rightarrow> Some (es_frames s) | Some a \<Rightarrow> path_frame_incref a (es_frames s)) = Some fs"
      "frames_inv fs (frame_refs R + path_part ?e + record_paths (es_records s))"
      "\<forall>b \<in># frame_refs R + record_paths (es_records s). frame_view fs b = frame_view (es_frames s) b"
      "\<forall>a. path = Some a \<longrightarrow> frame_view fs a = Some (AV segments)"
  proof (cases path)
    case None
    with assms(1) show thesis by (intro that [of "es_frames s"]) (simp_all add: errors_inv_def path_part_def)
  next
    case (Some a)
    let ?F = "frame_refs R + record_paths (es_records s)"
    have a: "a \<in># ?F" and inv: "frames_inv (es_frames s) ?F"
      using assms(1,2) Some frame_refs_mem by (auto simp: errors_inv_def)
    from frames_incref [OF inv a] obtain fs where "path_frame_incref a (es_frames s) = Some fs"
        "frames_inv fs (add_mset a ?F)" "\<forall>b \<in># ?F. frame_view fs b = frame_view (es_frames s) b"
      by blast
    with Some assms(3) a show thesis
      by (intro that [of fs]) (simp_all add: path_part_def frame_view_def ac_simps)
  qed
  let ?s = "record_write ?r ?e (s\<lparr>es_next := ?r + 1, es_frames := fs\<rparr>)"
  have "new_error_record_struct_for_path message path s = Some (?r, ?s)"
    using fs(1) by (simp add: new_error_record_struct_for_path_def)
  moreover have "record_paths (es_records ?s) = path_part ?e + record_paths (es_records s)"
    using record_paths_insert [OF fin fresh(1)] by (simp add: record_write_def)
  then have "errors_inv ?s (add_mset (Error ?r) R)"
    using assms(1) fs(2) counts
    by (auto simp: errors_inv_def record_write_def ac_simps less_Suc_eq dest: domI)
  moreover have "\<forall>x \<in># R. reference_view ?s x = reference_view s x"
    using assms(1) fs(3) fresh
    by (intro views_stable) (auto simp: errors_inv_def record_write_def)
  moreover have "reference_view ?s (Error ?r) = Some (HV (store_path (AV segments) (hv_store [] ''message'' (error_message_sv ?m))))"
  proof (cases path)
    case None
    then have "segments = []" using assms(3) by (simp add: path_frame_to_path_sv_def path_segments.simps)
    with None show ?thesis
      by (simp add: reference_view_def error_record_to_error_sv_def record_write_def Let_def store_path_def)
  next
    case (Some a)
    with fs(4) show ?thesis
      by (simp add: reference_view_def error_record_to_error_sv_def record_write_def Let_def frame_view_def)
  qed
  ultimately show ?thesis by blast
qed

lemma errors_release_frame:
  assumes "errors_inv s (add_mset (Frame a) R)"
  shows "\<exists>fs. path_frame_decref (Some a) (es_frames s) = Some fs \<and> errors_inv (s\<lparr>es_frames := fs\<rparr>) R
    \<and> (\<forall>x \<in># R. reference_view (s\<lparr>es_frames := fs\<rparr>) x = reference_view s x)"
proof -
  let ?F = "frame_refs R + record_paths (es_records s)"
  have "frames_inv (es_frames s) (add_mset a ?F)" using assms by (simp add: errors_inv_def)
  from frames.release [OF this] obtain fs where fs: "path_frame_decref (Some a) (es_frames s) = Some fs"
      "frames_inv fs ?F" "\<forall>b \<in># ?F. frame_view fs b = frame_view (es_frames s) b"
    by blast
  have "errors_inv (s\<lparr>es_frames := fs\<rparr>) R" using assms fs(2) by (auto simp: errors_inv_def)
  moreover have "\<forall>x \<in># R. reference_view (s\<lparr>es_frames := fs\<rparr>) x = reference_view s x"
    using assms fs(3) by (intro views_stable) (auto simp: errors_inv_def)
  ultimately show ?thesis using fs(1) by blast
qed

lemma errors_release_record:
  assumes "errors_inv s (add_mset (Error r) R)"
  shows "\<exists>s'. error_record_decref r s = Some s' \<and> errors_inv s' R \<and> (\<forall>x \<in># R. reference_view s' x = reference_view s x)"
proof -
  from record_ref_count [OF assms, of r] obtain e where e: "es_records s r = Some e" "er_refcount e = Suc (count R (Error r))"
    by auto
  have fin: "finite (dom (es_records s))" using assms by (simp add: errors_inv_def)
  show ?thesis
  proof (cases "Error r \<in># R")
    case True
    let ?s = "record_write r (e\<lparr>er_refcount := er_refcount e - 1\<rparr>) s"
    have "record_paths (es_records ?s) = record_paths (es_records s)"
      using record_paths_update [OF fin e(1)] by (simp add: record_write_def path_part_def)
    with True have "errors_inv ?s R"
      using assms e by (auto simp: errors_inv_def record_write_def)
    moreover have "\<forall>x \<in># R. reference_view ?s x = reference_view s x"
      using assms e(1) by (intro views_stable) (auto simp: errors_inv_def record_write_def)
    moreover have "1 < er_refcount e" using e(2) True by simp
    ultimately show ?thesis using e(1) by (auto simp: error_record_decref_def)
  next
    case False
    let ?c = "(es_records s)(r := None)"
    have one: "er_refcount e = 1" using e(2) False by (simp add: not_in_iff)
    note split = record_paths_remove [OF fin e(1)]
    obtain fs where fs: "path_frame_decref (er_path_frame e) (es_frames s) = Some fs"
        "frames_inv fs (frame_refs R + record_paths ?c)"
        "\<forall>b \<in># frame_refs R + record_paths ?c. frame_view fs b = frame_view (es_frames s) b"
    proof (cases "er_path_frame e")
      case None
      with assms split show thesis
        by (intro that [of "es_frames s"]) (simp_all add: errors_inv_def path_part_def path_frame_decref.simps)
    next
      case (Some a)
      then have "frames_inv (es_frames s) (add_mset a (frame_refs R + record_paths ?c))"
        using assms split by (simp add: errors_inv_def path_part_def)
      from frames.release [OF this] Some that show thesis by auto
    qed
    let ?s = "s\<lparr>es_frames := fs, es_records := ?c\<rparr>"
    have "error_record_decref r s = Some ?s" using e(1) one fs(1) by (simp add: error_record_decref_def)
    moreover have "errors_inv ?s R" using assms fs(2) False by (auto simp: errors_inv_def)
    moreover have "\<forall>x \<in># R. reference_view ?s x = reference_view s x"
    proof
      fix x
      assume x: "x \<in># R"
      show "reference_view ?s x = reference_view s x"
      proof (cases x)
        case (Frame a)
        with x fs(3) show ?thesis using frame_refs_mem [of a R] by (simp add: reference_view_def frame_view_def)
      next
        case (Error q)
        with x False have q: "q \<noteq> r" by blast
        moreover have "Error q \<in># add_mset (Error r) R" using x Error by simp
        then have "q \<in> dom (es_records s)" using assms unfolding errors_inv_def by blast
        then obtain g where g: "es_records s q = Some g" by blast
        ultimately have "?c q = Some g" by simp
        moreover have "frame_view fs a = frame_view (es_frames s) a" if "er_path_frame g = Some a" for a
          using record_path_held [of ?c q g a] fin calculation that fs(3) by simp
        ultimately show ?thesis using error_view_cong [of s q g ?s g] g Error by simp
      qed
    qed
    ultimately show ?thesis by blast
  qed
qed

interpretation errors: counted_references errors_inv release_reference reference_view
proof
  fix s x R
  assume ok: "errors_inv s (add_mset x R)"
  show "\<exists>s'. release_reference x s = Some s' \<and> errors_inv s' R \<and> (\<forall>b \<in># R. reference_view s' b = reference_view s b)"
  proof (cases x)
    case (Frame a)
    with errors_release_frame [of s a R] ok show ?thesis by (auto simp: release_reference_def)
  next
    case (Error r)
    with errors_release_record [of s r R] ok show ?thesis by (auto simp: release_reference_def)
  qed
qed

section \<open>The life of a request\<close>

text \<open>What an error is for its reader: a message and a path.\<close>

definition error_of :: "sv option \<Rightarrow> sv list \<Rightarrow> sv" where
  "error_of message segments =
     HV (store_path (AV segments) (hv_store [] ''message''
       (error_message_sv (case defined_sv message of Some m \<Rightarrow> Some (SvPV m, SvUTF8 m) | None \<Rightarrow> None))))"

definition key_of :: "sv option \<Rightarrow> sv" where
  "key_of key =
     (case defined_sv key of
        None \<Rightarrow> Undef
      | Some k \<Rightarrow> if SvIOK k \<and> \<not> SvROK k then IV (signed_iv k) else PV False (SvPV k))"

definition borrowed_key_of :: "string option \<Rightarrow> sv" where
  "borrowed_key_of key = (case key of None \<Rightarrow> Undef | Some pv \<Rightarrow> if pv = [] then Undef else PV False pv)"

lemma sets_key_borrowed: "sets_key (borrowed_key key) (borrowed_key_of key)"
  by (auto simp: sets_key_def borrowed_key_def borrowed_key_of_def path_frame_key_sv_def split: option.split)

lemma sets_key_fields: "sets_key (key_fields key) (key_of key)"
  by (auto simp: sets_key_def key_fields_def key_of_def defined_sv_def path_frame_key_sv_def split: option.split)

text \<open>
  \<open>request_run s held w es\<close>: a request can reach the store \<open>s\<close> with the references \<open>held\<close> by its
  code, each with what it should show, and a writer \<open>w\<close> that should hold the errors \<open>es\<close>. The steps:
  open a frame under a frame in hand, copy a reference, give one up, record an error for a path, and
  push a record to the writer.
\<close>

definition in_hand :: "(reference \<times> sv) list \<Rightarrow> addr option \<Rightarrow> sv list \<Rightarrow> bool" where
  "in_hand held p segments \<longleftrightarrow>
     (case p of None \<Rightarrow> segments = [] | Some a \<Rightarrow> (Frame a, AV segments) \<in> set held)"

inductive request_run :: "error_store \<Rightarrow> (reference \<times> sv) list \<Rightarrow> writer \<Rightarrow> sv list \<Rightarrow> bool" where
  start: "request_run empty_errors [] new_writer_struct []"
| open_frame:
    "request_run s held w es \<Longrightarrow> in_hand held parent segments \<Longrightarrow>
      new_path_frame_struct parent key (es_frames s) = Some (a, fs) \<Longrightarrow>
      request_run (s\<lparr>es_frames := fs\<rparr>) ((Frame a, AV (segments @ [key_of key])) # held) w es"
| open_borrowed:
    "request_run s held w es \<Longrightarrow> in_hand held parent segments \<Longrightarrow>
      new_path_frame_struct_pvn_borrowed parent name (es_frames s) = Some (a, fs) \<Longrightarrow>
      request_run (s\<lparr>es_frames := fs\<rparr>) ((Frame a, AV (segments @ [borrowed_key_of name])) # held) w es"
| share_frame:
    "request_run s held w es \<Longrightarrow> (Frame a, v) \<in> set held \<Longrightarrow>
      path_frame_incref a (es_frames s) = Some fs \<Longrightarrow>
      request_run (s\<lparr>es_frames := fs\<rparr>) ((Frame a, v) # held) w es"
| share_record:
    "request_run s held w es \<Longrightarrow> (Error r, v) \<in> set held \<Longrightarrow> error_record_incref r s = Some s' \<Longrightarrow>
      request_run s' ((Error r, v) # held) w es"
| give_up:
    "request_run s held w es \<Longrightarrow> (x, v) \<in> set held \<Longrightarrow> release_reference x s = Some s' \<Longrightarrow>
      request_run s' (remove1 (x, v) held) w es"
| record_error:
    "request_run s held w es \<Longrightarrow> in_hand held path segments \<Longrightarrow>
      new_error_record_struct_for_path message path s = Some (r, s') \<Longrightarrow>
      request_run s' ((Error r, error_of message segments) # held) w es"
| write_error:
    "request_run s held w es \<Longrightarrow> (Error r, v) \<in> set held \<Longrightarrow>
      writer_push_error_record w (Some r) s = Some (w', s') \<Longrightarrow>
      request_run s' held w' (es @ [v])"

text \<open>All references: those in hand and those of the writer.\<close>

definition all_references :: "(reference \<times> sv) list \<Rightarrow> writer \<Rightarrow> reference multiset" where
  "all_references held w = mset (map fst held) + mset (map Error (wr_records w))"

definition request_ok :: "error_store \<Rightarrow> (reference \<times> sv) list \<Rightarrow> writer \<Rightarrow> sv list \<Rightarrow> bool" where
  "request_ok s held w es \<longleftrightarrow> errors_inv s (all_references held w) \<and>
     (\<forall>(x, v) \<in> set held. reference_view s x = Some v) \<and>
     list_all2 (\<lambda>r e. reference_view s (Error r) = Some e) (wr_records w) es \<and>
     length (wr_records w) \<le> wr_capacity w"

text \<open>A step that leaves the views alone keeps what was expected of them.\<close>

lemma request_ok_views:
  assumes "request_ok s held w es" "set held' \<subseteq> set held"
    and "\<forall>x \<in># all_references held' w. reference_view s' x = reference_view s x"
  shows "\<forall>(x, v) \<in> set held'. reference_view s' x = Some v"
    and "list_all2 (\<lambda>r e. reference_view s' (Error r) = Some e) (wr_records w) es"
proof -
  show "\<forall>(x, v) \<in> set held'. reference_view s' x = Some v"
    using assms by (force simp: request_ok_def all_references_def)
  have "list_all2 (\<lambda>r e. reference_view s (Error r) = Some e) (wr_records w) es" using assms(1) by (simp add: request_ok_def)
  then show "list_all2 (\<lambda>r e. reference_view s' (Error r) = Some e) (wr_records w) es"
    using assms(3) by (auto simp: list_all2_conv_all_nth all_references_def)
qed

lemma request_ok_gain:
  assumes "request_ok s held w es" "errors_inv s' (add_mset x (all_references held w))"
    and "\<forall>y \<in># all_references held w. reference_view s' y = reference_view s y" "reference_view s' x = Some v"
  shows "request_ok s' ((x, v) # held) w es"
  using assms request_ok_views [OF assms(1) _ assms(3)] by (simp add: request_ok_def all_references_def)

lemma in_hand_view:
  assumes "request_ok s held w es" "in_hand held p segments"
  shows "Frame ` set_option p \<subseteq> set_mset (all_references held w)"
    and "path_frame_to_path_sv (es_frames s) p = Some (AV segments)"
  using assms
  by (force simp: in_hand_def request_ok_def all_references_def reference_view_def path_frame_to_path_sv_def
      path_segments.simps split: option.splits)+

lemma in_hand_reference: "(x, v) \<in> set held \<Longrightarrow> x \<in># all_references held w"
  by (force simp: all_references_def)

lemma request_invariant: "request_run s held w es \<Longrightarrow> request_ok s held w es"
proof (induction rule: request_run.induct)
  case start
  then show ?case using errors_inv_empty by (simp add: request_ok_def all_references_def new_writer_struct_def)
next
  case (open_frame s held w es parent segments key a fs)
  note hand = in_hand_view [OF open_frame.IH open_frame.hyps(2)]
  have "errors_inv s (all_references held w)" using open_frame.IH by (simp add: request_ok_def)
  from errors_new_frame [OF this hand(1) sets_key_fields [of key] hand(2)] open_frame.hyps(3) open_frame.IH
  show ?case by (auto simp: new_path_frame_struct_def intro: request_ok_gain)
next
  case (open_borrowed s held w es parent segments name a fs)
  note hand = in_hand_view [OF open_borrowed.IH open_borrowed.hyps(2)]
  have "errors_inv s (all_references held w)" using open_borrowed.IH by (simp add: request_ok_def)
  from errors_new_frame [OF this hand(1) sets_key_borrowed [of name] hand(2)] open_borrowed.hyps(3) open_borrowed.IH
  show ?case by (auto simp: new_path_frame_struct_pvn_borrowed_def intro: request_ok_gain)
next
  case (share_frame s held w es a v fs)
  then have "errors_inv s (all_references held w)" "reference_view s (Frame a) = Some v"
    by (auto simp: request_ok_def)
  with errors_incref_frame [OF this(1) in_hand_reference [OF share_frame.hyps(2)]] share_frame.hyps
    in_hand_reference [OF share_frame.hyps(2), of w] share_frame.IH
  show ?case by (auto intro: request_ok_gain)
next
  case (share_record s held w es r v s')
  then have "errors_inv s (all_references held w)" "reference_view s (Error r) = Some v"
    by (auto simp: request_ok_def)
  with errors_incref_record [OF this(1) in_hand_reference [OF share_record.hyps(2)]] share_record.hyps
    in_hand_reference [OF share_record.hyps(2), of w] share_record.IH
  show ?case by (auto intro: request_ok_gain)
next
  case (give_up s held w es x v s')
  let ?held = "remove1 (x, v) held"
  have "mset held = add_mset (x, v) (mset ?held)" using give_up.hyps(2) by simp
  then have "image_mset fst (mset held) = add_mset x (image_mset fst (mset ?held))" by (metis fst_conv image_mset_add_mset)
  then have split: "all_references held w = add_mset x (all_references ?held w)"
    by (simp only: all_references_def mset_map union_mset_add_mset_left)
  from give_up.IH have "errors_inv s (add_mset x (all_references ?held w))" by (simp add: request_ok_def split)
  from errors.release [OF this] give_up.hyps(3) have rel: "errors_inv s' (all_references ?held w)"
      "\<forall>b \<in># all_references ?held w. reference_view s' b = reference_view s b"
    by auto
  from request_ok_views [OF give_up.IH set_remove1_subset rel(2)] rel(1) give_up.IH show ?case
    by (simp add: request_ok_def)
next
  case (record_error s held w es path segments message r s')
  note hand = in_hand_view [OF record_error.IH record_error.hyps(2)]
  have "errors_inv s (all_references held w)" using record_error.IH by (simp add: request_ok_def)
  from errors_new_record [OF this hand, of message] record_error.hyps(3) record_error.IH
  show ?case by (auto simp: error_of_def intro: request_ok_gain)
next
  case (write_error s held w es r v w' s')
  then have inv: "errors_inv s (all_references held w)" "reference_view s (Error r) = Some v"
    and cap: "length (wr_records w) \<le> wr_capacity w"
    by (auto simp: request_ok_def)
  note r = in_hand_reference [OF write_error.hyps(2), of w]
  from errors_incref_record [OF inv(1) r] write_error.hyps(3) have step:
      "errors_inv s' (add_mset (Error r) (all_references held w))"
      "\<forall>x \<in># all_references held w. reference_view s' x = reference_view s x"
      and w': "wr_records w' = wr_records w @ [r]" "length (wr_records w') \<le> wr_capacity w'"
    using cap by (auto simp: writer_push_error_record_def Let_def bind_eq_Some_conv)
  from step(1) w'(1) have "errors_inv s' (all_references held w')" by (simp add: all_references_def)
  moreover have "reference_view s' (Error r) = Some v" using step(2) r inv(2) by simp
  ultimately show ?case
    using request_ok_views [OF write_error.IH subset_refl step(2)] w' by (simp add: request_ok_def list_all2_appendI)
qed

text \<open>Each step can be taken whenever the request holds what the step needs.\<close>

lemma run_open_frame:
  assumes "request_run s held w es" "in_hand held parent segments"
  shows "\<exists>a fs. new_path_frame_struct parent key (es_frames s) = Some (a, fs)"
proof -
  note ok = request_invariant [OF assms(1)]
  then have "errors_inv s (all_references held w)" by (simp add: request_ok_def)
  from errors_new_frame [OF this in_hand_view(1) [OF ok assms(2)] sets_key_fields [of key] in_hand_view(2) [OF ok assms(2)]]
  show ?thesis by (auto simp: new_path_frame_struct_def)
qed

lemma run_record_error:
  assumes "request_run s held w es" "in_hand held path segments"
  shows "\<exists>r s'. new_error_record_struct_for_path message path s = Some (r, s')"
proof -
  note ok = request_invariant [OF assms(1)]
  then have "errors_inv s (all_references held w)" by (simp add: request_ok_def)
  from errors_new_record [OF this in_hand_view [OF ok assms(2)], of message] show ?thesis by blast
qed

lemma run_write_error:
  assumes "request_run s held w es" "(Error r, v) \<in> set held"
  shows "\<exists>w' s'. writer_push_error_record w (Some r) s = Some (w', s')"
proof -
  have "errors_inv s (all_references held w)" using request_invariant [OF assms(1)] by (simp add: request_ok_def)
  from errors_incref_record [OF this in_hand_reference [OF assms(2)]] show ?thesis
    by (auto simp: writer_push_error_record_def Let_def)
qed

lemma run_give_up:
  assumes "request_run s held w es" "(x, v) \<in> set held"
  shows "\<exists>s'. release_reference x s = Some s'"
proof -
  have "errors_inv s (all_references held w)" using request_invariant [OF assms(1)] by (simp add: request_ok_def)
  then have "errors_inv s (add_mset x (all_references held w - {#x#}))" using in_hand_reference [OF assms(2)] by simp
  from errors.release [OF this] show ?thesis by blast
qed

lemma run_share:
  assumes "request_run s held w es" "(x, v) \<in> set held"
  shows "case x of Frame a \<Rightarrow> \<exists>fs. path_frame_incref a (es_frames s) = Some fs
    | Error r \<Rightarrow> \<exists>s'. error_record_incref r s = Some s'"
proof -
  have inv: "errors_inv s (all_references held w)" using request_invariant [OF assms(1)] by (simp add: request_ok_def)
  show ?thesis
    using errors_incref_frame [OF inv] errors_incref_record [OF inv] in_hand_reference [OF assms(2), of w]
    by (cases x) fastforce+
qed

text \<open>What the writer gives back.\<close>

lemma error_svs_views:
  "list_all2 (\<lambda>r e. reference_view s (Error r) = Some e) rs es \<Longrightarrow> error_svs s rs = Some es"
  by (induction rule: list_all2_induct) (simp_all add: reference_view_def)


text \<open>
  C38. No step reads freed memory: whenever a request holds the references a step needs, opening a
  frame, copying or giving up a reference, recording an error and writing it all succeed.
\<close>

theorem request_not_stuck:
  assumes "request_run s held w es" "in_hand held path segments" "(x, v) \<in> set held"
  shows "(\<exists>a fs. new_path_frame_struct path key (es_frames s) = Some (a, fs))
    \<and> (\<exists>r s'. new_error_record_struct_for_path message path s = Some (r, s'))
    \<and> (\<exists>s'. release_reference x s = Some s')
    \<and> (case x of Frame a \<Rightarrow> \<exists>fs. path_frame_incref a (es_frames s) = Some fs
       | Error r \<Rightarrow> (\<exists>s'. error_record_incref r s = Some s')
           \<and> (\<exists>w' s'. writer_push_error_record w (Some r) s = Some (w', s')))"
  using run_open_frame [OF assms(1,2)] run_record_error [OF assms(1,2)] run_give_up [OF assms(1,3)]
    run_share [OF assms(1,3)] run_write_error [OF assms(1)] assms(3)
  by (cases x) auto

section \<open>The end of a request\<close>

lemma release_records_all: "release_records rs = release_all release_reference (map Error rs)"
proof -
  have "release_reference (Error r) = error_record_decref r" for r by (simp add: fun_eq_iff release_reference_def)
  moreover have "release_records [] = release_all release_reference []" by (simp add: fun_eq_iff)
  moreover have "release_records (r # rs) = (\<lambda>s. Option.bind (error_record_decref r s) (release_records rs))" for r rs
    by (simp add: fun_eq_iff)
  moreover have "release_all release_reference (x # xs) =
      (\<lambda>s. Option.bind (release_reference x s) (release_all release_reference xs))" for x xs
    by (simp add: fun_eq_iff)
  ultimately show ?thesis by (induction rs) simp_all
qed

text \<open>
  Without references from outside, every live frame is the parent of a live frame; chains would have
  no longest one.
\<close>

lemma no_live_frames:
  assumes "frames_ok s L {#}"
  shows "L = {}"
proof (rule ccontr)
  assume "L \<noteq> {}"
  have fin: "finite L" using assms by (simp add: frames_ok_def cells_ok_def)
  have "\<forall>a \<in> L. \<exists>as. chain (fs_cells s) (Some a) as" using assms unfolding frames_ok_def cells_ok_def by blast
  then obtain ch where ch: "\<forall>a \<in> L. chain (fs_cells s) (Some a) (ch a)" by metis
  let ?m = "Max ((\<lambda>b. length (ch b)) ` L)"
  have "?m \<in> (\<lambda>b. length (ch b)) ` L" using fin \<open>L \<noteq> {}\<close> by (intro Max_in) auto
  then obtain a where "a \<in> L" "length (ch a) = ?m" by force
  moreover have "length (ch b) \<le> ?m" if "b \<in> L" for b using fin that by (intro Max_ge) auto
  ultimately have a: "a \<in> L" "\<forall>b \<in> L. length (ch b) \<le> length (ch a)" by simp_all
  have "0 < children (fs_cells s) L a"
    using assms a(1) unfolding frames_ok_def by (metis cells_okE count_empty add_0)
  then obtain b where "b \<in> L" "map_option pf_parent (fs_cells s b) = Some (Some a)"
    unfolding children_def using card_gt_0_iff [of "{b \<in> L. map_option pf_parent (fs_cells s b) = Some (Some a)}"] by blast
  moreover from this have "chain (fs_cells s) (Some b) (b # ch a)" using ch a(1) by auto
  ultimately have "ch b = b # ch a" using ch chain_unique by blast
  with a(2) \<open>b \<in> L\<close> show False by fastforce
qed

lemma no_references:
  assumes "errors_inv s {#}"
  shows "fs_live_count (es_frames s) = 0 \<and> es_records s = (\<lambda>r. None)"
proof -
  have "dom (es_records s) = {}" using assms by (simp add: errors_inv_def)
  then have none: "es_records s = (\<lambda>r. None)" by auto
  then have "frames_inv (es_frames s) {#}" using assms by (simp add: errors_inv_def record_paths_def)
  then obtain L where L: "frames_ok (es_frames s) L {#}" by (auto simp: frames_inv_def)
  with no_live_frames [OF this] none show ?thesis by (simp add: frames_ok_def pool_ok_def)
qed

text \<open>
  C39. Nothing leaks. From every state a request can reach, clearing the writer and then giving up
  the references in hand, in any order, succeeds and leaves no error record and no live frame: the
  live counter reads zero.
\<close>

theorem nothing_leaks:
  assumes "request_run s held w es" "mset xs = mset (map fst held)"
  shows "\<exists>w' s' s''. clear_writer_struct w s = Some (w', s') \<and> release_all release_reference xs s' = Some s''
    \<and> fs_live_count (es_frames s'') = 0 \<and> es_records s'' = (\<lambda>r. None)"
proof -
  have "errors_inv s (mset (map Error (rev (wr_records w))) + mset xs)"
    using request_invariant [OF assms(1)] assms(2) by (simp add: request_ok_def all_references_def ac_simps)
  from errors.release_list [OF this] obtain s' where s': "release_records (rev (wr_records w)) s = Some s'"
      "errors_inv s' (mset xs + {#})"
    unfolding release_records_all by auto
  from errors.release_list [OF s'(2)] s'(1) show ?thesis
    by (auto simp: clear_writer_struct_def dest: no_references)
qed

section \<open>A sample request\<close>

text \<open>
  A field \<open>user\<close> fails: its frame is opened, the error is recorded and written, and both references
  are given up.
\<close>

definition sample_error :: sv where
  "sample_error = HV [(''message'', PV False ''boom''), (''path'', AV [PV False ''user''])]"

lemma sample_error_of: "error_of (Some (PV False ''boom'')) [PV False ''user''] = sample_error"
  by (simp add: error_of_def sample_error_def defined_sv_def error_message_sv_def c_string_def hv_store_def
      store_path_def SvUTF8_def)

lemma sample_opened:
  "\<exists>s a. request_run s [(Frame a, AV [PV False ''user''])] new_writer_struct []"
proof -
  obtain a fs where "new_path_frame_struct None (Some (PV False ''user'')) (es_frames empty_errors) = Some (a, fs)"
    using run_open_frame [OF request_run.start, of None "[]" "Some (PV False ''user'')"] by (auto simp: in_hand_def)
  from request_run.open_frame [OF request_run.start _ this, of "[]"] show ?thesis
    by (auto simp: in_hand_def key_of_def defined_sv_def)
qed

lemma sample_written:
  "\<exists>s a r w. request_run s [(Error r, sample_error), (Frame a, AV [PV False ''user''])] w [sample_error]"
proof -
  from sample_opened obtain s a where run: "request_run s [(Frame a, AV [PV False ''user''])] new_writer_struct []" by blast
  have hand: "in_hand [(Frame a, AV [PV False ''user''])] (Some a) [PV False ''user'']" by (simp add: in_hand_def)
  obtain r s' where "new_error_record_struct_for_path (Some (PV False ''boom'')) (Some a) s = Some (r, s')"
    using run_record_error [OF run hand] by blast
  from request_run.record_error [OF run hand this] have run':
      "request_run s' [(Error r, sample_error), (Frame a, AV [PV False ''user''])] new_writer_struct []"
    by (simp add: sample_error_of)
  obtain w s'' where "writer_push_error_record new_writer_struct (Some r) s' = Some (w, s'')"
    using run_write_error [OF run', of r sample_error] by auto
  from request_run.write_error [OF run' _ this, of sample_error] show ?thesis by auto
qed

lemma sample_finished: "\<exists>s w. request_run s [] w [sample_error]"
proof -
  from sample_written obtain s a r w where
      run: "request_run s [(Error r, sample_error), (Frame a, AV [PV False ''user''])] w [sample_error]"
    by blast
  obtain s' where "release_reference (Error r) s = Some s'" using run_give_up [OF run, of "Error r" sample_error] by auto
  from request_run.give_up [OF run _ this, of sample_error] have
      run': "request_run s' [(Frame a, AV [PV False ''user''])] w [sample_error]"
    by simp
  obtain s'' where "release_reference (Frame a) s' = Some s''"
    using run_give_up [OF run', of "Frame a" "AV [PV False ''user'']"] by auto
  from request_run.give_up [OF run' _ this, of "AV [PV False ''user'']"] show ?thesis by auto
qed


theorem request_not_stuck_witness:
  "\<exists>s a w. request_run s [(Frame a, AV [PV False ''user''])] w [] \<and>
    (\<exists>r s'. new_error_record_struct_for_path (Some (PV False ''boom'')) (Some a) s = Some (r, s')) \<and>
    (\<exists>s'. release_reference (Frame a) s = Some s')"
proof -
  from sample_opened obtain s a where run: "request_run s [(Frame a, AV [PV False ''user''])] new_writer_struct []" by blast
  have "in_hand [(Frame a, AV [PV False ''user''])] (Some a) [PV False ''user'']" by (simp add: in_hand_def)
  from request_not_stuck [OF run this, of "Frame a" "AV [PV False ''user'']" None "Some (PV False ''boom'')"] run
  show ?thesis by auto
qed

theorem nothing_leaks_witness:
  "\<exists>s a r w w' s' s''. request_run s [(Error r, sample_error), (Frame a, AV [PV False ''user''])] w [sample_error] \<and>
    clear_writer_struct w s = Some (w', s') \<and> release_all release_reference [Frame a, Error r] s' = Some s'' \<and>
    fs_live_count (es_frames s'') = 0 \<and> es_records s'' = (\<lambda>r. None)"
proof -
  from sample_written obtain s a r w where
      run: "request_run s [(Error r, sample_error), (Frame a, AV [PV False ''user''])] w [sample_error]"
    by blast
  from nothing_leaks [OF this, of "[Frame a, Error r]"] run show ?thesis by (simp add: add_mset_commute) blast
qed

end
