(* ===== verification/VM_Outcomes.thy ===== *)
theory VM_Outcomes
  imports VM_Errors_Lemmas
begin

text \<open>
  Outcomes: what a field delivers to the response. The two ways to consume one, into the hash of the
  Perl lane and into the tree of the native lane, give the same data and the same errors.
\<close>

section \<open>The value of an outcome\<close>

lemma completed_from_sv: "native_value_from_completed_sv v = native_value_from_sv v"
  by (cases v) (simp_all add: native_value_from_completed_sv_def)

lemma outcome_value_cases:
  "outcome_value kind value = native_value_from_sv (ok_or_undef value) \<or>
   outcome_value kind value = new_native_value_scalar (ok_or_undef value)"
  by (cases "ok_or_undef value")
    (simp_all add: outcome_value_def Let_def completed_from_sv native_value_from_sv.simps split_def foldl_map
      del: native_from_simps)

lemma scalar_outcome:
  "plain_sv v \<Longrightarrow> native_value_materialize_sv (new_native_value_scalar v) = v"
  by (cases v) (simp_all add: native_scalar_simps)

lemma scalar_outcome_clone:
  "plain_sv v \<Longrightarrow> unflag_empty v = v \<Longrightarrow> native_value_materialize_sv (native_value_clone (new_native_value_scalar v)) = v"
  by (cases v) (auto simp: native_scalar_simps split: if_splits)

lemma outcome_materialize:
  assumes "plain_sv (ok_or_undef value)"
  shows "native_value_materialize_sv (outcome_value kind value) = ok_or_undef value"
  using outcome_value_cases [of kind "value"] native_tree_value [OF assms] scalar_outcome [OF assms] by auto

lemma outcome_materialize_clone:
  assumes "plain_sv (ok_or_undef value)" "unflag_empty (ok_or_undef value) = ok_or_undef value"
  shows "native_value_materialize_sv (native_value_clone (outcome_value kind value)) = ok_or_undef value"
  using outcome_value_cases [of kind "value"] native_clone_value [OF assms(1)] scalar_outcome_clone [OF assms] assms(2)
  by auto

lemma hv_of_append: "hv_of (xs @ [(k, v)]) = hv_store (hv_of xs) k v"
  by (simp add: hv_of_def)

lemma materialize_store:
  assumes "native_value_materialize_sv (N_OBJECT entries) = HV h"
  shows "native_value_materialize_sv (native_object_store (N_OBJECT entries) name v) =
    HV (hv_store h name (native_value_materialize_sv v))"
  using assms by (simp add: native_object_store_def hv_of_append)

text \<open>
  C40. Consuming an outcome into the native tree and into the hash agree: for a value without
  references to code or objects, shared or not, the tree stands for the hash afterwards, the new
  entry is the value the field delivered, and the writer has the same errors in the same store.
\<close>

theorem consume_lanes_agree:
  assumes "new_outcome_struct kind value errors s = Some (o', t)"
    and "plain_sv (ok_or_undef value)" "unflag_empty (ok_or_undef value) = ok_or_undef value"
    and "native_value_materialize_sv (N_OBJECT entries) = HV h"
  shows "map_option (\<lambda>(data, o'', w, s). (native_value_materialize_sv data, w, s))
      (consume_outcome_native_object (N_OBJECT entries) name (o'\<lparr>oc_refcount := n\<rparr>) w t) =
    map_option (\<lambda>(data, w, s). (HV data, w, s)) (consume_outcome_struct h name (o'\<lparr>oc_refcount := n\<rparr>) w t)
    \<and> pred_option (\<lambda>(data, w, s). data = hv_store h name (ok_or_undef value))
      (consume_outcome_struct h name (o'\<lparr>oc_refcount := n\<rparr>) w t)"
proof -
  have v: "oc_value o' = Some (outcome_value kind value)"
    using assms(1) by (auto simp: new_outcome_struct_def bind_eq_Some_conv Let_def)
  have errors: "consume_errors (o'\<lparr>oc_refcount := m, oc_value := x\<rparr>) w t = consume_errors (o'\<lparr>oc_refcount := m\<rparr>) w t" for m x
    by (cases w) (simp_all add: consume_errors_def)
  note data = materialize_store [OF assms(4)] outcome_materialize [OF assms(2), of kind]
    outcome_materialize_clone [OF assms(2,3), of kind]
  show ?thesis
    by (cases "n = 1"; cases "consume_errors (o'\<lparr>oc_refcount := n\<rparr>) w t")
      (auto simp: consume_outcome_native_object_def consume_outcome_struct_def v data errors Let_def)
qed

theorem consume_lanes_agree_witness:
  "map_option (\<lambda>(data, o'', w, s). native_value_materialize_sv data)
    (consume_outcome_native_object (N_OBJECT []) ''id''
      (\<lparr>oc_refcount = 2, oc_kind_code = GQL_VM_KIND_SCALAR, oc_value = Some (outcome_value GQL_VM_KIND_SCALAR (Some (IV 7))),
        oc_error_records = [], oc_null_carries_error = False\<rparr>) (Some new_writer_struct) empty_errors) =
    Some (HV [(''id'', IV 7)])"
proof -
  let ?o = "\<lparr>oc_refcount = 1, oc_kind_code = GQL_VM_KIND_SCALAR, oc_value = Some (outcome_value GQL_VM_KIND_SCALAR (Some (IV 7))),
    oc_error_records = [], oc_null_carries_error = False\<rparr>"
  have made: "new_outcome_struct GQL_VM_KIND_SCALAR (Some (IV 7)) None empty_errors = Some (?o, empty_errors)"
    by (simp add: new_outcome_struct_def)
  have "plain_sv (ok_or_undef (Some (IV 7)))" "unflag_empty (ok_or_undef (Some (IV 7))) = ok_or_undef (Some (IV 7))"
    "native_value_materialize_sv (N_OBJECT []) = HV []"
    by (simp_all add: ok_or_undef_def iv_range_def hv_of_def)
  from consume_lanes_agree [OF made this, of "''id''" 2 "Some new_writer_struct"] show ?thesis
    by (auto simp: consume_outcome_struct_def consume_errors_def ok_or_undef_def hv_store_def new_writer_struct_def)
qed

end
