(* ===== verification/VM_Types.thy ===== *)
theory VM_Types
  imports VM_Arguments
begin

text \<open>
  The object type of a value of an interface or union (\<^verbatim>\<open>src/vm_runtime.h\<close>, lines 2312 to 2405 and
  3134 to 3481, and the two lanes of \<^verbatim>\<open>lib/GraphQL/Houtou.xs\<close> that pick the block for it). The code
  asks Perl callbacks: a tag resolver, \<open>resolve_type\<close>, and \<open>is_type_of\<close> of each possible type. They
  may change the state of the application, so they pass on a world \<open>'w\<close>.
\<close>

section \<open>Calls into Perl\<close>

text \<open>\<open>Croaked\<close> leaves the C code as an exception, \<open>Reported\<close> is what \<^verbatim>\<open>*error_out\<close> holds.\<close>

datatype failure = Croaked perl_exception | Reported perl_exception

type_synonym ('a, 'w) run = "'w \<Rightarrow> (failure + 'a) \<times> 'w"

definition give :: "'a \<Rightarrow> ('a, 'w) run" where
  "give a w = (Inr a, w)"

definition fail :: "failure \<Rightarrow> ('a, 'w) run" where
  "fail e w = (Inl e, w)"

definition and_then :: "('a, 'w) run \<Rightarrow> ('a \<Rightarrow> ('b, 'w) run) \<Rightarrow> ('b, 'w) run" where
  "and_then m f w = (case m w of (Inl e, w') \<Rightarrow> (Inl e, w') | (Inr a, w') \<Rightarrow> f a w')"

lemma and_then_give [simp]: "and_then (give a) f = f a" "and_then m give = m"
  by (auto simp: and_then_def give_def fun_eq_iff split: prod.splits sum.splits)

lemma and_then_fail [simp]: "and_then (fail e) f = fail e"
  by (auto simp: and_then_def fail_def fun_eq_iff)

lemma and_then_assoc [simp]: "and_then (and_then m f) g = and_then m (\<lambda>a. and_then (f a) g)"
  by (auto simp: and_then_def fun_eq_iff split: prod.splits sum.splits)

text \<open>
  \<open>tc_hash\<close> is the hash behind a blessed object, \<open>tc_call\<close> a call of a code reference under
  \<^verbatim>\<open>G_SCALAR | G_EVAL\<close>, \<open>tc_name\<close> the method \<^verbatim>\<open>name\<close> of an object that is not a hash.
\<close>

record 'w type_calls =
  tc_hash :: "sv \<Rightarrow> hv option"
  tc_call :: "sv \<Rightarrow> sv list \<Rightarrow> 'w \<Rightarrow> sv coerced \<times> 'w"
  tc_name :: "sv \<Rightarrow> 'w \<Rightarrow> sv coerced \<times> 'w"

definition hash_ref :: "'w type_calls \<Rightarrow> sv option \<Rightarrow> hv option" where
  "hash_ref tc v =
     (case v of
        Some (HV h) \<Rightarrow> Some h
      | Some x \<Rightarrow> if SvROK x then tc_hash tc x else None
      | None \<Rightarrow> None)"

lemma hash_ref_simps [simp]:
  "hash_ref tc None = None" "hash_ref tc (Some (HV h)) = Some h" "hash_ref tc (Some Undef) = None"
  by (simp_all add: hash_ref_def SvROK_def)

definition dispatch_hash_fetch :: "'w type_calls \<Rightarrow> sv option \<Rightarrow> string \<Rightarrow> sv option" where
  "dispatch_hash_fetch tc dispatch key =
     (case hash_ref tc dispatch of Some h \<Rightarrow> hv_fetch h key | None \<Rightarrow> None)"

definition hash_lookup_ent_sv :: "'w type_calls \<Rightarrow> sv option \<Rightarrow> sv option \<Rightarrow> sv option" where
  "hash_lookup_ent_sv tc hv key =
     (case (hash_ref tc hv, key) of (Some h, Some k) \<Rightarrow> hv_fetch h (SvPV k) | _ \<Rightarrow> None)"

definition answer :: "sv coerced \<times> 'w \<Rightarrow> (failure + sv) \<times> 'w" where
  "answer r = (case r of (Inl e, w) \<Rightarrow> (Inl (Reported e), w) | (Inr v, w) \<Rightarrow> (Inr v, w))"

definition call_cb4_nonfatal :: "'w type_calls \<Rightarrow> sv \<Rightarrow> sv list \<Rightarrow> (sv, 'w) run" where
  "call_cb4_nonfatal tc cb args w = answer (tc_call tc cb args w)"

definition call_cb_scalar :: "'w type_calls \<Rightarrow> sv option \<Rightarrow> sv list \<Rightarrow> (sv option, 'w) run" where
  "call_cb_scalar tc cb args =
     (case defined_sv cb of
        None \<Rightarrow> give None
      | Some f \<Rightarrow> and_then (call_cb4_nonfatal tc f args) (\<lambda>v. give (Some v)))"

definition name_of_type :: "'w type_calls \<Rightarrow> sv \<Rightarrow> (sv, 'w) run" where
  "name_of_type tc t =
     (case dispatch_hash_fetch tc (Some t) ''name'' of
        Some n \<Rightarrow> give n
      | None \<Rightarrow> (\<lambda>w. case tc_name tc t w of (Inl e, w') \<Rightarrow> (Inl (Croaked e), w') | (Inr n, w') \<Rightarrow> (Inr n, w')))"

section \<open>The Perl path\<close>

definition by_tag :: "'w type_calls \<Rightarrow> sv option \<Rightarrow> sv option \<Rightarrow> sv list \<Rightarrow> (sv option, 'w) run" where
  "by_tag tc tag_resolver tag_map args =
     (case tag_resolver of
        None \<Rightarrow> give None
      | Some resolver \<Rightarrow>
          and_then (call_cb_scalar tc (Some resolver) args) (\<lambda>tag.
          give (case defined_sv tag of
                  None \<Rightarrow> None
                | Some t \<Rightarrow> defined_sv (hash_lookup_ent_sv tc tag_map (Some t)))))"

text \<open>\<open>None\<close>: no answer, the search goes on. \<open>Some r\<close>: the search ends with \<open>r\<close>.\<close>

definition by_resolve_type ::
  "'w type_calls \<Rightarrow> sv option \<Rightarrow> sv option \<Rightarrow> sv list \<Rightarrow> (sv option option, 'w) run"
where
  "by_resolve_type tc resolve_type name2type args =
     (case resolve_type of
        None \<Rightarrow> give None
      | Some resolver \<Rightarrow>
          and_then (call_cb_scalar tc (Some resolver) args) (\<lambda>resolved.
          give (case defined_sv resolved of
                  None \<Rightarrow> None
                | Some t \<Rightarrow>
                    Some (if SvROK t then Some t else defined_sv (hash_lookup_ent_sv tc name2type (Some t))))))"

primrec first_matching_type ::
  "'w type_calls \<Rightarrow> sv option \<Rightarrow> sv list \<Rightarrow> sv list \<Rightarrow> (sv option, 'w) run"
where
  "first_matching_type tc is_type_of_map args [] = give None"
| "first_matching_type tc is_type_of_map args (t # ts) =
     (if \<not> SvOK t then first_matching_type tc is_type_of_map args ts
      else
        and_then (name_of_type tc t) (\<lambda>name.
        case defined_sv (hash_lookup_ent_sv tc is_type_of_map (Some name)) of
          None \<Rightarrow> first_matching_type tc is_type_of_map args ts
        | Some cb \<Rightarrow>
            and_then (call_cb_scalar tc (Some cb) (args @ [t])) (\<lambda>matched.
            if SvTRUE (ok_or_undef matched) then give (Some t)
            else first_matching_type tc is_type_of_map args ts)))"

record type_sources =
  ts_tag_resolver :: "sv option"
  ts_tag_map :: "sv option"
  ts_resolve_type :: "sv option"
  ts_name2type :: "sv option"
  ts_possible_types :: "sv option"
  ts_is_type_of_map :: "sv option"

definition resolve_from ::
  "'w type_calls \<Rightarrow> type_sources \<Rightarrow> sv list \<Rightarrow> sv \<Rightarrow> (sv option, 'w) run"
where
  "resolve_from tc src args abstract_type =
     and_then (by_tag tc (ts_tag_resolver src) (ts_tag_map src) (args @ [abstract_type])) (\<lambda>tagged.
     if tagged \<noteq> None then give tagged
     else
       and_then (by_resolve_type tc (ts_resolve_type src) (ts_name2type src) (args @ [abstract_type])) (\<lambda>resolved.
       case resolved of
         Some r \<Rightarrow> give r
       | None \<Rightarrow>
           (case ts_possible_types src of
              Some (AV types) \<Rightarrow> first_matching_type tc (ts_is_type_of_map src) args types
            | _ \<Rightarrow> give None)))"

definition resolve_runtime_type_sv ::
  "'w type_calls \<Rightarrow> sv option \<Rightarrow> sv option \<Rightarrow> sv option \<Rightarrow> sv option \<Rightarrow> sv option \<Rightarrow> sv option \<Rightarrow> (sv option, 'w) run"
where
  "resolve_runtime_type_sv tc dispatch cache value context info abstract_type =
     (let fetch = dispatch_hash_fetch tc dispatch; cached = dispatch_hash_fetch tc cache;
          or_cached = (\<lambda>key. case fetch key of Some v \<Rightarrow> Some v | None \<Rightarrow> cached key)
      in resolve_from tc
           \<lparr>ts_tag_resolver = fetch ''tag_resolver'', ts_tag_map = fetch ''tag_map'',
            ts_resolve_type = fetch ''resolve_type'', ts_name2type = or_cached ''name2type'',
            ts_possible_types =
              (case fetch ''possible_types'' of
                 Some v \<Rightarrow> Some v
               | None \<Rightarrow> hash_lookup_ent_sv tc (cached ''possible_types'') (fetch ''abstract_name'')),
            ts_is_type_of_map = or_cached ''is_type_of_map''\<rparr>
           [ok_or_undef value, ok_or_undef context, ok_or_undef info] (ok_or_undef abstract_type))"

definition resolve_runtime_type_for_abstract_sv ::
  "'w type_calls \<Rightarrow> sv option \<Rightarrow> string option \<Rightarrow> sv option \<Rightarrow> sv option \<Rightarrow> sv option \<Rightarrow> sv option \<Rightarrow> (sv option, 'w) run"
where
  "resolve_runtime_type_for_abstract_sv tc cache abstract_name value context info abstract_type =
     (case (hash_ref tc cache, abstract_name) of
        (Some h, Some name) \<Rightarrow>
          (let cached = dispatch_hash_fetch tc cache;
               entry = (\<lambda>key. hash_lookup_ent_sv tc (cached key) (Some (PV False name)))
           in resolve_from tc
                \<lparr>ts_tag_resolver = entry ''tag_resolver_map'', ts_tag_map = entry ''runtime_tag_map'',
                 ts_resolve_type = entry ''resolve_type_map'', ts_name2type = cached ''name2type'',
                 ts_possible_types = entry ''possible_types'', ts_is_type_of_map = cached ''is_type_of_map''\<rparr>
                [ok_or_undef value, ok_or_undef context, ok_or_undef info] (ok_or_undef abstract_type))
      | _ \<Rightarrow> give None)"

definition type_name_from_sv :: "'w type_calls \<Rightarrow> sv option \<Rightarrow> string option" where
  "type_name_from_sv tc v =
     (case defined_sv v of
        None \<Rightarrow> None
      | Some x \<Rightarrow>
          (case hash_ref tc (Some x) of
             Some h \<Rightarrow> map_option SvPV (fetch_hash_entry_sv h ''name'')
           | None \<Rightarrow> if SvPOK x then Some (SvPV x) else None))"

definition find_abstract_child_block_index :: "native_op \<Rightarrow> string option \<Rightarrow> int" where
  "find_abstract_child_block_index op type_name =
     (case type_name of
        None \<Rightarrow> - 1
      | Some n \<Rightarrow>
          (case op_abstract_children op of
             [(name, i)] \<Rightarrow> if name = n then i else - 1
           | children \<Rightarrow> (case map_of children n of Some i \<Rightarrow> i | None \<Rightarrow> - 1)))"

section \<open>The callback catalog\<close>

text \<open>Entry by entry of the arrays of the catalog. Entries the loop skips stay zero.\<close>

record tag_entry =
  te_tag_name :: string
  te_type_name :: "string option"

record possible_type_entry =
  pe_type_name :: "string option"
  pe_type_sv :: "sv option"
  pe_is_type_of_cb :: "sv option"

record slot_callbacks =
  sc_type_object :: "sv option"
  sc_tag_resolver :: "sv option"
  sc_resolve_type :: "sv option"
  sc_tag_entries :: "tag_entry list"
  sc_possible_types :: "possible_type_entry list"
  sc_leaf_kind :: int
  sc_leaf_payload :: "sv option"

record cache_maps =
  cm_name2type :: "hv option"
  cm_tag_resolver_map :: "hv option"
  cm_runtime_tag_map :: "hv option"
  cm_resolve_type_map :: "hv option"
  cm_possible_types :: "hv option"
  cm_is_type_of_map :: "hv option"
  cm_leaf_kind_map :: "hv option"
  cm_enum_values_map :: "hv option"
  cm_serialize_map :: "hv option"

definition expect_hashref :: "'w type_calls \<Rightarrow> sv option \<Rightarrow> string \<Rightarrow> hv vm" where
  "expect_hashref tc v what =
     (case hash_ref tc v of Some h \<Rightarrow> Inr h | None \<Rightarrow> Inl (VM_Croak (what @ '' must be a hash reference'')))"

definition cache_map :: "'w type_calls \<Rightarrow> hv \<Rightarrow> string \<Rightarrow> hv option vm" where
  "cache_map tc cache key =
     (case fetch_hash_entry_sv cache key of
        None \<Rightarrow> Inr None
      | Some v \<Rightarrow> bnd (expect_hashref tc (Some v) (''runtime_cache '' @ key)) (\<lambda>h. Inr (Some h)))"

definition runtime_cache_maps :: "'w type_calls \<Rightarrow> hv \<Rightarrow> cache_maps vm" where
  "runtime_cache_maps tc cache =
     bnd (cache_map tc cache ''name2type'') (\<lambda>name2type.
     bnd (cache_map tc cache ''tag_resolver_map'') (\<lambda>tag_resolver_map.
     bnd (cache_map tc cache ''runtime_tag_map'') (\<lambda>runtime_tag_map.
     bnd (cache_map tc cache ''resolve_type_map'') (\<lambda>resolve_type_map.
     bnd (cache_map tc cache ''possible_types'') (\<lambda>possible_types.
     bnd (cache_map tc cache ''is_type_of_map'') (\<lambda>is_type_of_map.
     bnd (cache_map tc cache ''leaf_kind_map'') (\<lambda>leaf_kind_map.
     bnd (cache_map tc cache ''enum_values_map'') (\<lambda>enum_values_map.
     bnd (cache_map tc cache ''serialize_map'') (\<lambda>serialize_map.
     Inr \<lparr>cm_name2type = name2type, cm_tag_resolver_map = tag_resolver_map,
          cm_runtime_tag_map = runtime_tag_map, cm_resolve_type_map = resolve_type_map,
          cm_possible_types = possible_types, cm_is_type_of_map = is_type_of_map,
          cm_leaf_kind_map = leaf_kind_map, cm_enum_values_map = enum_values_map,
          cm_serialize_map = serialize_map\<rparr>)))))))))"

definition map_entry :: "hv option \<Rightarrow> string \<Rightarrow> sv option" where
  "map_entry m name = (case m of Some h \<Rightarrow> fetch_hash_entry_sv h name | None \<Rightarrow> None)"

definition no_possible_type :: possible_type_entry where
  "no_possible_type = \<lparr>pe_type_name = None, pe_type_sv = None, pe_is_type_of_cb = None\<rparr>"

definition possible_type_entry_of :: "'w type_calls \<Rightarrow> hv \<Rightarrow> sv \<Rightarrow> possible_type_entry" where
  "possible_type_entry_of tc is_type_of_map t =
     (if \<not> SvOK t then no_possible_type
      else (case type_name_from_sv tc (Some t) of
        None \<Rightarrow> no_possible_type
      | Some name \<Rightarrow>
          (case fetch_hash_entry_sv is_type_of_map name of
             None \<Rightarrow> no_possible_type
           | Some cb \<Rightarrow> \<lparr>pe_type_name = Some name, pe_type_sv = Some t, pe_is_type_of_cb = Some cb\<rparr>)))"

definition tag_entries_of :: "'w type_calls \<Rightarrow> cache_maps \<Rightarrow> string \<Rightarrow> tag_entry list" where
  "tag_entries_of tc maps name =
     (case hash_ref tc (map_entry (cm_runtime_tag_map maps) name) of
        None \<Rightarrow> []
      | Some h \<Rightarrow> map (\<lambda>(tag, t). \<lparr>te_tag_name = tag, te_type_name = type_name_from_sv tc (Some t)\<rparr>) h)"

definition possible_types_of :: "'w type_calls \<Rightarrow> cache_maps \<Rightarrow> string \<Rightarrow> possible_type_entry list" where
  "possible_types_of tc maps name =
     (case (cm_is_type_of_map maps, map_entry (cm_possible_types maps) name) of
        (Some callbacks, Some (AV types)) \<Rightarrow> map (possible_type_entry_of tc callbacks) types
      | _ \<Rightarrow> [])"

definition GQL_VM_LEAF_NONE :: int where "GQL_VM_LEAF_NONE = 0"
definition GQL_VM_LEAF_ENUM :: int where "GQL_VM_LEAF_ENUM = 6"
definition GQL_VM_LEAF_CUSTOM :: int where "GQL_VM_LEAF_CUSTOM = 7"

definition leaf_kind_of :: "cache_maps \<Rightarrow> string \<Rightarrow> int" where
  "leaf_kind_of maps name = iv_or GQL_VM_LEAF_NONE (map_entry (cm_leaf_kind_map maps) name)"

definition leaf_payload_of :: "cache_maps \<Rightarrow> string \<Rightarrow> sv option" where
  "leaf_payload_of maps name =
     (if leaf_kind_of maps name = GQL_VM_LEAF_ENUM then map_entry (cm_enum_values_map maps) name
      else if leaf_kind_of maps name = GQL_VM_LEAF_CUSTOM then map_entry (cm_serialize_map maps) name
      else None)"

definition callbacks_of_slot :: "'w type_calls \<Rightarrow> cache_maps \<Rightarrow> native_slot \<Rightarrow> slot_callbacks" where
  "callbacks_of_slot tc maps slot =
     (let name = so_return_type_name slot
      in \<lparr>sc_type_object = map_entry (cm_name2type maps) name,
          sc_tag_resolver = map_entry (cm_tag_resolver_map maps) name,
          sc_resolve_type = map_entry (cm_resolve_type_map maps) name,
          sc_tag_entries = tag_entries_of tc maps name,
          sc_possible_types = possible_types_of tc maps name,
          sc_leaf_kind = leaf_kind_of maps name, sc_leaf_payload = leaf_payload_of maps name\<rparr>)"

definition no_callbacks :: slot_callbacks where
  "no_callbacks =
     \<lparr>sc_type_object = None, sc_tag_resolver = None, sc_resolve_type = None, sc_tag_entries = [],
      sc_possible_types = [], sc_leaf_kind = GQL_VM_LEAF_NONE, sc_leaf_payload = None\<rparr>"

fun callbacks_of_slots :: "'w type_calls \<Rightarrow> cache_maps \<Rightarrow> nat \<Rightarrow> native_slot list \<Rightarrow> slot_callbacks list vm" where
  "callbacks_of_slots tc maps i [] = Inr []"
| "callbacks_of_slots tc maps i (slot # slots) =
     (let c = callbacks_of_slot tc maps slot
      in if so_callback_abi_code slot \<noteq> GQL_VM_CALLBACK_ABI_DEFAULT \<and> sc_type_object c = None then
           Inl (VM_Croak (''runtime schema slot_catalog entry '' @ dec_int (int i) @
             '' is missing direct slot_type_object for callback ABI '' @ dec_int (so_callback_abi_code slot)))
         else bnd (callbacks_of_slots tc maps (Suc i) slots) (\<lambda>cs. Inr (c # cs)))"

definition callback_catalog :: "'w type_calls \<Rightarrow> cache_maps \<Rightarrow> native_slot list \<Rightarrow> slot_callbacks list vm" where
  "callback_catalog tc maps slots =
     (if cm_name2type maps = None then Inr (map (\<lambda>slot. no_callbacks) slots)
      else callbacks_of_slots tc maps 0 slots)"

end
