(* ===== verification/VM_Dispatch.thy ===== *)
theory VM_Dispatch
  imports VM_Types
begin

text \<open>
  The two lanes that choose the block for a value of an interface or union: the lane of synchronous
  requests asks the callback catalog, the lane of the others the hashes of the runtime cache. On
  a schema and an operation that fit together they choose the same block, make the same calls in
  the same order, and fail alike. Where a tag resolver has no \<open>resolve_type\<close> beside it, they differ.
\<close>

section \<open>The lane with the callback catalog\<close>

definition GQL_VM_DISPATCH_RESOLVE_TYPE :: int where "GQL_VM_DISPATCH_RESOLVE_TYPE = 2"
definition GQL_VM_DISPATCH_TAG :: int where "GQL_VM_DISPATCH_TAG = 3"
definition GQL_VM_DISPATCH_POSSIBLE_TYPES :: int where "GQL_VM_DISPATCH_POSSIBLE_TYPES = 4"

lemmas dispatch_codes = GQL_VM_DISPATCH_RESOLVE_TYPE_def GQL_VM_DISPATCH_TAG_def
  GQL_VM_DISPATCH_POSSIBLE_TYPES_def

definition slot_callbacks_at :: "slot_callbacks list option \<Rightarrow> int \<Rightarrow> slot_callbacks option" where
  "slot_callbacks_at runtime slot_index =
     (case runtime of None \<Rightarrow> None | Some catalog \<Rightarrow> at_index catalog slot_index)"

definition find_tagged_type_name :: "slot_callbacks list option \<Rightarrow> int \<Rightarrow> sv \<Rightarrow> string option" where
  "find_tagged_type_name runtime slot_index tag =
     (case slot_callbacks_at runtime slot_index of
        None \<Rightarrow> None
      | Some c \<Rightarrow>
          if \<not> SvOK tag then None
          else (case find (\<lambda>e. te_tag_name e = SvPV tag) (sc_tag_entries c) of
                  Some e \<Rightarrow> te_type_name e
                | None \<Rightarrow> None))"

primrec match_entries ::
  "'w type_calls \<Rightarrow> sv list \<Rightarrow> possible_type_entry list \<Rightarrow> (possible_type_entry option, 'w) run"
where
  "match_entries tc args [] = give None"
| "match_entries tc args (e # es) =
     (case (pe_type_sv e, pe_is_type_of_cb e) of
        (Some t, Some cb) \<Rightarrow>
          and_then (call_cb4_nonfatal tc cb (args @ [t])) (\<lambda>ok.
          if SvTRUE ok then give (Some e) else match_entries tc args es)
      | _ \<Rightarrow> match_entries tc args es)"

definition find_matching_possible_type ::
  "'w type_calls \<Rightarrow> slot_callbacks list option \<Rightarrow> int \<Rightarrow> sv \<Rightarrow> sv \<Rightarrow> sv option \<Rightarrow> (possible_type_entry option, 'w) run"
where
  "find_matching_possible_type tc runtime slot_index value context info =
     (case slot_callbacks_at runtime slot_index of
        None \<Rightarrow> give None
      | Some c \<Rightarrow> match_entries tc [value, context, ok_or_undef info] (sc_possible_types c))"

definition slot_uses_native_fast_abi :: "native_slot \<Rightarrow> bool" where
  "slot_uses_native_fast_abi slot \<longleftrightarrow>
     so_callback_abi_code slot = GQL_VM_CALLBACK_ABI_EXPLICIT_NATIVE
     \<or> so_callback_abi_code slot = GQL_VM_CALLBACK_ABI_EXPLICIT_NATIVE_NO_ARGS
     \<or> so_callback_abi_code slot = GQL_VM_CALLBACK_ABI_EXPLICIT_NATIVE_ONE_ARG"

definition from_vm :: "'a vm \<Rightarrow> ('a, 'w) run" where
  "from_vm r = (case r of Inl (VM_Croak message) \<Rightarrow> fail (Croaked (Plain_Exception False message)) | Inr a \<Rightarrow> give a)"

definition fetch_runtime_cache_hv :: "'w type_calls \<Rightarrow> sv \<Rightarrow> hv option vm" where
  "fetch_runtime_cache_hv tc runtime_schema =
     bnd (expect_hashref tc (Some runtime_schema) ''runtime schema'') (\<lambda>schema.
     case fetch_hash_entry_sv schema ''runtime_cache'' of
       None \<Rightarrow> Inr None
     | Some cache \<Rightarrow>
         bnd (expect_hashref tc (Some cache) ''runtime schema runtime_cache'') (\<lambda>h. Inr (Some h)))"

definition lookup_type_object_by_name_sv :: "'w type_calls \<Rightarrow> sv \<Rightarrow> string \<Rightarrow> sv option vm" where
  "lookup_type_object_by_name_sv tc runtime_schema type_name =
     (if \<not> SvOK runtime_schema \<or> type_name = [] then Inr None
      else
        bnd (fetch_runtime_cache_hv tc runtime_schema) (\<lambda>cache.
        Inr (case cache of
               None \<Rightarrow> None
             | Some h \<Rightarrow>
                 (case hash_ref tc (fetch_hash_entry_sv h ''name2type'') of
                    None \<Rightarrow> None
                  | Some name2type \<Rightarrow> fetch_hash_entry_sv name2type type_name))))"

definition lookup_slot_type_object_sv ::
  "'w type_calls \<Rightarrow> slot_callbacks list option \<Rightarrow> sv \<Rightarrow> native_slot \<Rightarrow> sv option vm"
where
  "lookup_slot_type_object_sv tc runtime runtime_schema slot =
     (case Option.bind (slot_callbacks_at runtime (so_schema_slot_index slot)) sc_type_object of
        Some t \<Rightarrow> Inr (Some t)
      | None \<Rightarrow>
          if so_return_type_name slot \<noteq> [] then
            lookup_type_object_by_name_sv tc runtime_schema (so_return_type_name slot)
          else Inr None)"

text \<open>
  The arguments of the two kinds of callback. With the native interface the tag resolver gets the
  abstract type in third place and \<open>resolve_type\<close> in fourth.
\<close>

definition tag_args :: "native_slot \<Rightarrow> sv \<Rightarrow> sv \<Rightarrow> sv \<Rightarrow> sv \<Rightarrow> sv list" where
  "tag_args slot value context info abstract_type =
     (if slot_uses_native_fast_abi slot then [value, context, abstract_type, Undef]
      else [value, context, info, abstract_type])"

definition resolve_type_args :: "native_slot \<Rightarrow> sv \<Rightarrow> sv \<Rightarrow> sv \<Rightarrow> sv \<Rightarrow> sv list" where
  "resolve_type_args slot value context info abstract_type =
     (if slot_uses_native_fast_abi slot then [value, context, Undef, abstract_type]
      else [value, context, info, abstract_type])"

definition child_by_tag ::
  "'w type_calls \<Rightarrow> slot_callbacks list option \<Rightarrow> slot_callbacks \<Rightarrow> sv \<Rightarrow> native_slot \<Rightarrow> native_op \<Rightarrow>
    sv \<Rightarrow> sv \<Rightarrow> sv \<Rightarrow> (int, 'w) run"
where
  "child_by_tag tc runtime c runtime_schema slot op value context info =
     (case sc_tag_resolver c of
        None \<Rightarrow> give (- 1)
      | Some resolver \<Rightarrow>
          if sc_tag_entries c = [] then give (- 1)
          else
            and_then (from_vm (lookup_slot_type_object_sv tc runtime runtime_schema slot)) (\<lambda>abstract_type.
            and_then (call_cb4_nonfatal tc resolver
              (tag_args slot value context info (ok_or_undef abstract_type))) (\<lambda>tag.
            give (find_abstract_child_block_index op
              (find_tagged_type_name runtime (so_schema_slot_index slot) tag)))))"

definition child_by_resolve_type ::
  "'w type_calls \<Rightarrow> slot_callbacks list option \<Rightarrow> sv \<Rightarrow> sv \<Rightarrow> native_slot \<Rightarrow> native_op \<Rightarrow>
    sv \<Rightarrow> sv \<Rightarrow> sv \<Rightarrow> (int, 'w) run"
where
  "child_by_resolve_type tc runtime resolver runtime_schema slot op value context info =
     and_then (from_vm (lookup_slot_type_object_sv tc runtime runtime_schema slot)) (\<lambda>abstract_type.
     and_then (call_cb4_nonfatal tc resolver
       (resolve_type_args slot value context info (ok_or_undef abstract_type))) (\<lambda>t.
     give (find_abstract_child_block_index op (type_name_from_sv tc (Some t)))))"

definition child_by_possible_types ::
  "'w type_calls \<Rightarrow> slot_callbacks list option \<Rightarrow> native_slot \<Rightarrow> native_op \<Rightarrow> sv \<Rightarrow> sv \<Rightarrow> sv \<Rightarrow> (int, 'w) run"
where
  "child_by_possible_types tc runtime slot op value context info =
     and_then (find_matching_possible_type tc runtime (so_schema_slot_index slot) value context
       (if slot_uses_native_fast_abi slot then None else Some info)) (\<lambda>entry.
     give (case entry of None \<Rightarrow> - 1 | Some e \<Rightarrow> find_abstract_child_block_index op (pe_type_name e)))"

definition select_abstract_child_block_fast_core ::
  "'w type_calls \<Rightarrow> slot_callbacks list option \<Rightarrow> sv \<Rightarrow> native_slot \<Rightarrow> native_op \<Rightarrow>
    sv \<Rightarrow> sv \<Rightarrow> sv \<Rightarrow> (int, 'w) run"
where
  "select_abstract_child_block_fast_core tc runtime runtime_schema slot op value context info =
     (case slot_callbacks_at runtime (so_schema_slot_index slot) of
        None \<Rightarrow> give (- 1)
      | Some c \<Rightarrow>
          and_then
            (if op_dispatch_family_code op = GQL_VM_DISPATCH_TAG
             then child_by_tag tc runtime c runtime_schema slot op value context info else give (- 1)) (\<lambda>i.
          if 0 \<le> i then give i
          else if op_dispatch_family_code op = GQL_VM_DISPATCH_RESOLVE_TYPE
               \<or> op_dispatch_family_code op = GQL_VM_DISPATCH_TAG then
            (case sc_resolve_type c of
               None \<Rightarrow> give (- 1)
             | Some resolver \<Rightarrow>
                 and_then (child_by_resolve_type tc runtime resolver runtime_schema slot op value context info) (\<lambda>i.
                 if 0 \<le> i then give i
                 else child_by_possible_types tc runtime slot op value context info))
          else child_by_possible_types tc runtime slot op value context info))"

definition unresolved_message :: "native_slot \<Rightarrow> string" where
  "unresolved_message slot =
     ''Abstract type '' @ so_return_type_name slot @ '' must resolve to an Object type at runtime''"

definition child_or_error :: "native_slot \<Rightarrow> int \<Rightarrow> (int, 'w) run" where
  "child_or_error slot i =
     (if i < 0 then fail (Reported (Plain_Exception False (unresolved_message slot))) else give i)"

definition select_abstract_child_block_fast ::
  "'w type_calls \<Rightarrow> slot_callbacks list option \<Rightarrow> sv \<Rightarrow> native_slot \<Rightarrow> native_op \<Rightarrow>
    sv \<Rightarrow> sv \<Rightarrow> sv \<Rightarrow> (int, 'w) run"
where
  "select_abstract_child_block_fast tc runtime runtime_schema slot op value context info =
     and_then (select_abstract_child_block_fast_core tc runtime runtime_schema slot op value context info)
       (child_or_error slot)"

section \<open>The lane with the runtime cache\<close>

definition state_type_by_name_sv :: "'w type_calls \<Rightarrow> sv \<Rightarrow> string \<Rightarrow> sv option" where
  "state_type_by_name_sv tc runtime_schema type_name =
     hash_lookup_ent_sv tc
       (dispatch_hash_fetch tc (dispatch_hash_fetch tc (Some runtime_schema) ''runtime_cache'') ''name2type'')
       (Some (PV False type_name))"

definition resolve_runtime_type_for_slot_sv ::
  "'w type_calls \<Rightarrow> sv \<Rightarrow> native_slot list option \<Rightarrow> native_slot \<Rightarrow> sv \<Rightarrow> sv \<Rightarrow> sv \<Rightarrow> (sv option, 'w) run"
where
  "resolve_runtime_type_for_slot_sv tc runtime_schema runtime_slots slot value context info =
     (let name = so_return_type_name (effective_slot runtime_slots slot);
          abstract_type = (if name = [] then None else state_type_by_name_sv tc runtime_schema name)
      in if name = [] then give None
         else
           and_then (from_vm (expect_hashref tc (Some runtime_schema) ''runtime schema'')) (\<lambda>schema.
           resolve_runtime_type_for_abstract_sv tc (fetch_hash_entry_sv schema ''runtime_cache'') (Some name)
             (Some value) (Some context) (Some info) abstract_type))"

definition complete_abstract_child ::
  "'w type_calls \<Rightarrow> sv \<Rightarrow> native_slot list option \<Rightarrow> native_slot \<Rightarrow> native_op \<Rightarrow> sv \<Rightarrow> sv \<Rightarrow> sv \<Rightarrow> (int, 'w) run"
where
  "complete_abstract_child tc runtime_schema runtime_slots slot op value context info =
     and_then (resolve_runtime_type_for_slot_sv tc runtime_schema runtime_slots slot value context info) (\<lambda>t.
     child_or_error slot (find_abstract_child_block_index op (type_name_from_sv tc t)))"

text \<open>The family the compiler gives an operation (\<^verbatim>\<open>_build_dispatch_index\<close>).\<close>

definition build_dispatch_family :: "cache_maps \<Rightarrow> string \<Rightarrow> int option" where
  "build_dispatch_family maps name =
     (let listed = (\<lambda>m. case m of Some h \<Rightarrow> hv_exists h name | None \<Rightarrow> False)
      in if listed (cm_tag_resolver_map maps) then Some GQL_VM_DISPATCH_TAG
         else if listed (cm_resolve_type_map maps) then Some GQL_VM_DISPATCH_RESOLVE_TYPE
         else if listed (cm_possible_types maps) then Some GQL_VM_DISPATCH_POSSIBLE_TYPES
         else None)"

section \<open>An operation that fits its schema\<close>

text \<open>
  What the schema and the compiler give: possible types are hashes with a name, every type a tag
  stands for and every answer of \<open>resolve_type\<close> has a block in the operation, a name it answers
  is the name of that type, and a type with a tag resolver has tags and also a \<open>resolve_type\<close>.
\<close>

definition named_types :: "'w type_calls \<Rightarrow> sv list \<Rightarrow> bool" where
  "named_types tc types \<longleftrightarrow>
     (\<forall>t\<in>set types. SvOK t \<longrightarrow>
       (\<exists>h n. hash_ref tc (Some t) = Some h \<and> hv_fetch h ''name'' = Some n \<and> SvOK n))"

definition has_child :: "'w type_calls \<Rightarrow> native_op \<Rightarrow> sv \<Rightarrow> bool" where
  "has_child tc op t \<longleftrightarrow> 0 \<le> find_abstract_child_block_index op (type_name_from_sv tc (Some t))"

definition answers_known :: "'w type_calls \<Rightarrow> cache_maps \<Rightarrow> native_op \<Rightarrow> sv \<Rightarrow> bool" where
  "answers_known tc maps op resolver \<longleftrightarrow>
     (\<forall>args w v w'. tc_call tc resolver args w = (Inr v, w') \<longrightarrow> SvOK v \<longrightarrow>
       has_child tc op v \<and>
       (\<not> SvROK v \<longrightarrow>
         (\<exists>t. map_entry (cm_name2type maps) (SvPV v) = Some t \<and> type_name_from_sv tc (Some t) = type_name_from_sv tc (Some v))))"

definition tags_known :: "'w type_calls \<Rightarrow> cache_maps \<Rightarrow> native_op \<Rightarrow> string \<Rightarrow> bool" where
  "tags_known tc maps op name \<longleftrightarrow>
     map_entry (cm_resolve_type_map maps) name \<noteq> None \<and>
     (\<exists>h. hash_ref tc (map_entry (cm_runtime_tag_map maps) name) = Some h \<and> h \<noteq> [] \<and>
       (\<forall>(tag, t) \<in> set h. SvOK t \<longrightarrow> has_child tc op t))"

definition defined_values :: "hv option \<Rightarrow> bool" where
  "defined_values m \<longleftrightarrow> (\<forall>h. m = Some h \<longrightarrow> Undef \<notin> snd ` set h)"

definition fits_schema :: "'w type_calls \<Rightarrow> cache_maps \<Rightarrow> string \<Rightarrow> native_op \<Rightarrow> bool" where
  "fits_schema tc maps name op \<longleftrightarrow>
     name \<noteq> [] \<and> cm_name2type maps \<noteq> None \<and>
     defined_values (cm_tag_resolver_map maps) \<and> defined_values (cm_resolve_type_map maps) \<and>
     (\<forall>types. map_entry (cm_possible_types maps) name = Some (AV types) \<longrightarrow> named_types tc types) \<and>
     (\<forall>resolver. map_entry (cm_resolve_type_map maps) name = Some resolver \<longrightarrow> answers_known tc maps op resolver) \<and>
     (map_entry (cm_tag_resolver_map maps) name \<noteq> None \<longrightarrow> tags_known tc maps op name) \<and>
     build_dispatch_family maps name = Some (op_dispatch_family_code op)"

section \<open>Helper lemmas\<close>

lemma and_then_cong:
  "(\<And>a w w'. m w = (Inr a, w') \<Longrightarrow> f a w' = g a w') \<Longrightarrow> and_then m f = and_then m g"
  by (auto simp: and_then_def fun_eq_iff split: prod.splits sum.splits)

lemma from_vm_simps [simp]: "from_vm (Inr a) = give a"
  "from_vm (Inl (VM_Croak message)) = fail (Croaked (Plain_Exception False message))"
  by (simp_all add: from_vm_def)

lemma child_or_error_simps [simp]: "0 \<le> i \<Longrightarrow> child_or_error slot i = give i"
  by (simp add: child_or_error_def)

lemma call_returns: "call_cb4_nonfatal tc cb args w = (Inr v, w') \<longleftrightarrow> tc_call tc cb args w = (Inr v, w')"
  by (auto simp: call_cb4_nonfatal_def answer_def split: prod.splits sum.splits)

lemma no_child [simp]: "find_abstract_child_block_index op None = - 1"
  by (simp add: find_abstract_child_block_index_def)

lemma type_name_undefined [simp]: "type_name_from_sv tc None = None" "type_name_from_sv tc (Some Undef) = None"
  by (simp_all add: type_name_from_sv_def defined_sv_def SvOK_def)

lemma defined_sv_defined [simp]: "SvOK x \<Longrightarrow> defined_sv (Some x) = Some x"
  "\<not> SvOK x \<Longrightarrow> defined_sv (Some x) = None" "defined_sv None = None"
  by (simp_all add: defined_sv_def)

lemma named_type:
  "named_types tc (t # ts) \<Longrightarrow> SvOK t \<Longrightarrow>
    \<exists>n. SvOK n \<and> name_of_type tc t = give n \<and> type_name_from_sv tc (Some t) = Some (SvPV n)"
  by (auto simp: named_types_def name_of_type_def dispatch_hash_fetch_def type_name_from_sv_def fetch_hash_entry_sv_def)

lemma entry_undefined [simp]: "\<not> SvOK t \<Longrightarrow> possible_type_entry_of tc callbacks t = no_possible_type"
  by (simp add: possible_type_entry_of_def)

lemma entry_named:
  "SvOK t \<Longrightarrow> type_name_from_sv tc (Some t) = Some n \<Longrightarrow>
    possible_type_entry_of tc callbacks t =
      (case fetch_hash_entry_sv callbacks n of
         None \<Rightarrow> no_possible_type
       | Some cb \<Rightarrow> \<lparr>pe_type_name = Some n, pe_type_sv = Some t, pe_is_type_of_cb = Some cb\<rparr>)"
  by (simp add: possible_type_entry_of_def)

lemma no_possible_type_simps [simp]: "pe_type_sv no_possible_type = None"
  by (simp add: no_possible_type_def)

lemma first_matching_entries:
  "named_types tc types \<Longrightarrow>
   and_then (first_matching_type tc m args types) (\<lambda>t. k (type_name_from_sv tc t)) =
   (case hash_ref tc m of
      None \<Rightarrow> k None
    | Some callbacks \<Rightarrow>
        and_then (match_entries tc args (map (possible_type_entry_of tc callbacks) types))
          (\<lambda>e. k (case e of None \<Rightarrow> None | Some x \<Rightarrow> pe_type_name x)))"
proof (induction types)
  case Nil
  then show ?case by (simp split: option.splits)
next
  case (Cons t ts)
  have rest: "named_types tc ts" using Cons.prems by (simp add: named_types_def)
  show ?case
  proof (cases "SvOK t")
    case False
    then show ?thesis
      using Cons.IH [OF rest] by (simp split: option.splits)
  next
    case True
    then obtain n where n: "name_of_type tc t = give n" "type_name_from_sv tc (Some t) = Some (SvPV n)"
      using named_type [OF Cons.prems] by blast
    show ?thesis
    proof (cases "hash_ref tc m")
      case None
      then show ?thesis using True n Cons.IH [OF rest] by (simp add: hash_lookup_ent_sv_def)
    next
      case (Some callbacks)
      show ?thesis
      proof (cases "fetch_hash_entry_sv callbacks (SvPV n)")
        case None
        then have "defined_sv (hash_lookup_ent_sv tc m (Some n)) = None"
          using Some by (simp add: hash_lookup_ent_sv_def fetch_hash_entry_sv_def)
        then show ?thesis
          using True n Some None Cons.IH [OF rest]
          by (simp add: entry_named)
      next
        case cb: (Some cb)
        then have "defined_sv (hash_lookup_ent_sv tc m (Some n)) = Some cb" "SvOK cb"
          using Some by (auto simp: hash_lookup_ent_sv_def fetch_hash_entry_sv_def defined_sv_def split: option.splits if_splits)
        then show ?thesis
          using True n Some cb Cons.IH [OF rest]
          by (auto intro!: and_then_cong simp: entry_named call_cb_scalar_def ok_or_undef_def)
      qed
    qed
  qed
qed


lemma cache_map_hash:
  "cache_map tc cache key = Inr m \<Longrightarrow> hash_ref tc (hv_fetch cache key) = m"
  by (auto simp: cache_map_def expect_hashref_def fetch_hash_entry_sv_def defined_sv_def SvOK_def bnd_def
      split: option.splits if_splits sum.splits)

lemma bnd_Inr_iff: "bnd m f = Inr y \<longleftrightarrow> (\<exists>x. m = Inr x \<and> f x = Inr y)"
  by (cases m) auto

lemma runtime_cache_hashes:
  assumes "runtime_cache_maps tc cache = Inr maps"
  shows "hash_ref tc (hv_fetch cache ''name2type'') = cm_name2type maps"
    and "hash_ref tc (hv_fetch cache ''tag_resolver_map'') = cm_tag_resolver_map maps"
    and "hash_ref tc (hv_fetch cache ''runtime_tag_map'') = cm_runtime_tag_map maps"
    and "hash_ref tc (hv_fetch cache ''resolve_type_map'') = cm_resolve_type_map maps"
    and "hash_ref tc (hv_fetch cache ''possible_types'') = cm_possible_types maps"
    and "hash_ref tc (hv_fetch cache ''is_type_of_map'') = cm_is_type_of_map maps"
  using assms unfolding runtime_cache_maps_def bnd_Inr_iff by (auto dest: cache_map_hash)

lemma callbacks_of_slots_map:
  "callbacks_of_slots tc maps i slots = Inr cs \<Longrightarrow> cs = map (callbacks_of_slot tc maps) slots"
  by (induction tc maps i slots arbitrary: cs rule: callbacks_of_slots.induct)
    (auto simp: Let_def bnd_Inr_iff split: if_splits)

lemma catalog_entry:
  assumes "callback_catalog tc maps slots = Inr cs" "cm_name2type maps \<noteq> None" "at_index slots i = Some slot"
  shows "slot_callbacks_at (Some cs) i = Some (callbacks_of_slot tc maps slot)"
  using assms by (auto simp: callback_catalog_def slot_callbacks_at_def at_index_def dest!: callbacks_of_slots_map
      split: if_splits)

definition raw_entry :: "hv option \<Rightarrow> string \<Rightarrow> sv option" where
  "raw_entry m name = (case m of Some h \<Rightarrow> hv_fetch h name | None \<Rightarrow> None)"

lemma map_entry_raw: "map_entry m name = defined_sv (raw_entry m name)"
  by (simp add: map_entry_def raw_entry_def fetch_hash_entry_sv_def split: option.splits)

lemma hash_ref_defined: "hash_ref tc (defined_sv v) = hash_ref tc v"
  by (auto simp: defined_sv_def SvOK_def split: option.splits)

lemma ok_or_undef_defined: "ok_or_undef (defined_sv v) = ok_or_undef v"
  by (auto simp: defined_sv_def ok_or_undef_def SvOK_def split: option.splits)

lemma by_tag_defined: "by_tag tc (defined_sv r) m args = by_tag tc r m args"
  by (auto simp: by_tag_def call_cb_scalar_def defined_sv_def split: option.splits)

lemma by_resolve_type_defined: "by_resolve_type tc (defined_sv r) m args = by_resolve_type tc r m args"
  by (auto simp: by_resolve_type_def call_cb_scalar_def defined_sv_def split: option.splits)

section \<open>Both lanes step by step\<close>

definition child_block :: "'w type_calls \<Rightarrow> native_slot \<Rightarrow> native_op \<Rightarrow> sv option \<Rightarrow> (int, 'w) run" where
  "child_block tc slot op t = child_or_error slot (find_abstract_child_block_index op (type_name_from_sv tc t))"

lemma callbacks_of_slot_simps [simp]:
  "sc_type_object (callbacks_of_slot tc maps slot) = map_entry (cm_name2type maps) (so_return_type_name slot)"
  "sc_tag_resolver (callbacks_of_slot tc maps slot) = map_entry (cm_tag_resolver_map maps) (so_return_type_name slot)"
  "sc_resolve_type (callbacks_of_slot tc maps slot) = map_entry (cm_resolve_type_map maps) (so_return_type_name slot)"
  "sc_tag_entries (callbacks_of_slot tc maps slot) = tag_entries_of tc maps (so_return_type_name slot)"
  "sc_possible_types (callbacks_of_slot tc maps slot) = possible_types_of tc maps (so_return_type_name slot)"
  by (simp_all add: callbacks_of_slot_def Let_def)

lemma tag_map_cong: "hash_ref tc m = hash_ref tc m' \<Longrightarrow> by_tag tc r m args = by_tag tc r m' args"
  by (auto simp: by_tag_def hash_lookup_ent_sv_def split: option.splits intro!: and_then_cong)

lemma possible_types_lanes:
  assumes "hash_ref tc is_type_of = cm_is_type_of_map maps"
    and "\<forall>types. map_entry (cm_possible_types maps) (so_return_type_name slot) = Some (AV types) \<longrightarrow> named_types tc types"
    and "slot_callbacks_at runtime (so_schema_slot_index slot) = Some (callbacks_of_slot tc maps slot)"
    and "\<not> slot_uses_native_fast_abi slot"
  shows "and_then (child_by_possible_types tc runtime slot op value context info) (child_or_error slot) =
     (case map_entry (cm_possible_types maps) (so_return_type_name slot) of
        Some (AV types) \<Rightarrow>
          and_then (first_matching_type tc is_type_of [value, context, info] types) (child_block tc slot op)
      | _ \<Rightarrow> child_block tc slot op None)"
proof -
  let ?k = "\<lambda>n. child_or_error slot (find_abstract_child_block_index op n)"
  have k: "child_block tc slot op = (\<lambda>t. ?k (type_name_from_sv tc t))"
    by (simp add: child_block_def fun_eq_iff)
  have entry: "(case e of None \<Rightarrow> - 1 | Some x \<Rightarrow> find_abstract_child_block_index op (pe_type_name x)) =
      find_abstract_child_block_index op (case e of None \<Rightarrow> None | Some x \<Rightarrow> pe_type_name x)" for e
    by (cases e) simp_all
  have "and_then (child_by_possible_types tc runtime slot op value context info) (child_or_error slot) =
      and_then (match_entries tc [value, context, info] (possible_types_of tc maps (so_return_type_name slot)))
        (\<lambda>e. ?k (case e of None \<Rightarrow> None | Some x \<Rightarrow> pe_type_name x))"
    using assms(3,4)
    by (simp add: child_by_possible_types_def find_matching_possible_type_def ok_or_undef_def entry)
  also have "\<dots> = (case map_entry (cm_possible_types maps) (so_return_type_name slot) of
        Some (AV types) \<Rightarrow> and_then (first_matching_type tc is_type_of [value, context, info] types) (child_block tc slot op)
      | _ \<Rightarrow> child_block tc slot op None)"
  proof (cases "\<exists>types. map_entry (cm_possible_types maps) (so_return_type_name slot) = Some (AV types)")
    case True
    then obtain types where types: "map_entry (cm_possible_types maps) (so_return_type_name slot) = Some (AV types)" by blast
    then have "named_types tc types" using assms(2) by blast
    from first_matching_entries [OF this, where k = ?k and m = is_type_of and args = "[value, context, info]"] types assms(1)
    show ?thesis by (cases "cm_is_type_of_map maps") (simp_all add: possible_types_of_def k)
  next
    case False
    then show ?thesis by (auto simp: possible_types_of_def k split: option.splits sv.splits)
  qed
  finally show ?thesis .
qed

lemma resolve_type_lanes:
  assumes "hash_ref tc name2type = cm_name2type maps" "SvOK resolver"
    and "answers_known tc maps op resolver"
    and "lookup_slot_type_object_sv tc runtime schema slot = Inr abstract_type"
    and "\<not> slot_uses_native_fast_abi slot"
  shows "and_then (child_by_resolve_type tc runtime resolver schema slot op value context info)
        (\<lambda>i. if 0 \<le> i then give i else others) =
      and_then (by_resolve_type tc (Some resolver) name2type [value, context, info, ok_or_undef abstract_type])
        (\<lambda>r. case r of Some t \<Rightarrow> child_block tc slot op t | None \<Rightarrow> others)"
proof -
  let ?i = "\<lambda>v. find_abstract_child_block_index op (type_name_from_sv tc (Some v))"
  have "(if 0 \<le> ?i v then give (?i v) else others) =
      (case case defined_sv (Some v) of None \<Rightarrow> None
        | Some t \<Rightarrow> Some (if SvROK t then Some t else defined_sv (hash_lookup_ent_sv tc name2type (Some t))) of
       Some t \<Rightarrow> child_block tc slot op t | None \<Rightarrow> others)"
    if call: "tc_call tc resolver args w = (Inr v, w')" for args w v w'
  proof (cases "SvOK v")
    case True
    from assms(3) call True have known: "has_child tc op v \<and> (\<not> SvROK v \<longrightarrow>
        (\<exists>t. map_entry (cm_name2type maps) (SvPV v) = Some t \<and> type_name_from_sv tc (Some t) = type_name_from_sv tc (Some v)))"
      unfolding answers_known_def by blast
    then have child: "0 \<le> ?i v" by (simp add: has_child_def)
    have "hash_lookup_ent_sv tc name2type (Some v) = raw_entry (cm_name2type maps) (SvPV v)"
      using assms(1) by (simp add: hash_lookup_ent_sv_def raw_entry_def split: option.splits)
    then show ?thesis using True child known by (auto simp: child_block_def map_entry_raw)
  next
    case False
    then show ?thesis by (simp add: SvOK_def)
  qed
  then show ?thesis
    using assms(2,4,5)
    by (simp add: child_by_resolve_type_def by_resolve_type_def call_cb_scalar_def resolve_type_args_def)
      (rule and_then_cong, simp add: call_returns)
qed

lemma tag_lanes:
  assumes "slot_callbacks_at runtime (so_schema_slot_index slot) = Some (callbacks_of_slot tc maps slot)"
    and "map_entry (cm_tag_resolver_map maps) (so_return_type_name slot) = Some resolver"
    and "hash_ref tc (map_entry (cm_runtime_tag_map maps) (so_return_type_name slot)) = Some h" "h \<noteq> []"
    and "\<forall>(tag, t) \<in> set h. SvOK t \<longrightarrow> has_child tc op t"
    and "lookup_slot_type_object_sv tc runtime schema slot = Inr abstract_type"
    and "\<not> slot_uses_native_fast_abi slot" "hash_ref tc tag_map = Some h"
  shows "and_then (child_by_tag tc runtime (callbacks_of_slot tc maps slot) schema slot op value context info)
        (\<lambda>i. if 0 \<le> i then give i else others) =
      and_then (by_tag tc (Some resolver) tag_map [value, context, info, ok_or_undef abstract_type])
        (\<lambda>t. if t \<noteq> None then child_block tc slot op t else others)"
proof -
  let ?entries = "map (\<lambda>(tag, t). \<lparr>te_tag_name = tag, te_type_name = type_name_from_sv tc (Some t)\<rparr>) h"
  have found: "(case find (\<lambda>e. te_tag_name e = k)
        (map (\<lambda>(tag, t). \<lparr>te_tag_name = tag, te_type_name = type_name_from_sv tc (Some t)\<rparr>) g) of
       Some e \<Rightarrow> te_type_name e | None \<Rightarrow> None) = type_name_from_sv tc (map_of g k)" for k and g :: hv
    by (induction g) (auto split: prod.splits)
  have entries: "sc_tag_entries (callbacks_of_slot tc maps slot) = ?entries"
    using assms(3) by (simp add: tag_entries_of_def)
  have tagged: "find_tagged_type_name runtime (so_schema_slot_index slot) tag =
      (if SvOK tag then type_name_from_sv tc (map_of h (SvPV tag)) else None)" for tag
    using assms(1) entries found by (simp add: find_tagged_type_name_def)
  have ok: "SvOK resolver" using assms(2) by (auto simp: map_entry_raw defined_sv_def split: option.splits if_splits)
  let ?i = "\<lambda>tag. find_abstract_child_block_index op (find_tagged_type_name runtime (so_schema_slot_index slot) tag)"
  have step: "(if 0 \<le> ?i tag then give (?i tag) else others) =
      (let t = (case defined_sv (Some tag) of None \<Rightarrow> None | Some t \<Rightarrow> defined_sv (hash_lookup_ent_sv tc tag_map (Some t)))
       in if t \<noteq> None then child_block tc slot op t else others)" for tag
  proof (cases "SvOK tag")
    case True
    show ?thesis
    proof (cases "map_of h (SvPV tag)")
      case None
      then show ?thesis using True tagged assms(8) by (simp add: hash_lookup_ent_sv_def hv_fetch_def)
    next
      case (Some t)
      then have "(SvPV tag, t) \<in> set h" by (rule map_of_SomeD)
      then have "SvOK t \<Longrightarrow> has_child tc op t" using assms(5) by auto
      moreover have "\<not> SvOK t \<Longrightarrow> t = Undef" by (simp add: SvOK_def)
      ultimately show ?thesis
        using True Some tagged assms(8)
        by (cases "SvOK t") (simp_all add: hash_lookup_ent_sv_def hv_fetch_def child_block_def has_child_def Let_def)
    qed
  next
    case False
    then show ?thesis using tagged by simp
  qed
  have resolver: "sc_tag_resolver (callbacks_of_slot tc maps slot) = Some resolver"
    using assms(2) by simp
  have "?entries \<noteq> []" using assms(4) by simp
  then have "child_by_tag tc runtime (callbacks_of_slot tc maps slot) schema slot op value context info =
      and_then (call_cb4_nonfatal tc resolver [value, context, info, ok_or_undef abstract_type]) (\<lambda>tag. give (?i tag))"
    using assms(6,7) resolver entries by (simp add: child_by_tag_def tag_args_def)
  then show ?thesis using ok step by (simp add: by_tag_def call_cb_scalar_def Let_def)
qed

lemma and_then_if: "and_then (if b then m else m') f = (if b then and_then m f else and_then m' f)"
  by simp

lemma and_then_option:
  "and_then (case x of None \<Rightarrow> m | Some y \<Rightarrow> g y) f = (case x of None \<Rightarrow> and_then m f | Some y \<Rightarrow> and_then (g y) f)"
  by (simp split: option.splits)

lemma and_then_possible:
  "and_then (case v of AV types \<Rightarrow> g types | _ \<Rightarrow> give None) k =
    (case v of AV types \<Rightarrow> and_then (g types) k | _ \<Rightarrow> k None)"
  by (simp split: sv.splits)

lemma child_or_error_if:
  "and_then (if 0 \<le> i then give i else m) (child_or_error slot) =
    (if 0 \<le> i then give i else and_then m (child_or_error slot))"
  by simp

lemma resolve_from_then:
  "and_then (resolve_from tc src args abstract_type) k =
     and_then (by_tag tc (ts_tag_resolver src) (ts_tag_map src) (args @ [abstract_type])) (\<lambda>t.
     if t \<noteq> None then k t
     else
       and_then (by_resolve_type tc (ts_resolve_type src) (ts_name2type src) (args @ [abstract_type])) (\<lambda>r.
       case r of
         Some t \<Rightarrow> k t
       | None \<Rightarrow>
           (case ts_possible_types src of
              Some (AV types) \<Rightarrow> and_then (first_matching_type tc (ts_is_type_of_map src) args types) k
            | _ \<Rightarrow> k None)))"
  unfolding resolve_from_def and_then_assoc and_then_if and_then_option and_then_possible and_then_give
  by (rule refl)

lemma by_tag_entries:
  "by_tag tc (raw_entry m name) (raw_entry m' name) args = by_tag tc (map_entry m name) (map_entry m' name) args"
  unfolding map_entry_raw by_tag_defined by (rule tag_map_cong) (simp add: hash_ref_defined)

lemma by_resolve_type_entry:
  "by_resolve_type tc (raw_entry m name) n args = by_resolve_type tc (map_entry m name) n args"
  by (simp add: map_entry_raw by_resolve_type_defined)

lemma possible_types_entry:
  "(case raw_entry m name of Some (AV types) \<Rightarrow> f types | _ \<Rightarrow> g) =
   (case map_entry m name of Some (AV types) \<Rightarrow> f types | _ \<Rightarrow> g)"
  by (auto simp: map_entry_raw defined_sv_def SvOK_def split: option.splits sv.splits)

lemma ok_or_undef_entry: "ok_or_undef (raw_entry m name) = ok_or_undef (map_entry m name)"
  by (simp add: map_entry_raw ok_or_undef_defined)

lemma cache_lane:
  assumes "hash_ref tc (Some schema) = Some sh" "fetch_hash_entry_sv sh ''runtime_cache'' = Some c"
    and "hash_ref tc (Some c) = Some cache" "runtime_cache_maps tc cache = Inr maps"
    and "at_index slots (so_schema_slot_index slot) = Some slot" "so_return_type_name slot \<noteq> []"
  shows "complete_abstract_child tc schema (Some slots) slot op value context info =
     (let name = so_return_type_name slot;
          args = [value, context, info, ok_or_undef (map_entry (cm_name2type maps) name)]
      in and_then (by_tag tc (map_entry (cm_tag_resolver_map maps) name) (map_entry (cm_runtime_tag_map maps) name) args) (\<lambda>t.
         if t \<noteq> None then child_block tc slot op t
         else
           and_then (by_resolve_type tc (map_entry (cm_resolve_type_map maps) name) (hv_fetch cache ''name2type'') args) (\<lambda>r.
           case r of
             Some t \<Rightarrow> child_block tc slot op t
           | None \<Rightarrow>
               (case map_entry (cm_possible_types maps) name of
                  Some (AV types) \<Rightarrow>
                    and_then (first_matching_type tc (hv_fetch cache ''is_type_of_map'') [value, context, info] types)
                      (child_block tc slot op)
                | _ \<Rightarrow> child_block tc slot op None))))"
proof -
  let ?name = "so_return_type_name slot"
  have effective: "effective_slot (Some slots) slot = slot" using assms(5) by (simp add: effective_slot_def)
  have raw: "hv_fetch sh ''runtime_cache'' = Some c"
    using assms(2) by (auto simp: fetch_hash_entry_sv_def defined_sv_def split: option.splits if_splits)
  have entry: "hash_lookup_ent_sv tc (hv_fetch cache key) (Some (PV False ?name)) = raw_entry (hash_ref tc (hv_fetch cache key)) ?name"
    for key by (simp add: hash_lookup_ent_sv_def raw_entry_def split: option.splits)
  have cached: "dispatch_hash_fetch tc (Some c) key = hv_fetch cache key" for key
    using assms(3) by (simp add: dispatch_hash_fetch_def)
  have abstract_type: "state_type_by_name_sv tc schema ?name = raw_entry (cm_name2type maps) ?name"
    using assms(1,3) raw cached entry runtime_cache_hashes [OF assms(4)]
    by (simp add: state_type_by_name_sv_def dispatch_hash_fetch_def)
  have lane: "complete_abstract_child tc schema (Some slots) slot op value context info =
      and_then (resolve_from tc
        \<lparr>ts_tag_resolver = raw_entry (cm_tag_resolver_map maps) ?name, ts_tag_map = raw_entry (cm_runtime_tag_map maps) ?name,
         ts_resolve_type = raw_entry (cm_resolve_type_map maps) ?name, ts_name2type = hv_fetch cache ''name2type'',
         ts_possible_types = raw_entry (cm_possible_types maps) ?name, ts_is_type_of_map = hv_fetch cache ''is_type_of_map''\<rparr>
        [value, context, info] (ok_or_undef (raw_entry (cm_name2type maps) ?name))) (child_block tc slot op)"
    using assms(1,2,3,6) effective abstract_type runtime_cache_hashes [OF assms(4)]
    by (simp add: complete_abstract_child_def resolve_runtime_type_for_slot_sv_def expect_hashref_def
        resolve_runtime_type_for_abstract_sv_def cached entry Let_def ok_or_undef_def [of "Some x" for x] child_block_def [abs_def])
  show ?thesis
    unfolding lane resolve_from_then Let_def type_sources.simps append.simps
      by_tag_entries by_resolve_type_entry possible_types_entry ok_or_undef_entry
    by (rule refl)
qed

section \<open>The lanes agree\<close>

lemma catalog_type_object:
  assumes "hash_ref tc (Some schema) = Some sh" "fetch_hash_entry_sv sh ''runtime_cache'' = Some c"
    and "hash_ref tc (Some c) = Some cache" "runtime_cache_maps tc cache = Inr maps"
    and "slot_callbacks_at runtime (so_schema_slot_index slot) = Some (callbacks_of_slot tc maps slot)"
  shows "\<exists>t. lookup_slot_type_object_sv tc runtime schema slot = Inr t
     \<and> (so_return_type_name slot \<noteq> [] \<longrightarrow> t = map_entry (cm_name2type maps) (so_return_type_name slot))"
proof (cases "map_entry (cm_name2type maps) (so_return_type_name slot)")
  case None
  have "hash_ref tc (fetch_hash_entry_sv cache ''name2type'') = cm_name2type maps"
    using runtime_cache_hashes [OF assms(4)] by (simp add: fetch_hash_entry_sv_def hash_ref_defined)
  then show ?thesis
    using assms None
    by (auto simp: lookup_slot_type_object_sv_def lookup_type_object_by_name_sv_def fetch_runtime_cache_hv_def
        expect_hashref_def map_entry_def split: option.splits)
next
  case (Some t)
  then show ?thesis using assms(5) by (simp add: lookup_slot_type_object_sv_def)
qed

lemma family_entries:
  assumes "defined_values (cm_tag_resolver_map maps)" "defined_values (cm_resolve_type_map maps)"
    and "build_dispatch_family maps name = Some family"
  shows "(family = GQL_VM_DISPATCH_TAG \<longleftrightarrow> map_entry (cm_tag_resolver_map maps) name \<noteq> None)
    \<and> (family \<noteq> GQL_VM_DISPATCH_TAG \<longrightarrow>
         (family = GQL_VM_DISPATCH_RESOLVE_TYPE \<longleftrightarrow> map_entry (cm_resolve_type_map maps) name \<noteq> None))"
proof -
  have listed: "(case m of Some h \<Rightarrow> hv_exists h name | None \<Rightarrow> False) \<longleftrightarrow> map_entry m name \<noteq> None"
    if "defined_values m" for m
    using that by (auto simp: defined_values_def map_entry_def fetch_hash_entry_sv_def hv_exists_def defined_sv_def
        SvOK_def hv_fetch_def image_iff split: option.splits dest!: map_of_SomeD) (metis snd_conv)
  show ?thesis
    using assms(3) unfolding build_dispatch_family_def Let_def listed [OF assms(1)] listed [OF assms(2)]
    by (auto simp: dispatch_codes split: if_splits)
qed

lemma by_tag_none [simp]: "by_tag tc None m args = give None"
  by (simp add: by_tag_def)

lemma by_resolve_type_none [simp]: "by_resolve_type tc None m args = give None"
  by (simp add: by_resolve_type_def)


section \<open>Where they differ\<close>

text \<open>
  Cats and dogs: objects \<open>CV ''Cat''\<close> and \<open>CV ''Dog''\<close> with a name, possible types of the union
  \<open>''Pet''\<close>. The tag resolver and \<open>resolve_type\<close> answer the value, \<open>is_type_of\<close> of \<open>Dog\<close> is true.
\<close>

definition sample_calls :: "unit type_calls" where
  "sample_calls =
     \<lparr>tc_hash = (\<lambda>v. case v of CV n \<Rightarrow> if n \<in> {''Cat'', ''Dog'', ''Pet''} then Some [(''name'', PV False n)] else None | _ \<Rightarrow> None),
      tc_call = (\<lambda>f args w. (if f = CV ''tag'' then Inr (hd args)
                             else if f = CV ''resolve'' then Inr Undef
                             else Inr (PBool (f = CV ''is_dog'')), w)),
      tc_name = (\<lambda>t w. (Inr Undef, w))\<rparr>"

definition sample_cache :: "hv \<Rightarrow> hv" where
  "sample_cache resolve_types =
     [(''name2type'', HV [(''Cat'', CV ''Cat''), (''Dog'', CV ''Dog''), (''Pet'', CV ''Pet'')]),
      (''tag_resolver_map'', HV [(''Pet'', CV ''tag'')]),
      (''runtime_tag_map'', HV [(''Pet'', HV [(''meow'', CV ''Cat'')])]),
      (''resolve_type_map'', HV resolve_types),
      (''possible_types'', HV [(''Pet'', AV [CV ''Cat'', CV ''Dog''])]),
      (''is_type_of_map'', HV [(''Dog'', CV ''is_dog'')])]"

definition sample_maps :: "hv \<Rightarrow> cache_maps" where
  "sample_maps resolve_types =
     \<lparr>cm_name2type = Some [(''Cat'', CV ''Cat''), (''Dog'', CV ''Dog''), (''Pet'', CV ''Pet'')],
      cm_tag_resolver_map = Some [(''Pet'', CV ''tag'')],
      cm_runtime_tag_map = Some [(''Pet'', HV [(''meow'', CV ''Cat'')])],
      cm_resolve_type_map = Some resolve_types,
      cm_possible_types = Some [(''Pet'', AV [CV ''Cat'', CV ''Dog''])],
      cm_is_type_of_map = Some [(''Dog'', CV ''is_dog'')],
      cm_leaf_kind_map = None, cm_enum_values_map = None, cm_serialize_map = None\<rparr>"

definition sample_slot :: native_slot where
  "sample_slot =
     \<lparr>so_field_name = ''pet'', so_result_name = ''pet'', so_return_type_name = ''Pet'', so_accessor_name = None,
      so_schema_slot_index = 0, so_resolver_shape_code = 1, so_resolver_mode_code = 1,
      so_callback_abi_code = GQL_VM_CALLBACK_ABI_DEFAULT, so_completion_family_code = 4,
      so_dispatch_family_code = GQL_VM_DISPATCH_TAG, so_return_type_kind_code = 1, so_arg_defs = [],
      so_has_args = False, so_has_directives = False, so_item_non_null = False\<rparr>"

definition sample_op :: native_op where
  "sample_op =
     \<lparr>op_abstract_children = [(''Cat'', 1), (''Dog'', 2)], op_opcode_code = 0, op_resolve_code = 1,
      op_complete_code = 4, op_dispatch_family_code = GQL_VM_DISPATCH_TAG, op_slot_index = 0,
      op_child_block_index = - 1, op_args_mode_code = 0, op_directives_mode_code = 0,
      op_args_payload_index = - 1, op_directives_payload_index = - 1, op_args_payload = None,
      op_directives_payload = None, op_has_args = False, op_has_directives = False,
      op_runtime_directives_mode_code = 0, op_runtime_directives = None, op_has_runtime_directives = False\<rparr>"

lemmas sample_defs = sample_calls_def sample_cache_def sample_maps_def sample_slot_def sample_op_def

lemma sample_fetches: "runtime_cache_maps sample_calls (sample_cache r) = Inr (sample_maps r)"
  by (simp add: runtime_cache_maps_def cache_map_def fetch_hash_entry_sv_def hv_fetch_def sample_cache_def
      sample_maps_def expect_hashref_def SvOK_def)

lemma sample_catalog:
  "callback_catalog sample_calls (sample_maps r) [sample_slot] = Inr [callbacks_of_slot sample_calls (sample_maps r) sample_slot]"
  by (simp add: callback_catalog_def Let_def) (simp add: sample_maps_def sample_slot_def)

lemma sample_fits: "fits_schema sample_calls (sample_maps [(''Pet'', CV ''resolve'')]) ''Pet'' sample_op"
  by (auto simp: fits_schema_def defined_values_def named_types_def answers_known_def tags_known_def has_child_def
      sample_defs map_entry_def fetch_hash_entry_sv_def hv_fetch_def defined_sv_def SvOK_def hash_ref_def SvROK_def
      type_name_from_sv_def find_abstract_child_block_index_def build_dispatch_family_def hv_exists_def)

definition sample_schema :: "hv \<Rightarrow> sv" where
  "sample_schema resolve_types = HV [(''runtime_cache'', HV (sample_cache resolve_types))]"

lemmas sample_run = and_then_def give_def fail_def from_vm_def answer_def call_cb4_nonfatal_def call_cb_scalar_def
  name_of_type_def dispatch_hash_fetch_def hash_lookup_ent_sv_def hash_ref_def state_type_by_name_sv_def
  resolve_runtime_type_for_slot_sv_def resolve_runtime_type_for_abstract_sv_def resolve_from_def by_tag_def
  by_resolve_type_def expect_hashref_def effective_slot_def at_index_def type_name_from_sv_def
  find_abstract_child_block_index_def child_or_error_def fetch_hash_entry_sv_def hv_fetch_def defined_sv_def
  SvOK_def SvROK_def SvPOK_def SvTRUE_def ok_or_undef_def unresolved_message_def

lemma sample_cache_lane:
  "complete_abstract_child sample_calls (sample_schema r) (Some [sample_slot]) sample_slot sample_op
     (PV False ''woof'') Undef Undef () = (Inr 2, ())"
  if "r = [] \<or> r = [(''Pet'', CV ''resolve'')]"
  using that by (elim disjE) (simp_all add: complete_abstract_child_def sample_schema_def sample_defs sample_run Let_def)


text \<open>
  A union with a tag resolver and no \<open>resolve_type\<close>: for a tag that is not declared the catalog lane
  gives up before it has asked \<open>is_type_of\<close>; the cache lane asks and finds the type.
\<close>

theorem tag_without_resolve_type:
  "select_abstract_child_block_fast sample_calls (Some [callbacks_of_slot sample_calls (sample_maps []) sample_slot])
     (sample_schema []) sample_slot sample_op (PV False ''woof'') Undef Undef () =
       (Inl (Reported (Plain_Exception False ''Abstract type Pet must resolve to an Object type at runtime'')), ())
   \<and> complete_abstract_child sample_calls (sample_schema []) (Some [sample_slot]) sample_slot sample_op
     (PV False ''woof'') Undef Undef () = (Inr 2, ())"
proof
  show "select_abstract_child_block_fast sample_calls (Some [callbacks_of_slot sample_calls (sample_maps []) sample_slot])
      (sample_schema []) sample_slot sample_op (PV False ''woof'') Undef Undef () =
    (Inl (Reported (Plain_Exception False ''Abstract type Pet must resolve to an Object type at runtime'')), ())"
    by (simp add: select_abstract_child_block_fast_def select_abstract_child_block_fast_core_def slot_callbacks_at_def
        child_by_tag_def tag_entries_of_def lookup_slot_type_object_sv_def find_tagged_type_name_def tag_args_def
        slot_uses_native_fast_abi_def vm_codes dispatch_codes map_entry_def sample_defs sample_run)
qed (simp add: sample_cache_lane)

end
