(* ===== verification/VM_Leaves.thy ===== *)
theory VM_Leaves
  imports VM_Dispatch VM_Frames VM_Values_Lemmas
begin

text \<open>
  Completion of leaf values (\<^verbatim>\<open>src/vm_runtime.h\<close>, lines 5393 to 5593): what a resolver returned is
  turned into a value of the scalar or enum type of the field, or refused with a message. Floats are
  the decimals of their texts, as in \<^verbatim>\<open>Perl_Numbers\<close>.
\<close>

section \<open>Serialization\<close>

definition GQL_VM_LEAF_INT :: int where "GQL_VM_LEAF_INT = 1"
definition GQL_VM_LEAF_FLOAT :: int where "GQL_VM_LEAF_FLOAT = 2"
definition GQL_VM_LEAF_STRING :: int where "GQL_VM_LEAF_STRING = 3"
definition GQL_VM_LEAF_BOOLEAN :: int where "GQL_VM_LEAF_BOOLEAN = 4"
definition GQL_VM_LEAF_ID :: int where "GQL_VM_LEAF_ID = 5"

lemmas leaf_codes = GQL_VM_LEAF_NONE_def GQL_VM_LEAF_INT_def GQL_VM_LEAF_FLOAT_def GQL_VM_LEAF_STRING_def
  GQL_VM_LEAF_BOOLEAN_def GQL_VM_LEAF_ID_def GQL_VM_LEAF_ENUM_def GQL_VM_LEAF_CUSTOM_def

definition slot_leaf_kind :: "slot_callbacks list option \<Rightarrow> native_slot option \<Rightarrow> int" where
  "slot_leaf_kind runtime slot =
     (case slot of
        None \<Rightarrow> GQL_VM_LEAF_NONE
      | Some s \<Rightarrow>
          (case slot_callbacks_at runtime (so_schema_slot_index s) of
             None \<Rightarrow> GQL_VM_LEAF_NONE
           | Some c \<Rightarrow> sc_leaf_kind c))"

text \<open>The integer a number equals: the test \<^verbatim>\<open>nv == (NV)(IV)nv\<close>, for numbers the cast is defined on.\<close>

definition number_integer :: "perl_number \<Rightarrow> int option" where
  "number_integer n =
     (case n of
        Decimal m e \<Rightarrow>
          if 0 \<le> e then Some (m * 10 ^ nat e)
          else if m mod 10 ^ nat (- e) = 0 then Some (m div 10 ^ nat (- e))
          else None
      | _ \<Rightarrow> None)"

definition shown_value :: "sv \<Rightarrow> string" where
  "shown_value v = (if SvROK v then ''(reference)'' else c_string (SvPV v))"

definition int32_of :: "sv \<Rightarrow> int option" where
  "int32_of v =
     (if \<not> SvROK v \<and> looks_like_number v then
        (case number_integer (SvNV v) of
           Some i \<Rightarrow> if in_int32 i then Some i else None
         | None \<Rightarrow> None)
      else None)"

definition serialize_int :: "sv \<Rightarrow> string + sv" where
  "serialize_int v =
     (if SvIOK v \<and> \<not> SvPOK v \<and> \<not> SvNOK v \<and> in_int32 (SvIV v) then Inr v
      else
        (case int32_of v of
           Some i \<Rightarrow> Inr (IV i)
         | None \<Rightarrow> Inl (''Int cannot represent non-integer value: '' @ shown_value v)))"

definition serialize_float :: "sv \<Rightarrow> string + sv" where
  "serialize_float v =
     (if (SvNOK v \<or> SvIOK v) \<and> \<not> SvPOK v then Inr v
      else if \<not> SvROK v \<and> looks_like_number v then Inr (NV (SvPV v))
      else Inl (''Float cannot represent non-numeric value: '' @ shown_value v))"

definition serialize_string :: "string \<Rightarrow> sv \<Rightarrow> string + sv" where
  "serialize_string type_label v =
     (if SvPOK v \<and> \<not> SvROK v then Inr v
      else if \<not> SvROK v then Inr (PV (SvUTF8 v) (SvPV v))
      else if sv_isobject v then Inr (PV False (if SvTRUE v then ''true'' else ''false''))
      else Inl (type_label @ '' cannot represent a reference value''))"

definition serialize_boolean :: "sv \<Rightarrow> string + sv" where
  "serialize_boolean v =
     (if \<not> SvROK v \<or> sv_isobject v then Inr (IV (if SvTRUE v then 1 else 0))
      else Inl ''Boolean cannot represent a reference value'')"

definition serialize_enum :: "'w type_calls \<Rightarrow> string \<Rightarrow> sv option \<Rightarrow> sv \<Rightarrow> string + sv" where
  "serialize_enum tc type_name payload v =
     (case (if SvROK v then None else defined_sv (dispatch_hash_fetch tc payload (SvPV v))) of
        Some name \<Rightarrow> Inr name
      | None \<Rightarrow> 
          Inl (''Enum '' @ CHR 0x27 # type_name @ CHR 0x27 # '' cannot represent value: '' @ shown_value v))"

definition from_serialized :: "string + sv \<Rightarrow> (sv, 'w) run" where
  "from_serialized r =
     (case r of Inl message \<Rightarrow> fail (Reported (Plain_Exception False message)) | Inr v \<Rightarrow> give v)"

definition serialize_kind ::
  "'w type_calls \<Rightarrow> int \<Rightarrow> sv option \<Rightarrow> string \<Rightarrow> sv \<Rightarrow> (sv, 'w) run"
where
  "serialize_kind tc kind payload type_name v =
     (if kind = GQL_VM_LEAF_INT then from_serialized (serialize_int v)
      else if kind = GQL_VM_LEAF_FLOAT then from_serialized (serialize_float v)
      else if kind = GQL_VM_LEAF_STRING \<or> kind = GQL_VM_LEAF_ID then
        from_serialized (serialize_string (if kind = GQL_VM_LEAF_ID then ''ID'' else ''String'') v)
      else if kind = GQL_VM_LEAF_BOOLEAN then from_serialized (serialize_boolean v)
      else if kind = GQL_VM_LEAF_ENUM then from_serialized (serialize_enum tc type_name payload v)
      else if kind = GQL_VM_LEAF_CUSTOM then
        (case payload of None \<Rightarrow> give v | Some serialize \<Rightarrow> call_cb4_nonfatal tc serialize [v])
      else give v)"

definition serialize_leaf_sv ::
  "'w type_calls \<Rightarrow> slot_callbacks list option \<Rightarrow> native_slot option \<Rightarrow> sv option \<Rightarrow> (sv, 'w) run"
where
  "serialize_leaf_sv tc runtime slot value =
     (case defined_sv value of
        None \<Rightarrow> give Undef
      | Some v \<Rightarrow>
          (case slot of
             None \<Rightarrow> give v
           | Some s \<Rightarrow>
               (case slot_callbacks_at runtime (so_schema_slot_index s) of
                  None \<Rightarrow> give v
                | Some c \<Rightarrow>
                    if sc_leaf_kind c = GQL_VM_LEAF_NONE then give v
                    else serialize_kind tc (sc_leaf_kind c) (sc_leaf_payload c) (so_return_type_name s) v)))"

section \<open>What is accepted, and what comes out\<close>

text \<open>The builtin scalars by the names the type objects carry.\<close>

definition builtin_leaf :: "int \<Rightarrow> string option" where
  "builtin_leaf kind =
     (if kind = GQL_VM_LEAF_INT then Some ''Int''
      else if kind = GQL_VM_LEAF_FLOAT then Some ''Float''
      else if kind = GQL_VM_LEAF_STRING then Some ''String''
      else if kind = GQL_VM_LEAF_BOOLEAN then Some ''Boolean''
      else if kind = GQL_VM_LEAF_ID then Some ''ID''
      else None)"

text \<open>The values of a resolver a builtin scalar accepts: the coercions of the specification.\<close>

definition leaf_accepts :: "int \<Rightarrow> sv \<Rightarrow> bool" where
  "leaf_accepts kind v =
     (if kind = GQL_VM_LEAF_INT then
        \<not> SvROK v \<and> looks_like_number v \<and>
        (case number_integer (SvNV v) of Some i \<Rightarrow> - (2 ^ 31) \<le> i \<and> i < 2 ^ 31 | None \<Rightarrow> False)
      else if kind = GQL_VM_LEAF_FLOAT then \<not> SvROK v \<and> looks_like_number v
      else \<not> SvROK v \<or> sv_isobject v)"

text \<open>The content that stays: the number, the text or the truth value.\<close>

definition same_leaf :: "int \<Rightarrow> sv \<Rightarrow> sv \<Rightarrow> bool" where
  "same_leaf kind v r =
     (if kind = GQL_VM_LEAF_INT then number_integer (SvNV v) = number_integer (SvNV r)
      else if kind = GQL_VM_LEAF_FLOAT then SvNV v = SvNV r
      else if kind = GQL_VM_LEAF_BOOLEAN then SvTRUE v = SvTRUE r
      else \<not> SvROK v \<longrightarrow> SvPV v = SvPV r \<and> SvUTF8 v = SvUTF8 r)"

text \<open>An integer scalar that is no unsigned value above \<open>2 ^ 63 - 1\<close>.\<close>

definition signed_scalar :: "sv \<Rightarrow> bool" where
  "signed_scalar v \<longleftrightarrow> (\<forall>i. v = IV i \<longrightarrow> iv_range i)"

lemma leaf_accepts_int: "leaf_accepts GQL_VM_LEAF_INT v \<longleftrightarrow> int32_of v \<noteq> None"
  by (auto simp: leaf_accepts_def int32_of_def in_int32_def split: option.splits)

lemma int32_of_iv [simp]: "int32_of (IV i) = (if in_int32 i then Some i else None)"
  by (simp add: int32_of_def SvROK_def looks_like_number_def number_integer_def SvNV_def)

lemma serialize_int_exact:
  assumes "signed_scalar v"
  shows "serialize_int v =
    (case int32_of v of
       Some i \<Rightarrow> Inr (IV i)
     | None \<Rightarrow> Inl (''Int cannot represent non-integer value: '' @ shown_value v))"
  using assms by (cases v) (auto simp: serialize_int_def signed_scalar_def SvIOK_def)

lemma int32_signed: "in_int32 i \<Longrightarrow> signed_iv (IV i) = i \<and> signed_scalar (IV i)"
  by (simp add: in_int32_def iv_range_def signed_scalar_def)

lemma int32_of_integer: "int32_of v = Some i \<Longrightarrow> number_integer (SvNV v) = Some i \<and> in_int32 i"
  by (auto simp: int32_of_def split: if_splits option.splits)

lemma number_integer_iv [simp]: "number_integer (SvNV (IV i)) = Some i"
  by (simp add: number_integer_def SvNV_def)

lemma int_leaf:
  assumes "signed_scalar v" "int32_of v = Some i"
  shows "serialize_int v = Inr (IV i)" "builtin_fast_path ''Int'' (IV i) = Some (IV i)"
    and "serialize_int (IV i) = Inr (IV i)" "number_integer (SvNV v) = Some i"
proof -
  note i = int32_of_integer [OF assms(2)]
  show "serialize_int v = Inr (IV i)" "number_integer (SvNV v) = Some i"
    using assms i by (simp_all add: serialize_int_exact)
  show "serialize_int (IV i) = Inr (IV i)" using i int32_signed [of i] by (simp add: serialize_int_exact)
  show "builtin_fast_path ''Int'' (IV i) = Some (IV i)"
    using i int32_signed [of i] by (simp add: builtin_fast_path_def SvROK_def SvOK_def SvIOK_def SvPOK_def SvNOK_def)
qed

lemma float_leaf:
  assumes "signed_scalar v" "\<not> SvROK v" "looks_like_number v"
  shows "\<exists>r. serialize_float v = Inr r \<and> SvOK r \<and> builtin_fast_path ''Float'' r = Some r
    \<and> serialize_float r = Inr r \<and> SvNV v = SvNV r"
  using assms
  by (cases v) (auto simp: serialize_float_def builtin_fast_path_def signed_scalar_def SvNV_def
      looks_like_number_def SvROK_def SvOK_def SvIOK_def SvPOK_def SvNOK_def)

lemma string_leaf:
  assumes "\<not> SvROK v \<or> sv_isobject v" "name = ''String'' \<or> name = ''ID''"
  shows "\<exists>r. serialize_string name v = Inr r \<and> SvOK r \<and> builtin_fast_path name r = Some r
    \<and> serialize_string name r = Inr r \<and> (\<not> SvROK v \<longrightarrow> SvPV v = SvPV r \<and> SvUTF8 v = SvUTF8 r)"
  using assms
  by (cases v) (auto simp: serialize_string_def builtin_fast_path_def sv_isobject_def SvUTF8_def
      SvROK_def SvOK_def SvIOK_def SvPOK_def SvNOK_def)

lemma boolean_leaf:
  assumes "\<not> SvROK v \<or> sv_isobject v"
  shows "\<exists>r. serialize_boolean v = Inr r \<and> SvOK r \<and> builtin_fast_path ''Boolean'' r = Some r
    \<and> serialize_boolean r = Inr r \<and> SvTRUE v = SvTRUE r"
  using assms
  by (auto simp: serialize_boolean_def builtin_fast_path_def sv_isobject_def signed_iv_def
      SvROK_def SvOK_def SvIOK_def SvPOK_def SvNOK_def SvTRUE_def)

lemma rejected_int:
  "\<not> leaf_accepts GQL_VM_LEAF_INT v \<Longrightarrow> signed_scalar v \<Longrightarrow> \<exists>m. serialize_int v = Inl m"
  by (simp add: leaf_accepts_int serialize_int_exact)

lemma rejected_leaf:
  "\<not> leaf_accepts kind v \<Longrightarrow> kind = GQL_VM_LEAF_FLOAT \<Longrightarrow> \<exists>m. serialize_float v = Inl m"
  "\<not> leaf_accepts kind v \<Longrightarrow> kind \<noteq> GQL_VM_LEAF_INT \<Longrightarrow> kind \<noteq> GQL_VM_LEAF_FLOAT \<Longrightarrow>
    (\<exists>m. serialize_string name v = Inl m) \<and> (\<exists>m. serialize_boolean v = Inl m)"
  by (auto simp: leaf_accepts_def serialize_float_def serialize_string_def serialize_boolean_def
      looks_like_number_def leaf_codes SvROK_def SvIOK_def SvNOK_def SvPOK_def sv_isobject_def split: sv.splits)

lemma serialize_builtin:
  assumes "slot_callbacks_at runtime (so_schema_slot_index slot) = Some c" "builtin_leaf (sc_leaf_kind c) = Some name" "SvOK v"
  shows "serialize_leaf_sv tc runtime (Some slot) (Some v) = from_serialized
    (if sc_leaf_kind c = GQL_VM_LEAF_INT then serialize_int v
     else if sc_leaf_kind c = GQL_VM_LEAF_FLOAT then serialize_float v
     else if sc_leaf_kind c = GQL_VM_LEAF_BOOLEAN then serialize_boolean v
     else serialize_string name v)"
  using assms by (auto simp: serialize_leaf_sv_def serialize_kind_def builtin_leaf_def leaf_codes split: if_splits)


definition int_callbacks :: slot_callbacks where
  "int_callbacks = no_callbacks\<lparr>sc_leaf_kind := GQL_VM_LEAF_INT\<rparr>"


text \<open>An unsigned integer above \<open>2 ^ 63 - 1\<close> passes the test of the range, which reads it as negative.\<close>

lemma unsigned_int_passes: "serialize_int (IV 18446744073709551611) = Inr (IV 18446744073709551611)"
proof -
  have "signed_iv (IV 18446744073709551611) = - 5" by (simp add: signed_iv_def)
  then show ?thesis by (simp add: serialize_int_def in_int32_def SvIOK_def SvPOK_def SvNOK_def)
qed

end
