(* ===== verification/IR_Parser.thy ===== *)
theory IR_Parser
  imports Parser_Selections
begin

text \<open>
  The second parser (\<^verbatim>\<open>src/parser_ir_runtime.h\<close>, lines 72 to 332): it runs on the lexer of the
  first one and records spans of the source where the first builds Perl values. The structs of
  \<^verbatim>\<open>src/bootstrap.h\<close> are datatypes here, and the arena that holds them is left out. It has no nesting
  counter, so the frames it needs grow with the source: \<open>ir_frames\<close> is what is left to read.
\<close>

section \<open>The trees\<close>

record ir_span =
  sp_start :: nat
  sp_end :: nat

definition no_span :: ir_span where
  "no_span = \<lparr>sp_start = 0, sp_end = 0\<rparr>"

text \<open>First the position of the first token.\<close>

datatype ir_type =
    IR_Type_Named nat ir_span
  | IR_Type_List nat ir_type
  | IR_Type_Non_Null nat ir_type

text \<open>
  A string has the flag of block strings, a variable the position of its name. A field of an object
  has its position, its name and its value.
\<close>

datatype ir_value =
    IR_Null nat
  | IR_Bool nat bool
  | IR_Int nat ir_span
  | IR_Float nat ir_span
  | IR_String nat bool ir_span
  | IR_Enum nat ir_span
  | IR_Variable nat nat ir_span
  | IR_List nat "ir_value list"
  | IR_Object nat "ir_object_field list"
and ir_object_field =
    IR_Object_Field nat ir_span ir_value

record ir_argument =
  ia_start_pos :: nat
  ia_name :: ir_span
  ia_value :: ir_value

record ir_directive =
  id_start_pos :: nat
  id_name_pos :: nat
  id_name :: ir_span
  id_arguments :: "ir_argument list"

record ir_variable_definition =
  iv_start_pos :: nat
  iv_name_pos :: nat
  iv_name :: ir_span
  iv_type :: ir_type
  iv_default_value :: "ir_value option"
  iv_directives :: "ir_directive list"

text \<open>
  A field: positions of its start, its alias and its name, then alias, name, arguments, directives,
  selections. A spread: positions of start and name. An inline fragment: positions of start and type.
\<close>

datatype ir_selection =
    IR_Field nat nat nat ir_span ir_span "ir_argument list" "ir_directive list" "ir_selection_set option"
  | IR_Fragment_Spread nat nat ir_span "ir_directive list"
  | IR_Inline_Fragment nat nat ir_span "ir_directive list" ir_selection_set
and ir_selection_set =
    IR_Selection_Set nat "ir_selection list"

section \<open>The parser\<close>

definition tok_span :: "gql_parser \<Rightarrow> ir_span" where
  "tok_span p = \<lparr>sp_start = tok_start p, sp_end = tok_end p\<rparr>"

definition gql_ir_parse_name_span :: "gql_parser \<Rightarrow> string \<Rightarrow> ir_span parsed" where
  "gql_ir_parse_name_span p msg =
     (if kind p \<noteq> TOK_NAME then gql_throw_expected_message p (tok_start p) msg
      else bnd (gql_advance p) (\<lambda>p'. Inr (tok_span p, p')))"

definition gql_ir_parse_fragment_name_span :: "gql_parser \<Rightarrow> ir_span parsed" where
  "gql_ir_parse_fragment_name_span p =
     (if gql_peek_name p ''on'' then gql_throw (tok_end p) (''Unexpected Name '' @ quoted ''on'')
      else gql_ir_parse_name_span p ''Expected name'')"

fun gql_ir_parse_type_reference :: "nat \<Rightarrow> gql_parser \<Rightarrow> ir_type parsed" where
  "gql_ir_parse_type_reference 0 p = Inl Out_Of_Fuel"
| "gql_ir_parse_type_reference (Suc n) p =
     (let start_pos = tok_start p
      in bnd (if kind p = TOK_LBRACKET then
                bnd (gql_advance p) (\<lambda>p.
                bnd (gql_ir_parse_type_reference n p) (\<lambda>(inner, p).
                bnd (gql_expect p TOK_RBRACKET None) (\<lambda>p.
                Inr (IR_Type_List start_pos inner, p))))
              else
                bnd (gql_ir_parse_name_span p ''Expected name'') (\<lambda>(name, p).
                Inr (IR_Type_Named start_pos name, p))) (\<lambda>(type, p).
         if kind p = TOK_BANG then
           bnd (gql_advance p) (\<lambda>p. Inr (IR_Type_Non_Null start_pos type, p))
         else Inr (type, p)))"

fun gql_ir_parse_value :: "nat \<Rightarrow> bool \<Rightarrow> gql_parser \<Rightarrow> ir_value parsed" where
  "gql_ir_parse_value 0 is_const p = Inl Out_Of_Fuel"
| "gql_ir_parse_value (Suc n) is_const p =
     (let start_pos = tok_start p
      in case kind p of
           TOK_DOLLAR \<Rightarrow>
             if is_const then gql_throw (tok_start p) ''Expected name or constant''
             else
               bnd (gql_advance p) (\<lambda>p.
               let name_pos = tok_start p
               in bnd (gql_ir_parse_name_span p ''Expected name'') (\<lambda>(name, p).
                  Inr (IR_Variable start_pos name_pos name, p)))
         | TOK_INT \<Rightarrow> bnd (gql_advance p) (\<lambda>p'. Inr (IR_Int start_pos (tok_span p), p'))
         | TOK_FLOAT \<Rightarrow> bnd (gql_advance p) (\<lambda>p'. Inr (IR_Float start_pos (tok_span p), p'))
         | TOK_STRING \<Rightarrow>
             bnd (gql_advance p) (\<lambda>p'.
             Inr (IR_String start_pos False \<lparr>sp_start = val_start p, sp_end = val_end p\<rparr>, p'))
         | TOK_BLOCK_STRING \<Rightarrow>
             bnd (gql_advance p) (\<lambda>p'.
             Inr (IR_String start_pos True \<lparr>sp_start = val_start p, sp_end = val_end p\<rparr>, p'))
         | TOK_NAME \<Rightarrow>
             if gql_peek_name p ''true'' then bnd (gql_advance p) (\<lambda>p. Inr (IR_Bool start_pos True, p))
             else if gql_peek_name p ''false'' then bnd (gql_advance p) (\<lambda>p. Inr (IR_Bool start_pos False, p))
             else if gql_peek_name p ''null'' then bnd (gql_advance p) (\<lambda>p. Inr (IR_Null start_pos, p))
             else bnd (gql_advance p) (\<lambda>p'. Inr (IR_Enum start_pos (tok_span p), p'))
         | TOK_LBRACKET \<Rightarrow>
             bnd (gql_expect p TOK_LBRACKET None) (\<lambda>p.
             bnd (parse_until TOK_RBRACKET (\<lambda>items p.
                    bnd (gql_ir_parse_value n is_const p) (\<lambda>(item, p). Inr (items @ [item], p))) [] p) (\<lambda>(items, p).
             bnd (gql_expect p TOK_RBRACKET None) (\<lambda>p.
             Inr (IR_List start_pos items, p))))
         | TOK_LBRACE \<Rightarrow>
             bnd (gql_expect p TOK_LBRACE (Some ''Expected name'')) (\<lambda>p.
             bnd (parse_until TOK_RBRACE (\<lambda>fields p.
                    let field_start = tok_start p
                    in bnd (gql_ir_parse_name_span p ''Expected name'') (\<lambda>(name, p).
                       bnd (gql_expect p TOK_COLON None) (\<lambda>p.
                       bnd (gql_ir_parse_value n is_const p) (\<lambda>(v, p).
                       Inr (fields @ [IR_Object_Field field_start name v], p))))) [] p) (\<lambda>(fields, p).
             bnd (gql_expect p TOK_RBRACE None) (\<lambda>p.
             Inr (IR_Object start_pos fields, p))))
         | _ \<Rightarrow> gql_throw (tok_start p) (if is_const then ''Expected name or constant'' else ''Expected value''))"

definition ir_frames :: "gql_parser \<Rightarrow> nat" where
  "ir_frames p = Suc (left p)"

definition gql_ir_parse_arguments :: "bool \<Rightarrow> gql_parser \<Rightarrow> ir_argument list parsed" where
  "gql_ir_parse_arguments is_const p =
     bnd (gql_expect p TOK_LPAREN None) (\<lambda>p.
     if kind p = TOK_RPAREN then gql_throw_expected_message p (tok_start p) ''Expected name''
     else
       bnd (parse_until TOK_RPAREN (\<lambda>arguments p.
              let start_pos = tok_start p
              in bnd (gql_ir_parse_name_span p ''Expected name'') (\<lambda>(name, p).
                 bnd (gql_expect p TOK_COLON None) (\<lambda>p.
                 bnd (gql_ir_parse_value (ir_frames p) is_const p) (\<lambda>(v, p).
                 Inr (arguments @ [\<lparr>ia_start_pos = start_pos, ia_name = name, ia_value = v\<rparr>], p))))) [] p) (\<lambda>(arguments, p).
       bnd (gql_expect p TOK_RPAREN None) (\<lambda>p.
       Inr (arguments, p))))"

definition gql_ir_parse_directives :: "gql_parser \<Rightarrow> ir_directive list parsed" where
  "gql_ir_parse_directives p =
     parse_while (\<lambda>q. kind q = TOK_AT) (\<lambda>directives p.
       let start_pos = tok_start p
       in bnd (gql_expect p TOK_AT None) (\<lambda>p.
          let name_pos = tok_start p
          in bnd (gql_ir_parse_name_span p ''Expected name'') (\<lambda>(name, p).
             bnd (if kind p = TOK_LPAREN then gql_ir_parse_arguments False p else Inr ([], p)) (\<lambda>(arguments, p).
             Inr (directives @
               [\<lparr>id_start_pos = start_pos, id_name_pos = name_pos, id_name = name, id_arguments = arguments\<rparr>], p))))) [] p"

definition ir_opt_directives :: "gql_parser \<Rightarrow> ir_directive list parsed" where
  "ir_opt_directives p = (if kind p = TOK_AT then gql_ir_parse_directives p else Inr ([], p))"

fun gql_ir_parse_selection_set :: "nat \<Rightarrow> gql_parser \<Rightarrow> ir_selection_set parsed"
  and gql_ir_parse_selection :: "nat \<Rightarrow> gql_parser \<Rightarrow> ir_selection parsed"
where
  "gql_ir_parse_selection_set 0 p = Inl Out_Of_Fuel"
| "gql_ir_parse_selection_set (Suc n) p =
     (let start_pos = tok_start p
      in bnd (gql_expect p TOK_LBRACE (Some ''Expected name'')) (\<lambda>p.
         if kind p = TOK_RBRACE then gql_throw (tok_start p) ''Expected name''
         else
           bnd (parse_until TOK_RBRACE (\<lambda>selections p.
                  bnd (gql_ir_parse_selection n p) (\<lambda>(s, p). Inr (selections @ [s], p))) [] p) (\<lambda>(selections, p).
           bnd (gql_expect p TOK_RBRACE None) (\<lambda>p.
           Inr (IR_Selection_Set start_pos selections, p)))))"
| "gql_ir_parse_selection 0 p = Inl Out_Of_Fuel"
| "gql_ir_parse_selection (Suc n) p =
     (if kind p = TOK_SPREAD then
        let spread_start = tok_start p
        in bnd (gql_advance p) (\<lambda>p.
           if gql_peek_name p ''on'' then
             bnd (gql_advance p) (\<lambda>lookahead.
             if kind lookahead \<noteq> TOK_NAME then gql_throw (tok_start p) (''Unexpected Name '' @ quoted ''on'')
             else
               bnd (gql_advance p) (\<lambda>p.
               let type_condition_pos = tok_start p
               in bnd (gql_ir_parse_name_span p ''Expected name'') (\<lambda>(type_condition, p).
                  bnd (ir_opt_directives p) (\<lambda>(directives, p).
                  bnd (gql_ir_parse_selection_set n p) (\<lambda>(sel, p).
                  Inr (IR_Inline_Fragment spread_start type_condition_pos type_condition directives sel, p))))))
           else if kind p = TOK_LBRACE \<or> kind p = TOK_AT then
             bnd (ir_opt_directives p) (\<lambda>(directives, p).
             bnd (gql_ir_parse_selection_set n p) (\<lambda>(sel, p).
             Inr (IR_Inline_Fragment spread_start 0 no_span directives sel, p)))
           else
             let name_pos = tok_start p
             in bnd (gql_ir_parse_fragment_name_span p) (\<lambda>(name, p).
                bnd (ir_opt_directives p) (\<lambda>(directives, p).
                Inr (IR_Fragment_Spread spread_start name_pos name directives, p))))
      else
        let start_pos = tok_start p
        in bnd (gql_ir_parse_name_span p ''Expected name'') (\<lambda>(first_name, p).
           bnd (if kind p = TOK_COLON then
                  bnd (gql_advance p) (\<lambda>p.
                  let name_pos = tok_start p
                  in bnd (gql_ir_parse_name_span p ''Expected name'') (\<lambda>(name, p).
                     Inr ((start_pos, name_pos, first_name, name), p)))
                else Inr ((0, start_pos, no_span, first_name), p)) (\<lambda>((alias_pos, name_pos, alias, name), p).
           bnd (if kind p = TOK_LPAREN then gql_ir_parse_arguments False p else Inr ([], p)) (\<lambda>(arguments, p).
           bnd (ir_opt_directives p) (\<lambda>(directives, p).
           bnd (if kind p = TOK_LBRACE then
                  bnd (gql_ir_parse_selection_set n p) (\<lambda>(sel, p). Inr (Some sel, p))
                else Inr (None, p)) (\<lambda>(sel, p).
           Inr (IR_Field start_pos alias_pos name_pos alias name arguments directives sel, p)))))))"

declare gql_ir_parse_type_reference.simps [simp del] gql_ir_parse_value.simps [simp del]
  gql_ir_parse_selection_set.simps [simp del] gql_ir_parse_selection.simps [simp del]

end
