(* ===== verification/IR_Nodes.thy ===== *)
theory IR_Nodes
  imports IR_Parser
begin

text \<open>
  Nodes from the trees of the second parser (\<^verbatim>\<open>src/parser_ir_runtime.h\<close>, lines 528 to 957), with the
  constructors of \<^verbatim>\<open>src/parser_shared_ast.h\<close> and the locations of \<^verbatim>\<open>src/parser_ast_runtime.h\<close> and
  \<^verbatim>\<open>src/parser_core.h\<close>. A location context turns positions into lines and columns and caches the line
  it found last, so it is threaded through the builders.
\<close>

section \<open>Nodes\<close>

definition gql_parser_new_node_hv :: "string \<Rightarrow> hv" where
  "gql_parser_new_node_hv k = gql_store_sv [] ''kind'' (PV False k)"

definition gql_parser_new_node_ref :: "string \<Rightarrow> sv" where
  "gql_parser_new_node_ref k = HV (gql_parser_new_node_hv k)"

definition gql_parser_new_name_node_sv :: "sv \<Rightarrow> sv" where
  "gql_parser_new_name_node_sv v = HV (gql_store_sv (gql_parser_new_node_hv ''Name'') ''value'' v)"

definition gql_parser_new_named_type_node_sv :: "sv \<Rightarrow> sv" where
  "gql_parser_new_named_type_node_sv v =
     HV (gql_store_sv (gql_parser_new_node_hv ''NamedType'') ''name'' (gql_parser_new_name_node_sv v))"

definition gql_parser_new_variable_node_sv :: "sv \<Rightarrow> sv" where
  "gql_parser_new_variable_node_sv v =
     HV (gql_store_sv (gql_parser_new_node_hv ''Variable'') ''name'' (gql_parser_new_name_node_sv v))"

section \<open>Locations\<close>

record rewrite_index =
  ri_original_start :: nat
  ri_rewritten_start :: int
  ri_rewritten_end :: int
  ri_delta_after :: int

text \<open>\<^verbatim>\<open>num_lines\<close> and \<^verbatim>\<open>rewrite_index_count\<close> are the lengths. \<open>lc_last\<close> is \<open>None\<close> without a cached line.\<close>

record loc_context =
  lc_line_starts :: "nat list"
  lc_rewrite_index :: "rewrite_index list"
  lc_last :: "(nat \<times> nat) option"
  lc_lazy_location :: bool
  lc_compact_location :: bool

text \<open>The binary search: the last entry that starts at or before the position.\<close>

function rewrite_search :: "rewrite_index list \<Rightarrow> int \<Rightarrow> int \<Rightarrow> int \<Rightarrow> int \<Rightarrow> int" where
  "rewrite_search entries at_pos low high found =
     (if low \<le> high then
        (let mid = low + (high - low) div 2
         in if ri_rewritten_start (entries ! nat mid) \<le> at_pos
            then rewrite_search entries at_pos (mid + 1) high mid
            else rewrite_search entries at_pos low (mid - 1) found)
      else found)"
  by pat_completeness auto
termination
  by (relation "measure (\<lambda>(entries, at_pos, low, high, found). nat (high - low + 1))") auto

declare rewrite_search.simps [simp del]

definition gql_parser_original_pos_from_rewritten_pos :: "loc_context \<Rightarrow> nat \<Rightarrow> nat" where
  "gql_parser_original_pos_from_rewritten_pos ctx rewritten_pos =
     (let entries = lc_rewrite_index ctx;
          match = rewrite_search entries (int rewritten_pos) 0 (int (length entries) - 1) (- 1)
      in if entries = [] \<or> match < 0 then rewritten_pos
         else
           let entry = entries ! nat match
           in if int rewritten_pos < ri_rewritten_end entry then ri_original_start entry
              else nat ((int rewritten_pos + ri_delta_after entry) mod 2 ^ 64))"

definition gql_parser_new_loc_sv :: "int \<Rightarrow> int \<Rightarrow> sv" where
  "gql_parser_new_loc_sv line column =
     HV (hv_store (hv_store [] ''line'' (IV line)) ''column'' (IV column))"

text \<open>A lazy location is a blessed array with the position.\<close>

definition gql_parser_new_lazy_loc_sv :: "nat \<Rightarrow> sv" where
  "gql_parser_new_lazy_loc_sv start = AV [IV (int start)]"

function walk_lines :: "nat list \<Rightarrow> nat \<Rightarrow> nat \<Rightarrow> nat" where
  "walk_lines starts at_pos i =
     (if i + 1 < length starts \<and> starts ! (i + 1) \<le> at_pos then walk_lines starts at_pos (i + 1) else i)"
  by pat_completeness auto
termination
  by (relation "measure (\<lambda>(starts, at_pos, i). length starts - i)") auto

declare walk_lines.simps [simp del]

definition line_index_at :: "loc_context \<Rightarrow> nat \<Rightarrow> nat" where
  "line_index_at ctx original_pos =
     (let starts = lc_line_starts ctx;
          search = nat (line_search starts original_pos 0 (int (length starts) - 1) 0)
      in case lc_last ctx of
           None \<Rightarrow> search
         | Some (last_original, last_line) \<Rightarrow>
             if starts ! last_line \<le> original_pos
                \<and> (length starts \<le> last_line + 1 \<or> original_pos < starts ! (last_line + 1))
             then last_line
             else if last_original \<le> original_pos then walk_lines starts original_pos last_line
             else search)"

definition gql_parser_loc_from_rewritten_pos :: "loc_context \<Rightarrow> nat \<Rightarrow> sv \<times> loc_context" where
  "gql_parser_loc_from_rewritten_pos ctx rewritten_pos =
     (let original_pos = gql_parser_original_pos_from_rewritten_pos ctx rewritten_pos;
          starts = lc_line_starts ctx; i = line_index_at ctx original_pos
      in if starts = [] then
           (if lc_lazy_location ctx then gql_parser_new_lazy_loc_sv original_pos
            else gql_parser_new_loc_sv 1 (int original_pos + 1), ctx)
         else
           (if lc_lazy_location ctx then gql_parser_new_lazy_loc_sv original_pos
            else gql_parser_new_loc_sv (int i + 1) (int original_pos - int (starts ! i) + 1),
            ctx\<lparr>lc_last := Some (original_pos, i)\<rparr>))"

definition gql_parser_set_loc_node :: "sv \<Rightarrow> sv \<Rightarrow> sv" where
  "gql_parser_set_loc_node node loc = (case node of HV h \<Rightarrow> HV (hv_store h ''loc'' loc) | _ \<Rightarrow> node)"

section \<open>The builders\<close>

text \<open>
  A builder may throw, where a string does not decode, and changes the cached line. \<open>None\<close> is
  the null context.
\<close>

type_synonym 'a building = "loc_context option \<Rightarrow> gql_error + 'a \<times> loc_context option"

text \<open>\<^verbatim>\<open>ctx && !ctx->compact_location\<close>.\<close>

definition detailed :: "loc_context option \<Rightarrow> bool" where
  "detailed ctx = (case ctx of Some c \<Rightarrow> \<not> lc_compact_location c | None \<Rightarrow> False)"

definition gql_parser_set_rewritten_loc_node ::
  "loc_context option \<Rightarrow> sv \<Rightarrow> nat \<Rightarrow> sv \<times> loc_context option"
where
  "gql_parser_set_rewritten_loc_node ctx node rewritten_pos =
     (case ctx of
        None \<Rightarrow> (node, ctx)
      | Some c \<Rightarrow>
          let (loc, c) = gql_parser_loc_from_rewritten_pos c rewritten_pos
          in (gql_parser_set_loc_node node loc, Some c))"

definition gql_parser_set_shared_rewritten_loc_nodes ::
  "loc_context option \<Rightarrow> nat \<Rightarrow> sv \<Rightarrow> sv \<Rightarrow> sv \<times> sv \<times> loc_context option"
where
  "gql_parser_set_shared_rewritten_loc_nodes ctx rewritten_pos left_node right_node =
     (case ctx of
        None \<Rightarrow> (left_node, right_node, ctx)
      | Some c \<Rightarrow>
          let (loc, c) = gql_parser_loc_from_rewritten_pos c rewritten_pos
          in (gql_parser_set_loc_node left_node loc, gql_parser_set_loc_node right_node loc, Some c))"

record ir_document =
  ir_src :: string
  ir_len :: nat
  ir_is_utf8 :: bool

definition gql_ir_make_sv_from_span :: "ir_document \<Rightarrow> ir_span \<Rightarrow> sv" where
  "gql_ir_make_sv_from_span document span =
     (if sp_end span < sp_start span then PV False []
      else PV (ir_is_utf8 document) (take (sp_end span - sp_start span) (drop (sp_start span) (ir_src document))))"

definition gql_ir_make_string_value_sv :: "ir_document \<Rightarrow> bool \<Rightarrow> ir_span \<Rightarrow> gql_error + sv" where
  "gql_ir_make_string_value_sv document is_block_string span =
     (let raw = gql_ir_make_sv_from_span document span
      in if is_block_string then Inr (PV (SvUTF8 raw) (block_string_value (SvPV raw)))
         else gql_unescape_string_sv raw)"

text \<open>
  A named node: a hash with the node of its name in it. \<^verbatim>\<open>hv_stores\<close> keeps the reference, so a
  location given to the name node later is seen in the hash; here the hash is updated.
\<close>

definition set_name_node :: "sv \<Rightarrow> sv \<Rightarrow> sv" where
  "set_name_node node name = (case node of HV h \<Rightarrow> HV (hv_store h ''name'' name) | _ \<Rightarrow> node)"

definition locate_named :: "sv \<Rightarrow> sv \<Rightarrow> nat \<Rightarrow> loc_context option \<Rightarrow> sv \<times> loc_context option" where
  "locate_named node name start_pos ctx =
     (if detailed ctx then
        let (node, name, ctx) = gql_parser_set_shared_rewritten_loc_nodes ctx start_pos node name
        in (set_name_node node name, ctx)
      else gql_parser_set_rewritten_loc_node ctx node start_pos)"

fun gql_parser_build_type_from_ir :: "ir_document \<Rightarrow> ir_type \<Rightarrow> loc_context option \<Rightarrow> sv \<times> loc_context option" where
  "gql_parser_build_type_from_ir document (IR_Type_Named start_pos name) ctx =
     (let v = gql_ir_make_sv_from_span document name
      in locate_named (gql_parser_new_named_type_node_sv v) (gql_parser_new_name_node_sv v) start_pos ctx)"
| "gql_parser_build_type_from_ir document (IR_Type_List start_pos inner) ctx =
     (let (node, ctx) = gql_parser_build_type_from_ir document inner ctx
      in gql_parser_set_rewritten_loc_node ctx
           (HV (hv_store (gql_parser_new_node_hv ''ListType'') ''type'' node)) start_pos)"
| "gql_parser_build_type_from_ir document (IR_Type_Non_Null start_pos inner) ctx =
     (let (node, ctx) = gql_parser_build_type_from_ir document inner ctx
      in gql_parser_set_rewritten_loc_node ctx
           (HV (hv_store (gql_parser_new_node_hv ''NonNullType'') ''type'' node)) start_pos)"

text \<open>
  With a state object the arrays of arguments, directives and object members are left to a tied
  array, which a Perl helper makes from the part of the tree it stands for.
\<close>

datatype lazy_array =
    Lazy_Arguments "ir_argument list"
  | Lazy_Directives "ir_directive list"
  | Lazy_Object_Fields "ir_object_field list"

type_synonym lazy_state = "(lazy_array \<Rightarrow> sv) option"

definition node_with_value :: "string \<Rightarrow> sv \<Rightarrow> sv" where
  "node_with_value k v = HV (hv_store (gql_parser_new_node_hv k) ''value'' v)"

definition located :: "sv \<Rightarrow> nat \<Rightarrow> sv building" where
  "located node start_pos ctx = Inr (gql_parser_set_rewritten_loc_node ctx node start_pos)"

definition build_named ::
  "string \<Rightarrow> ir_document \<Rightarrow> nat \<Rightarrow> ir_span \<Rightarrow> sv building \<Rightarrow> sv building"
where
  "build_named k document start_pos name build_value ctx =
     (let name_node = gql_parser_new_name_node_sv (gql_ir_make_sv_from_span document name);
          hv = hv_store (gql_parser_new_node_hv k) ''name'' name_node
      in bnd (build_value ctx) (\<lambda>(v, ctx).
         Inr (locate_named (HV (hv_store hv ''value'' v)) name_node start_pos ctx)))"

text \<open>A loop that builds an element of an array in every round.\<close>

fun build_each :: "('a \<Rightarrow> sv building) \<Rightarrow> 'a list \<Rightarrow> sv list building" where
  "build_each f [] ctx = Inr ([], ctx)"
| "build_each f (x # xs) ctx =
     bnd (f x ctx) (\<lambda>(v, ctx).
     bnd (build_each f xs ctx) (\<lambda>(vs, ctx).
     Inr (v # vs, ctx)))"

lemma build_each_cong [fundef_cong]:
  assumes "xs = ys" "c = d" "\<And>x e. x \<in> set ys \<Longrightarrow> f x e = g x e"
  shows "build_each f xs c = build_each g ys d"
proof -
  have "(\<And>x e. x \<in> set zs \<Longrightarrow> f x e = g x e) \<Longrightarrow> build_each f zs c = build_each g zs c" for zs c
    by (induction zs arbitrary: c) (auto intro!: bnd_cong split: prod.split)
  with assms show ?thesis by blast
qed

fun gql_parser_build_value_from_ir :: "ir_document \<Rightarrow> lazy_state \<Rightarrow> ir_value \<Rightarrow> sv building"
  and gql_parser_build_object_field_from_ir :: "ir_document \<Rightarrow> lazy_state \<Rightarrow> ir_object_field \<Rightarrow> sv building"
where
  "gql_parser_build_value_from_ir document state (IR_Null start_pos) ctx =
     located (gql_parser_new_node_ref ''NullValue'') start_pos ctx"
| "gql_parser_build_value_from_ir document state (IR_Bool start_pos b) ctx =
     located (node_with_value ''BooleanValue'' (IV (if b then 1 else 0))) start_pos ctx"
| "gql_parser_build_value_from_ir document state (IR_Int start_pos span) ctx =
     located (node_with_value ''IntValue'' (gql_ir_make_sv_from_span document span)) start_pos ctx"
| "gql_parser_build_value_from_ir document state (IR_Float start_pos span) ctx =
     located (node_with_value ''FloatValue'' (gql_ir_make_sv_from_span document span)) start_pos ctx"
| "gql_parser_build_value_from_ir document state (IR_String start_pos is_block_string span) ctx =
     bnd (gql_ir_make_string_value_sv document is_block_string span) (\<lambda>v.
     located (node_with_value ''StringValue'' v) start_pos ctx)"
| "gql_parser_build_value_from_ir document state (IR_Enum start_pos span) ctx =
     located (node_with_value ''EnumValue'' (gql_ir_make_sv_from_span document span)) start_pos ctx"
| "gql_parser_build_value_from_ir document state (IR_Variable start_pos name_pos name) ctx =
     (let v = gql_ir_make_sv_from_span document name;
          (node, ctx) = gql_parser_set_rewritten_loc_node ctx (gql_parser_new_variable_node_sv v) start_pos
      in if detailed ctx then
           let (name_node, ctx) = gql_parser_set_rewritten_loc_node ctx (gql_parser_new_name_node_sv v) name_pos
           in Inr (set_name_node node name_node, ctx)
         else Inr (node, ctx))"
| "gql_parser_build_value_from_ir document state (IR_List start_pos items) ctx =
     bnd (build_each (gql_parser_build_value_from_ir document state) items ctx) (\<lambda>(values, ctx).
     located (HV (hv_store (gql_parser_new_node_hv ''ListValue'') ''values'' (AV values))) start_pos ctx)"
| "gql_parser_build_value_from_ir document state (IR_Object start_pos members) ctx =
     bnd (case (members, state) of
            (_ # _, Some lazy) \<Rightarrow> Inr (lazy (Lazy_Object_Fields members), ctx)
          | _ \<Rightarrow>
              bnd (build_each (gql_parser_build_object_field_from_ir document state) members ctx) (\<lambda>(nodes, ctx).
              Inr (AV nodes, ctx))) (\<lambda>(array, ctx).
     located (HV (hv_store (gql_parser_new_node_hv ''ObjectValue'') ''fields'' array)) start_pos ctx)"
| "gql_parser_build_object_field_from_ir document state (IR_Object_Field start_pos name v) ctx =
     build_named ''ObjectField'' document start_pos name (gql_parser_build_value_from_ir document state v) ctx"

definition gql_parser_build_object_fields_from_ir ::
  "ir_document \<Rightarrow> lazy_state \<Rightarrow> ir_object_field list \<Rightarrow> sv list building"
where
  "gql_parser_build_object_fields_from_ir document state members ctx =
     build_each (gql_parser_build_object_field_from_ir document state) members ctx"

definition build_argument :: "ir_document \<Rightarrow> lazy_state \<Rightarrow> ir_argument \<Rightarrow> sv building" where
  "build_argument document state a ctx =
     build_named ''Argument'' document (ia_start_pos a) (ia_name a)
       (gql_parser_build_value_from_ir document state (ia_value a)) ctx"

definition gql_parser_build_arguments_from_ir ::
  "ir_document \<Rightarrow> lazy_state \<Rightarrow> ir_argument list \<Rightarrow> sv list building"
where
  "gql_parser_build_arguments_from_ir document state arguments ctx =
     build_each (build_argument document state) arguments ctx"

definition build_array :: "(sv list) building \<Rightarrow> bool \<Rightarrow> lazy_state \<Rightarrow> lazy_array \<Rightarrow> sv building" where
  "build_array build nonempty state deferred ctx =
     (case (nonempty, state) of
        (True, Some lazy) \<Rightarrow> Inr (lazy deferred, ctx)
      | _ \<Rightarrow> bnd (build ctx) (\<lambda>(nodes, ctx). Inr (AV nodes, ctx)))"

definition arguments_array :: "ir_document \<Rightarrow> lazy_state \<Rightarrow> ir_argument list \<Rightarrow> sv building" where
  "arguments_array document state arguments =
     build_array (gql_parser_build_arguments_from_ir document state arguments) (arguments \<noteq> []) state
       (Lazy_Arguments arguments)"

definition build_directive :: "ir_document \<Rightarrow> lazy_state \<Rightarrow> ir_directive \<Rightarrow> sv building" where
  "build_directive document state d ctx =
     (let name_node = gql_parser_new_name_node_sv (gql_ir_make_sv_from_span document (id_name d));
          hv = hv_store (gql_parser_new_node_hv ''Directive'') ''name'' name_node
      in bnd (arguments_array document state (id_arguments d) ctx) (\<lambda>(arguments, ctx).
         let (node, ctx) = gql_parser_set_rewritten_loc_node ctx (HV (hv_store hv ''arguments'' arguments)) (id_start_pos d)
         in if detailed ctx then
              let (name_node, ctx) = gql_parser_set_rewritten_loc_node ctx name_node (id_name_pos d)
              in Inr (set_name_node node name_node, ctx)
            else Inr (node, ctx)))"

definition gql_parser_build_directives_from_ir ::
  "ir_document \<Rightarrow> lazy_state \<Rightarrow> ir_directive list \<Rightarrow> sv list building"
where
  "gql_parser_build_directives_from_ir document state directives ctx =
     build_each (build_directive document state) directives ctx"

definition directives_array :: "ir_document \<Rightarrow> lazy_state \<Rightarrow> ir_directive list \<Rightarrow> sv building" where
  "directives_array document state directives =
     build_array (gql_parser_build_directives_from_ir document state directives) (directives \<noteq> []) state
       (Lazy_Directives directives)"

definition alias_present :: "ir_span \<Rightarrow> bool" where
  "alias_present alias \<longleftrightarrow> sp_start alias \<noteq> sp_end alias"

text \<open>A name node with a location of its own, where \<open>wanted\<close> says that it gets one.\<close>

definition build_name ::
  "ir_document \<Rightarrow> ir_span \<Rightarrow> bool \<Rightarrow> nat \<Rightarrow> loc_context option \<Rightarrow> sv \<times> loc_context option"
where
  "build_name document name wanted name_pos ctx =
     (let node = gql_parser_new_name_node_sv (gql_ir_make_sv_from_span document name)
      in if wanted then gql_parser_set_rewritten_loc_node ctx node name_pos else (node, ctx))"

text \<open>
  A field whose name is its first token shares the location with its name node, which gets it
  after everything else.
\<close>

definition name_is_start :: "nat \<Rightarrow> nat \<Rightarrow> ir_span \<Rightarrow> bool" where
  "name_is_start start_pos name_pos alias \<longleftrightarrow> \<not> alias_present alias \<and> start_pos = name_pos"

definition located_type_condition :: "ir_document \<Rightarrow> nat \<Rightarrow> ir_span \<Rightarrow> loc_context option \<Rightarrow> sv \<times> loc_context option" where
  "located_type_condition document type_pos name ctx =
     (let v = gql_ir_make_sv_from_span document name
      in locate_named (gql_parser_new_named_type_node_sv v) (gql_parser_new_name_node_sv v) type_pos ctx)"

fun gql_parser_build_selection_from_ir :: "ir_document \<Rightarrow> lazy_state \<Rightarrow> ir_selection \<Rightarrow> sv building"
  and gql_parser_build_selection_set_from_ir :: "ir_document \<Rightarrow> lazy_state \<Rightarrow> ir_selection_set \<Rightarrow> sv building"
where
  "gql_parser_build_selection_from_ir document state
     (IR_Field start_pos alias_pos name_pos alias name arguments directives selection_set) ctx =
     (let shared = name_is_start start_pos name_pos alias;
          hv = gql_parser_new_node_hv ''Field'';
          (hv, ctx) = (if alias_present alias then
                         let (node, ctx) = build_name document alias (detailed ctx) alias_pos ctx
                         in (hv_store hv ''alias'' node, ctx)
                       else (hv, ctx));
          (name_node, ctx) = build_name document name (detailed ctx \<and> \<not> shared) name_pos ctx;
          hv = hv_store hv ''name'' name_node
      in bnd (arguments_array document state arguments ctx) (\<lambda>(args, ctx).
         bnd (directives_array document state directives ctx) (\<lambda>(dirs, ctx).
         let hv = hv_store (hv_store hv ''arguments'' args) ''directives'' dirs
         in bnd (case selection_set of
                   None \<Rightarrow> Inr (hv, ctx)
                 | Some sel \<Rightarrow>
                     bnd (gql_parser_build_selection_set_from_ir document state sel ctx) (\<lambda>(node, ctx).
                     Inr (hv_store hv ''selectionSet'' node, ctx))) (\<lambda>(hv, ctx).
            Inr (if shared then locate_named (HV hv) name_node start_pos ctx
                 else gql_parser_set_rewritten_loc_node ctx (HV hv) start_pos)))))"
| "gql_parser_build_selection_from_ir document state (IR_Fragment_Spread start_pos name_pos name directives) ctx =
     (let (name_node, ctx) = build_name document name (detailed ctx) name_pos ctx;
          hv = hv_store (gql_parser_new_node_hv ''FragmentSpread'') ''name'' name_node
      in bnd (directives_array document state directives ctx) (\<lambda>(dirs, ctx).
         located (HV (hv_store hv ''directives'' dirs)) start_pos ctx))"
| "gql_parser_build_selection_from_ir document state
     (IR_Inline_Fragment start_pos type_pos type_condition directives selection_set) ctx =
     (let hv = gql_parser_new_node_hv ''InlineFragment'';
          (hv, ctx) = (if alias_present type_condition then
                         let (node, ctx) = located_type_condition document type_pos type_condition ctx
                         in (hv_store hv ''typeCondition'' node, ctx)
                       else (hv, ctx))
      in bnd (directives_array document state directives ctx) (\<lambda>(dirs, ctx).
         bnd (gql_parser_build_selection_set_from_ir document state selection_set ctx) (\<lambda>(node, ctx).
         located (HV (hv_store (hv_store hv ''directives'' dirs) ''selectionSet'' node)) start_pos ctx)))"
| "gql_parser_build_selection_set_from_ir document state (IR_Selection_Set start_pos selections) ctx =
     bnd (build_each (gql_parser_build_selection_from_ir document state) selections ctx) (\<lambda>(nodes, ctx).
     located (HV (hv_store (gql_parser_new_node_hv ''SelectionSet'') ''selections'' (AV nodes))) start_pos ctx)"

text \<open>The location goes to the definition and its variable, its name has one of its own.\<close>

definition build_variable_definition :: "ir_document \<Rightarrow> lazy_state \<Rightarrow> ir_variable_definition \<Rightarrow> sv building" where
  "build_variable_definition document state d ctx =
     (let v = gql_ir_make_sv_from_span document (iv_name d);
          variable = gql_parser_new_variable_node_sv v;
          hv = hv_store (gql_parser_new_node_hv ''VariableDefinition'') ''variable'' variable;
          (type, ctx) = gql_parser_build_type_from_ir document (iv_type d) ctx;
          hv = hv_store hv ''type'' type
      in bnd (case iv_default_value d of
                None \<Rightarrow> Inr (hv, ctx)
              | Some dv \<Rightarrow>
                  bnd (gql_parser_build_value_from_ir document state dv ctx) (\<lambda>(node, ctx).
                  Inr (hv_store hv ''defaultValue'' node, ctx))) (\<lambda>(hv, ctx).
         bnd (directives_array document state (iv_directives d) ctx) (\<lambda>(dirs, ctx).
         let (def, variable, ctx) =
               gql_parser_set_shared_rewritten_loc_nodes ctx (iv_start_pos d) (HV (hv_store hv ''directives'' dirs)) variable;
             (name, ctx) = build_name document (iv_name d) (detailed ctx) (iv_name_pos d) ctx;
             variable = set_name_node variable name
         in Inr (case def of HV h \<Rightarrow> HV (hv_store h ''variable'' variable) | _ \<Rightarrow> def, ctx))))"

definition gql_parser_build_variable_definitions_from_ir ::
  "ir_document \<Rightarrow> lazy_state \<Rightarrow> ir_variable_definition list \<Rightarrow> sv list building"
where
  "gql_parser_build_variable_definitions_from_ir document state definitions ctx =
     build_each (build_variable_definition document state) definitions ctx"

end
