(* ===== verification/IR_Locations.thy ===== *)
theory IR_Locations
  imports IR_Nodes Location
begin

text \<open>
  The location context of the node builders: two binary searches, one for the rewrite a position falls
  into and one for its line, and the line found last. However the positions follow each other, the
  cache changes no answer.
\<close>

section \<open>The reference\<close>

text \<open>The last rewrite that starts at or before the position decides where it was in the original source.\<close>

definition original_spec :: "loc_context \<Rightarrow> nat \<Rightarrow> nat" where
  "original_spec ctx rewritten_pos =
     (let before = filter (\<lambda>e. ri_rewritten_start e \<le> int rewritten_pos) (lc_rewrite_index ctx)
      in if before = [] then rewritten_pos
         else if int rewritten_pos < ri_rewritten_end (last before) then ri_original_start (last before)
         else nat ((int rewritten_pos + ri_delta_after (last before)) mod 2 ^ 64))"

text \<open>The line is the number of lines that start at or before the position.\<close>

definition location_spec :: "loc_context \<Rightarrow> nat \<Rightarrow> sv" where
  "location_spec ctx rewritten_pos =
     (let original_pos = original_spec ctx rewritten_pos;
          line = starts_before (lc_line_starts ctx) original_pos
      in if lc_lazy_location ctx then gql_parser_new_lazy_loc_sv original_pos
         else if lc_line_starts ctx = [] then gql_parser_new_loc_sv 1 (int original_pos + 1)
         else gql_parser_new_loc_sv (int line) (int original_pos - int (lc_line_starts ctx ! (line - 1)) + 1))"

text \<open>A run of lookups through one context.\<close>

fun locations :: "loc_context \<Rightarrow> nat list \<Rightarrow> sv list" where
  "locations ctx [] = []"
| "locations ctx (i # is) = (let (v, ctx) = gql_parser_loc_from_rewritten_pos ctx i in v # locations ctx is)"

section \<open>Searching\<close>

lemma filter_prefix:
  fixes f :: "'a \<Rightarrow> 'b::linorder"
  assumes "sorted_wrt (<) (map f xs)"
  shows "filter (\<lambda>x. f x \<le> n) xs = take (length (filter (\<lambda>x. f x \<le> n) xs)) xs"
    and "i < length xs \<Longrightarrow> f (xs ! i) \<le> n \<longleftrightarrow> i < length (filter (\<lambda>x. f x \<le> n) xs)"
proof -
  have none: "filter (\<lambda>y. f y \<le> n) ys = []" if "\<not> f x \<le> n" "sorted_wrt (<) (map f (x # ys))" for x ys
    using that by (auto simp: filter_empty_conv)
  show "filter (\<lambda>x. f x \<le> n) xs = take (length (filter (\<lambda>x. f x \<le> n) xs)) xs"
    using assms
  proof (induction xs)
    case (Cons x xs)
    show ?case
    proof (cases "f x \<le> n")
      case True
      with Cons show ?thesis by simp
    next
      case False
      with none [of x xs] Cons.prems show ?thesis by simp
    qed
  qed simp
  show "f (xs ! i) \<le> n \<longleftrightarrow> i < length (filter (\<lambda>x. f x \<le> n) xs)" if "i < length xs"
    using assms that
  proof (induction xs arbitrary: i)
    case (Cons x xs)
    then show ?case using none [of x xs] by (cases i; cases "f x \<le> n") (auto simp: filter_empty_conv)
  qed simp
qed

lemma rewrite_search_finds:
  assumes "sorted_wrt (<) (map ri_rewritten_start entries)"
    and "0 \<le> low" "high < int (length entries)"
    and "low \<le> int k" "int k \<le> high + 1" "found = low - 1"
    and "k = length (filter (\<lambda>e. ri_rewritten_start e \<le> n) entries)"
  shows "rewrite_search entries n low high found = int k - 1"
  using assms
proof (induction entries n low high found rule: rewrite_search.induct)
  case (1 entries n low high found)
  show ?case
  proof (cases "low \<le> high")
    case False
    with "1.prems" show ?thesis by (subst rewrite_search.simps) auto
  next
    case True
    define mid where "mid = low + (high - low) div 2"
    have mid: "low \<le> mid" "mid \<le> high" using True by (auto simp: mid_def)
    then have "nat mid < length entries" using "1.prems" by linarith
    then have iff: "ri_rewritten_start (entries ! nat mid) \<le> n \<longleftrightarrow> nat mid < k"
      using filter_prefix(2) [OF "1.prems"(1)] "1.prems"(7) by blast
    show ?thesis
    proof (cases "ri_rewritten_start (entries ! nat mid) \<le> n")
      case ge: True
      have "rewrite_search entries n (mid + 1) high mid = int k - 1"
        using "1.prems" mid iff ge by (intro "1.IH"(1) [OF True mid_def ge]) auto
      with True ge show ?thesis by (subst rewrite_search.simps) (simp add: mid_def Let_def)
    next
      case lt: False
      have "rewrite_search entries n low (mid - 1) found = int k - 1"
        using "1.prems" mid iff lt by (intro "1.IH"(2) [OF True mid_def lt]) auto
      with True lt show ?thesis by (subst rewrite_search.simps) (simp add: mid_def Let_def)
    qed
  qed
qed

lemma original_pos_spec:
  assumes "sorted_wrt (<) (map ri_rewritten_start (lc_rewrite_index ctx))"
  shows "gql_parser_original_pos_from_rewritten_pos ctx i = original_spec ctx i"
proof -
  let ?es = "lc_rewrite_index ctx"
  let ?before = "filter (\<lambda>e. ri_rewritten_start e \<le> int i) ?es"
  have "rewrite_search ?es (int i) 0 (int (length ?es) - 1) (- 1) = int (length ?before) - 1"
    using assms by (intro rewrite_search_finds) auto
  moreover have "last ?before = ?es ! (length ?before - 1)" if "?before \<noteq> []"
    using that filter_prefix(1) [OF assms, of "int i"] by (metis last_conv_nth nth_take length_greater_0_conv diff_less zero_less_one)
  moreover have "nat (int k - 1) = k - 1" for k by linarith
  ultimately show ?thesis
    by (auto simp: gql_parser_original_pos_from_rewritten_pos_def original_spec_def Let_def)
qed

section \<open>The line found last\<close>

definition context_ok :: "loc_context \<Rightarrow> bool" where
  "context_ok ctx \<longleftrightarrow>
     sorted_wrt (<) (map ri_rewritten_start (lc_rewrite_index ctx)) \<and>
     sorted_wrt (<) (lc_line_starts ctx) \<and> (lc_line_starts ctx \<noteq> [] \<longrightarrow> lc_line_starts ctx ! 0 = 0) \<and>
     (case lc_last ctx of
        None \<Rightarrow> True
      | Some (original_pos, i) \<Rightarrow> i < length (lc_line_starts ctx) \<and> lc_line_starts ctx ! i \<le> original_pos)"

lemma starts_before_length: "starts_before starts n \<le> length starts"
  by (simp add: starts_before_def)

lemma first_line: "sorted_wrt (<) starts \<Longrightarrow> starts \<noteq> [] \<Longrightarrow> starts ! 0 = 0 \<Longrightarrow> 0 < starts_before starts n"
  using sorted_starts_before [of starts 0 n] by simp

lemma walk_lines_finds:
  "sorted_wrt (<) starts \<Longrightarrow> i < length starts \<Longrightarrow> starts ! i \<le> n \<Longrightarrow> walk_lines starts n i = starts_before starts n - 1"
proof (induction starts n i rule: walk_lines.induct)
  case (1 starts n i)
  show ?case
  proof (cases "i + 1 < length starts \<and> starts ! (i + 1) \<le> n")
    case True
    with 1 show ?thesis by (subst walk_lines.simps) simp
  next
    case False
    have "i < starts_before starts n" using sorted_starts_before [of starts i n] "1.prems" by simp
    moreover have "\<not> i + 1 < starts_before starts n"
      using False sorted_starts_before [of starts "i + 1" n] "1.prems" starts_before_length [of starts n] by auto
    ultimately show ?thesis using False by (subst walk_lines.simps) auto
  qed
qed

lemma line_index_finds:
  assumes "context_ok ctx" "lc_line_starts ctx \<noteq> []"
  shows "line_index_at ctx n = starts_before (lc_line_starts ctx) n - 1"
proof -
  let ?starts = "lc_line_starts ctx"
  have sorted: "sorted_wrt (<) ?starts" and first: "0 < starts_before ?starts n"
    using assms first_line by (auto simp: context_ok_def)
  have search: "nat (line_search ?starts n 0 (int (length ?starts) - 1) 0) = starts_before ?starts n - 1"
    using line_search_finds [OF sorted, of 0 "int (length ?starts) - 1" n 0] first starts_before_length [of ?starts n] by simp
  show ?thesis
  proof (cases "lc_last ctx")
    case None
    with search show ?thesis by (simp add: line_index_at_def Let_def)
  next
    case (Some last)
    obtain m i where last: "last = (m, i)" by (cases last)
    have i: "i < length ?starts" "?starts ! i \<le> m" using assms Some last by (auto simp: context_ok_def)
    have hit: "i = starts_before ?starts n - 1" if "?starts ! i \<le> n" "length ?starts \<le> i + 1 \<or> n < ?starts ! (i + 1)"
    proof -
      have "i < starts_before ?starts n" using sorted_starts_before [OF sorted i(1)] that(1) by blast
      moreover have "\<not> i + 1 < starts_before ?starts n"
        using sorted_starts_before [OF sorted, of "i + 1" n] that(2) starts_before_length [of ?starts n] by auto
      ultimately show ?thesis by simp
    qed
    have walk: "walk_lines ?starts n i = starts_before ?starts n - 1" if "m \<le> n"
      using walk_lines_finds [OF sorted i(1)] i(2) that by simp
    show ?thesis using hit walk search Some last by (simp add: line_index_at_def Let_def)
  qed
qed

lemma location_finds:
  assumes "context_ok ctx"
  shows "fst (gql_parser_loc_from_rewritten_pos ctx i) = location_spec ctx i"
    and "context_ok (snd (gql_parser_loc_from_rewritten_pos ctx i))"
    and "location_spec (snd (gql_parser_loc_from_rewritten_pos ctx i)) = location_spec ctx"
proof -
  let ?n = "original_spec ctx i"
  have original: "gql_parser_original_pos_from_rewritten_pos ctx i = ?n"
    using assms by (intro original_pos_spec) (simp add: context_ok_def)
  have first: "0 < starts_before (lc_line_starts ctx) ?n" if "lc_line_starts ctx \<noteq> []"
    using assms that first_line by (auto simp: context_ok_def)
  show "fst (gql_parser_loc_from_rewritten_pos ctx i) = location_spec ctx i"
    using original first line_index_finds [OF assms]
    by (auto simp: gql_parser_loc_from_rewritten_pos_def location_spec_def Let_def Suc_diff_1 of_nat_diff)
  have "starts_before (lc_line_starts ctx) ?n - 1 < length (lc_line_starts ctx)"
    "lc_line_starts ctx ! (starts_before (lc_line_starts ctx) ?n - 1) \<le> ?n" if "lc_line_starts ctx \<noteq> []"
    using that first starts_before_length [of "lc_line_starts ctx" ?n]
      sorted_starts_before [of "lc_line_starts ctx" "starts_before (lc_line_starts ctx) ?n - 1" ?n] assms
    by (auto simp: context_ok_def)
  moreover have "snd (gql_parser_loc_from_rewritten_pos ctx i) =
      (if lc_line_starts ctx = [] then ctx
       else ctx\<lparr>lc_last := Some (?n, starts_before (lc_line_starts ctx) ?n - 1)\<rparr>)"
    using original line_index_finds [OF assms, of ?n] by (simp add: gql_parser_loc_from_rewritten_pos_def Let_def)
  ultimately show "context_ok (snd (gql_parser_loc_from_rewritten_pos ctx i))"
    using assms by (simp add: context_ok_def)
  show "location_spec (snd (gql_parser_loc_from_rewritten_pos ctx i)) = location_spec ctx"
    by (auto simp: gql_parser_loc_from_rewritten_pos_def location_spec_def original_spec_def Let_def fun_eq_iff)
qed

text \<open>
  C12. In a context whose rewrites and lines are in order, every lookup of a run gives the line and
  column (or the position, where locations are lazy) that the plain definition gives: the last rewrite
  at or before the position, and the number of lines that start at or before it. The line that
  an earlier lookup left in the context changes no answer, whatever the order of the positions.
\<close>

theorem cached_locations_agree:
  assumes "context_ok ctx"
  shows "locations ctx is = map (location_spec ctx) is"
  using assms
proof (induction "is" arbitrary: ctx)
  case Nil
  then show ?case by simp
next
  case (Cons i "is")
  note found = location_finds [OF Cons.prems, of i]
  obtain v ctx' where step: "gql_parser_loc_from_rewritten_pos ctx i = (v, ctx')" by fastforce
  with found Cons.IH [of ctx'] show ?case by simp
qed

theorem cached_locations_agree_witness:
  "let ctx = \<lparr>lc_line_starts = [0, 4, 9], lc_rewrite_index = [\<lparr>ri_original_start = 2, ri_rewritten_start = 2, ri_rewritten_end = 5, ri_delta_after = - 2\<rparr>],
       lc_last = None, lc_lazy_location = False, lc_compact_location = False\<rparr>
   in locations ctx [12, 1, 3, 6] = map (location_spec ctx) [12, 1, 3, 6]
      \<and> locations ctx [12, 1, 3, 6] = map (\<lambda>(line, column). gql_parser_new_loc_sv line column) [(3, 2), (1, 2), (1, 3), (2, 1)]"
proof -
  let ?ctx = "\<lparr>lc_line_starts = [0, 4, 9], lc_rewrite_index = [\<lparr>ri_original_start = 2, ri_rewritten_start = 2, ri_rewritten_end = 5, ri_delta_after = - 2\<rparr>],
       lc_last = None, lc_lazy_location = False, lc_compact_location = False\<rparr>"
  have "context_ok ?ctx" by (simp add: context_ok_def)
  from cached_locations_agree [OF this, of "[12, 1, 3, 6]"] show ?thesis
    by (simp add: Let_def location_spec_def original_spec_def starts_before_def)
qed

end
