(* ===== verification/IR_Conversion.thy ===== *)
theory IR_Conversion
  imports IR_Nodes
begin

text \<open>
  Nodes to the data of the first parser: the accessors of \<^verbatim>\<open>src/parser_ast_runtime.h\<close>, lines 11 to 128,
  and \<^verbatim>\<open>gqlperl_convert_*\<close> of \<^verbatim>\<open>src/parser_ir_runtime.h\<close>, lines 960 to 1251. Arrays are plain: the
  branch of \<^verbatim>\<open>gql_parser_fetch_array\<close> for tied arrays is left out. Where the code would read a null
  pointer (a node without a kind, a name or a value) the model reads an empty text or the undefined
  value; the builders make no such node.
\<close>

section \<open>Reading a node\<close>

definition gql_parser_node_hv :: "sv option \<Rightarrow> hv option" where
  "gql_parser_node_hv node = (case node of Some (HV h) \<Rightarrow> Some h | _ \<Rightarrow> None)"

definition gql_parser_fetch_sv :: "hv option \<Rightarrow> string \<Rightarrow> sv option" where
  "gql_parser_fetch_sv hv key = (case hv of Some h \<Rightarrow> hv_fetch h key | None \<Rightarrow> None)"

definition gql_parser_fetch_array :: "hv option \<Rightarrow> string \<Rightarrow> sv list option" where
  "gql_parser_fetch_array hv key = (case gql_parser_fetch_sv hv key of Some (AV xs) \<Rightarrow> Some xs | _ \<Rightarrow> None)"

definition gql_parser_fetch_kind :: "hv option \<Rightarrow> string option" where
  "gql_parser_fetch_kind hv = map_option (\<lambda>v. c_string (SvPV v)) (gql_parser_fetch_sv hv ''kind'')"

definition gql_parser_name_value :: "sv option \<Rightarrow> string option" where
  "gql_parser_name_value node =
     (case gql_parser_node_hv node of
        None \<Rightarrow> None
      | Some h \<Rightarrow>
          let inner = (case gql_parser_fetch_sv (Some h) ''name'' of
                         Some (HV nh) \<Rightarrow> map_option (\<lambda>v. c_string (SvPV v)) (gql_parser_fetch_sv (Some nh) ''value'')
                       | _ \<Rightarrow> None)
          in case gql_parser_fetch_sv (Some h) ''value'' of
               Some v \<Rightarrow> if \<not> SvROK v then Some (c_string (SvPV v)) else inner
             | None \<Rightarrow> inner)"

text \<open>\<^verbatim>\<open>newSVpv(s, 0)\<close>, and a C string as a key.\<close>

definition new_pv :: "string option \<Rightarrow> sv" where
  "new_pv s = (case s of Some t \<Rightarrow> PV False t | None \<Rightarrow> Undef)"

definition c_key :: "string option \<Rightarrow> string" where
  "c_key s = (case s of Some t \<Rightarrow> t | None \<Rightarrow> [])"

definition elements :: "sv list option \<Rightarrow> sv list" where
  "elements av = (case av of Some xs \<Rightarrow> xs | None \<Rightarrow> [])"

definition fetch_or_undef :: "hv \<Rightarrow> string \<Rightarrow> sv" where
  "fetch_or_undef h key = (case hv_fetch h key of Some v \<Rightarrow> v | None \<Rightarrow> Undef)"

section \<open>Locations\<close>

definition gqlperl_location_from_gql_parser_node :: "sv \<Rightarrow> sv" where
  "gqlperl_location_from_gql_parser_node node =
     (case gql_parser_fetch_sv (gql_parser_node_hv (Some node)) ''loc'' of
        Some (HV loc) \<Rightarrow>
          (case (hv_fetch loc ''line'', hv_fetch loc ''column'') of
             (Some (IV line), Some (IV column)) \<Rightarrow>
               HV (gql_store_sv (gql_store_sv [] ''line'' (IV line)) ''column'' (IV column))
           | _ \<Rightarrow> Undef)
      | _ \<Rightarrow> Undef)"

definition gqlperl_store_location_from_gql_parser_node :: "hv \<Rightarrow> sv \<Rightarrow> hv" where
  "gqlperl_store_location_from_gql_parser_node h node =
     (let location = gqlperl_location_from_gql_parser_node node
      in if location = Undef then h else gql_store_sv h ''location'' location)"

section \<open>Types and values\<close>

text \<open>\<^verbatim>\<open>"Unsupported parser value node '%s'."\<close>\<close>

definition unsupported :: "string \<Rightarrow> string option \<Rightarrow> gql_error" where
  "unsupported what k = Croak (''Unsupported parser '' @ what @ '' node '' @ in_quotes (c_key k) @ ''.'')"

lemma size_fetch_or_undef: "size (fetch_or_undef h key) < size (HV h)"
  by (auto simp: fetch_or_undef_def dest: size_hv_fetch split: option.split)

lemma size_elements: "x \<in> set (elements (gql_parser_fetch_array (Some h) key)) \<Longrightarrow> size x < size (HV h)"
  by (auto simp: elements_def gql_parser_fetch_array_def gql_parser_fetch_sv_def split: option.splits sv.splits
      dest!: size_hv_fetch size_AV_mem)

text \<open>The same as the termination prover states it.\<close>

lemma size_entries: "Suc (size_list (\<lambda>x :: string \<times> sv. Suc (size (snd x))) h) = size (HV h)"
proof -
  have "(\<lambda>x :: string \<times> sv. Suc (size (snd x))) = size_prod (\<lambda>_. 0) size" by (simp add: fun_eq_iff split: prod.split)
  then show ?thesis by simp
qed

lemma size_member: "x \<in> set xs \<Longrightarrow> size (x :: sv) < size_list size xs"
  by (induction xs) auto

lemma size_parts [termination_simp]:
  "size (fetch_or_undef h key) < Suc (size_list (\<lambda>x. Suc (size (snd x))) h)"
  "x \<in> set (elements (gql_parser_fetch_array (Some h) key)) \<Longrightarrow> size x < Suc (size_list (\<lambda>x. Suc (size (snd x))) h)"
  "HV g \<in> set (elements (gql_parser_fetch_array (Some h) key)) \<Longrightarrow>
    size (fetch_or_undef g key') < Suc (size_list (\<lambda>x. Suc (size (snd x))) h)"
  unfolding size_entries
  using size_fetch_or_undef [of h key] size_elements [of x h key] size_elements [of "HV g" h key]
    size_fetch_or_undef [of g key'] by auto

fun gqlperl_convert_type_from_gqljs :: "sv \<Rightarrow> gql_error + sv" where
  "gqlperl_convert_type_from_gqljs (HV h) =
     (let k = gql_parser_fetch_kind (Some h)
      in if k = Some ''NamedType'' then
           Inr (new_pv (gql_parser_name_value (gql_parser_fetch_sv (Some h) ''name'')))
         else if k = Some ''ListType'' \<or> k = Some ''NonNullType'' then
           bnd (gqlperl_convert_type_from_gqljs (fetch_or_undef h ''type'')) (\<lambda>inner.
           Inr (AV [PV False (if k = Some ''ListType'' then ''list'' else ''non_null''),
                    HV (gql_store_sv [] ''type'' inner)]))
         else Inl (unsupported ''type'' k))"
| "gqlperl_convert_type_from_gqljs _ = Inr Undef"

fun gqlperl_convert_value_from_gqljs :: "sv \<Rightarrow> gql_error + sv" where
  "gqlperl_convert_value_from_gqljs (HV h) =
     (let k = gql_parser_fetch_kind (Some h); v = fetch_or_undef h ''value''
      in if k = Some ''Variable'' then
           Inr (Ref (new_pv (gql_parser_name_value (gql_parser_fetch_sv (Some h) ''name''))))
         else if k = Some ''IntValue'' then Inr (IV (perl_sviv (SvPV v)))
         else if k = Some ''FloatValue'' then Inr (NV (SvPV v))
         else if k = Some ''StringValue'' then Inr v
         else if k = Some ''BooleanValue'' then Inr (PBool (SvTRUE v))
         else if k = Some ''NullValue'' then Inr Undef
         else if k = Some ''EnumValue'' then Inr (Ref (Ref v))
         else if k = Some ''ListValue'' then
           bnd (each (\<lambda>x vs. bnd (gqlperl_convert_value_from_gqljs x) (\<lambda>w. Inr (vs @ [w])))
             (elements (gql_parser_fetch_array (Some h) ''values'')) []) (\<lambda>vs.
           Inr (AV vs))
         else if k = Some ''ObjectValue'' then
           bnd (each (\<lambda>x dst.
                  case x of
                    HV field \<Rightarrow>
                      bnd (gqlperl_convert_value_from_gqljs (fetch_or_undef field ''value'')) (\<lambda>w.
                      Inr (gql_store_sv dst
                        (c_key (gql_parser_name_value (gql_parser_fetch_sv (Some field) ''name''))) w))
                  | _ \<Rightarrow> Inr dst)
             (elements (gql_parser_fetch_array (Some h) ''fields'')) []) (\<lambda>dst.
           Inr (HV dst))
         else Inl (unsupported ''value'' k))"
| "gqlperl_convert_value_from_gqljs _ = Inr Undef"

section \<open>Arguments and directives\<close>

definition convert_argument :: "sv \<Rightarrow> hv \<Rightarrow> gql_error + hv" where
  "convert_argument node dst =
     (case node of
        HV h \<Rightarrow>
          bnd (gqlperl_convert_value_from_gqljs (fetch_or_undef h ''value'')) (\<lambda>v.
          Inr (gql_store_sv dst (c_key (gql_parser_name_value (gql_parser_fetch_sv (Some h) ''name''))) v))
      | _ \<Rightarrow> Inr dst)"

definition gqlperl_convert_arguments_from_gqljs :: "sv list option \<Rightarrow> gql_error + sv" where
  "gqlperl_convert_arguments_from_gqljs av =
     (if elements av = [] then Inr Undef
      else bnd (each convert_argument (elements av) []) (\<lambda>dst. Inr (HV dst)))"

text \<open>A hash gets an entry unless the value is \<^verbatim>\<open>&PL_sv_undef\<close>.\<close>

definition store_defined :: "hv \<Rightarrow> string \<Rightarrow> sv \<Rightarrow> hv" where
  "store_defined h key v = (if v = Undef then h else gql_store_sv h key v)"

definition convert_directive :: "sv \<Rightarrow> sv list \<Rightarrow> gql_error + sv list" where
  "convert_directive node dst =
     (case node of
        HV h \<Rightarrow>
          (let dir = gql_store_sv [] ''name'' (new_pv (gql_parser_name_value (gql_parser_fetch_sv (Some h) ''name'')))
           in bnd (gqlperl_convert_arguments_from_gqljs (gql_parser_fetch_array (Some h) ''arguments'')) (\<lambda>arguments.
              Inr (dst @ [HV (gqlperl_store_location_from_gql_parser_node (store_defined dir ''arguments'' arguments) node)])))
      | _ \<Rightarrow> Inr dst)"

definition gqlperl_convert_directives_from_gqljs :: "sv list option \<Rightarrow> gql_error + sv list" where
  "gqlperl_convert_directives_from_gqljs av = each convert_directive (elements av) []"

definition store_array :: "hv \<Rightarrow> string \<Rightarrow> sv list \<Rightarrow> hv" where
  "store_array h key xs = (if xs = [] then h else gql_store_sv h key (AV xs))"

section \<open>Selections\<close>

text \<open>The array of the selection set in a node.\<close>

definition selections_of :: "hv \<Rightarrow> sv list" where
  "selections_of h =
     elements (gql_parser_fetch_array (gql_parser_node_hv (gql_parser_fetch_sv (Some h) ''selectionSet'')) ''selections'')"

lemma size_selections_of: "size_list size (selections_of h) < size (HV h)"
  by (auto simp: selections_of_def elements_def gql_parser_fetch_array_def gql_parser_fetch_sv_def
      gql_parser_node_hv_def split: option.splits sv.splits dest!: size_hv_fetch)

function gqlperl_convert_selection_from_gqljs :: "sv \<Rightarrow> gql_error + sv"
  and gqlperl_convert_selections_from_gqljs :: "sv list \<Rightarrow> gql_error + sv list"
where
  "gqlperl_convert_selection_from_gqljs node =
     (case node of HV h \<Rightarrow>
     (let k = gql_parser_fetch_kind (Some h); fetch = gql_parser_fetch_sv (Some h);
          name = new_pv (gql_parser_name_value (fetch ''name''));
          directives = gqlperl_convert_directives_from_gqljs (gql_parser_fetch_array (Some h) ''directives'')
      in if k = Some ''Field'' then
           (let dst = gql_store_sv (gql_store_sv [] ''kind'' (PV False ''field'')) ''name'' name;
                dst = (case fetch ''alias'' of
                         None \<Rightarrow> dst
                       | Some alias \<Rightarrow> gql_store_sv dst ''alias'' (new_pv (gql_parser_name_value (Some alias))))
            in bnd (gqlperl_convert_arguments_from_gqljs (gql_parser_fetch_array (Some h) ''arguments'')) (\<lambda>arguments.
               bnd directives (\<lambda>directives.
               bnd (case fetch ''selectionSet'' of
                      None \<Rightarrow> Inr []
                    | Some _ \<Rightarrow> gqlperl_convert_selections_from_gqljs (selections_of h)) (\<lambda>selections.
               let dst = store_defined dst ''arguments'' arguments;
                   dst = store_array dst ''directives'' directives;
                   dst = store_array dst ''selections'' selections
               in Inr (HV (gqlperl_store_location_from_gql_parser_node dst (HV h)))))))
         else if k = Some ''FragmentSpread'' then
           (let dst = gql_store_sv (gql_store_sv [] ''kind'' (PV False ''fragment_spread'')) ''name'' name
            in bnd directives (\<lambda>directives.
               Inr (HV (gqlperl_store_location_from_gql_parser_node (store_array dst ''directives'' directives) (HV h)))))
         else if k = Some ''InlineFragment'' then
           (let dst = gql_store_sv [] ''kind'' (PV False ''inline_fragment'');
                dst = (case fetch ''typeCondition'' of
                         None \<Rightarrow> dst
                       | Some t \<Rightarrow>
                           gql_store_sv dst ''on''
                             (new_pv (gql_parser_name_value (gql_parser_fetch_sv (gql_parser_node_hv (Some t)) ''name''))))
            in bnd directives (\<lambda>directives.
               bnd (gqlperl_convert_selections_from_gqljs (selections_of h)) (\<lambda>selections.
               let dst = gql_store_sv (store_array dst ''directives'' directives) ''selections'' (AV selections)
               in Inr (HV (gqlperl_store_location_from_gql_parser_node dst (HV h))))))
         else Inl (unsupported ''selection'' k))
      | _ \<Rightarrow> Inl (Croak ''Unsupported parser selection node''))"
| "gqlperl_convert_selections_from_gqljs nodes =
     each (\<lambda>node dst. bnd (gqlperl_convert_selection_from_gqljs node) (\<lambda>s. Inr (dst @ [s]))) nodes []"
  by pat_completeness auto
termination
  by (relation "measure (case_sum size (size_list size))") (use size_selections_of in \<open>auto simp: size_entries size_member simp del: sv.size\<close>)

declare gqlperl_convert_selection_from_gqljs.simps [simp del]

lemmas convert_selection_node [simp] =
  gqlperl_convert_selection_from_gqljs.simps [where node = "HV h" for h, unfolded sv.case]

end
