(* ===== verification/IR_Route.thy ===== *)
theory IR_Route
  imports IR_Conversion Unread_Fields
begin

text \<open>
  Both parsers give the same data. Where the first parser accepts a selection set, the second
  accepts it and ends in the same state, its tree becomes nodes, and the nodes become data that
  differ from those of the first parser at most in the order of hash entries and in the UTF-8 flag
  of names. The second parser keeps no nesting counter, so the comparison runs on a state whose
  counter is set back.
\<close>

section \<open>Names\<close>

definition good_name :: "string \<Rightarrow> bool" where
  "good_name s \<longleftrightarrow> s \<noteq> [] \<and> list_all name_char s"

definition named :: "gql_parser \<Rightarrow> bool" where
  "named p \<longleftrightarrow> (kind p = TOK_NAME \<longrightarrow> good_name (tok_text p))"

lemma name_char_byte: "name_char c \<Longrightarrow> 0 < byte_of c \<and> byte_of c < 128"
  by (auto simp: name_char_def isALNUM_def isALPHA_def isDIGIT_def byte_of_def)

lemma good_name_c_string: "good_name s \<Longrightarrow> c_string s = s"
  unfolding c_string_def good_name_def
  by (rule takeWhile_eq_all_conv [THEN iffD2]) (auto simp: list_all_iff byte_of_def dest!: name_char_byte)

lemma skip_while_all:
  "scan \<le> i \<Longrightarrow> i < skip_while f p scan \<Longrightarrow> f (at p i)"
proof (induction f p scan rule: skip_while.induct)
  case (1 f p scan)
  then show ?case
    by (subst (asm) (2) skip_while.simps) (auto split: if_splits simp: le_less_Suc_eq intro: "1.IH" dest: le_neq_implies_less)
qed

lemma good_name_lex_name:
  assumes "tok_start p = pos p" "pos p < len p" "len p = length (src p)" "name_start (at p (pos p))"
  shows "good_name (tok_text (lex_name p))"
proof -
  let ?e = "skip_while name_char p (pos p + 1)"
  have bounds: "pos p + 1 \<le> ?e" "?e \<le> length (src p)"
    using skip_while_bounds [of "pos p + 1" name_char p] assms by auto
  have spelt: "tok_text (lex_name p) = take (?e - pos p) (drop (pos p) (src p))"
    using assms(1) by (simp add: lex_name_def tok_text_def value_token_def end_token_def)
  have "name_char (at p i)" if "pos p \<le> i" "i < ?e" for i
  proof (cases "i = pos p")
    case True
    then show ?thesis using assms(4) by (auto simp: name_start_def name_char_def isALNUM_def)
  next
    case False
    with that show ?thesis by (intro skip_while_all [of "pos p + 1" i name_char p]) auto
  qed
  then have "name_char c" if "c \<in> set (take (?e - pos p) (drop (pos p) (src p)))" for c
    using that bounds by (auto simp: in_set_conv_nth)
  then show ?thesis
    using bounds assms by (auto simp: spelt good_name_def list_all_iff)
qed

lemma end_token_kind [simp]: "kind (end_token p k e) = k"
  by (simp add: end_token_def)

lemmas kind_simps = gql_throw_def ok_but_Inl ok_but_Inr end_token_kind gql_error.distinct not_False_eq_True

lemma lex_string_kind: "ok (lex_string p scan) (\<lambda>q. kind q = TOK_STRING)"
proof (induction p scan rule: lex_string.induct)
  case (1 p scan)
  note IH = "1.IH"
  show ?case
    by (subst lex_string.simps) (intro ok_ifI; (rule IH; assumption | simp (no_asm) only: kind_simps))
qed

lemma lex_block_string_kind: "ok (lex_block_string p scan) (\<lambda>q. kind q = TOK_BLOCK_STRING)"
proof (induction p scan rule: lex_block_string.induct)
  case (1 p scan)
  note IH = "1.IH"
  show ?case
    by (subst lex_block_string.simps) (intro ok_ifI; (rule IH; assumption | simp (no_asm) only: kind_simps))
qed

lemma lex_number_kind: "lex_number p = Inr q \<Longrightarrow> kind q \<noteq> TOK_NAME"
  by (auto simp: lex_number_def bnd_eq_Inr value_token_def split: if_splits)

lemma lex_token_named:
  assumes "scannable p" "gql_lex_token p = Inr q"
  shows "named q"
proof (cases "pos p \<ge> len p")
  case True
  with assms(2) show ?thesis by (auto simp: gql_lex_token_def named_def)
next
  case False
  define r where "r = p\<lparr>tok_start := pos p, tok_end := pos p, val_start := pos p, val_end := pos p,
    token_count := token_count p + 1\<rparr>"
  have q: "lex_by_char r = Inr q"
    using assms(2) False by (auto simp: gql_lex_token_def r_def gql_throw_simple_error_def split: if_splits)
  have r: "tok_start r = pos r" "pos r < len r" "len r = length (src r)"
    using False assms(1) by (auto simp: r_def scannable_def)
  have punct: "k \<noteq> TOK_NAME" if "punct_kind c = Some k" for c k
    using that by (auto simp: punct_kind_def split: if_splits)
  have str: "kind q \<noteq> TOK_NAME" if "lex_quote r = Inr q"
    using that lex_string_kind [of "r\<lparr>val_start := pos r + 1\<rparr>" "pos r + 1"]
      lex_block_string_kind [of "r\<lparr>val_start := pos r + 3\<rparr>" "pos r + 3"]
    by (auto simp: lex_quote_def split: if_splits)
  have num: "kind q \<noteq> TOK_NAME" if "lex_number r = Inr q"
    using that by (rule lex_number_kind)
  show ?thesis
    using q str num punct good_name_lex_name [OF r]
    by (auto simp: lex_by_char_def Let_def named_def lex_spread_def gql_throw_def end_token_def
        gql_throw_unexpected_character_def split: if_splits option.splits)
qed

lemma advance_named: "lexed p \<Longrightarrow> gql_advance p = Inr q \<Longrightarrow> named q"
  unfolding gql_advance_def
  using moves_skip_ignored [of "if tok_end p > 0 then p\<lparr>last_pos := Some (tok_end p - 1)\<rparr> else p"]
  by (auto elim!: lex_token_named [rotated] simp: moves_def scannable_def lexed_def split: if_splits)

section \<open>States that differ in the nesting counter\<close>

definition at_depth :: "int \<Rightarrow> gql_parser \<Rightarrow> gql_parser" where
  "at_depth d p = p\<lparr>depth := d\<rparr>"

interpretation set_back: unread "at_depth d" for d
  by unfold_locales (simp_all add: at_depth_def)

lemma at_depth_update: "at_depth d (p\<lparr>depth := e\<rparr>) = at_depth d p"
  by (simp add: at_depth_def)

text \<open>
  \<open>on r p\<close>: \<open>p\<close> is a later state of the parse at \<open>r\<close>, which takes no notes and no locations.
  \<open>past r p\<close>: a token was consumed on the way.
\<close>

definition quiet :: "gql_parser \<Rightarrow> bool" where
  "quiet p \<longleftrightarrow> validation_errors p = None \<and> no_location p \<and> named p"

definition on :: "gql_parser \<Rightarrow> gql_parser \<Rightarrow> bool" where
  "on r p \<longleftrightarrow> follows r p \<and> quiet r \<and> quiet p"

definition past :: "gql_parser \<Rightarrow> gql_parser \<Rightarrow> bool" where
  "past r p \<longleftrightarrow> consumes r p \<and> quiet r \<and> quiet p"

definition document_of :: "gql_parser \<Rightarrow> ir_document" where
  "document_of p = \<lparr>ir_src = src p, ir_len = len p, ir_is_utf8 = is_utf8 p\<rparr>"

lemma past_on: "past r p \<Longrightarrow> on r p"
  by (auto simp: past_def on_def dest: consumesD)

lemma past_left: "past r p \<Longrightarrow> left p < left r"
  by (auto simp: past_def dest: consumes_left)

lemma on_left: "on r p \<Longrightarrow> left p \<le> left r"
  by (auto simp: on_def dest: follows_left)

lemma on_refl: "lexed p \<Longrightarrow> quiet p \<Longrightarrow> on p p"
  by (simp add: on_def follows_refl)

lemma on_self: "on r p \<Longrightarrow> on p p"
  by (auto simp: on_def intro: follows_refl)

lemma on_past: "on r p \<Longrightarrow> past p q \<Longrightarrow> past r q"
  by (auto simp: on_def past_def intro: follows_consumes)

lemma past_trans: "past r p \<Longrightarrow> on p q \<Longrightarrow> past r q"
  by (auto simp: on_def past_def intro: consumes_follows)

lemma on_trans: "on r p \<Longrightarrow> on p q \<Longrightarrow> on r q"
  by (auto simp: on_def intro: follows_trans)

lemma on_document: "on r p \<Longrightarrow> document_of p = document_of r"
  by (simp add: on_def follows_def same_input_def document_of_def)

lemma on_depth: "on r p \<Longrightarrow> depth p = depth r"
  by (simp add: on_def follows_def)

lemma on_no_location: "on r p \<Longrightarrow> no_location p"
  by (simp add: on_def quiet_def)

lemma note_duplicate_quiet: "quiet p \<Longrightarrow> note_duplicate h k m l p = p"
  by (simp add: quiet_def note_duplicate_def)

section \<open>Simulation\<close>

text \<open>Whenever the first computation succeeds, so does the second, with related results.\<close>

definition sim :: "('a \<Rightarrow> 'b \<Rightarrow> bool) \<Rightarrow> 'e + 'a \<Rightarrow> 'f + 'b \<Rightarrow> bool" where
  "sim P m m' \<longleftrightarrow> (\<forall>x. m = Inr x \<longrightarrow> (\<exists>y. m' = Inr y \<and> P x y))"

named_theorems sims "simulation rules of the operations"

lemma sim_Inr [sims]: "P x y \<Longrightarrow> sim P (Inr x) (Inr y)"
  by (simp add: sim_def)

lemma sim_Inl [sims]:
  "sim P (Inl e) m'" "sim P (gql_throw i s) m'" "sim P (gql_throw_expected_message p i s) m'"
  by (simp_all add: sim_def gql_throw_def gql_throw_expected_message_def)

lemma sim_bnd [sims]: "sim (\<lambda>x y. sim P (f x) (g y)) m m' \<Longrightarrow> sim P (bnd m f) (bnd m' g)"
  by (cases m) (auto simp: sim_def)

lemma sim_if [sims]:
  "(c \<Longrightarrow> sim P a a') \<Longrightarrow> (\<not> c \<Longrightarrow> sim P b b') \<Longrightarrow> sim P (if c then a else b) (if c then a' else b')"
  by simp

lemma sim_weaken: "sim Q m m' \<Longrightarrow> (\<And>x y. Q x y \<Longrightarrow> P x y) \<Longrightarrow> sim P m m'"
  by (fastforce simp: sim_def)

lemma advance_past:
  assumes "lexed p" "kind p \<noteq> TOK_EOF" "quiet p" "gql_advance p = Inr q"
  shows "past p q" "gql_advance (at_depth d p) = Inr (at_depth d q)"
proof -
  have "ok (gql_advance p) (consumes p)" using assms(1,2) by (rule gql_advance_wp)
  with assms have q: "consumes p q" "named q" by (auto intro: advance_named)
  then show "past p q"
    using assms(3) by (auto simp: past_def quiet_def consumes_def follows_def same_input_def sink_grows_def)
  show "gql_advance (at_depth d p) = Inr (at_depth d q)"
    using set_back.advance_same [of d p] assms(4) by (simp add: same_def)
qed

lemma advance_sim [sims]:
  assumes "on r p" "kind p \<noteq> TOK_EOF" "\<And>q. on r q \<Longrightarrow> past r q \<Longrightarrow> P q (at_depth d q)"
  shows "sim P (gql_advance p) (gql_advance (at_depth d p))"
  unfolding sim_def
proof (intro allI impI)
  fix q
  assume "gql_advance p = Inr q"
  moreover have "lexed p" "quiet p" using assms(1) by (auto simp: on_def)
  ultimately have "past p q" "gql_advance (at_depth d p) = Inr (at_depth d q)"
    using advance_past assms(2) by blast+
  then show "\<exists>y. gql_advance (at_depth d p) = Inr y \<and> P q y"
    using assms(3) on_past [OF assms(1)] past_on by blast
qed

lemma expect_sim [sims]:
  assumes "on r p" "k \<noteq> TOK_EOF" "\<And>q. on r q \<Longrightarrow> past r q \<Longrightarrow> P q (at_depth d q)"
  shows "sim P (gql_expect p k m) (gql_expect (at_depth d p) k m)"
proof (cases "kind p = k")
  case True
  with assms have "sim P (gql_advance p) (gql_advance (at_depth d p))" by (intro advance_sim [OF assms(1)]) auto
  with True show ?thesis by (simp add: gql_expect_def)
next
  case False
  then show ?thesis
    by (simp add: gql_expect_def sim_def gql_throw_expected_message_def gql_throw_expected_token_def gql_throw_def
        split: option.split)
qed

text \<open>A span spells a name.\<close>

definition spells :: "ir_document \<Rightarrow> ir_span \<Rightarrow> string \<Rightarrow> bool" where
  "spells document span s \<longleftrightarrow>
     gql_ir_make_sv_from_span document span = PV (ir_is_utf8 document) s \<and> sp_start span \<noteq> sp_end span \<and> good_name s"

lemma token_spells:
  assumes "on r p" "kind p = TOK_NAME"
  shows "spells (document_of r) (tok_span p) (tok_text p)"
    and "gql_copy_token_sv p = PV (ir_is_utf8 (document_of r)) (tok_text p)"
proof -
  have p: "lexed p" "good_name (tok_text p)" using assms by (auto simp: on_def quiet_def named_def)
  then have "tok_start p < tok_end p" using assms(2) by (simp add: lexed_def)
  then show "spells (document_of r) (tok_span p) (tok_text p)"
    unfolding on_document [OF assms(1), symmetric] using p(2)
    by (simp add: spells_def gql_ir_make_sv_from_span_def document_of_def tok_span_def tok_text_def)
  show "gql_copy_token_sv p = PV (ir_is_utf8 (document_of r)) (tok_text p)"
    unfolding on_document [OF assms(1), symmetric]
    by (simp add: document_of_def gql_copy_token_sv_def gql_make_string_sv_def tok_text_def)
qed

lemma tok_span_at_depth [simp]: "tok_span (at_depth d p) = tok_span p"
  by (simp add: tok_span_def)

lemma name_sim [sims]:
  assumes "on r p"
    and "\<And>span s q. spells (document_of r) span s \<Longrightarrow> on r q \<Longrightarrow> past r q \<Longrightarrow>
      P (PV (ir_is_utf8 (document_of r)) s, q) (span, at_depth d q)"
  shows "sim P (gql_parse_name p m) (gql_ir_parse_name_span (at_depth d p) m)"
proof (cases "kind p = TOK_NAME")
  case True
  note spelt = token_spells [OF assms(1) True]
  have "sim (\<lambda>q q'. sim P (Inr (gql_copy_token_sv p, q)) (Inr (tok_span p, q')))
    (gql_advance p) (gql_advance (at_depth d p))"
    using True spelt assms(2) by (auto intro!: advance_sim [OF assms(1)] sims)
  with True show ?thesis
    by (auto simp: gql_parse_name_def gql_ir_parse_name_span_def intro!: sim_bnd)
next
  case False
  then show ?thesis by (simp add: gql_parse_name_def sims)
qed

lemma fragment_name_sim [sims]:
  assumes "on r p"
    and "\<And>span s q. spells (document_of r) span s \<Longrightarrow> on r q \<Longrightarrow> past r q \<Longrightarrow>
      P (PV (ir_is_utf8 (document_of r)) s, q) (span, at_depth d q)"
  shows "sim P (gql_parse_fragment_name p) (gql_ir_parse_fragment_name_span (at_depth d p))"
proof -
  have "sim P (gql_parse_name p ''Expected name'') (gql_ir_parse_name_span (at_depth d p) ''Expected name'')"
    using assms by (rule name_sim)
  then show ?thesis by (simp add: gql_parse_fragment_name_def gql_ir_parse_fragment_name_span_def sims)
qed

text \<open>Loops: a relation between the results under construction, in the state that was reached.\<close>

lemma ploop_sim:
  assumes guard: "\<And>q. guard' (at_depth d q) = guard q"
    and body: "\<And>a a' q. R a a' q \<Longrightarrow> guard q \<Longrightarrow> on p0 q \<Longrightarrow>
      sim (\<lambda>(b, q1) (b', q2). R b b' q1 \<and> past q q1 \<and> q2 = at_depth d q1) (body a q) (body' a' (at_depth d q))"
  shows "on p0 q \<Longrightarrow> R a a' q \<Longrightarrow> left q < n \<Longrightarrow>
    sim (\<lambda>(b, q1) (b', q2). R b b' q1 \<and> \<not> guard q1 \<and> on q q1 \<and> q2 = at_depth d q1)
      (ploop m e guard body a q) (ploop n e' guard' body' a' (at_depth d q))"
proof (induction m arbitrary: n q a a')
  case 0
  then show ?case by (simp add: ploop.simps sims)
next
  case (Suc m)
  obtain k where n: "n = Suc k" using Suc.prems(3) by (cases n) auto
  show ?case
  proof (cases "guard q")
    case False
    then show ?thesis
      using Suc.prems on_self [OF Suc.prems(1)] by (simp add: n ploop.simps guard sims)
  next
    case True
    have "sim (\<lambda>(b, q1) (b', q2). R b b' q1 \<and> \<not> guard q1 \<and> on q q1 \<and> q2 = at_depth d q1)
      (ploop m e guard body b q1) (ploop k e' guard' body' b' (at_depth d q1))"
      if "R b b' q1" "past q q1" for b b' q1
    proof -
      have "on p0 q1" "left q1 < k"
        using that(2) Suc.prems(1,3) n past_left [OF that(2)] by (auto intro: on_trans past_on)
      from Suc.IH [OF this(1) that(1) this(2)] show ?thesis
        by (rule sim_weaken) (auto intro: on_trans past_on [OF that(2)])
    qed
    with body [OF Suc.prems(2) True Suc.prems(1)] True show ?thesis
      by (auto simp: n ploop.simps guard intro!: sim_bnd elim!: sim_weaken)
  qed
qed

lemma parse_while_sim:
  assumes "on r p" "R a a' p" "\<And>q. guard' (at_depth d q) = guard q"
    and "\<And>a a' q. R a a' q \<Longrightarrow> guard q \<Longrightarrow> on p q \<Longrightarrow> on q q \<Longrightarrow> document_of q = document_of r \<Longrightarrow>
      sim (\<lambda>(b, q1) (b', q2). R b b' q1 \<and> past q q1 \<and> q2 = at_depth d q1) (body a q) (body' a' (at_depth d q))"
    and post: "\<And>b b' q. R b b' q \<Longrightarrow> \<not> guard q \<Longrightarrow> on r q \<Longrightarrow> past r p \<longrightarrow> past r q \<Longrightarrow> P (b, q) (b', at_depth d q)"
  shows "sim P (parse_while guard body a p) (parse_while guard' body' a' (at_depth d p))"
proof -
  have step: "sim (\<lambda>(b, q1) (b', q2). R b b' q1 \<and> past q q1 \<and> q2 = at_depth d q1) (body a q) (body' a' (at_depth d q))"
    if "R a a' q" "guard q" "on p q" for a a' q
    using that on_document [OF on_trans [OF assms(1) that(3)]] on_self [OF that(3)] by (intro assms(4)) auto
  have "sim (\<lambda>(b, q1) (b', q2). R b b' q1 \<and> \<not> guard q1 \<and> on p q1 \<and> q2 = at_depth d q1)
    (ploop (Suc (left p)) Out_Of_Fuel guard body a p)
    (ploop (Suc (left p)) Out_Of_Fuel guard' body' a' (at_depth d p))"
    by (rule ploop_sim [where R = R and ?p0.0 = p]) (use step assms(3) on_self [OF assms(1)] assms(2) in auto)
  then show ?thesis
    unfolding parse_while_def set_back.unread_left
    by (rule sim_weaken) (auto intro!: post intro: on_trans [OF assms(1)] past_trans)
qed

lemma parse_until_sim:
  assumes "on r p" "R a a' p"
    and "\<And>a a' q. R a a' q \<Longrightarrow> kind q \<noteq> close \<Longrightarrow> on p q \<Longrightarrow> on q q \<Longrightarrow> document_of q = document_of r \<Longrightarrow>
      sim (\<lambda>(b, q1) (b', q2). R b b' q1 \<and> past q q1 \<and> q2 = at_depth d q1) (body a q) (body' a' (at_depth d q))"
    and "\<And>b b' q. R b b' q \<Longrightarrow> kind q = close \<Longrightarrow> on r q \<Longrightarrow> past r p \<longrightarrow> past r q \<Longrightarrow> P (b, q) (b', at_depth d q)"
  shows "sim P (parse_until close body a p) (parse_until close body' a' (at_depth d p))"
  unfolding parse_until_def using assms by (intro parse_while_sim [where R = R]) auto

end
