(* ===== verification/IR_Route_Values.thy ===== *)
theory IR_Route_Values
  imports IR_Route
begin

text \<open>
  The route through the second parser agrees with the first one (simulation rules in \<open>IR_Route\<close>):
  the rules of \<open>value_stands\<close>, \<open>arguments_stand\<close> and so on say what the nodes of a tree are
  converted to, the lemmas ending in \<open>_sim\<close> follow the functions of both parsers.
\<close>

section \<open>The same data\<close>

text \<open>Hashes up to the order of their entries, text in ASCII up to its UTF-8 flag.\<close>

definition ascii :: "string \<Rightarrow> bool" where
  "ascii s \<longleftrightarrow> list_all (\<lambda>c. byte_of c < 128) s"

inductive same_data :: "sv \<Rightarrow> sv \<Rightarrow> bool" where
  same_refl: "same_data v v"
| same_text: "ascii s \<Longrightarrow> same_data (PV u s) (PV w s)"
| same_ref: "same_data v w \<Longrightarrow> same_data (Ref v) (Ref w)"
| same_array: "list_all2 same_data vs ws \<Longrightarrow> same_data (AV vs) (AV ws)"
| same_hash: "(\<And>k. rel_option same_data (hv_fetch g k) (hv_fetch h k)) \<Longrightarrow> same_data (HV g) (HV h)"

lemma good_name_ascii: "good_name s \<Longrightarrow> ascii s"
  by (auto simp: ascii_def good_name_def list_all_iff dest: name_char_byte)

lemma same_name: "spells document span s \<Longrightarrow> same_data (PV u s) (PV w s)"
  by (auto simp: spells_def intro: same_text good_name_ascii)

definition same_entries :: "hv \<Rightarrow> hv \<Rightarrow> bool" where
  "same_entries g h \<longleftrightarrow> (\<forall>k. rel_option same_data (hv_fetch g k) (hv_fetch h k))"

lemma same_entries_Nil [simp]: "same_entries [] []"
  by (simp add: same_entries_def)

lemma same_entries_store: "same_entries g h \<Longrightarrow> same_data v w \<Longrightarrow> same_entries (gql_store_sv g k v) (gql_store_sv h k w)"
  by (simp add: same_entries_def)

lemma same_entries_hash: "same_entries g h \<Longrightarrow> same_data (HV g) (HV h)"
  by (auto simp: same_entries_def intro: same_hash)

section \<open>What the nodes of a value are converted to\<close>

lemma set_rewritten_None [simp]: "gql_parser_set_rewritten_loc_node None node i = (node, None)"
  by (simp add: gql_parser_set_rewritten_loc_node_def)

lemma detailed_None [simp]: "\<not> detailed None"
  by (simp add: detailed_def)

lemma located_None [simp]: "located node i None = Inr (node, None)"
  by (simp add: located_def)

lemma locate_named_None [simp]: "locate_named node name i None = (node, None)"
  by (simp add: locate_named_def)

lemma build_name_None [simp]: "build_name document name wanted i None =
    (gql_parser_new_name_node_sv (gql_ir_make_sv_from_span document name), None)"
  by (simp add: build_name_def Let_def)

lemmas node_defs = gql_parser_new_node_hv_def gql_parser_new_node_ref_def gql_parser_new_name_node_sv_def
  gql_parser_new_named_type_node_sv_def gql_parser_new_variable_node_sv_def node_with_value_def
  gql_parser_fetch_kind_def gql_parser_fetch_sv_def gql_parser_fetch_array_def gql_parser_node_hv_def
  gql_parser_name_value_def fetch_or_undef_def elements_def c_key_def new_pv_def

definition value_stands :: "ir_document \<Rightarrow> ir_value \<Rightarrow> sv \<Rightarrow> bool" where
  "value_stands document ir v \<longleftrightarrow>
     (\<exists>node w. gql_parser_build_value_from_ir document None ir None = Inr (node, None)
       \<and> gqlperl_convert_value_from_gqljs node = Inr w \<and> same_data v w)"

text \<open>The name of a named node, read back.\<close>

lemma name_of_name_node:
  "spells document span s \<Longrightarrow>
    gql_parser_name_value (Some (gql_parser_new_name_node_sv (gql_ir_make_sv_from_span document span))) = Some s"
  by (auto simp: spells_def node_defs c_string_def SvROK_def good_name_c_string [unfolded c_string_def])

lemma stands_null: "value_stands document (IR_Null i) Undef"
  by (auto simp: value_stands_def node_defs c_string_def intro: same_refl)

lemma stands_bool: "value_stands document (IR_Bool i b) (PBool b)"
  by (auto simp: value_stands_def node_defs c_string_def SvTRUE_def intro: same_refl)

lemma stands_number:
  assumes "gql_ir_make_sv_from_span document span = PV u s"
  shows "value_stands document (IR_Int i span) (IV (perl_sviv s))"
    and "value_stands document (IR_Float i span) (NV s)"
    and "value_stands document (IR_Enum i span) (Ref (Ref (PV u s)))"
  using assms by (auto simp: value_stands_def node_defs c_string_def intro: same_refl)

lemma stands_string:
  "gql_ir_make_string_value_sv document b span = Inr v \<Longrightarrow> value_stands document (IR_String i b span) v"
  by (auto simp: value_stands_def node_defs c_string_def intro: same_refl)

lemma stands_variable: "spells document span s \<Longrightarrow> value_stands document (IR_Variable i j span) (Ref (PV u s))"
  using name_of_name_node [of document span s]
  by (auto simp: value_stands_def node_defs c_string_def intro!: same_ref same_name)

lemma stands_list:
  assumes "list_all2 (value_stands document) irs vs"
  shows "value_stands document (IR_List i irs) (AV vs)"
proof -
  let ?build = "gql_parser_build_value_from_ir document None"
  let ?step = "\<lambda>x vs. bnd (gqlperl_convert_value_from_gqljs x) (\<lambda>w. Inr (vs @ [w]))"
  have "\<exists>nodes ws. build_each ?build irs None = Inr (nodes, None) \<and> (\<forall>acc. each ?step nodes acc = Inr (acc @ ws))
      \<and> list_all2 same_data vs ws"
    using assms
  proof (induction irs vs rule: list_all2_induct)
    case Nil
    then show ?case by auto
  next
    case (Cons ir irs v vs)
    then obtain node w nodes ws where "?build ir None = Inr (node, None)"
      "gqlperl_convert_value_from_gqljs node = Inr w" "same_data v w"
      "build_each ?build irs None = Inr (nodes, None)" "\<forall>acc. each ?step nodes acc = Inr (acc @ ws)"
      "list_all2 same_data vs ws"
      by (auto simp: value_stands_def)
    then show ?case by (intro exI [of _ "node # nodes"] exI [of _ "w # ws"]) simp
  qed
  then show ?thesis
    by (force simp: value_stands_def node_defs c_string_def intro!: same_array)
qed

lemma each_append: "each f (xs @ ys) a = bnd (each f xs a) (each f ys)"
  by (induction xs arbitrary: a) (auto simp: bnd_def split: sum.splits)

lemma build_each_snoc:
  "build_each f xs c = Inr (nodes, c') \<Longrightarrow> f x c' = Inr (node, c'') \<Longrightarrow>
    build_each f (xs @ [x]) c = Inr (nodes @ [node], c'')"
  by (induction xs arbitrary: nodes c) (auto simp: bnd_eq_Inr)

lemma build_each_length: "build_each f xs c = Inr (nodes, c') \<Longrightarrow> length nodes = length xs"
  by (induction xs arbitrary: nodes c c') (auto simp: bnd_eq_Inr)

text \<open>The members of an object and the arguments of a field are converted alike.\<close>

definition entries_stand :: "('a \<Rightarrow> sv building) \<Rightarrow> 'a list \<Rightarrow> hv \<Rightarrow> bool" where
  "entries_stand build xs g \<longleftrightarrow>
     (\<exists>nodes h. build_each build xs None = Inr (nodes, None) \<and> each convert_argument nodes [] = Inr h \<and> same_entries g h)"

lemma entries_stand_Nil [simp]: "entries_stand build [] []"
  by (simp add: entries_stand_def)

lemma named_node:
  assumes "spells document span s" "value_stands document ir v"
  shows "\<exists>node w. build_named k document i span (gql_parser_build_value_from_ir document None ir) None = Inr (node, None)
    \<and> (\<forall>dst. convert_argument node dst = Inr (gql_store_sv dst s w)) \<and> same_data v w"
  using assms(2) name_of_name_node [OF assms(1)]
  by (auto simp: value_stands_def build_named_def Let_def convert_argument_def fetch_or_undef_def
      gql_parser_fetch_sv_def gql_parser_new_node_hv_def c_key_def)

lemma entries_stand_snoc:
  assumes "entries_stand build xs g" "build x None = Inr (node, None)"
    "\<And>dst. convert_argument node dst = Inr (gql_store_sv dst s w)" "same_data v w"
  shows "entries_stand build (xs @ [x]) (gql_store_sv g s v)"
proof -
  obtain nodes h where "build_each build xs None = Inr (nodes, None)" "each convert_argument nodes [] = Inr h"
    "same_entries g h" using assms(1) by (auto simp: entries_stand_def)
  then show ?thesis
    using assms(2-4) unfolding entries_stand_def
    by (intro exI [of _ "nodes @ [node]"] exI [of _ "gql_store_sv h s w"])
      (simp add: build_each_snoc each_append same_entries_store)
qed

lemma member_stands:
  assumes "entries_stand (gql_parser_build_object_field_from_ir document None) xs g"
    "spells document span s" "value_stands document ir v"
  shows "entries_stand (gql_parser_build_object_field_from_ir document None)
    (xs @ [IR_Object_Field i span ir]) (gql_store_sv g s v)"
proof -
  obtain node w where "gql_parser_build_object_field_from_ir document None (IR_Object_Field i span ir) None = Inr (node, None)"
    "\<And>dst. convert_argument node dst = Inr (gql_store_sv dst s w)" "same_data v w"
    using named_node [OF assms(2,3), of "''ObjectField''" i] by auto
  then show ?thesis by (rule entries_stand_snoc [OF assms(1)])
qed

lemma stands_object:
  assumes "entries_stand (gql_parser_build_object_field_from_ir document None) irs g"
  shows "value_stands document (IR_Object i irs) (HV g)"
proof -
  let ?step = "\<lambda>x dst. case x of
    HV member \<Rightarrow>
      bnd (gqlperl_convert_value_from_gqljs (fetch_or_undef member ''value'')) (\<lambda>w.
      Inr (gql_store_sv dst (c_key (gql_parser_name_value (gql_parser_fetch_sv (Some member) ''name''))) w))
  | _ \<Rightarrow> Inr dst"
  have "?step = convert_argument" by (simp add: fun_eq_iff convert_argument_def split: sv.split)
  then show ?thesis
    using assms by (force simp: entries_stand_def value_stands_def gql_parser_new_node_hv_def gql_parser_fetch_kind_def
        gql_parser_fetch_sv_def gql_parser_fetch_array_def elements_def c_string_def
        intro!: same_entries_hash split: list.split)
qed

section \<open>Values\<close>

lemma string_stands:
  assumes "on r p" "gql_copy_value_sv p = Inr v" "b \<longleftrightarrow> kind p = TOK_BLOCK_STRING"
  shows "value_stands (document_of r) (IR_String i b \<lparr>sp_start = val_start p, sp_end = val_end p\<rparr>) v"
proof (rule stands_string)
  have "lexed p" using assms(1) by (auto simp: on_def)
  then have "\<not> val_end p < val_start p" by (simp add: lexed_def)
  then show "gql_ir_make_string_value_sv (document_of r) b \<lparr>sp_start = val_start p, sp_end = val_end p\<rparr> = Inr v"
    using assms(2,3) unfolding on_document [OF assms(1), symmetric]
    by (simp add: gql_ir_make_string_value_sv_def gql_ir_make_sv_from_span_def document_of_def
        gql_copy_value_sv_def gql_make_string_sv_def SvUTF8_def Let_def split: if_splits)
qed

lemma token_text:
  assumes "on r p" "kind p \<noteq> TOK_EOF"
  shows "gql_ir_make_sv_from_span (document_of r) (tok_span p) = PV (is_utf8 p) (tok_text p)"
proof -
  have "lexed p" using assms(1) by (auto simp: on_def)
  then have "\<not> tok_end p < tok_start p" using assms(2) by (simp add: lexed_def)
  then show ?thesis
    unfolding on_document [OF assms(1), symmetric]
    by (simp add: gql_ir_make_sv_from_span_def document_of_def tok_span_def tok_text_def)
qed

definition result_sims ::
  "(ir_document \<Rightarrow> 'a \<Rightarrow> sv \<Rightarrow> bool) \<Rightarrow> gql_parser \<Rightarrow> int \<Rightarrow> sv \<times> gql_parser \<Rightarrow> 'a \<times> gql_parser \<Rightarrow> bool"
where
  "result_sims stands p d = (\<lambda>(v, q) (ir, q'). stands (document_of p) ir v \<and> past p q \<and> q' = at_depth d q)"

lemma result_simsI:
  "on r p \<Longrightarrow> past p q \<Longrightarrow> stands (document_of r) ir v \<Longrightarrow> result_sims stands p d (v, q) (ir, at_depth d q)"
  by (simp add: result_sims_def on_document)

lemma past_back:
  assumes "past (p\<lparr>depth := depth p + 1\<rparr>) q"
  shows "past p (q\<lparr>depth := depth q - 1\<rparr>)"
proof -
  have c: "consumes (p\<lparr>depth := depth p + 1\<rparr>) q" using assms by (simp add: past_def)
  then have "depth q - 1 = depth p" by (auto dest: consumes_depth)
  moreover have "quiet (q\<lparr>depth := e\<rparr>) = quiet q" for q e by (simp add: quiet_def named_def tok_text_def)
  ultimately show ?thesis using consumes_back [OF c] assms by (simp add: past_def)
qed

lemma result_sims_back:
  "on p p \<Longrightarrow> past (p\<lparr>depth := depth p + 1\<rparr>) q \<Longrightarrow> stands (document_of p) ir v \<Longrightarrow>
    result_sims stands p d (v, q\<lparr>depth := depth q - 1\<rparr>) (ir, at_depth d q)"
  using past_back [of p q] by (simp add: result_sims_def at_depth_update)

text \<open>What was simulated from a state of the parse at \<open>r\<close>.\<close>

lemma result_sims_from:
  assumes "sim (result_sims stands p d) m m'" "on r p"
    and "\<And>v ir q. stands (document_of r) ir v \<Longrightarrow> on r q \<Longrightarrow> past r q \<Longrightarrow> P (v, q) (ir, at_depth d q)"
  shows "sim P m m'"
  using assms(1)
  by (rule sim_weaken)
    (auto simp: result_sims_def on_document [OF assms(2)] intro!: assms(3) intro: on_past [OF assms(2)] on_trans [OF assms(2)] past_on)

lemma sim_if_left:
  "sim P a m' \<Longrightarrow> (\<not> c \<Longrightarrow> sim P b m') \<Longrightarrow> sim P (if c then a else b) m'"
  by simp

lemma copy_value_sim:
  "(\<And>v. gql_copy_value_sv p = Inr v \<Longrightarrow> sim P (f v) m') \<Longrightarrow> sim P (bnd (gql_copy_value_sv p) f) m'"
  by (cases "gql_copy_value_sv p") (simp_all add: sims)

lemma deeper:
  assumes "on p p"
  shows "on (p\<lparr>depth := e\<rparr>) (p\<lparr>depth := e\<rparr>)" "document_of (p\<lparr>depth := e\<rparr>) = document_of p"
    "left (p\<lparr>depth := e\<rparr>) = left p"
  using assms by (auto simp: on_def quiet_def named_def tok_text_def document_of_def left_def intro: deeper_follows)

lemma copied_token: "gql_copy_token_sv p = PV (is_utf8 p) (tok_text p)"
  by (simp add: gql_copy_token_sv_def gql_make_string_sv_def tok_text_def)

lemma value_sim:
  "on p p \<Longrightarrow> left p < n \<Longrightarrow> sim (result_sims value_stands p d) (gql_parse_value m c p) (gql_ir_parse_value n c (at_depth d p))"
  "on p p \<Longrightarrow> left p < n \<Longrightarrow> kind p = TOK_LBRACKET \<Longrightarrow>
    sim (result_sims value_stands p d) (gql_parse_list_value m c p) (gql_ir_parse_value n c (at_depth d p))"
  "on p p \<Longrightarrow> left p < n \<Longrightarrow> kind p = TOK_LBRACE \<Longrightarrow>
    sim (result_sims value_stands p d) (gql_parse_object_value m c p) (gql_ir_parse_value n c (at_depth d p))"
proof (induction m arbitrary: p n)
  case 0
  {
    case 1
    show ?case by (simp add: gql_parse_value.simps sims)
  next
    case 2
    show ?case by (simp add: gql_parse_list_value.simps sims)
  next
    case 3
    show ?case by (simp add: gql_parse_object_value.simps sims)
  }
next
  case (Suc m)
  have item: "sim P (gql_parse_value m c q) (gql_ir_parse_value k c (at_depth d q))"
    if "on q q" "left q < k"
      "\<And>v ir q'. value_stands (document_of q) ir v \<Longrightarrow> on q q' \<Longrightarrow> past q q' \<Longrightarrow> P (v, q') (ir, at_depth d q')"
    for q k P
    by (rule result_sims_from [OF Suc.IH(1) [OF that(1,2)] that(1)]) (rule that(3))
  {
    case 1
    then obtain k where n: "n = Suc k" by (cases n) auto
    note list = Suc.IH(2) [OF 1] and object = Suc.IH(3) [OF 1]
    show ?case
    proof (cases "kind p \<in> {TOK_LBRACKET, TOK_LBRACE}")
      case True
      with list object show ?thesis by (auto simp: gql_parse_value.simps)
    next
      case False
      note result = result_simsI [OF 1(1)]
      show ?thesis
        unfolding gql_parse_value.simps n gql_ir_parse_value.simps Let_def set_back.fields
        using False 1(1)
        by (cases "kind p")
          ((assumption | rule sims copy_value_sim result stands_null stands_bool stands_number stands_variable string_stands
            | simp add: token_text [OF 1(1)] copied_token split del: if_split)+)
    qed
  next
    case 2
    then obtain k where n: "n = Suc k" by (cases n) auto
    let ?p = "p\<lparr>depth := depth p + 1\<rparr>"
    note p = deeper [OF 2(1), where e = "depth p + 1"]
    have body: "sim (\<lambda>(b, q1) (b', q2). list_all2 (value_stands (document_of p)) b' b \<and> past q q1 \<and> q2 = at_depth d q1)
        (bnd (gql_parse_value m c q) (\<lambda>(v, p). Inr (vs @ [v], p)))
        (bnd (gql_ir_parse_value k c (at_depth d q)) (\<lambda>(item, p). Inr (items @ [item], p)))"
      if "list_all2 (value_stands (document_of p)) items vs" "past ?p r" "on r q" "on q q" "document_of q = document_of ?p"
      for q r vs items
    proof (rule sim_bnd, rule item)
      show "left q < k" using past_left [OF that(2)] on_left [OF that(3)] 2(2) n p(3) by simp
    qed (use that p(2) in \<open>auto intro!: sims list_all2_appendI\<close>)
    show ?case
      unfolding gql_parse_list_value.simps Let_def n gql_ir_parse_value.simps set_back.fields 2(3) gql_token_kind.case
      unfolding at_depth_update [where p = p and d = d and e = "depth p + 1", symmetric]
      by (rule sim_if_left, rule sims)
        (rule sims p(1) parse_until_sim [where R = "\<lambda>vs irs q. list_all2 (value_stands (document_of p)) irs vs"]
           body result_sims_back [OF 2(1)] stands_list list_all2_Nil [THEN iffD2] | assumption | erule mp | simp only: prod.case gql_token_kind.distinct not_False_eq_True list_all2_Nil)+
  next
    case 3
    then obtain k where n: "n = Suc k" by (cases n) auto
    let ?p = "p\<lparr>depth := depth p + 1\<rparr>"
    let ?stand = "entries_stand (gql_parser_build_object_field_from_ir (document_of p) None)"
    note p = deeper [OF 3(1), where e = "depth p + 1"]
    have member: "sim P (gql_parse_value m c (note_duplicate h key s l q')) (gql_ir_parse_value k c (at_depth d q'))"
      if "past ?p r" "on r q" "on q q'" "document_of q = document_of ?p"
        "\<And>v ir q''. value_stands (document_of p) ir v \<Longrightarrow> on q' q'' \<Longrightarrow> past q' q'' \<Longrightarrow> P (v, q'') (ir, at_depth d q'')"
      for q r q' h key s l P
    proof -
      have q': "on q' q'" "quiet q'" "document_of q' = document_of p"
        using that(3,4) p(2) on_document [OF that(3)] by (auto simp: on_def intro: follows_refl)
      have "left q' < k" using past_left [OF that(1)] on_left [OF that(2)] on_left [OF that(3)] 3(2) n p(3) by simp
      with q' that(5) show ?thesis by (auto simp: note_duplicate_quiet intro!: item)
    qed
    have body: "sim (\<lambda>(b, q1) (b', q2). ?stand b' b \<and> past q q1 \<and> q2 = at_depth d q1)
        (bnd (gql_parse_name q ''Expected name'') (\<lambda>(name, p).
         bnd (gql_expect p TOK_COLON None) (\<lambda>p.
         bnd (gql_parse_value m c
                (note_duplicate g (SvPV name) (provided_twice ''Input field'' (SvPV name)) True p)) (\<lambda>(v, p).
         Inr (gql_store_sv g (SvPV name) v, p)))))
        (bnd (gql_ir_parse_name_span (at_depth d q) ''Expected name'') (\<lambda>(name, p).
         bnd (gql_expect p TOK_COLON None) (\<lambda>p.
         bnd (gql_ir_parse_value k c p) (\<lambda>(v, p).
         Inr (irs @ [IR_Object_Field i name v], p)))))"
      if "?stand irs g" "past ?p r" "on r q" "on q q" "document_of q = document_of ?p" for q r g irs i
      using that(1,4,5) p(2)
      by (auto intro!: sims member [OF that(2,3) _ that(5)] member_stands intro: past_trans past_on)
    show ?case
      unfolding gql_parse_object_value.simps Let_def n gql_ir_parse_value.simps set_back.fields 3(3) gql_token_kind.case
      unfolding at_depth_update [where p = p and d = d and e = "depth p + 1", symmetric]
      by (rule sim_if_left, rule sims)
        (rule sims p(1) parse_until_sim [where R = "\<lambda>g irs q. ?stand irs g"] entries_stand_Nil
           body result_sims_back [OF 3(1)] stands_object | assumption | erule mp
          | simp only: prod.case gql_token_kind.distinct not_False_eq_True set_back.fields)+
  }
qed

section \<open>Arguments and directives\<close>

lemma sim_bnd_left: "sim (\<lambda>x y. sim P (f x) (Inr y)) m m' \<Longrightarrow> sim P (bnd m f) m'"
  by (cases m) (auto simp: sim_def)

lemma ir_frames_at_depth [simp]: "ir_frames (at_depth d p) = Suc (left p)"
  by (simp add: ir_frames_def)

lemma argument_value_sim:
  assumes "on r q" "\<And>v ir q'. value_stands (document_of r) ir v \<Longrightarrow> on r q' \<Longrightarrow> past r q' \<Longrightarrow> P (v, q') (ir, at_depth d q')"
  shows "sim P (gql_parse_value m c (note_duplicate h key s l q)) (gql_ir_parse_value (Suc (left q)) c (at_depth d q))"
proof -
  have "on q q" "quiet q" using assms(1) by (auto simp: on_def intro: follows_refl)
  with result_sims_from [OF value_sim(1) [OF this(1)] assms(1), where P = P] assms(2) show ?thesis
    by (simp add: note_duplicate_quiet)
qed

lemma argument_stands:
  assumes "entries_stand (build_argument document None) xs g" "spells document span s" "value_stands document ir v"
  shows "entries_stand (build_argument document None)
    (xs @ [\<lparr>ia_start_pos = i, ia_name = span, ia_value = ir\<rparr>]) (gql_store_sv g s v)"
proof -
  obtain node w where
    "build_argument document None \<lparr>ia_start_pos = i, ia_name = span, ia_value = ir\<rparr> None = Inr (node, None)"
    "\<And>dst. convert_argument node dst = Inr (gql_store_sv dst s w)" "same_data v w"
    using named_node [OF assms(2,3), of "''Argument''" i] by (auto simp: build_argument_def)
  then show ?thesis by (rule entries_stand_snoc [OF assms(1)])
qed

lemma arguments_sim:
  assumes "on r p"
    and "\<And>g irs q. entries_stand (build_argument (document_of r) None) irs g \<Longrightarrow> irs \<noteq> [] \<Longrightarrow> on r q \<Longrightarrow> past r q \<Longrightarrow>
      P (g, q) (irs, at_depth d q)"
  shows "sim P (gql_parse_arguments c p) (gql_ir_parse_arguments c (at_depth d p))"
proof -
  let ?stand = "entries_stand (build_argument (document_of r) None)"
  have body: "sim (\<lambda>(b, q1) (b', q2). (?stand b' b \<and> (b' = [] \<longrightarrow> kind q1 \<noteq> TOK_RPAREN)) \<and> past q q1 \<and> q2 = at_depth d q1)
      (bnd (gql_parse_name q ''Expected name'') (\<lambda>(name, p).
       bnd (gql_expect p TOK_COLON None) (\<lambda>p.
       bnd (gql_parse_value value_frames c
              (note_duplicate g (SvPV name) (provided_twice ''Argument'' (SvPV name)) True p)) (\<lambda>(v, p).
       Inr (gql_store_sv g (SvPV name) v, p)))))
      (bnd (gql_ir_parse_name_span (at_depth d q) ''Expected name'') (\<lambda>(name, p).
       bnd (gql_expect p TOK_COLON None) (\<lambda>p.
       bnd (gql_ir_parse_value (ir_frames p) c p) (\<lambda>(v, p).
       Inr (irs @ [\<lparr>ia_start_pos = i, ia_name = name, ia_value = v\<rparr>], p)))))"
    if "?stand irs g \<and> (irs = [] \<longrightarrow> kind q \<noteq> TOK_RPAREN)" "on q q" "document_of q = document_of r" for q g irs i
    using that by (auto intro!: sims argument_value_sim argument_stands)
  show ?thesis
    unfolding gql_parse_arguments_def gql_ir_parse_arguments_def Let_def
    by (insert assms(1),
       (rule sims conjI parse_until_sim [where R = "\<lambda>g irs q. ?stand irs g \<and> (irs = [] \<longrightarrow> kind q \<noteq> TOK_RPAREN)"] body assms(2)
         | assumption | erule mp | erule conjunct1
         | simp only: prod.case gql_token_kind.distinct not_False_eq_True set_back.fields entries_stand_Nil simp_thms
         | blast)+)
qed

text \<open>Hashes that agree outside of some keys: the two parsers store the kind of a node at different times.\<close>

definition same_except :: "string set \<Rightarrow> hv \<Rightarrow> hv \<Rightarrow> bool" where
  "same_except K g h \<longleftrightarrow> (\<forall>k. k \<notin> K \<longrightarrow> rel_option same_data (hv_fetch g k) (hv_fetch h k))"

lemma same_except_store:
  "same_except K g h \<Longrightarrow> same_data v w \<Longrightarrow> same_except K (gql_store_sv g k v) (gql_store_sv h k w)"
  by (simp add: same_except_def)

lemma same_except_start: "same_except {k} g h \<Longrightarrow> same_except {k} g (gql_store_sv h k v)"
  by (simp add: same_except_def)

lemma same_except_Nil: "same_except K [] []"
  by (simp add: same_except_def)

lemma same_except_close:
  "same_except {k} g h \<Longrightarrow> hv_fetch h k = Some v \<Longrightarrow> same_data (HV (gql_store_sv g k v)) (HV h)"
  by (rule same_hash) (auto simp: same_except_def intro: same_refl)

lemma same_except_hash: "same_except {} g h \<Longrightarrow> same_data (HV g) (HV h)"
  by (rule same_hash) (simp add: same_except_def)

lemma fetch_store_defined [simp]: "k \<noteq> key \<Longrightarrow> hv_fetch (store_defined h key v) k = hv_fetch h k"
  by (simp add: store_defined_def)

lemma fetch_store_array [simp]: "k \<noteq> key \<Longrightarrow> hv_fetch (store_array h key xs) k = hv_fetch h k"
  by (simp add: store_array_def)

lemma no_location_stored:
  "hv_fetch h ''loc'' = None \<Longrightarrow> gqlperl_store_location_from_gql_parser_node dst (HV h) = dst"
  by (simp add: gqlperl_store_location_from_gql_parser_node_def gqlperl_location_from_gql_parser_node_def
      gql_parser_node_hv_def gql_parser_fetch_sv_def)

text \<open>The hash of the first parser, with the arguments where there are some.\<close>

definition with_arguments :: "ir_document \<Rightarrow> ir_argument list \<Rightarrow> hv \<Rightarrow> hv \<Rightarrow> bool" where
  "with_arguments document irs h h' \<longleftrightarrow>
     (if irs = [] then h' = h
      else \<exists>g. entries_stand (build_argument document None) irs g \<and> h' = gql_store_sv h ''arguments'' (HV g))"

lemma opt_arguments_sim:
  assumes "on r p"
    and "\<And>h' irs q. with_arguments (document_of r) irs h h' \<Longrightarrow> on r q \<Longrightarrow> past r p \<longrightarrow> past r q \<Longrightarrow> P (h', q) (irs, at_depth d q)"
  shows "sim P
    (if kind p = TOK_LPAREN then bnd (gql_parse_arguments False p) (\<lambda>(args, p). Inr (gql_store_sv h ''arguments'' (HV args), p))
     else Inr (h, p))
    (if kind p = TOK_LPAREN then gql_ir_parse_arguments False (at_depth d p) else Inr ([], at_depth d p))"
  using assms by (auto intro!: sims sim_bnd_left arguments_sim assms(2) simp: with_arguments_def)

lemma arguments_convert:
  assumes "with_arguments document irs g g'"
  shows "\<exists>nodes v. arguments_array document None irs None = Inr (AV nodes, None)
    \<and> gqlperl_convert_arguments_from_gqljs (Some nodes) = Inr v
    \<and> (\<forall>K h. same_except K g h \<longrightarrow> same_except K g' (store_defined h ''arguments'' v))"
proof (cases "irs = []")
  case True
  with assms show ?thesis
    by (simp add: with_arguments_def arguments_array_def build_array_def gql_parser_build_arguments_from_ir_def
        gqlperl_convert_arguments_from_gqljs_def elements_def store_defined_def)
next
  case False
  with assms obtain a nodes h where "g' = gql_store_sv g ''arguments'' (HV a)"
    "build_each (build_argument document None) irs None = Inr (nodes, None)" "each convert_argument nodes [] = Inr h"
    "same_entries a h" by (auto simp: with_arguments_def entries_stand_def)
  moreover from this(2) have "nodes \<noteq> []" using False by (auto dest: build_each_length)
  ultimately show ?thesis
    using False
    by (auto simp: arguments_array_def build_array_def gql_parser_build_arguments_from_ir_def
        gqlperl_convert_arguments_from_gqljs_def elements_def store_defined_def
        intro!: same_except_store same_entries_hash)
qed

definition directive_stands :: "ir_document \<Rightarrow> ir_directive \<Rightarrow> sv \<Rightarrow> bool" where
  "directive_stands document ir v \<longleftrightarrow>
     (\<exists>node w. build_directive document None ir None = Inr (node, None)
       \<and> (\<forall>dst. convert_directive node dst = Inr (dst @ [w])) \<and> same_data v w)"

lemma stands_directive:
  assumes "spells document span s" "with_arguments document irs (gql_store_sv [] ''name'' (PV u s)) h"
  shows "directive_stands document \<lparr>id_start_pos = i, id_name_pos = j, id_name = span, id_arguments = irs\<rparr> (HV h)"
proof -
  obtain nodes v where nodes: "arguments_array document None irs None = Inr (AV nodes, None)"
    "gqlperl_convert_arguments_from_gqljs (Some nodes) = Inr v"
    and same: "same_except {} (gql_store_sv [] ''name'' (PV u s)) g \<Longrightarrow> same_except {} h (store_defined g ''arguments'' v)" for g
    using arguments_convert [OF assms(2)] by blast
  have "same_except {} h (store_defined (gql_store_sv [] ''name'' (PV False s)) ''arguments'' v)"
    by (intro same same_except_store same_except_Nil same_name [OF assms(1)])
  then show ?thesis
    using nodes name_of_name_node [OF assms(1)]
    by (auto simp: directive_stands_def build_directive_def Let_def convert_directive_def gql_parser_fetch_sv_def
        gql_parser_fetch_array_def no_location_stored gql_parser_new_node_hv_def new_pv_def intro!: same_except_hash)
qed

lemma sim_assoc: "sim P (bnd m (\<lambda>x. bnd (f x) g)) m' \<Longrightarrow> sim P (bnd (bnd m f) g) m'"
  by (simp add: bnd_assoc)

lemma opt_directive_arguments_sim:
  assumes "on r p"
    and "\<And>h' irs q. with_arguments (document_of r) irs h h' \<Longrightarrow> on r q \<Longrightarrow> past r p \<longrightarrow> past r q \<Longrightarrow>
      P (HV h', q) (irs, at_depth d q)"
  shows "sim P
    (if kind p = TOK_LPAREN
     then bnd (gql_parse_arguments False p) (\<lambda>(args, p). Inr (HV (gql_store_sv h ''arguments'' (HV args)), p))
     else Inr (HV h, p))
    (if kind p = TOK_LPAREN then gql_ir_parse_arguments False (at_depth d p) else Inr ([], at_depth d p))"
  using assms by (auto intro!: sims sim_bnd_left arguments_sim assms(2) simp: with_arguments_def)

lemma directive_body:
  assumes "list_all2 (directive_stands (document_of r)) irs ds" "on q q" "document_of q = document_of r"
  shows "sim (\<lambda>(b, q1) (b', q2). (list_all2 (directive_stands (document_of r)) b' b \<and> b' \<noteq> []) \<and> past q q1 \<and> q2 = at_depth d q1)
    (bnd (gql_parse_directive q) (\<lambda>(dir, p). Inr (ds @ [dir], p)))
    (bnd (gql_expect (at_depth d q) TOK_AT None) (\<lambda>p.
     bnd (gql_ir_parse_name_span p ''Expected name'') (\<lambda>(name, p').
     bnd (if kind p' = TOK_LPAREN then gql_ir_parse_arguments False p' else Inr ([], p')) (\<lambda>(arguments, p'').
     Inr (irs @
       [\<lparr>id_start_pos = i, id_name_pos = tok_start p, id_name = name, id_arguments = arguments\<rparr>], p'')))))"
  unfolding gql_parse_directive_def parse_directive_with_def Let_def
  by (insert assms, (rule sim_assoc | rule sims opt_directive_arguments_sim | assumption | erule mp
    | simp only: prod.case gql_token_kind.distinct not_False_eq_True set_back.fields
    | rule conjI list_all2_appendI list_all2_Cons [THEN iffD2] list_all2_Nil [THEN iffD2] stands_directive | simp)+)

lemma directives_sim:
  assumes "on r p" "kind p = TOK_AT"
    and "\<And>ds irs q. list_all2 (directive_stands (document_of r)) irs ds \<Longrightarrow> irs \<noteq> [] \<Longrightarrow> on r q \<Longrightarrow> past r p \<longrightarrow> past r q \<Longrightarrow>
      P (AV ds, q) (irs, at_depth d q)"
  shows "sim P (gql_parse_directives p) (gql_ir_parse_directives (at_depth d p))"
proof -
  let ?R = "\<lambda>ds irs q. list_all2 (directive_stands (document_of r)) irs ds \<and> (irs = [] \<longrightarrow> kind q = TOK_AT)"
  have body: "sim (\<lambda>(b, q1) (b', q2). ?R b b' q1 \<and> past q q1 \<and> q2 = at_depth d q1)
    (bnd (gql_parse_directive q) (\<lambda>(dir, p). Inr (ds @ [dir], p)))
    (let start_pos = tok_start (at_depth d q)
     in bnd (gql_expect (at_depth d q) TOK_AT None) (\<lambda>p.
        let name_pos = tok_start p
        in bnd (gql_ir_parse_name_span p ''Expected name'') (\<lambda>(name, p').
           bnd (if kind p' = TOK_LPAREN then gql_ir_parse_arguments False p' else Inr ([], p')) (\<lambda>(arguments, p'').
           Inr (irs @
             [\<lparr>id_start_pos = start_pos, id_name_pos = name_pos, id_name = name, id_arguments = arguments\<rparr>], p'')))))"
    if "?R ds irs q" "on q q" "document_of q = document_of r" for q ds irs
    unfolding Let_def using that by (intro sim_weaken [OF directive_body [where r = r]]) auto
  show ?thesis
    unfolding gql_parse_directives_def gql_ir_parse_directives_def
    by (insert assms(1,2), rule sim_bnd_left, rule parse_while_sim [where R = ?R])
      (assumption | rule body sims assms(3) | simp | blast)+
qed

definition with_directives :: "ir_document \<Rightarrow> ir_directive list \<Rightarrow> hv \<Rightarrow> hv \<Rightarrow> bool" where
  "with_directives document irs h h' \<longleftrightarrow>
     (if irs = [] then h' = h
      else \<exists>ds. list_all2 (directive_stands document) irs ds \<and> h' = gql_store_sv h ''directives'' (AV ds))"

lemma opt_directives_sim:
  assumes "on r p"
    and "\<And>h' irs q. with_directives (document_of r) irs h h' \<Longrightarrow> on r q \<Longrightarrow> past r p \<longrightarrow> past r q \<Longrightarrow> P (h', q) (irs, at_depth d q)"
  shows "sim P
    (if kind p = TOK_AT then bnd (gql_parse_directives p) (\<lambda>(ds, p). Inr (gql_store_sv h ''directives'' ds, p)) else Inr (h, p))
    (ir_opt_directives (at_depth d p))"
  unfolding ir_opt_directives_def set_back.fields
  using assms(1) by (auto intro!: sims sim_bnd_left directives_sim assms(2) simp: with_directives_def)

lemma directives_convert:
  assumes "with_directives document irs g g'"
  shows "\<exists>nodes ds. directives_array document None irs None = Inr (AV nodes, None)
    \<and> gqlperl_convert_directives_from_gqljs (Some nodes) = Inr ds
    \<and> (\<forall>K h. same_except K g h \<longrightarrow> same_except K g' (store_array h ''directives'' ds))"
proof -
  have "\<exists>nodes ws. build_each (build_directive document None) irs None = Inr (nodes, None)
      \<and> (\<forall>dst. each convert_directive nodes dst = Inr (dst @ ws)) \<and> list_all2 same_data ds ws"
    if "list_all2 (directive_stands document) irs ds" for ds
    using that
  proof (induction irs ds rule: list_all2_induct)
    case Nil
    then show ?case by simp
  next
    case (Cons ir irs v vs)
    then obtain node w nodes ws where "build_directive document None ir None = Inr (node, None)"
      "\<forall>dst. convert_directive node dst = Inr (dst @ [w])" "same_data v w"
      "build_each (build_directive document None) irs None = Inr (nodes, None)"
      "\<forall>dst. each convert_directive nodes dst = Inr (dst @ ws)" "list_all2 same_data vs ws"
      by (auto simp: directive_stands_def)
    then show ?case by (intro exI [of _ "node # nodes"] exI [of _ "w # ws"]) simp
  qed
  note each = this
  show ?thesis
  proof (cases "irs = []")
    case True
    with assms show ?thesis
      by (simp add: with_directives_def directives_array_def build_array_def gql_parser_build_directives_from_ir_def
          gqlperl_convert_directives_from_gqljs_def elements_def store_array_def)
  next
    case False
    with assms obtain ds where ds: "list_all2 (directive_stands document) irs ds" "g' = gql_store_sv g ''directives'' (AV ds)"
      by (auto simp: with_directives_def)
    from each [OF ds(1)] obtain nodes ws where "build_each (build_directive document None) irs None = Inr (nodes, None)"
      "\<forall>dst. each convert_directive nodes dst = Inr (dst @ ws)" "list_all2 same_data ds ws" by blast
    moreover from this(3) have "ws \<noteq> []" using False ds(1) by (auto dest: list_all2_lengthD)
    ultimately show ?thesis
      using False ds(2) by (auto simp: directives_array_def build_array_def gql_parser_build_directives_from_ir_def
          gqlperl_convert_directives_from_gqljs_def elements_def store_array_def
          intro!: same_except_store same_array)
  qed
qed

end
