(* ===== verification/IR_Frames.thy ===== *)
theory IR_Frames
  imports IR_Parser Parser_Values_Lemmas
begin

text \<open>
  The frames of the second parser are enough: it ends on every input, with a tree or an error. Every
  nested call starts behind a token that its caller has read.
\<close>

lemma name_span_from [wp]:
  assumes "follows r p" "\<And>i q. follows r q \<Longrightarrow> consumes r q \<Longrightarrow> P (i, q)"
  shows "ok (gql_ir_parse_name_span p msg) P"
  unfolding gql_ir_parse_name_span_def
  by (insert assms(1)) (assumption | rule wp assms(2) | simp)+

lemma fragment_name_span_from [wp]:
  assumes "follows r p" "\<And>i q. follows r q \<Longrightarrow> consumes r q \<Longrightarrow> P (i, q)"
  shows "ok (gql_ir_parse_fragment_name_span p) P"
  unfolding gql_ir_parse_fragment_name_span_def
  by (insert assms(1)) (assumption | rule wp assms(2) | simp)+

text \<open>A loop behind the token that opened it: every round starts with fewer characters left.\<close>

lemma parse_until_behind:
  assumes "consumes r p"
    and "\<And>a q. kind q \<noteq> close \<Longrightarrow> follows q q \<Longrightarrow> left q < left r \<Longrightarrow> ok (body a q) (\<lambda>(a', q'). consumes q q')"
    and "\<And>a q. kind q = close \<Longrightarrow> follows r q \<Longrightarrow> consumes r q \<Longrightarrow> P (a, q)"
  shows "ok (parse_until close body a p) P"
  unfolding parse_until_def
proof (rule parse_while_inv [where I = "\<lambda>a q. left q < left r"])
  show "follows r p" "left p < left r" using assms(1) by (auto dest: consumesD consumes_left)
next
  fix a q
  assume "left q < left r" "kind q \<noteq> close" "follows q q"
  with assms(2) [of q a] show "ok (body a q) (\<lambda>(a', q'). left q' < left r \<and> consumes q q')"
    by (auto elim!: ok_but_weaken dest: consumes_left)
qed (use assms in auto)

text \<open>The result of a nested call, seen from the state the caller started in.\<close>

lemma from_nested:
  assumes "ok m (\<lambda>(t, q'). consumes q q')" "follows p q" "\<And>t q'. follows p q' \<Longrightarrow> consumes p q' \<Longrightarrow> P (t, q')"
  shows "ok m P"
  using assms(1)
  by (rule ok_but_weaken) (auto intro!: assms(3) intro: follows_trans [OF assms(2)] follows_consumes [OF assms(2)] consumesD)

lemma nested_left: "consumes p q \<Longrightarrow> left p < Suc n \<Longrightarrow> left q < n"
  by (auto dest: consumes_left)

lemma ir_type_ends: "lexed p \<Longrightarrow> left p < n \<Longrightarrow> ok (gql_ir_parse_type_reference n p) (\<lambda>(t, q). consumes p q)"
proof (induction n arbitrary: p)
  case 0
  then show ?case by simp
next
  case (Suc n)
  have inner: "ok (gql_ir_parse_type_reference n q) P"
    if "follows p q" "consumes p q" "\<And>t q'. follows p q' \<Longrightarrow> consumes p q' \<Longrightarrow> P (t, q')" for q P
    using that Suc.prems(2)
    by (intro from_nested [OF Suc.IH that(1)]) (auto intro: nested_left dest: follows_lexed)
  show ?case
    unfolding gql_ir_parse_type_reference.simps Let_def
    by (insert follows_refl [OF Suc.prems(1)])
      (assumption | rule wp inner | simp split del: if_split)+
qed

lemma ir_value_ends: "lexed p \<Longrightarrow> left p < n \<Longrightarrow> ok (gql_ir_parse_value n c p) (\<lambda>(v, q). consumes p q)"
proof (induction n arbitrary: p)
  case 0
  then show ?case by simp
next
  case (Suc n)
  have inner: "ok (gql_ir_parse_value n c q) P"
    if "left r < left p" "follows r q" "\<And>t q'. follows r q' \<Longrightarrow> consumes r q' \<Longrightarrow> P (t, q')" for q r P
    using that Suc.prems(2) follows_left [OF that(2)]
    by (intro from_nested [OF Suc.IH that(2)]) (auto dest: follows_lexed)
  show ?case
    unfolding gql_ir_parse_value.simps Let_def
    by (insert follows_refl [OF Suc.prems(1)], cases "kind p")
      (assumption | rule wp inner parse_until_behind | simp split del: if_split)+
qed

lemma ir_value_from [wp]:
  assumes "follows r p" "\<And>v q. follows r q \<Longrightarrow> consumes r q \<Longrightarrow> P (v, q)"
  shows "ok (gql_ir_parse_value (ir_frames p) c p) P"
  using assms
  by (intro from_nested [OF ir_value_ends assms(1)]) (auto simp: ir_frames_def dest: follows_lexed)

lemma ir_arguments_from [wp]:
  assumes "follows r p" "\<And>v q. follows r q \<Longrightarrow> consumes r q \<Longrightarrow> P (v, q)"
  shows "ok (gql_ir_parse_arguments c p) P"
  unfolding gql_ir_parse_arguments_def Let_def
  by (insert assms(1))
    (assumption | rule wp parse_until_behind assms(2) | simp split del: if_split)+

lemma ir_opt_arguments_from [wp]:
  assumes "follows r p" "\<And>v q. follows r q \<Longrightarrow> consumes r p \<longrightarrow> consumes r q \<Longrightarrow> P (v, q)"
  shows "ok (if kind p = TOK_LPAREN then gql_ir_parse_arguments c p else Inr ([], p)) P"
  by (insert assms(1)) (assumption | rule wp assms(2) | simp split del: if_split)+

lemma ir_directives_from [wp]:
  assumes "follows r p" "\<And>v q. follows r q \<Longrightarrow> consumes r p \<longrightarrow> consumes r q \<Longrightarrow> P (v, q)"
  shows "ok (gql_ir_parse_directives p) P"
  unfolding gql_ir_parse_directives_def Let_def
  by (rule parse_while_from [OF assms(1), where I = "\<lambda>_. True"])
    (assumption | rule wp assms(2) | simp split del: if_split)+

lemma ir_opt_directives_from [wp]:
  assumes "follows r p" "\<And>v q. follows r q \<Longrightarrow> consumes r p \<longrightarrow> consumes r q \<Longrightarrow> P (v, q)"
  shows "ok (ir_opt_directives p) P"
  unfolding ir_opt_directives_def
  by (insert assms(1)) (assumption | rule wp assms(2) | simp split del: if_split)+

lemma ir_selections_end:
  "(lexed p \<longrightarrow> left p < n \<longrightarrow> ok (gql_ir_parse_selection_set n p) (\<lambda>(s, q). consumes p q)) \<and>
   (lexed p \<longrightarrow> left p < n \<longrightarrow> ok (gql_ir_parse_selection n p) (\<lambda>(s, q). consumes p q))"
proof (induction n arbitrary: p)
  case 0
  then show ?case by simp
next
  case (Suc n)
  have inner: "ok (gql_ir_parse_selection n q) P"
    if "left q < left p" "left p < Suc n" "follows r q" "\<And>t q'. follows r q' \<Longrightarrow> consumes r q' \<Longrightarrow> P (t, q')" for q r P
    by (rule from_nested [OF _ that(3)]) (use that Suc.IH [of q] in \<open>auto dest: follows_lexed\<close>)
  have set: "ok (gql_ir_parse_selection_set n q) P"
    if "consumes p q" "left p < Suc n" "follows p q" "\<And>t q'. follows p q' \<Longrightarrow> consumes p q' \<Longrightarrow> P (t, q')" for q P
    by (rule from_nested [OF _ that(3)]) (use that Suc.IH [of q] in \<open>auto dest: follows_lexed consumes_left\<close>)
  show ?case
    unfolding gql_ir_parse_selection_set.simps gql_ir_parse_selection.simps Let_def
    by (intro conjI impI; drule follows_refl)
      (assumption | rule wp inner set parse_until_behind | simp split del: if_split)+
qed

end
