(* ===== verification/IR_Agreement.thy ===== *)
theory IR_Agreement
  imports IR_Route_Values IR_Frames
begin

text \<open>
  The route through the second parser agrees with the first one on selection sets: fields, spreads,
  inline fragments, and what they hold (\<open>IR_Route_Values\<close>).
\<close>

section \<open>Selections\<close>

definition selection_stands :: "ir_document \<Rightarrow> ir_selection \<Rightarrow> sv \<Rightarrow> bool" where
  "selection_stands document ir v \<longleftrightarrow>
     (\<exists>node w. gql_parser_build_selection_from_ir document None ir None = Inr (node, None)
       \<and> gqlperl_convert_selection_from_gqljs node = Inr w \<and> same_data v w)"

definition selections_stand :: "ir_document \<Rightarrow> ir_selection_set \<Rightarrow> sv \<Rightarrow> bool" where
  "selections_stand document ir v \<longleftrightarrow>
     (\<exists>h ws. gql_parser_build_selection_set_from_ir document None ir None = Inr (HV h, None)
       \<and> gqlperl_convert_selections_from_gqljs (elements (gql_parser_fetch_array (Some h) ''selections'')) = Inr ws
       \<and> ws \<noteq> [] \<and> same_data (member_of v ''selections'') (AV ws))"

lemma selection_set_stands:
  assumes "list_all2 (selection_stands document) irs vs" "irs \<noteq> []"
  shows "selections_stand document (IR_Selection_Set i irs) (HV (gql_store_sv [] ''selections'' (AV vs)))"
proof -
  let ?build = "gql_parser_build_selection_from_ir document None"
  let ?step = "\<lambda>node dst. bnd (gqlperl_convert_selection_from_gqljs node) (\<lambda>s. Inr (dst @ [s]))"
  have "\<exists>nodes ws. build_each ?build irs None = Inr (nodes, None) \<and> (\<forall>acc. each ?step nodes acc = Inr (acc @ ws))
      \<and> list_all2 same_data vs ws"
    using assms(1)
  proof (induction irs vs rule: list_all2_induct)
    case Nil
    then show ?case by auto
  next
    case (Cons ir irs v vs)
    then obtain node w nodes ws where "?build ir None = Inr (node, None)"
      "gqlperl_convert_selection_from_gqljs node = Inr w" "same_data v w"
      "build_each ?build irs None = Inr (nodes, None)" "\<forall>acc. each ?step nodes acc = Inr (acc @ ws)"
      "list_all2 same_data vs ws"
      by (auto simp: selection_stands_def)
    then show ?case by (intro exI [of _ "node # nodes"] exI [of _ "w # ws"]) simp
  qed
  then obtain nodes ws where nodes: "build_each ?build irs None = Inr (nodes, None)"
    "\<forall>acc. each ?step nodes acc = Inr (acc @ ws)" "list_all2 same_data vs ws" by blast
  then have "ws \<noteq> []" using assms by (auto dest: list_all2_lengthD)
  with nodes show ?thesis
    by (auto simp: selections_stand_def gql_parser_new_node_hv_def gql_parser_fetch_array_def gql_parser_fetch_sv_def
        elements_def member_of_def intro!: same_array)
qed

lemma alias_is_present: "spells document span s \<Longrightarrow> alias_present span" "\<not> alias_present no_span"
  by (simp_all add: alias_present_def spells_def no_span_def)

definition with_selections :: "ir_document \<Rightarrow> ir_selection_set option \<Rightarrow> hv \<Rightarrow> hv \<Rightarrow> bool" where
  "with_selections document ir h h' \<longleftrightarrow>
     (case ir of
        None \<Rightarrow> h' = h
      | Some sel \<Rightarrow> \<exists>v. selections_stand document sel v \<and> h' = gql_store_sv h ''selections'' (member_of v ''selections''))"

lemma stands_spread:
  assumes "spells document span s" "with_directives document irs (gql_store_sv [] ''name'' (PV u s)) h"
  shows "selection_stands document (IR_Fragment_Spread i j span irs)
    (HV (gql_store_sv h ''kind'' (PV False ''fragment_spread'')))"
proof -
  obtain nodes ds where nodes: "directives_array document None irs None = Inr (AV nodes, None)"
    "gqlperl_convert_directives_from_gqljs (Some nodes) = Inr ds"
    and same: "same_except {''kind''} (gql_store_sv [] ''name'' (PV u s)) g \<Longrightarrow>
      same_except {''kind''} h (store_array g ''directives'' ds)" for g
    using directives_convert [OF assms(2)] by blast
  let ?g = "store_array (gql_store_sv (gql_store_sv [] ''kind'' (PV False ''fragment_spread'')) ''name'' (PV False s))
    ''directives'' ds"
  have "same_except {''kind''} h ?g"
    by (intro same same_except_store same_except_start same_except_Nil same_name [OF assms(1)])
  then have "same_data (HV (gql_store_sv h ''kind'' (PV False ''fragment_spread''))) (HV ?g)"
    by (rule same_except_close) simp
  then show ?thesis
    using nodes name_of_name_node [OF assms(1)]
    by (simp add: selection_stands_def Let_def gql_parser_new_node_hv_def gql_parser_fetch_kind_def c_string_def
        gql_parser_fetch_sv_def gql_parser_fetch_array_def new_pv_def no_location_stored)
qed

lemma stands_inline:
  assumes "span = no_span \<and> h = [] \<or> spells document span s \<and> h = gql_store_sv [] ''on'' (PV u s)"
    and "with_directives document irs h h1" "selections_stand document sel v"
  shows "selection_stands document (IR_Inline_Fragment i j span irs sel)
    (HV (gql_store_sv (gql_store_sv h1 ''selections'' (member_of v ''selections'')) ''kind'' (PV False ''inline_fragment'')))"
proof -
  obtain nodes ds where nodes: "directives_array document None irs None = Inr (AV nodes, None)"
    "gqlperl_convert_directives_from_gqljs (Some nodes) = Inr ds"
    and same: "same_except {''kind''} h g \<Longrightarrow> same_except {''kind''} h1 (store_array g ''directives'' ds)" for g
    using directives_convert [OF assms(2)] by blast
  obtain hs ws where sel: "gql_parser_build_selection_set_from_ir document None sel None = Inr (HV hs, None)"
    "gqlperl_convert_selections_from_gqljs (elements (gql_parser_fetch_array (Some hs) ''selections'')) = Inr ws"
    "same_data (member_of v ''selections'') (AV ws)" using assms(3) by (auto simp: selections_stand_def)
  define k where "k = gql_store_sv [] ''kind'' (PV False ''inline_fragment'')"
  define g where "g = (if alias_present span then gql_store_sv k ''on'' (PV False s) else k)"
  have "same_except {''kind''} h g"
    unfolding g_def k_def using assms(1) alias_is_present
    by (auto intro!: same_except_store same_except_start same_except_Nil same_name)
  then have "same_except {''kind''} (gql_store_sv h1 ''selections'' (member_of v ''selections''))
      (gql_store_sv (store_array g ''directives'' ds) ''selections'' (AV ws))"
    by (intro same same_except_store sel(3))
  then have "same_data (HV (gql_store_sv (gql_store_sv h1 ''selections'' (member_of v ''selections'')) ''kind''
        (PV False ''inline_fragment'')))
      (HV (gql_store_sv (store_array g ''directives'' ds) ''selections'' (AV ws)))"
    by (rule same_except_close) (simp add: g_def k_def)
  then show ?thesis
    using assms(1) nodes sel(1,2) name_of_name_node [of document span s] alias_is_present
    by (auto simp: selection_stands_def Let_def gql_parser_new_node_hv_def gql_parser_fetch_kind_def c_string_def
        gql_parser_fetch_sv_def gql_parser_fetch_array_def new_pv_def no_location_stored located_type_condition_def
        selections_of_def gql_parser_node_hv_def gql_parser_new_named_type_node_sv_def g_def k_def)
qed

lemma stands_field:
  assumes "label = no_span \<and> h = gql_store_sv [] ''name'' (PV u s) \<or>
      spells document label t \<and> h = gql_store_sv (gql_store_sv [] ''alias'' (PV u t)) ''name'' (PV u s)"
    and "spells document span s" "with_arguments document args h h1" "with_directives document irs h1 h2"
    and "with_selections document sel h2 h3"
  shows "selection_stands document (IR_Field i j k label span args irs sel) (HV (gql_store_sv h3 ''kind'' (PV False ''field'')))"
proof -
  let ?K = "{''kind''}"
  obtain arg_nodes v where args: "arguments_array document None args None = Inr (AV arg_nodes, None)"
    "gqlperl_convert_arguments_from_gqljs (Some arg_nodes) = Inr v"
    and same_args: "same_except ?K h g \<Longrightarrow> same_except ?K h1 (store_defined g ''arguments'' v)" for g
    using arguments_convert [OF assms(3)] by blast
  obtain nodes ds where nodes: "directives_array document None irs None = Inr (AV nodes, None)"
    "gqlperl_convert_directives_from_gqljs (Some nodes) = Inr ds"
    and same: "same_except ?K h1 g \<Longrightarrow> same_except ?K h2 (store_array g ''directives'' ds)" for g
    using directives_convert [OF assms(4)] by blast
  define g where "g = (let g = gql_store_sv (gql_store_sv [] ''kind'' (PV False ''field'')) ''name'' (PV False s)
    in if alias_present label then gql_store_sv g ''alias'' (PV False t) else g)"
  have kind: "hv_fetch g ''kind'' = Some (PV False ''field'')" by (simp add: g_def Let_def)
  have "same_except ?K h g"
    using assms(1,2) alias_is_present
    by (auto simp: same_except_def g_def Let_def same_name)
  then have g: "same_except ?K h2 (store_array (store_defined g ''arguments'' v) ''directives'' ds)"
    by (intro same same_args)
  note reads = selection_stands_def Let_def gql_parser_new_node_hv_def gql_parser_fetch_kind_def c_string_def
    gql_parser_fetch_sv_def gql_parser_fetch_array_def new_pv_def no_location_stored selections_of_def
    gql_parser_node_hv_def
  note names = name_of_name_node [OF assms(2)] name_of_name_node [of document label t]
  have closed: "same_data (HV (gql_store_sv h3 ''kind'' (PV False ''field''))) (HV h')"
    if "same_except ?K h3 h'" "hv_fetch h' ''kind'' = hv_fetch g ''kind''" for h'
    using that kind by (intro same_except_close) simp_all
  show ?thesis
  proof (cases sel)
    case None
    then have "h3 = h2" using assms(5) by (simp add: with_selections_def)
    with closed [of "store_array (store_defined g ''arguments'' v) ''directives'' ds"] g
    have "same_data (HV (gql_store_sv h3 ''kind'' (PV False ''field'')))
      (HV (store_array (store_defined g ''arguments'' v) ''directives'' ds))" by simp
    then show ?thesis
      using assms(1) nodes args names alias_is_present None
      by (auto simp: reads g_def store_array_def [where xs = "[]"])
  next
    case (Some set)
    then obtain x where x: "selections_stand document set x" "h3 = gql_store_sv h2 ''selections'' (member_of x ''selections'')"
      using assms(5) by (auto simp: with_selections_def)
    then obtain hs ws where set: "gql_parser_build_selection_set_from_ir document None set None = Inr (HV hs, None)"
      "gqlperl_convert_selections_from_gqljs (elements (gql_parser_fetch_array (Some hs) ''selections'')) = Inr ws"
      "ws \<noteq> []" "same_data (member_of x ''selections'') (AV ws)" by (auto simp: selections_stand_def)
    let ?w = "store_array (store_array (store_defined g ''arguments'' v) ''directives'' ds) ''selections'' ws"
    have "same_except ?K h3 ?w"
      using same_except_store [OF g set(4)] set(3) by (simp add: x(2) store_array_def [where xs = ws])
    with closed [of ?w] have "same_data (HV (gql_store_sv h3 ''kind'' (PV False ''field''))) (HV ?w)" by simp
    then show ?thesis
      using assms(1) nodes args names alias_is_present Some set(1,2)
      by (auto simp: reads g_def)
  qed
qed

lemma nothing_stored [simp]:
  assumes "on r p"
  shows "gql_store_current_location p h = h" "gql_store_current_or_endline_location p h = h"
  using on_no_location [OF assms(1)] by (simp_all add: gql_store_current_location_def gql_store_current_or_endline_location_def)

lemma with_directivesI:
  "list_all2 (directive_stands document) irs ds \<Longrightarrow> irs \<noteq> [] \<Longrightarrow>
    with_directives document irs h (gql_store_sv h ''directives'' (AV ds))"
  by (auto simp: with_directives_def)

lemma without_directives: "with_directives document [] h h"
  by (simp add: with_directives_def)

lemma spread_sim:
  assumes "on p p" "on p q"
  shows "sim (result_sims selection_stands p d)
    (bnd (gql_parse_fragment_name q) (\<lambda>(name, p).
       let hv = gql_store_sv [] ''name'' name
       in if kind p = TOK_AT then
            bnd (gql_parse_directives p) (\<lambda>(ds, p).
            let hv = gql_store_sv hv ''directives'' ds;
                hv = gql_store_sv hv ''kind'' (PV False ''fragment_spread'')
            in Inr (HV (gql_store_current_or_endline_location p hv), p))
          else
            let hv = gql_store_sv hv ''kind'' (PV False ''fragment_spread'')
            in Inr (HV (gql_store_current_location p hv), p)))
    (bnd (gql_ir_parse_fragment_name_span (at_depth d q)) (\<lambda>(name, p).
       bnd (ir_opt_directives p) (\<lambda>(directives, p).
       Inr (IR_Fragment_Spread i j name directives, p))))"
  unfolding Let_def ir_opt_directives_def
  using assms(2)
  by (auto intro!: sims directives_sim [where r = p] result_simsI [OF assms(1)] stands_spread [where u = "ir_is_utf8 (document_of p)"] with_directivesI without_directives)

definition named_field :: "ir_document \<Rightarrow> ir_span \<Rightarrow> ir_span \<Rightarrow> hv \<Rightarrow> bool" where
  "named_field document label span h \<longleftrightarrow>
     (\<exists>s t u. spells document span s \<and>
        (label = no_span \<and> h = gql_store_sv [] ''name'' (PV u s) \<or>
         spells document label t \<and> h = gql_store_sv (gql_store_sv [] ''alias'' (PV u t)) ''name'' (PV u s)))"

lemma named_fieldI:
  "spells document span s \<Longrightarrow> named_field document no_span span (gql_store_sv [] ''name'' (PV u s))"
  "spells document span s \<Longrightarrow> spells document label t \<Longrightarrow>
    named_field document label span (gql_store_sv (gql_store_sv [] ''alias'' (PV u t)) ''name'' (PV u s))"
  unfolding named_field_def by blast+

lemma named_field_stands:
  assumes "named_field document label span h" "with_arguments document args h h1" "with_directives document irs h1 h2"
    "with_selections document sel h2 h3"
  shows "selection_stands document (IR_Field i j k label span args irs sel) (HV (gql_store_sv h3 ''kind'' (PV False ''field'')))"
  using assms unfolding named_field_def by (blast intro: stands_field)

lemma with_selectionsI:
  "with_selections document None h h"
  "selections_stand document sel v \<Longrightarrow>
    with_selections document (Some sel) h (gql_store_sv h ''selections'' (member_of v ''selections''))"
  by (auto simp: with_selections_def)

text \<open>The hash of an inline fragment, with its type condition where there is one.\<close>

definition conditional :: "ir_document \<Rightarrow> ir_span \<Rightarrow> hv \<Rightarrow> bool" where
  "conditional document span h \<longleftrightarrow>
     span = no_span \<and> h = [] \<or> (\<exists>s u. spells document span s \<and> h = gql_store_sv [] ''on'' (PV u s))"

lemma conditionalI:
  "conditional document no_span []"
  "spells document span s \<Longrightarrow> conditional document span (gql_store_sv [] ''on'' (PV u s))"
  by (auto simp: conditional_def)

lemma conditional_stands:
  assumes "conditional document span h" "with_directives document irs h h1" "selections_stand document sel v"
  shows "selection_stands document (IR_Inline_Fragment i j span irs sel)
    (HV (gql_store_sv (gql_store_sv h1 ''selections'' (member_of v ''selections'')) ''kind'' (PV False ''inline_fragment'')))"
  using assms unfolding conditional_def by (blast intro: stands_inline)

text \<open>A name, and the name behind it where the first one is an alias.\<close>

lemma field_name_sim:
  assumes "on p q" "past p q" "u = ir_is_utf8 (document_of p)" "spells (document_of p) span s"
    and "\<And>h label name a b q'. named_field (document_of p) label name h \<Longrightarrow> on p q' \<Longrightarrow> past p q' \<Longrightarrow>
      P (h, q') ((a, b, label, name), at_depth d q')"
  shows "sim P
    (if kind q = TOK_COLON then
       bnd (gql_advance q) (\<lambda>p.
       bnd (gql_parse_name p ''Expected name'') (\<lambda>(name, p).
       Inr (gql_store_sv (gql_store_sv [] ''alias'' (PV u s)) ''name'' name, p)))
     else Inr (gql_store_sv [] ''name'' (PV u s), q))
    (if kind q = TOK_COLON then
       bnd (gql_advance (at_depth d q)) (\<lambda>p.
       bnd (gql_ir_parse_name_span p ''Expected name'') (\<lambda>(name, p').
       Inr ((i, tok_start p, span, name), p')))
     else Inr ((0, i, no_span, span), at_depth d q))"
  using assms(1-4) by (auto intro!: sims assms(5) named_fieldI)

lemma sim_if_or:
  "(c \<Longrightarrow> sim P a x) \<Longrightarrow> (\<not> c \<Longrightarrow> c' \<Longrightarrow> sim P b x) \<Longrightarrow> (\<not> c \<Longrightarrow> \<not> c' \<Longrightarrow> sim P e y) \<Longrightarrow>
    sim P (if c then a else if c' then b else e) (if c \<or> c' then x else y)"
  by simp

lemma sim_no_directives:
  "kind p = TOK_LBRACE \<Longrightarrow> sim P m (f ([], at_depth d p)) \<Longrightarrow> sim P m (bnd (ir_opt_directives (at_depth d p)) f)"
  and sim_directives:
  "kind p = TOK_AT \<Longrightarrow> sim P m (bnd (gql_ir_parse_directives (at_depth d p)) f) \<Longrightarrow>
    sim P m (bnd (ir_opt_directives (at_depth d p)) f)"
  by (simp_all add: ir_opt_directives_def)

lemma peek_not_end: "gql_peek_name p s \<Longrightarrow> kind p \<noteq> TOK_EOF"
  by (auto simp: gql_peek_name_def)

lemma selection_sim:
  "on p p \<Longrightarrow> left p < n \<Longrightarrow>
    sim (result_sims selections_stand p d) (gql_parse_selection_set m p) (gql_ir_parse_selection_set n (at_depth d p))"
  "on p p \<Longrightarrow> left p < n \<Longrightarrow>
    sim (result_sims selection_stands p d) (gql_parse_selection m p) (gql_ir_parse_selection n (at_depth d p))"
  "on p p \<Longrightarrow> left p < n \<Longrightarrow> kind p \<noteq> TOK_SPREAD \<Longrightarrow>
    sim (result_sims selection_stands p d) (gql_parse_field m p) (gql_ir_parse_selection n (at_depth d p))"
proof (induction m arbitrary: p n)
  case 0
  {
    case 1
    show ?case by (simp add: gql_parse_selection_set.simps sims)
  next
    case 2
    show ?case by (simp add: gql_parse_selection.simps sims)
  next
    case 3
    show ?case by (simp add: gql_parse_field.simps sims)
  }
next
  case (Suc m)
  have sub: "sim P (gql_parse_selection_set m q) (gql_ir_parse_selection_set k (at_depth d q))"
    if "on p p" "left p < Suc k" "on p q" "past p q"
      "\<And>v ir q'. selections_stand (document_of p) ir v \<Longrightarrow> on p q' \<Longrightarrow> past p q' \<Longrightarrow> P (v, q') (ir, at_depth d q')"
    for p q k P
  proof (rule result_sims_from [OF Suc.IH(1) that(3)])
    show "left q < k" using past_left [OF that(4)] that(2) by simp
  qed (use on_self that in auto)
  {
    case 1
    then obtain k where n: "n = Suc k" by (cases n) auto
    let ?p = "p\<lparr>depth := depth p + 1\<rparr>"
    let ?R = "\<lambda>vs irs q. list_all2 (selection_stands (document_of p)) irs vs \<and> (irs = [] \<longrightarrow> kind q \<noteq> TOK_RBRACE)"
    note p = deeper [OF 1(1), where e = "depth p + 1"]
    have body: "sim (\<lambda>(b, q1) (b', q2). ?R b b' q1 \<and> past q q1 \<and> q2 = at_depth d q1)
        (bnd (gql_parse_selection m q) (\<lambda>(v, p). Inr (vs @ [v], p)))
        (bnd (gql_ir_parse_selection k (at_depth d q)) (\<lambda>(item, p). Inr (items @ [item], p)))"
      if "?R vs items q" "past ?p r" "on r q" "on q q" "document_of q = document_of ?p"
      for q r vs items
    proof (rule sim_bnd, rule result_sims_from [OF Suc.IH(2) that(4)])
      show "left q < k" using past_left [OF that(2)] on_left [OF that(3)] 1(2) n p(3) by simp
    qed (use that p(2) in \<open>auto intro!: sims list_all2_appendI\<close>)
    show ?case
      unfolding gql_parse_selection_set.simps Let_def n gql_ir_parse_selection_set.simps set_back.fields
      unfolding at_depth_update [where p = p and d = d and e = "depth p + 1", symmetric]
      by (rule sim_if_left, rule sims)
        (rule sims p(1) conjI parse_until_sim [where R = ?R]
           body result_sims_back [OF 1(1)] selection_set_stands list_all2_Nil [THEN iffD2] | assumption | erule mp
          | simp only: prod.case gql_token_kind.distinct not_False_eq_True set_back.fields simp_thms)+
  next
    case 2
    then obtain k where n: "n = Suc k" by (cases n) auto
    note result = result_simsI [OF 2(1)]
    show ?case
    proof (cases "kind p = TOK_SPREAD")
      case False
      then show ?thesis using Suc.IH(3) [OF 2(1,2)] by (simp add: gql_parse_selection.simps)
    next
      case True
      have inline: "sim (result_sims selection_stands p d)
          (bnd (gql_parse_selection_set m q) (\<lambda>(sel, p).
             let hv = gql_store_sv h ''selections'' (member_of sel ''selections'');
                 hv = gql_store_sv hv ''kind'' (PV False ''inline_fragment'')
             in Inr (HV (gql_store_current_location p hv), p)))
          (bnd (gql_ir_parse_selection_set k (at_depth d q)) (\<lambda>(sel, p).
             Inr (IR_Inline_Fragment (tok_start p') j span irs sel, p)))"
        if "on p q" "past p q" "with_directives (document_of p) irs h0 h"
          "conditional (document_of p) span h0"
        for q h h0 irs span j p'
        unfolding Let_def
        by (rule sims, rule sub [OF 2(1) _ that(1,2)])
          (use 2(2) n that(2) in \<open>auto intro!: sims result conditional_stands [OF that(4,3)]\<close>)
      show ?thesis
        unfolding gql_parse_selection.simps n gql_ir_parse_selection.simps set_back.fields
        unfolding Let_def
        by (insert 2(1), (assumption | erule peek_not_end sim_no_directives | rule sim_directives, assumption | rule inline [unfolded Let_def] spread_sim [unfolded Let_def] sims sim_if_or opt_directives_sim [where r = p]
               directives_sim [where r = p] with_directivesI without_directives conditionalI
           | erule mp | simp only: prod.case gql_token_kind.distinct not_False_eq_True set_back.fields True simp_thms
           | simp only: nothing_stored set_back.unread_texts)+)
    qed
  next
    case 3
    then obtain k where n: "n = Suc k" by (cases n) auto
    show ?case
      unfolding gql_parse_field.simps n gql_ir_parse_selection.simps set_back.fields Let_def
      by (insert 3 [unfolded n], (assumption | rule field_name_sim opt_arguments_sim [where r = p] opt_directives_sim [where r = p] sims refl sub result_simsI [OF 3(1)] named_field_stands with_selectionsI
           | erule mp | simp only: prod.case gql_token_kind.distinct not_False_eq_True set_back.fields simp_thms if_False nothing_stored if_cancel)+)
  }
qed

section \<open>Both routes\<close>



end
