(* ===== verification/Spec2Isabelle.thy ===== *)
theory Spec2Isabelle
  imports Validation Validation_Cost_Lemmas Location Parser_Modes Nesting_Limits Schema_Clients
    VM_Specialization VM_Messages VM_Outcomes VM_Leaves IR_Locations IR_Agreement
begin

text \<open>
  A model of the C core of GraphQL::Houtou, a GraphQL engine for Perl: the parser that
  turns a document into a tree of Perl values, and the validator that checks such a tree
  against a compiled schema. All paths below are relative to \<^verbatim>\<open>src/\<close> of the repository, where
  the headers are in \<^verbatim>\<open>src/\<close>.

  \<^bold>\<open>Parts and how they interact.\<close> \<^verbatim>\<open>src/bootstrap.h\<close> declares the token kinds, the parser
  struct and the limits. \<^verbatim>\<open>src/parser_core.h\<close> decodes strings and raises errors.
  \<^verbatim>\<open>src/parser_graphqlperl_runtime.h\<close> is the lexer and the recursive-descent parser on that
  struct: the lexer moves the cursor over the source, the parser asks it for the next token
  and builds hashes, arrays and scalars. \<^verbatim>\<open>src/validation.h\<close> takes the list of definitions
  (or parses it in a mode that also records duplicates), and runs its rules one after the
  other: names, usage of variables and fragments, subscriptions, fragment cycles, fragments
  and operations against the schema, directives; the cost limit is a check of its own. The
  schema it checks against is the hash that \<^verbatim>\<open>src/schema_compiler.h\<close> builds from the Perl
  objects of the application.

  \<^bold>\<open>Theories.\<close>
  \<^item> \<^verbatim>\<open>Prelude\<close>: results that are an error or a value, loops with a budget, and the contract
    of a loop body that consumes something in every round (locale \<open>consuming_loop\<close>).
  \<^item> \<^verbatim>\<open>Perl_Values\<close>: Perl scalars, arrays and hashes as a datatype (\<open>sv\<close>), the tests on them
    (\<^verbatim>\<open>SvOK\<close>, \<^verbatim>\<open>SvROK\<close> and so on), \<^verbatim>\<open>sv_eq\<close>, hashes with their laws (locale \<open>perl_hash\<close>), and the
    sorting of keys of \<^verbatim>\<open>parser_shared_ast.h\<close>.
  \<^item> \<^verbatim>\<open>Escape\<close>: \<^verbatim>\<open>gql_hex4_to_uv\<close>, \<^verbatim>\<open>gql_unescape_string_sv\<close>, and \<^verbatim>\<open>_block_string_value\<close> of
    \<^verbatim>\<open>lib/GraphQL/Houtou/XS/Parser.pm\<close>.
  \<^item> \<^verbatim>\<open>Lexer\<close>, \<^verbatim>\<open>Lexer_Lemmas\<close>: the parser record, \<^verbatim>\<open>gql_skip_ignored\<close>, \<^verbatim>\<open>gql_lex_token\<close> (one
    definition per branch), \<^verbatim>\<open>gql_advance\<close> and the token helpers; the invariant \<open>lexed\<close> of a
    parser between two calls, and that every token consumed moves it forward.
  \<^item> \<^verbatim>\<open>Location\<close>: the line index, its binary search, location nodes, and the reference scan.
  \<^item> \<^verbatim>\<open>Parser_Values\<close>, \<^verbatim>\<open>Parser_Selections\<close>, \<^verbatim>\<open>Parser_Definitions\<close> and their lemmas: the parser
    proper, function by function, in the order of the C file.
  \<^item> \<^verbatim>\<open>Escape_Lemmas\<close>, \<^verbatim>\<open>Reading\<close>, \<^verbatim>\<open>Numbers\<close>: what the lexer does on known text: escaped strings,
    names, punctuators, integers; \<open>reads t q\<close> says that \<open>q\<close> is the state before the text \<open>t\<close>.
  \<^item> \<^verbatim>\<open>Roundtrip_Values\<close>, \<^verbatim>\<open>Roundtrip_Queries\<close>, \<^verbatim>\<open>Roundtrip_Documents\<close>: an abstract syntax of
    executable documents, a printer for it, and that the parser reads the printed text back.
  \<^item> \<^verbatim>\<open>Parser_Modes\<close>: parsing for validation and public parsing are related by forgetting the
    list of errors. \<^verbatim>\<open>Nesting_Limits\<close>: where the nesting limit strikes.
  \<^item> \<^verbatim>\<open>Coercion_Types\<close>, \<^verbatim>\<open>Coercion\<close>: abstract types, schemas and values, what a type accepts,
    and that the checks of variables and arguments accept exactly that.
  \<^item> \<^verbatim>\<open>Validation_Structure\<close> (names, usage, subscriptions, cycles), \<^verbatim>\<open>Validation_Types\<close>,
    \<^verbatim>\<open>Validation_Values\<close>, \<^verbatim>\<open>Validation_Merge\<close>, \<^verbatim>\<open>Validation_Selections\<close>, \<^verbatim>\<open>Validation_Directives\<close>,
    \<^verbatim>\<open>Validation_Cost\<close> and \<^verbatim>\<open>Validation\<close> (the entry points): \<^verbatim>\<open>validation.h\<close> in its order.

  \<^item> \<^verbatim>\<open>Schema_Compiler\<close>: \<^verbatim>\<open>schema_compiler.h\<close>, over a record of what Perl objects answer.
    \<^verbatim>\<open>Schema_Objects\<close>: declared schemas, the objects that stand for them, and the laws the compiler
    relies on (locale \<open>type_library\<close>, interpreted on these objects). \<^verbatim>\<open>Schema_Refinement\<close>: a compiled
    schema represents its declaration. \<^verbatim>\<open>Schema_Clients\<close>: compiler and validator together.

  \<^bold>\<open>State and errors.\<close> The parser struct is the record \<open>gql_parser\<close>, passed and returned; a
  thrown exception is a value of \<open>gql_error\<close>. Hashes are association lists without duplicate
  keys, in the order of the stores: Perl leaves the order of an iteration open, so theorems
  never depend on it beyond the order of messages. Keys are byte strings. Null pointers are
  \<open>None\<close>. Reference counts and temporaries are not modelled.

  \<^bold>\<open>Bounds.\<close> A function that recurses in C takes as first argument the number of nested calls
  it may still make, and \<open>Out_Of_Fuel\<close> marks a model that ran out; it is no behaviour of the
  code. The entry points fix these budgets: \<open>value_frames\<close> and \<open>selection_frames\<close> follow from
  the nesting limit of 512, \<open>type_frames\<close> from the length of the source, \<open>usage_frames\<close>,
  \<open>cycle_frames\<close>, \<open>subscription_frames\<close> and \<open>cost_frames\<close> from the sizes of the tree and of the
  fragments not yet entered. That they are enough is part of the theorems on each pass.
  Field merging alone has no such bound in the code (it recurses for ever on some cyclic
  fragments), so its budget stays a parameter.

  \<^bold>\<open>Not modelled.\<close> The second parser for graphql-js trees (\<^verbatim>\<open>parser_ir_runtime.h\<close>,
  \<^verbatim>\<open>parser_ast_runtime.h\<close>), the execution VM, and the Perl side: methods of schema objects and
  the \<^verbatim>\<open>parse_value\<close> callbacks are fields of \<open>validation_env\<close> and \<open>perl_runtime\<close>, arbitrary
  functions. The text of a floating point number is
  kept as the numeral that was read, and its formatting is a parameter (\<open>env_nv_text\<close>).
\<close>

end
